(* ===== verification/Prelude.thy ===== *)
theory Prelude
  imports Complex_Main "HOL-Library.AList"
begin

text \<open>
  Shared vocabulary of the development: the rule collections the component theories fill, and the
  generic facts about lists, ordered dictionaries and searches that more than one component needs.
  Nothing here mentions the program; the Python notions modelled are those of its standard library
  (slices, insertion-ordered dictionaries, \<open>bisect\<close>, \<open>max\<close> with a key).
\<close>

named_theorems guard_simps \<open>unfoldings of the early returns of the decision functions\<close>
named_theorems store_simps \<open>effects of the operations of the persistent stores\<close>
named_theorems frame_simps \<open>what an operation leaves unchanged\<close>

subsection \<open>Exceptions\<close>

text \<open>The exceptions of the standard library that the modelled code raises or lets through.\<close>

datatype py_error = ValueError | KeyError | IndexError | TypeError | OverflowError | OSError | AttributeError

subsection \<open>Slices\<close>

text \<open>
  \<open>xs[-n:]\<close> of Python for \<open>n > 0\<close>: the last \<open>n\<close> elements, or the whole list when it is shorter.
\<close>

definition last_n :: "nat \<Rightarrow> 'a list \<Rightarrow> 'a list" where
  "last_n n xs = drop (length xs - n) xs"

lemma length_last_n [simp]: "length (last_n n xs) = min n (length xs)"
  by (simp add: last_n_def min_def)

lemma last_n_short [simp]: "length xs \<le> n \<Longrightarrow> last_n n xs = xs"
  by (simp add: last_n_def)

lemma last_n_suffix: "\<exists>ys. xs = ys @ last_n n xs"
  by (metis append_take_drop_id last_n_def)

lemma set_last_n: "set (last_n n xs) \<subseteq> set xs"
  by (simp add: last_n_def set_drop_subset)

lemma last_n_append_ge: "n \<le> length ys \<Longrightarrow> last_n n (xs @ ys) = last_n n ys"
  by (simp add: last_n_def)

lemma last_n_idem [simp]: "last_n n (last_n n xs) = last_n n xs"
  by (simp add: last_n_def)

lemma last_n_keeps: "length ys \<le> n \<Longrightarrow> set ys \<subseteq> set (last_n n (xs @ ys))"
  by (simp add: last_n_def)

lemma distinct_last_n [simp]: "distinct xs \<Longrightarrow> distinct (last_n n xs)"
  by (simp add: last_n_def)

lemma map_last_n: "map f (last_n n xs) = last_n n (map f xs)"
  by (simp add: last_n_def drop_map)

lemma last_n_last_n [simp]: "n \<le> m \<Longrightarrow> last_n n (last_n m xs) = last_n n xs"
proof -
  assume "n \<le> m"
  then have "length xs - (length xs - m + n) + (length xs - m) = length xs - n" by arith
  then show ?thesis by (simp add: last_n_def)
qed

lemma last_n_snoc [simp]: "last_n (Suc n) (xs @ [x]) = last_n n xs @ [x]"
  by (simp add: last_n_def)

text \<open>\<open>s.startswith(p)\<close>, \<open>s.endswith(p)\<close> and \<open>p in s\<close> on sequences.\<close>

definition starts_with :: "'a list \<Rightarrow> 'a list \<Rightarrow> bool" where
  "starts_with s p \<longleftrightarrow> take (length p) s = p"

definition ends_with :: "'a list \<Rightarrow> 'a list \<Rightarrow> bool" where
  "ends_with s p \<longleftrightarrow> length p \<le> length s \<and> drop (length s - length p) s = p"

fun occurs_in :: "'a list \<Rightarrow> 'a list \<Rightarrow> bool" where
  "occurs_in p [] \<longleftrightarrow> p = []"
| "occurs_in p (c # s) \<longleftrightarrow> starts_with (c # s) p \<or> occurs_in p s"

lemma starts_with_append [simp]: "starts_with (p @ s) p"
  by (simp add: starts_with_def)

lemma starts_with_iff: "starts_with s p \<longleftrightarrow> (\<exists>t. s = p @ t)"
  unfolding starts_with_def by (metis append_eq_conv_conj append_take_drop_id)

lemma ends_with_iff: "ends_with s p \<longleftrightarrow> (\<exists>t. s = t @ p)"
proof
  assume "ends_with s p"
  then have "s = take (length s - length p) s @ p"
    unfolding ends_with_def by (metis append_take_drop_id)
  then show "\<exists>t. s = t @ p" ..
qed (auto simp: ends_with_def)

lemma ends_with_append [simp]: "ends_with (s @ p) p"
  by (auto simp: ends_with_iff)

lemma ends_with_take: "ends_with s p \<Longrightarrow> take (length s - length p) s @ p = s"
  unfolding ends_with_def by (metis append_take_drop_id)

lemma occurs_in_iff: "occurs_in p s \<longleftrightarrow> (\<exists>u v. s = u @ p @ v)"
proof (induction s)
  case Nil
  then show ?case by simp
next
  case (Cons c s)
  show ?case
  proof
    assume "occurs_in p (c # s)"
    then consider (now) t where "c # s = p @ t" | (later) u v where "s = u @ p @ v"
      using Cons.IH by (auto simp: starts_with_iff)
    then show "\<exists>u v. c # s = u @ p @ v"
    proof cases
      case now
      then show ?thesis by (metis append_Nil)
    next
      case later
      then show ?thesis by (metis append_Cons)
    qed
  next
    assume "\<exists>u v. c # s = u @ p @ v"
    then obtain u v where uv: "c # s = u @ p @ v" by blast
    then show "occurs_in p (c # s)"
    proof (cases u)
      case Nil
      with uv have "starts_with (c # s) p" by (auto simp: starts_with_iff)
      then show ?thesis by simp
    next
      case (Cons b u')
      with uv have "s = u' @ p @ v" by simp
      with Cons.IH show ?thesis by auto
    qed
  qed
qed

lemma in_set_map_filter: "y \<in> set (List.map_filter f xs) \<longleftrightarrow> (\<exists>x\<in>set xs. f x = Some y)"
  by (induction xs) (auto simp: map_filter_simps split: option.splits)

subsection \<open>Insertion-ordered dictionaries\<close>

text \<open>
  A Python dictionary whose order matters is an association list with distinct keys.
  \<open>AList.update\<close> is \<open>d[k] = v\<close> (in place when the key is there, at the end otherwise),
  \<open>AList.delete\<close> is \<open>d.pop(k, None)\<close>, and \<open>map_of\<close> looks a key up.
\<close>

type_synonym ('k, 'v) odict = "('k \<times> 'v) list"

definition dict_ok :: "('k, 'v) odict \<Rightarrow> bool" where
  "dict_ok d \<longleftrightarrow> distinct (map fst d)"

lemma dict_ok_Nil [simp]: "dict_ok []"
  by (simp add: dict_ok_def)

lemma dict_ok_update [simp]: "dict_ok d \<Longrightarrow> dict_ok (AList.update k v d)"
  by (simp add: dict_ok_def distinct_update)

lemma dict_ok_delete [simp]: "dict_ok d \<Longrightarrow> dict_ok (AList.delete k d)"
  by (simp add: dict_ok_def distinct_delete)

lemma dict_ok_drop [simp]: "dict_ok d \<Longrightarrow> dict_ok (drop n d)"
  by (simp add: dict_ok_def drop_map [symmetric])

lemma update_absent: "k \<notin> set (map fst d) \<Longrightarrow> AList.update k v d = d @ [(k, v)]"
  by (induction d) auto

lemma update_delete: "AList.update k v (AList.delete k d) = AList.delete k d @ [(k, v)]"
  by (rule update_absent) (simp add: AList.delete_keys)

lemma length_delete_le: "length (AList.delete k d) \<le> length d"
  by (induction d) auto

text \<open>
  \<open>while len(d) > cap: del d[next(iter(d))]\<close>: the entries that were inserted first go, until the
  dictionary is within the bound.
\<close>

fun evict :: "nat \<Rightarrow> 'a list \<Rightarrow> 'a list" where
  "evict cap [] = []"
| "evict cap (x # xs) = (if length (x # xs) > cap then evict cap xs else x # xs)"

lemma evict_eq_last_n: "evict cap xs = last_n cap xs"
proof (induction xs)
  case Nil
  then show ?case by simp
next
  case (Cons x xs)
  then show ?case
    by (cases "length (x # xs) > cap") (simp_all add: last_n_def Suc_diff_le)
qed

lemma length_evict [simp]: "length (evict cap xs) = min cap (length xs)"
  by (simp add: evict_eq_last_n)

lemma evict_short [simp]: "length xs \<le> cap \<Longrightarrow> evict cap xs = xs"
  by (simp add: evict_eq_last_n)

lemma dict_ok_evict [simp]: "dict_ok d \<Longrightarrow> dict_ok (evict n d)"
  by (simp add: evict_eq_last_n last_n_def)

lemma evict_snoc: "0 < cap \<Longrightarrow> \<exists>ys. evict cap (xs @ [x]) = ys @ [x]"
  by (simp add: evict_eq_last_n last_n_def)

subsection \<open>Maximum with a key\<close>

text \<open>\<open>max(xs, key=f, default=None)\<close>: the first element whose key no later element exceeds.\<close>

fun max_by :: "('a \<Rightarrow> 'b::linorder) \<Rightarrow> 'a list \<Rightarrow> 'a option" where
  "max_by f [] = None"
| "max_by f (x # xs) =
     (case max_by f xs of None \<Rightarrow> Some x | Some y \<Rightarrow> if f x < f y then Some y else Some x)"

lemma max_by_eq_None [simp]: "max_by f xs = None \<longleftrightarrow> xs = []"
  by (cases xs) (auto split: option.splits)

lemma max_by_SomeD: "max_by f xs = Some m \<Longrightarrow> m \<in> set xs \<and> (\<forall>x\<in>set xs. f x \<le> f m)"
proof (induction xs arbitrary: m)
  case Nil
  then show ?case by simp
next
  case (Cons x xs)
  then show ?case
    by (cases "max_by f xs") (auto split: if_splits)
qed

lemma max_by_in: "max_by f xs = Some m \<Longrightarrow> m \<in> set xs"
  by (simp add: max_by_SomeD)

lemma max_by_ge: "max_by f xs = Some m \<Longrightarrow> x \<in> set xs \<Longrightarrow> f x \<le> f m"
  by (simp add: max_by_SomeD)

lemma max_by_cong_key:
  "(\<And>x y. x \<in> set xs \<Longrightarrow> y \<in> set xs \<Longrightarrow> f x < f y \<longleftrightarrow> g x < g y) \<Longrightarrow> max_by f xs = max_by g xs"
proof (induction xs)
  case Nil
  then show ?case by simp
next
  case (Cons x xs)
  then have IH: "max_by f xs = max_by g xs" by simp
  show ?case
  proof (cases "max_by g xs")
    case None
    with IH show ?thesis by simp
  next
    case (Some y)
    then have "y \<in> set xs" by (rule max_by_in)
    with Some IH Cons.prems show ?thesis by simp
  qed
qed

subsection \<open>Binary search\<close>

text \<open>
  \<open>bisect.bisect_left\<close> of the standard library: the loop \<open>while lo < hi\<close> that halves the
  interval, with the comparison abstracted to a predicate that is true below the answer.
\<close>

function bisect_from :: "(nat \<Rightarrow> bool) \<Rightarrow> nat \<Rightarrow> nat \<Rightarrow> nat" where
  "bisect_from below lo hi =
     (if lo < hi
      then let mid = (lo + hi) div 2
           in if below mid then bisect_from below (Suc mid) hi else bisect_from below lo mid
      else lo)"
  by pat_completeness auto
termination
  by (relation "measure (\<lambda>(_, lo, hi). hi - lo)") (auto simp: Let_def)

declare bisect_from.simps [simp del]

lemma bisect_from_spec:
  assumes "lo \<le> hi" and "\<And>i. i < lo \<Longrightarrow> below i" and "\<And>i. hi \<le> i \<Longrightarrow> i < n \<Longrightarrow> \<not> below i"
    and "\<And>i j. i \<le> j \<Longrightarrow> j < n \<Longrightarrow> below j \<Longrightarrow> below i" and "hi \<le> n"
  shows "bisect_from below lo hi \<le> n \<and> (\<forall>i < bisect_from below lo hi. below i)
    \<and> (\<forall>i < n. bisect_from below lo hi \<le> i \<longrightarrow> \<not> below i)"
  using assms
proof (induction below lo hi rule: bisect_from.induct)
  case (1 below lo hi)
  show ?case
  proof (cases "lo < hi")
    case False
    then have "bisect_from below lo hi = lo" by (simp add: bisect_from.simps [of below lo hi])
    moreover from False "1.prems"(1) have "lo = hi" by simp
    ultimately show ?thesis using "1.prems" by auto
  next
    case True
    define mid where "mid = (lo + hi) div 2"
    have mid: "lo \<le> mid" "mid < hi" using True by (auto simp: mid_def)
    show ?thesis
    proof (cases "below mid")
      case below: True
      have low: "below i" if "i < Suc mid" for i
      proof -
        have "i \<le> mid" using that by simp
        moreover have "mid < n" using mid "1.prems"(5) by simp
        ultimately show ?thesis using below "1.prems"(4) by blast
      qed
      have "Suc mid \<le> hi" using mid by simp
      note IH = "1.IH"(1) [OF True mid_def below this low "1.prems"(3-5)]
      have "bisect_from below lo hi = bisect_from below (Suc mid) hi"
        using True below by (simp add: bisect_from.simps [of below lo hi] mid_def)
      with IH show ?thesis by simp
    next
      case above: False
      have high: "\<not> below i" if "mid \<le> i" "i < n" for i
        using that above "1.prems"(4) by blast
      have "mid \<le> n" using mid "1.prems"(5) by simp
      note IH = "1.IH"(2) [OF True mid_def above mid(1) "1.prems"(2) high "1.prems"(4) this]
      have "bisect_from below lo hi = bisect_from below lo mid"
        using True above by (simp add: bisect_from.simps [of below lo hi] mid_def)
      with IH show ?thesis by simp
    qed
  qed
qed

definition bisect_left :: "('a \<Rightarrow> 'a \<Rightarrow> bool) \<Rightarrow> 'a list \<Rightarrow> 'a \<Rightarrow> nat" where
  "bisect_left lt xs x = bisect_from (\<lambda>i. lt (xs ! i) x) 0 (length xs)"

text \<open>
  On a list sorted for \<open>lt\<close>, \<open>bisect_left\<close> splits it into the elements below the key and the rest.
\<close>

lemma bisect_left_split:
  assumes sorted: "sorted_wrt lt xs" and trans: "\<And>a b c. lt a b \<Longrightarrow> lt b c \<Longrightarrow> lt a c"
  shows "bisect_left lt xs x = length (takeWhile (\<lambda>a. lt a x) xs)"
    and "takeWhile (\<lambda>a. lt a x) xs = filter (\<lambda>a. lt a x) xs"
proof -
  let ?b = "bisect_left lt xs x"
  have mono: "lt (xs ! i) x" if "i \<le> j" "j < length xs" "lt (xs ! j) x" for i j
    using that sorted trans by (metis le_neq_implies_less sorted_wrt_nth_less)
  have spec: "?b \<le> length xs \<and> (\<forall>i < ?b. lt (xs ! i) x) \<and>
      (\<forall>i < length xs. ?b \<le> i \<longrightarrow> \<not> lt (xs ! i) x)"
    unfolding bisect_left_def by (rule bisect_from_spec) (use mono in auto)
  show split: "?b = length (takeWhile (\<lambda>a. lt a x) xs)"
  proof (rule antisym)
    show "?b \<le> length (takeWhile (\<lambda>a. lt a x) xs)"
    proof (rule ccontr)
      assume "\<not> ?thesis"
      then have less: "length (takeWhile (\<lambda>a. lt a x) xs) < ?b" by simp
      then have "\<not> lt (xs ! length (takeWhile (\<lambda>a. lt a x) xs)) x"
        using spec by (intro nth_length_takeWhile) auto
      with less spec show False by blast
    qed
    show "length (takeWhile (\<lambda>a. lt a x) xs) \<le> ?b"
    proof (rule ccontr)
      assume "\<not> ?thesis"
      then have less: "?b < length (takeWhile (\<lambda>a. lt a x) xs)" by simp
      then have "lt (xs ! ?b) x"
        by (metis nth_mem set_takeWhileD takeWhile_nth)
      moreover have "?b < length xs"
        using less length_takeWhile_le order_less_le_trans by blast
      ultimately show False using spec by blast
    qed
  qed
  show "takeWhile (\<lambda>a. lt a x) xs = filter (\<lambda>a. lt a x) xs"
    using sorted
  proof (induction xs)
    case Nil
    then show ?case by simp
  next
    case (Cons a xs)
    show ?case
    proof (cases "lt a x")
      case True
      with Cons show ?thesis by simp
    next
      case False
      with Cons.prems trans have "\<forall>b\<in>set xs. \<not> lt b x" by auto
      with False show ?thesis by (simp add: filter_empty_conv)
    qed
  qed
qed

end
