(* ===== verification/Py_Text.thy ===== *)
theory Py_Text
  imports Prelude
begin

text \<open>
  Python text as the code reads it: a string is a list of Unicode code points, and the classification
  and case functions of \<open>str\<close> are written out for the repertoire the program works with, that is
  Basic Latin, the Latin-1 Supplement, the Cyrillic blocks U+0400 to U+052F, and the three letters
  outside them that their case mappings reach (U+0178, U+039C, U+03BC). On the repertoire every
  function below agrees with CPython, the expansions of sharp s and the case folding of the micro
  sign included. A code point outside it is a caseless character that is neither a letter nor a
  digit, which is what the signs and symbols the program meets there are.
\<close>

type_synonym uchar = nat
type_synonym ustr = "uchar list"

text \<open>Literals: \<open>asc\<close> reads an ASCII literal as code points.\<close>

definition asc :: "string \<Rightarrow> ustr" where
  "asc s = map of_char s"

subsection \<open>Character classes\<close>

text \<open>
  Every letter of the repertoire is cased: an upper-case letter with the code point of its small
  form, or a small letter with its capital (two letters for sharp s, itself for the two ordinal
  indicators). The table goes through the code points in ascending order.
\<close>

datatype letter_class = Upper_Letter uchar | Lower_Letter ustr | No_Letter

definition letter_class :: "uchar \<Rightarrow> letter_class" where
  "letter_class c =
     (if c < 0x41 then No_Letter
      else if c \<le> 0x5A then Upper_Letter (c + 32)
      else if c < 0x61 then No_Letter
      else if c \<le> 0x7A then Lower_Letter [c - 32]
      else if c = 0xAA \<or> c = 0xBA then Lower_Letter [c]
      else if c = 0xB5 then Lower_Letter [0x39C]
      else if c < 0xC0 \<or> c = 0xD7 \<or> c = 0xF7 then No_Letter
      else if c \<le> 0xDE then Upper_Letter (c + 32)
      else if c = 0xDF then Lower_Letter [0x53, 0x53]
      else if c \<le> 0xFE then Lower_Letter [c - 32]
      else if c = 0xFF then Lower_Letter [0x178]
      else if c = 0x178 then Upper_Letter 0xFF
      else if c = 0x39C then Upper_Letter 0x3BC
      else if c = 0x3BC then Lower_Letter [0x39C]
      else if c < 0x400 then No_Letter
      else if c \<le> 0x40F then Upper_Letter (c + 80)
      else if c \<le> 0x42F then Upper_Letter (c + 32)
      else if c \<le> 0x44F then Lower_Letter [c - 32]
      else if c \<le> 0x45F then Lower_Letter [c - 80]
      else if c \<le> 0x481 then if even c then Upper_Letter (c + 1) else Lower_Letter [c - 1]
      else if c < 0x48A then No_Letter
      else if c \<le> 0x4BF then if even c then Upper_Letter (c + 1) else Lower_Letter [c - 1]
      else if c = 0x4C0 then Upper_Letter 0x4CF
      else if c \<le> 0x4CE then if odd c then Upper_Letter (c + 1) else Lower_Letter [c - 1]
      else if c = 0x4CF then Lower_Letter [0x4C0]
      else if c \<le> 0x52F then if even c then Upper_Letter (c + 1) else Lower_Letter [c - 1]
      else No_Letter)"

definition isalpha_ch :: "uchar \<Rightarrow> bool" where
  "isalpha_ch c \<longleftrightarrow> letter_class c \<noteq> No_Letter"

definition isupper_ch :: "uchar \<Rightarrow> bool" where
  "isupper_ch c \<longleftrightarrow> (case letter_class c of Upper_Letter _ \<Rightarrow> True | _ \<Rightarrow> False)"

definition islower_ch :: "uchar \<Rightarrow> bool" where
  "islower_ch c \<longleftrightarrow> (case letter_class c of Lower_Letter _ \<Rightarrow> True | _ \<Rightarrow> False)"

text \<open>\<open>str.isdecimal\<close> and \<open>str.isdigit\<close> differ on the Latin-1 superscripts.\<close>

definition isdecimal_ch :: "uchar \<Rightarrow> bool" where
  "isdecimal_ch c \<longleftrightarrow> 0x30 \<le> c \<and> c \<le> 0x39"

definition isdigit_ch :: "uchar \<Rightarrow> bool" where
  "isdigit_ch c \<longleftrightarrow> isdecimal_ch c \<or> c = 0xB2 \<or> c = 0xB3 \<or> c = 0xB9"

definition isalnum_ch :: "uchar \<Rightarrow> bool" where
  "isalnum_ch c \<longleftrightarrow> isalpha_ch c \<or> isdigit_ch c \<or> 0xBC \<le> c \<and> c \<le> 0xBE"

definition isspace_ch :: "uchar \<Rightarrow> bool" where
  "isspace_ch c \<longleftrightarrow> 0x9 \<le> c \<and> c \<le> 0xD \<or> 0x1C \<le> c \<and> c \<le> 0x20 \<or> c = 0x85 \<or> c = 0xA0
    \<or> c = 0x1680 \<or> 0x2000 \<le> c \<and> c \<le> 0x200A \<or> c = 0x2028 \<or> c = 0x2029 \<or> c = 0x202F
    \<or> c = 0x205F \<or> c = 0x3000"

text \<open>The control characters, the soft hyphen and the spaces other than U+0020 are not printable.\<close>

definition isprintable_ch :: "uchar \<Rightarrow> bool" where
  "isprintable_ch c \<longleftrightarrow> c = 0x20 \<or> 0x20 \<le> c \<and> \<not> (0x7F \<le> c \<and> c \<le> 0x9F) \<and> c \<noteq> 0xAD \<and> \<not> isspace_ch c"

subsection \<open>Case mappings\<close>

definition lower_ch :: "uchar \<Rightarrow> uchar" where
  "lower_ch c = (case letter_class c of Upper_Letter l \<Rightarrow> l | _ \<Rightarrow> c)"

definition upper_ch :: "uchar \<Rightarrow> ustr" where
  "upper_ch c = (case letter_class c of Lower_Letter u \<Rightarrow> u | _ \<Rightarrow> [c])"

definition title_ch :: "uchar \<Rightarrow> ustr" where
  "title_ch c = (if c = 0xDF then [0x53, 0x73] else upper_ch c)"

definition casefold_ch :: "uchar \<Rightarrow> ustr" where
  "casefold_ch c = (if c = 0xDF then [0x73, 0x73] else if c = 0xB5 then [0x3BC] else [lower_ch c])"

definition lower :: "ustr \<Rightarrow> ustr" where
  "lower s = map lower_ch s"

definition upper :: "ustr \<Rightarrow> ustr" where
  "upper s = concat (map upper_ch s)"

definition casefold :: "ustr \<Rightarrow> ustr" where
  "casefold s = concat (map casefold_ch s)"

definition swapcase :: "ustr \<Rightarrow> ustr" where
  "swapcase s = concat (map (\<lambda>c. if isupper_ch c then [lower_ch c] else if islower_ch c then upper_ch c else [c]) s)"

text \<open>\<open>str.capitalize\<close>: the first character in title case, the rest small.\<close>

fun capitalize :: "ustr \<Rightarrow> ustr" where
  "capitalize [] = []"
| "capitalize (c # s) = title_ch c @ lower s"

subsection \<open>Tests of whole strings\<close>

definition isalpha :: "ustr \<Rightarrow> bool" where
  "isalpha s \<longleftrightarrow> s \<noteq> [] \<and> list_all isalpha_ch s"

definition isspace :: "ustr \<Rightarrow> bool" where
  "isspace s \<longleftrightarrow> s \<noteq> [] \<and> list_all isspace_ch s"

definition isdigit :: "ustr \<Rightarrow> bool" where
  "isdigit s \<longleftrightarrow> s \<noteq> [] \<and> list_all isdigit_ch s"

definition isprintable :: "ustr \<Rightarrow> bool" where
  "isprintable s \<longleftrightarrow> list_all isprintable_ch s"

definition isupper :: "ustr \<Rightarrow> bool" where
  "isupper s \<longleftrightarrow> list_ex isupper_ch s \<and> \<not> list_ex islower_ch s"

definition islower :: "ustr \<Rightarrow> bool" where
  "islower s \<longleftrightarrow> list_ex islower_ch s \<and> \<not> list_ex isupper_ch s"

subsection \<open>Stripping and splitting\<close>

definition lstrip_chars :: "(uchar \<Rightarrow> bool) \<Rightarrow> ustr \<Rightarrow> ustr" where
  "lstrip_chars p s = dropWhile p s"

definition rstrip_chars :: "(uchar \<Rightarrow> bool) \<Rightarrow> ustr \<Rightarrow> ustr" where
  "rstrip_chars p s = rev (dropWhile p (rev s))"

definition strip :: "ustr \<Rightarrow> ustr" where
  "strip s = rstrip_chars isspace_ch (lstrip_chars isspace_ch s)"

text \<open>\<open>s.split(sep)\<close> for a one-character separator: never empty, and empty parts are kept.\<close>

fun split_on :: "('a \<Rightarrow> bool) \<Rightarrow> 'a list \<Rightarrow> 'a list list" where
  "split_on p [] = [[]]"
| "split_on p (c # s) =
     (if p c then [] # split_on p s
      else case split_on p s of [] \<Rightarrow> [[c]] | w # ws \<Rightarrow> (c # w) # ws)"

text \<open>\<open>s.partition(sep)\<close> for a one-character separator.\<close>

definition partition_at :: "uchar \<Rightarrow> ustr \<Rightarrow> ustr \<times> bool \<times> ustr" where
  "partition_at sep s =
     (let head = takeWhile (\<lambda>c. c \<noteq> sep) s; rest = dropWhile (\<lambda>c. c \<noteq> sep) s
      in (head, rest \<noteq> [], tl rest))"

text \<open>
  \<open>int(s)\<close> in base ten: surrounding space, a sign, and decimal digits with single underscores between
  them; \<open>None\<close> is \<open>ValueError\<close>.
\<close>

fun digits_value :: "ustr \<Rightarrow> int \<Rightarrow> bool \<Rightarrow> int option" where
  "digits_value [] n after_digit = (if after_digit then Some n else None)"
| "digits_value (c # s) n after_digit =
     (if isdecimal_ch c then digits_value s (10 * n + int (c - 0x30)) True
      else if c = 0x5F \<and> after_digit then digits_value s n False
      else None)"

definition py_int :: "ustr \<Rightarrow> int option" where
  "py_int s =
     (case strip s of
        [] \<Rightarrow> None
      | c # t \<Rightarrow>
          if c = 0x2D then map_option uminus (digits_value t 0 False)
          else if c = 0x2B then digits_value t 0 False
          else digits_value (c # t) 0 False)"

text \<open>\<open>s.encode("utf-8")\<close>, for code points that are no surrogates, and \<open>int.from_bytes(b, "little")\<close>.\<close>

definition utf8_ch :: "uchar \<Rightarrow> nat list" where
  "utf8_ch c =
     (if c < 0x80 then [c]
      else if c < 0x800 then [0xC0 + c div 0x40, 0x80 + c mod 0x40]
      else if c < 0x10000 then [0xE0 + c div 0x1000, 0x80 + c div 0x40 mod 0x40, 0x80 + c mod 0x40]
      else [0xF0 + c div 0x40000, 0x80 + c div 0x1000 mod 0x40, 0x80 + c div 0x40 mod 0x40, 0x80 + c mod 0x40])"

definition utf8 :: "ustr \<Rightarrow> nat list" where
  "utf8 s = concat (map utf8_ch s)"

definition little_endian :: "nat list \<Rightarrow> nat" where
  "little_endian bytes = foldr (\<lambda>b n. b + 256 * n) bytes 0"

subsection \<open>Facts\<close>

lemma asc_Nil [simp]: "asc [] = []"
  by (simp add: asc_def)

lemma asc_eq: "asc s = asc t \<longleftrightarrow> s = t"
  by (metis asc_def inj_map_eq_map inj_on_def of_char_eq_iff)

lemma asc_eq_Nil: "asc s = [] \<longleftrightarrow> s = []"
  by (simp add: asc_def)

lemma isupper_not_islower: "isupper_ch c \<Longrightarrow> \<not> islower_ch c"
  by (auto simp: isupper_ch_def islower_ch_def split: letter_class.splits)

lemma alpha_iff_cased: "isalpha_ch c \<longleftrightarrow> isupper_ch c \<or> islower_ch c"
  by (auto simp: isupper_ch_def islower_ch_def isalpha_ch_def split: letter_class.splits)

lemma alpha_ge: "isalpha_ch c \<Longrightarrow> 0x41 \<le> c"
  by (rule ccontr) (simp add: isalpha_ch_def letter_class_def)

lemma alpha_le: "isalpha_ch c \<Longrightarrow> c \<le> 0x52F"
  by (rule ccontr) (simp add: isalpha_ch_def letter_class_def)

lemma alpha_not_space: "isalpha_ch c \<Longrightarrow> \<not> isspace_ch c"
proof
  assume alpha: "isalpha_ch c" and "isspace_ch c"
  with alpha_ge [of c] alpha_le [of c] have "c = 0x85 \<or> c = 0xA0"
    unfolding isspace_ch_def by linarith
  with alpha show False by (auto simp: isalpha_ch_def letter_class_def)
qed

lemma alpha_not_digit: "isalpha_ch c \<Longrightarrow> \<not> isdigit_ch c"
proof
  assume alpha: "isalpha_ch c" and "isdigit_ch c"
  with alpha_ge [of c] have "c = 0xB2 \<or> c = 0xB3 \<or> c = 0xB9"
    unfolding isdigit_ch_def isdecimal_ch_def by linarith
  with alpha show False by (auto simp: isalpha_ch_def letter_class_def)
qed

lemma upper_to_lower_class: "letter_class c = Upper_Letter l \<Longrightarrow> \<exists>u. letter_class l = Lower_Letter u"
  unfolding letter_class_def [of c] by (simp split: if_split_asm) (auto simp: letter_class_def)

lemma lower_ch_not_upper: "\<not> isupper_ch (lower_ch c)"
  using upper_to_lower_class
  by (fastforce simp: isupper_ch_def lower_ch_def split: letter_class.splits)

lemma lower_ch_fixed: "\<not> isupper_ch c \<Longrightarrow> lower_ch c = c"
  by (auto simp: isupper_ch_def lower_ch_def split: letter_class.splits)

lemma lower_ch_values: "lower_ch c \<noteq> c \<Longrightarrow> lower_ch c \<noteq> 0xDF \<and> lower_ch c \<noteq> 0xB5"
  by (auto simp: lower_ch_def letter_class_def split: if_splits)

lemma lower_ch_idem [simp]: "lower_ch (lower_ch c) = lower_ch c"
  by (rule lower_ch_fixed) (rule lower_ch_not_upper)

lemma lower_idem [simp]: "lower (lower s) = lower s"
  by (simp add: lower_def)

lemma length_lower [simp]: "length (lower s) = length s"
  by (simp add: lower_def)

lemma casefold_Nil [simp]: "casefold [] = []"
  by (simp add: casefold_def)

lemma casefold_Cons: "casefold (c # s) = casefold_ch c @ casefold s"
  by (simp add: casefold_def)

lemma casefold_append [simp]: "casefold (s @ t) = casefold s @ casefold t"
  by (simp add: casefold_def)

lemma casefold_ch_nonempty [simp]: "casefold_ch c \<noteq> []"
  by (simp add: casefold_ch_def)

lemma casefold_eq_Nil [simp]: "casefold s = [] \<longleftrightarrow> s = []"
  by (cases s) (auto simp: casefold_Cons)

lemma casefold_casefold_ch: "casefold (casefold_ch c) = casefold_ch c"
proof (cases "c = 0xDF \<or> c = 0xB5")
  case True
  then show ?thesis by (auto simp: casefold_def casefold_ch_def lower_ch_def letter_class_def)
next
  case False
  moreover have "lower_ch c \<noteq> 0xDF \<and> lower_ch c \<noteq> 0xB5"
    using False lower_ch_values [of c] by metis
  ultimately show ?thesis by (simp add: casefold_def casefold_ch_def)
qed

lemma casefold_idem [simp]: "casefold (casefold s) = casefold s"
  by (induction s) (auto simp: casefold_Cons casefold_casefold_ch)

lemma length_casefold_ge: "length s \<le> length (casefold s)"
proof (induction s)
  case Nil
  then show ?case by simp
next
  case (Cons c s)
  then show ?case by (simp add: casefold_Cons casefold_ch_def)
qed

lemma split_on_nonempty [simp]: "split_on p s \<noteq> []"
  by (cases s) (auto split: list.splits)

lemma split_on_append_sep: "split_on p (s @ c # t) = split_on p s @ split_on p t" if "p c"
proof (induction s)
  case Nil
  then show ?case using that by simp
next
  case (Cons a s)
  then show ?case by (cases "split_on p s") (auto split: list.splits)
qed

lemma split_on_free: "list_all (\<lambda>c. \<not> p c) s \<Longrightarrow> split_on p s = [s]"
  by (induction s) auto

lemma partition_at_found:
  "partition_at sep (h @ sep # t) = (h, True, t)" if "sep \<notin> set h"
proof -
  have all: "\<And>x. x \<in> set h \<Longrightarrow> x \<noteq> sep" using that by blast
  have "takeWhile (\<lambda>c. c \<noteq> sep) (h @ sep # t) = h"
    by (subst takeWhile_append2) (use all in auto)
  moreover have "dropWhile (\<lambda>c. c \<noteq> sep) (h @ sep # t) = sep # t"
    by (subst dropWhile_append2) (use all in auto)
  ultimately show ?thesis by (simp add: partition_at_def Let_def)
qed

lemma strip_no_space: "list_all (\<lambda>c. \<not> isspace_ch c) s \<Longrightarrow> strip s = s"
proof -
  assume all: "list_all (\<lambda>c. \<not> isspace_ch c) s"
  have "dropWhile isspace_ch t = t" if "list_all (\<lambda>c. \<not> isspace_ch c) t" for t
    using that by (cases t) auto
  with all show ?thesis
    by (simp add: strip_def lstrip_chars_def rstrip_chars_def)
qed

subsection \<open>Case mappings keep the folded text\<close>

lemma casefold_upper_class:
  "letter_class c = Lower_Letter u \<Longrightarrow> casefold u = casefold_ch c"
  unfolding letter_class_def [of c]
  apply (simp split: if_split_asm)
  apply (auto simp: casefold_def casefold_ch_def lower_ch_def letter_class_def)
  apply presburger+
  done

lemma casefold_upper_ch [simp]: "casefold (upper_ch c) = casefold_ch c"
  using casefold_upper_class [of c]
  by (auto simp: upper_ch_def casefold_Cons casefold_ch_def lower_ch_def split: letter_class.splits)

lemma casefold_lower_ch [simp]: "casefold_ch (lower_ch c) = casefold_ch c"
proof (cases "lower_ch c = c")
  case False
  then have "casefold_ch (lower_ch c) = [lower_ch c]"
    using lower_ch_values [of c] by (simp add: casefold_ch_def)
  moreover from False have "c \<noteq> 0xDF" "c \<noteq> 0xB5" by (auto simp: lower_ch_def letter_class_def)
  ultimately show ?thesis by (simp add: casefold_ch_def)
qed simp

lemma casefold_upper [simp]: "casefold (upper s) = casefold s"
  by (induction s) (auto simp: upper_def casefold_Cons)

lemma casefold_lower [simp]: "casefold (lower s) = casefold s"
  by (induction s) (auto simp: lower_def casefold_Cons)

lemma casefold_swapcase [simp]: "casefold (swapcase s) = casefold s"
  by (induction s) (auto simp: swapcase_def casefold_Cons)

text \<open>A capital is no small letter, so a cased letter changes with one of the two mappings.\<close>

lemma upper_ch_neq: "islower_ch c \<Longrightarrow> upper_ch c \<noteq> [c] \<or> lower_ch c = c"
  by (auto simp: islower_ch_def lower_ch_def split: letter_class.splits)

lemma lower_ch_neq: "isupper_ch c \<Longrightarrow> lower_ch c \<noteq> c"
  by (metis lower_ch_not_upper)

lemma lower_fixed: "lower s = s \<longleftrightarrow> \<not> list_ex isupper_ch s"
  by (induction s) (auto simp: lower_def lower_ch_fixed lower_ch_neq)

lemma upper_ch_nonempty [simp]: "upper_ch c \<noteq> []"
  using casefold_upper_class [of c "[]"] casefold_ch_nonempty [of c]
  by (cases "letter_class c") (auto simp: upper_ch_def simp del: casefold_ch_nonempty)

end
