(* ===== verification/Layouts.thy ===== *)
theory Layouts
  imports Py_Text
begin

text \<open>
  \<open>src/keyswitch/layouts.py\<close>: the table that reads the keys of the US layout as the Russian layout
  prints them, and back. The two rows list the same physical keys; the tables are built from them as
  the module does, a dictionary of the rows plus the capitals of the keys that are letters on both
  sides. The locale \<open>key_table\<close> is the contract of such a pair of tables (each entry is one character
  and is undone by the other table); it is interpreted on these tables here and on the tables of the
  selection hotkeys in \<open>Selection_Text\<close>.
\<close>

subsection \<open>The tables\<close>

text \<open>The rows start with the key left of 1: grave accent and yo, q and short i, and so on.\<close>

definition US_KEYS :: ustr where
  "US_KEYS =
    [0x60, 0x71, 0x77, 0x65, 0x72, 0x74, 0x79, 0x75, 0x69, 0x6F, 0x70, 0x5B,
     0x5D, 0x5C, 0x61, 0x73, 0x64, 0x66, 0x67, 0x68, 0x6A, 0x6B, 0x6C, 0x3B,
     0x27, 0x7A, 0x78, 0x63, 0x76, 0x62, 0x6E, 0x6D, 0x2C, 0x2E]"

definition RU_KEYS :: ustr where
  "RU_KEYS =
    [0x451, 0x439, 0x446, 0x443, 0x43A, 0x435, 0x43D, 0x433, 0x448, 0x449, 0x437, 0x445,
     0x44A, 0x5C, 0x444, 0x44B, 0x432, 0x430, 0x43F, 0x440, 0x43E, 0x43B, 0x434, 0x436,
     0x44D, 0x44F, 0x447, 0x441, 0x43C, 0x438, 0x442, 0x44C, 0x431, 0x44E]"

text \<open>
  \<open>_case_aware_map\<close>: \<open>dict(zip(source, target))\<close>, then for each pair of letters the capital of the
  left one is mapped to the capital of the right one. Keys and values are strings, because an upper
  case can be longer than one character.
\<close>

definition case_aware_map :: "ustr \<Rightarrow> ustr \<Rightarrow> (ustr, ustr) odict" where
  "case_aware_map source target =
     fold (\<lambda>(left, right) m.
         if isalpha_ch left \<and> isalpha_ch right then AList.update (upper [left]) (upper [right]) m else m)
       (zip source target)
       (fold (\<lambda>(left, right). AList.update [left] [right]) (zip source target) [])"

definition us_to_ru :: "(ustr, ustr) odict" where
  "us_to_ru = case_aware_map US_KEYS RU_KEYS"

definition ru_to_us :: "(ustr, ustr) odict" where
  "ru_to_us = case_aware_map RU_KEYS US_KEYS"

text \<open>
  \<open>str.maketrans\<close> of a dictionary whose keys are single characters (\<open>us_to_ru_keys\<close> below: they are,
  so the call does not raise), and \<open>str.translate\<close> with such a table.
\<close>

definition maketrans :: "(ustr, ustr) odict \<Rightarrow> (uchar, ustr) odict" where
  "maketrans m = map (\<lambda>(k, v). (hd k, v)) m"

definition translate_with :: "(uchar, ustr) odict \<Rightarrow> ustr \<Rightarrow> ustr" where
  "translate_with table text = concat (map (\<lambda>c. case map_of table c of None \<Rightarrow> [c] | Some v \<Rightarrow> v) text)"

definition us_to_ru_table :: "(uchar, ustr) odict" where
  "us_to_ru_table = maketrans us_to_ru"

definition ru_to_us_table :: "(uchar, ustr) odict" where
  "ru_to_us_table = maketrans ru_to_us"

subsection \<open>The pair\<close>

record layout_pair =
  first_layout :: string
  second_layout :: string

text \<open>\<open>LayoutPair.__post_init__\<close> refuses any pair but us and ru.\<close>

definition make_layout_pair :: "string \<Rightarrow> string \<Rightarrow> py_error + layout_pair" where
  "make_layout_pair f s =
     (if {f, s} \<noteq> {''us'', ''ru''} then Inl ValueError
      else Inr \<lparr>first_layout = f, second_layout = s\<rparr>)"

text \<open>\<open>LayoutPair.translate\<close>.\<close>

definition translate :: "ustr \<Rightarrow> string \<Rightarrow> string \<Rightarrow> py_error + ustr" where
  "translate text source target =
     (if source = target then Inr text
      else if (source, target) = (''us'', ''ru'') then Inr (translate_with us_to_ru_table text)
      else if (source, target) = (''ru'', ''us'') then Inr (translate_with ru_to_us_table text)
      else Inl ValueError)"

subsection \<open>The contract of a pair of tables\<close>

lemma translate_with_Nil [simp]: "translate_with t [] = []"
  by (simp add: translate_with_def)

lemma translate_with_Cons:
  "translate_with t (c # s) = (case map_of t c of None \<Rightarrow> [c] | Some v \<Rightarrow> v) @ translate_with t s"
  by (simp add: translate_with_def)

lemma translate_with_append [simp]: "translate_with t (a @ b) = translate_with t a @ translate_with t b"
  by (simp add: translate_with_def)

locale key_table =
  fixes fwd bwd :: "(uchar, ustr) odict"
  assumes undone: "map_of fwd c = Some v \<Longrightarrow> \<exists>d. v = [d] \<and> map_of bwd d = Some [c]"
begin

lemma length_translate: "length (translate_with fwd s) = length s"
proof (induction s)
  case Nil
  then show ?case by simp
next
  case (Cons c s)
  then show ?case
    using undone [of c] by (cases "map_of fwd c") (auto simp: translate_with_Cons)
qed

lemma translate_back_ch:
  assumes "map_of fwd c \<noteq> None \<or> map_of bwd c = None"
  shows "translate_with bwd (translate_with fwd [c]) = [c]"
  using assms undone [of c] by (cases "map_of fwd c") (auto simp: translate_with_Cons)

lemma translate_back_ch_iff:
  "translate_with bwd (translate_with fwd [c]) = [c] \<longleftrightarrow>
    map_of fwd c \<noteq> None \<or> map_of bwd c = None \<or> map_of bwd c = Some [c]"
  using translate_back_ch [of c]
  by (cases "map_of fwd c"; cases "map_of bwd c") (auto simp: translate_with_Cons)

lemma injective: "map_of fwd c = Some v \<Longrightarrow> map_of fwd c' = Some v \<Longrightarrow> c = c'"
  using undone [of c] undone [of c'] by fastforce

end

text \<open>A text comes back unchanged exactly when each of its characters does.\<close>

locale inverse_tables = key_table +
  assumes undone_back: "map_of bwd d = Some w \<Longrightarrow> \<exists>c. w = [c] \<and> map_of fwd c = Some [d]"
begin

sublocale reversed: key_table bwd fwd
  by unfold_locales (rule undone_back)

lemma translate_back_iff:
  "translate_with bwd (translate_with fwd s) = s \<longleftrightarrow>
    (\<forall>c\<in>set s. map_of fwd c \<noteq> None \<or> map_of bwd c = None)"
proof (induction s)
  case Nil
  then show ?case by simp
next
  case (Cons c s)
  have one: "length (translate_with bwd (translate_with fwd [c])) = length [c]"
    by (simp add: length_translate reversed.length_translate)
  have "translate_with bwd (translate_with fwd (c # s)) =
      translate_with bwd (translate_with fwd [c]) @ translate_with bwd (translate_with fwd s)"
    by (simp add: translate_with_Cons)
  then have eq: "translate_with bwd (translate_with fwd (c # s)) = c # s \<longleftrightarrow>
      translate_with bwd (translate_with fwd [c]) = [c] \<and> translate_with bwd (translate_with fwd s) = s"
    using one by (metis append_Cons append_Nil append_eq_append_conv)
  have "map_of bwd c = Some [c] \<Longrightarrow> map_of fwd c \<noteq> None"
    using undone_back by fastforce
  then have ch: "translate_with bwd (translate_with fwd [c]) = [c] \<longleftrightarrow>
      map_of fwd c \<noteq> None \<or> map_of bwd c = None"
    unfolding translate_back_ch_iff by argo
  show ?case
    unfolding eq ch Cons.IH by simp
qed

end

text \<open>The two directions of one list of pairs, with no character twice on either side.\<close>

lemma map_of_pairs:
  "distinct (map fst ps) \<Longrightarrow> map_of (map (\<lambda>(a, b). (a, [b])) ps) c = Some v \<longleftrightarrow> (\<exists>d. v = [d] \<and> (c, d) \<in> set ps)"
  by (induction ps) (auto simp: rev_image_eqI)

lemma inverse_tables_pairs:
  assumes "distinct (map fst ps)" and "distinct (map snd ps)"
  shows "inverse_tables (map (\<lambda>(a, b). (a, [b])) ps) (map (\<lambda>(a, b). (b, [a])) ps)"
proof -
  define qs where "qs = map (\<lambda>(a, b). (b, a)) ps"
  have "map (\<lambda>(a, b). (b, [a])) ps = map (\<lambda>(a, b). (a, [b])) qs" "distinct (map fst qs)"
    using assms(2) by (simp_all add: qs_def comp_def case_prod_unfold)
  moreover have "(a, b) \<in> set ps \<longleftrightarrow> (b, a) \<in> set qs" for a b by (force simp: qs_def)
  ultimately show ?thesis
    using assms(1) by unfold_locales (auto simp: map_of_pairs)
qed

text \<open>A dictionary built from fresh keys is the list of its insertions.\<close>

lemma fold_update_fresh:
  "distinct (map fst m @ map f (filter p ps)) \<Longrightarrow>
    fold (\<lambda>x m. if p x then AList.update (f x) (g x) m else m) ps m = m @ map (\<lambda>x. (f x, g x)) (filter p ps)"
proof (induction ps arbitrary: m)
  case Nil
  then show ?case by simp
next
  case (Cons x ps)
  show ?case
  proof (cases "p x")
    case True
    with Cons.prems have "f x \<notin> set (map fst m)" by simp
    then have "AList.update (f x) (g x) m = m @ [(f x, g x)]" by (rule update_absent)
    with True Cons.prems Cons.IH [of "m @ [(f x, g x)]"] show ?thesis by simp
  next
    case False
    with Cons show ?thesis by simp
  qed
qed

lemma case_aware_map_fresh:
  assumes "distinct (map (\<lambda>(l, r). [l]) (zip source target) @
      map (\<lambda>(l, r). upper [l]) (filter (\<lambda>(l, r). isalpha_ch l \<and> isalpha_ch r) (zip source target)))"
  shows "case_aware_map source target = map (\<lambda>(l, r). ([l], [r])) (zip source target) @
      map (\<lambda>(l, r). (upper [l], upper [r])) (filter (\<lambda>(l, r). isalpha_ch l \<and> isalpha_ch r) (zip source target))"
proof -
  define ps where "ps = zip source target"
  note fresh = assms [folded ps_def, unfolded case_prod_unfold]
  have base: "fold (\<lambda>p. AList.update [fst p] [snd p]) ps [] = map (\<lambda>p. ([fst p], [snd p])) ps"
    using fold_update_fresh [of "[]" "\<lambda>p. [fst p]" "\<lambda>p. True" ps "\<lambda>p. [snd p]"] fresh by simp
  have "distinct (map fst (map (\<lambda>p. ([fst p], [snd p])) ps)
      @ map (\<lambda>p. upper [fst p]) (filter (\<lambda>p. isalpha_ch (fst p) \<and> isalpha_ch (snd p)) ps))"
    using fresh unfolding map_map comp_def fst_conv .
  note fold_update_fresh [OF this, of "\<lambda>p. upper [snd p]"]
  then show ?thesis
    unfolding case_aware_map_def ps_def [symmetric] case_prod_unfold base .
qed

text \<open>The pairs of characters the two layouts type with the same key.\<close>

definition layout_pairs :: "(uchar \<times> uchar) list" where
  "layout_pairs =
    [(0x60, 0x451), (0x71, 0x439), (0x77, 0x446), (0x65, 0x443), (0x72, 0x43A), (0x74, 0x435),
     (0x79, 0x43D), (0x75, 0x433), (0x69, 0x448), (0x6F, 0x449), (0x70, 0x437), (0x5B, 0x445),
     (0x5D, 0x44A), (0x5C, 0x5C), (0x61, 0x444), (0x73, 0x44B), (0x64, 0x432), (0x66, 0x430),
     (0x67, 0x43F), (0x68, 0x440), (0x6A, 0x43E), (0x6B, 0x43B), (0x6C, 0x434), (0x3B, 0x436),
     (0x27, 0x44D), (0x7A, 0x44F), (0x78, 0x447), (0x63, 0x441), (0x76, 0x43C), (0x62, 0x438),
     (0x6E, 0x442), (0x6D, 0x44C), (0x2C, 0x431), (0x2E, 0x44E), (0x51, 0x419), (0x57, 0x426),
     (0x45, 0x423), (0x52, 0x41A), (0x54, 0x415), (0x59, 0x41D), (0x55, 0x413), (0x49, 0x428),
     (0x4F, 0x429), (0x50, 0x417), (0x41, 0x424), (0x53, 0x42B), (0x44, 0x412), (0x46, 0x410),
     (0x47, 0x41F), (0x48, 0x420), (0x4A, 0x41E), (0x4B, 0x41B), (0x4C, 0x414), (0x5A, 0x42F),
     (0x58, 0x427), (0x43, 0x421), (0x56, 0x41C), (0x42, 0x418), (0x4E, 0x422), (0x4D, 0x42C)]"

lemma us_to_ru_pairs: "us_to_ru = map (\<lambda>(a, b). ([a], [b])) layout_pairs"
  unfolding us_to_ru_def
  by (subst case_aware_map_fresh)
    (simp_all add: US_KEYS_def RU_KEYS_def isalpha_ch_def letter_class_def upper_def upper_ch_def layout_pairs_def)

lemma ru_to_us_pairs: "ru_to_us = map (\<lambda>(a, b). ([b], [a])) layout_pairs"
  unfolding ru_to_us_def
  by (subst case_aware_map_fresh)
    (simp_all add: US_KEYS_def RU_KEYS_def isalpha_ch_def letter_class_def upper_def upper_ch_def layout_pairs_def)

text \<open>The tables spelled out, so that evaluation does not build them for every character.\<close>

lemma us_to_ru_table_eq [code]: "us_to_ru_table =
    [(0x60, [0x451]), (0x71, [0x439]), (0x77, [0x446]), (0x65, [0x443]), (0x72, [0x43A]),
     (0x74, [0x435]), (0x79, [0x43D]), (0x75, [0x433]), (0x69, [0x448]), (0x6F, [0x449]),
     (0x70, [0x437]), (0x5B, [0x445]), (0x5D, [0x44A]), (0x5C, [0x5C]), (0x61, [0x444]),
     (0x73, [0x44B]), (0x64, [0x432]), (0x66, [0x430]), (0x67, [0x43F]), (0x68, [0x440]),
     (0x6A, [0x43E]), (0x6B, [0x43B]), (0x6C, [0x434]), (0x3B, [0x436]), (0x27, [0x44D]),
     (0x7A, [0x44F]), (0x78, [0x447]), (0x63, [0x441]), (0x76, [0x43C]), (0x62, [0x438]),
     (0x6E, [0x442]), (0x6D, [0x44C]), (0x2C, [0x431]), (0x2E, [0x44E]), (0x51, [0x419]),
     (0x57, [0x426]), (0x45, [0x423]), (0x52, [0x41A]), (0x54, [0x415]), (0x59, [0x41D]),
     (0x55, [0x413]), (0x49, [0x428]), (0x4F, [0x429]), (0x50, [0x417]), (0x41, [0x424]),
     (0x53, [0x42B]), (0x44, [0x412]), (0x46, [0x410]), (0x47, [0x41F]), (0x48, [0x420]),
     (0x4A, [0x41E]), (0x4B, [0x41B]), (0x4C, [0x414]), (0x5A, [0x42F]), (0x58, [0x427]),
     (0x43, [0x421]), (0x56, [0x41C]), (0x42, [0x418]), (0x4E, [0x422]), (0x4D, [0x42C])]"
  by (simp add: us_to_ru_table_def us_to_ru_pairs maketrans_def layout_pairs_def)

lemma ru_to_us_table_eq [code]: "ru_to_us_table =
    [(0x451, [0x60]), (0x439, [0x71]), (0x446, [0x77]), (0x443, [0x65]), (0x43A, [0x72]),
     (0x435, [0x74]), (0x43D, [0x79]), (0x433, [0x75]), (0x448, [0x69]), (0x449, [0x6F]),
     (0x437, [0x70]), (0x445, [0x5B]), (0x44A, [0x5D]), (0x5C, [0x5C]), (0x444, [0x61]),
     (0x44B, [0x73]), (0x432, [0x64]), (0x430, [0x66]), (0x43F, [0x67]), (0x440, [0x68]),
     (0x43E, [0x6A]), (0x43B, [0x6B]), (0x434, [0x6C]), (0x436, [0x3B]), (0x44D, [0x27]),
     (0x44F, [0x7A]), (0x447, [0x78]), (0x441, [0x63]), (0x43C, [0x76]), (0x438, [0x62]),
     (0x442, [0x6E]), (0x44C, [0x6D]), (0x431, [0x2C]), (0x44E, [0x2E]), (0x419, [0x51]),
     (0x426, [0x57]), (0x423, [0x45]), (0x41A, [0x52]), (0x415, [0x54]), (0x41D, [0x59]),
     (0x413, [0x55]), (0x428, [0x49]), (0x429, [0x4F]), (0x417, [0x50]), (0x424, [0x41]),
     (0x42B, [0x53]), (0x412, [0x44]), (0x410, [0x46]), (0x41F, [0x47]), (0x420, [0x48]),
     (0x41E, [0x4A]), (0x41B, [0x4B]), (0x414, [0x4C]), (0x42F, [0x5A]), (0x427, [0x58]),
     (0x421, [0x43]), (0x41C, [0x56]), (0x418, [0x42]), (0x422, [0x4E]), (0x42C, [0x4D])]"
  by (simp add: ru_to_us_table_def ru_to_us_pairs maketrans_def layout_pairs_def)

lemma layout_tables_pairs:
  "us_to_ru_table = map (\<lambda>(a, b). (a, [b])) layout_pairs"
  "ru_to_us_table = map (\<lambda>(a, b). (b, [a])) layout_pairs"
  by (simp_all add: us_to_ru_table_def us_to_ru_pairs ru_to_us_table_def ru_to_us_pairs maketrans_def case_prod_unfold)

lemma layout_pairs_distinct: "distinct (map fst layout_pairs)" "distinct (map snd layout_pairs)"
  by (simp_all add: layout_pairs_def)

interpretation us_ru: inverse_tables us_to_ru_table ru_to_us_table
  unfolding layout_tables_pairs by (rule inverse_tables_pairs) (rule layout_pairs_distinct)+

lemma inverse_tables_sym: "inverse_tables fwd bwd \<Longrightarrow> inverse_tables bwd fwd"
  by (simp add: inverse_tables_def inverse_tables_axioms_def key_table_def)

interpretation ru_us: inverse_tables ru_to_us_table us_to_ru_table
  by (rule inverse_tables_sym) (rule us_ru.inverse_tables_axioms)

subsection \<open>Properties of the layout pair\<close>

lemma us_to_ru_keys:
  "list_all (\<lambda>(k, v). length k = 1 \<and> length v = 1) us_to_ru"
  "list_all (\<lambda>(k, v). length k = 1 \<and> length v = 1) ru_to_us"
  by (simp_all add: us_to_ru_pairs ru_to_us_pairs list_all_iff case_prod_unfold)

text \<open>What each layout types: the characters of its row, and the capitals of its letter keys.\<close>

definition typed_by :: "(uchar, ustr) odict \<Rightarrow> uchar \<Rightarrow> bool" where
  "typed_by table c \<longleftrightarrow> map_of table c \<noteq> None"

text \<open>Each character of the text is one the layout types, or one the other layout does not type either.\<close>

definition typed_on :: "(uchar, ustr) odict \<Rightarrow> (uchar, ustr) odict \<Rightarrow> ustr \<Rightarrow> bool" where
  "typed_on own other s \<longleftrightarrow> list_all (\<lambda>c. typed_by own c \<or> \<not> typed_by other c) s"

lemma translate_us_ru: "translate s ''us'' ''ru'' = Inr (translate_with us_to_ru_table s)"
  and translate_ru_us: "translate s ''ru'' ''us'' = Inr (translate_with ru_to_us_table s)"
  by (simp_all add: translate_def)

text \<open>C37: Retyping keeps the length, and retyping the result back restores the text exactly when each of its
  characters is one the first layout types or one the other layout does not type; any other pair of
  layout names is refused with \<open>ValueError\<close>.\<close>

theorem translate_round_trip:
  "(\<exists>t. translate s ''us'' ''ru'' = Inr t \<and> length t = length s \<and>
      (translate t ''ru'' ''us'' = Inr s \<longleftrightarrow>
        typed_on us_to_ru_table ru_to_us_table s))
   \<and> (\<exists>t. translate s ''ru'' ''us'' = Inr t \<and> length t = length s \<and>
      (translate t ''us'' ''ru'' = Inr s \<longleftrightarrow>
        typed_on ru_to_us_table us_to_ru_table s))
   \<and> (translate s a b = Inl ValueError \<longleftrightarrow> a \<noteq> b \<and> (a, b) \<notin> {(''us'', ''ru''), (''ru'', ''us'')})"
proof (intro conjI)
  show "\<exists>t. translate s ''us'' ''ru'' = Inr t \<and> length t = length s \<and>
      (translate t ''ru'' ''us'' = Inr s \<longleftrightarrow>
        typed_on us_to_ru_table ru_to_us_table s)"
    using us_ru.translate_back_iff [of s]
    by (simp add: translate_us_ru translate_ru_us us_ru.length_translate typed_by_def typed_on_def list_all_iff)
  show "\<exists>t. translate s ''ru'' ''us'' = Inr t \<and> length t = length s \<and>
      (translate t ''us'' ''ru'' = Inr s \<longleftrightarrow>
        typed_on ru_to_us_table us_to_ru_table s)"
    using ru_us.translate_back_iff [of s]
    by (simp add: translate_us_ru translate_ru_us us_ru.reversed.length_translate typed_by_def typed_on_def list_all_iff)
  show "translate s a b = Inl ValueError \<longleftrightarrow> a \<noteq> b \<and> (a, b) \<notin> {(''us'', ''ru''), (''ru'', ''us'')}"
    by (auto simp: translate_def)
qed

end
