(* ===== verification/Selection_Text.thy ===== *)
theory Selection_Text
  imports Layouts
begin

text \<open>
  \<open>src/keyswitch/selection_text.py\<close>: what the selection hotkeys make of the selected text, its layout
  (\<open>convert_layout\<close>), its case (\<open>cycle_case\<close>) and its script (\<open>transliterate\<close>). The loops over
  characters are recursive functions with the same accumulators; the transliteration to Russian walks
  an index and looks at the text written so far, as the code does.
\<close>

subsection \<open>The tables of every key, shifted signs included\<close>

definition US_SHIFTED_SIGNS :: ustr where
  "US_SHIFTED_SIGNS = [0x7E, 0x7B, 0x7D, 0x7C, 0x3A, 0x22, 0x3C, 0x3E, 0x2F, 0x3F, 0x40, 0x23, 0x24, 0x5E, 0x26]"

definition RU_SHIFTED_SIGNS :: ustr where
  "RU_SHIFTED_SIGNS =
    [0x401, 0x425, 0x42A, 0x2F, 0x416, 0x42D, 0x411, 0x42E, 0x2E, 0x2C, 0x22, 0x2116, 0x3B, 0x3A, 0x3F]"

text \<open>\<open>_full_map\<close>: the pair's dictionary updated with the shifted signs, as a translation table.\<close>

definition full_map :: "(ustr, ustr) odict \<Rightarrow> ustr \<Rightarrow> ustr \<Rightarrow> (uchar, ustr) odict" where
  "full_map base source target =
     maketrans (fold (\<lambda>(a, b). AList.update [a] [b]) (zip source target) base)"

definition sel_us_to_ru :: "(uchar, ustr) odict" where
  "sel_us_to_ru = full_map us_to_ru US_SHIFTED_SIGNS RU_SHIFTED_SIGNS"

definition sel_ru_to_us :: "(uchar, ustr) odict" where
  "sel_ru_to_us = full_map ru_to_us RU_SHIFTED_SIGNS US_SHIFTED_SIGNS"

definition sign_pairs :: "(uchar \<times> uchar) list" where
  "sign_pairs =
    [(0x7E, 0x401), (0x7B, 0x425), (0x7D, 0x42A), (0x7C, 0x2F), (0x3A, 0x416), (0x22, 0x42D),
     (0x3C, 0x411), (0x3E, 0x42E), (0x2F, 0x2E), (0x3F, 0x2C), (0x40, 0x22), (0x23, 0x2116),
     (0x24, 0x3B), (0x5E, 0x3A), (0x26, 0x3F)]"

lemma sign_pairs_zip: "zip US_SHIFTED_SIGNS RU_SHIFTED_SIGNS = sign_pairs"
  "zip RU_SHIFTED_SIGNS US_SHIFTED_SIGNS = map (\<lambda>(a, b). (b, a)) sign_pairs"
  by (simp_all add: sign_pairs_def US_SHIFTED_SIGNS_def RU_SHIFTED_SIGNS_def)

lemma key_pairs_distinct:
  "distinct (map fst (layout_pairs @ sign_pairs))" "distinct (map snd (layout_pairs @ sign_pairs))"
  by (simp_all add: layout_pairs_def sign_pairs_def)

lemma full_map_fresh:
  assumes "distinct (map fst base @ map (\<lambda>(a, b). [a]) (zip source target))"
  shows "full_map base source target = maketrans (base @ map (\<lambda>(a, b). ([a], [b])) (zip source target))"
  using fold_update_fresh [of base "\<lambda>(a, b). [a]" "\<lambda>x. True" "zip source target" "\<lambda>(a, b). [b]"] assms
  by (simp add: full_map_def case_prod_unfold)

lemma distinct_single: "distinct (map (\<lambda>x. [f x]) xs) \<longleftrightarrow> distinct (map f xs)"
  by (induction xs) auto

lemma sel_tables_pairs:
  "sel_us_to_ru = map (\<lambda>(a, b). (a, [b])) (layout_pairs @ sign_pairs)"
  "sel_ru_to_us = map (\<lambda>(a, b). (b, [a])) (layout_pairs @ sign_pairs)"
proof -
  have "distinct (map (\<lambda>p. [fst p]) (layout_pairs @ sign_pairs))"
    "distinct (map (\<lambda>p. [snd p]) (layout_pairs @ sign_pairs))"
    using key_pairs_distinct unfolding distinct_single by blast+
  then show "sel_us_to_ru = map (\<lambda>(a, b). (a, [b])) (layout_pairs @ sign_pairs)"
    "sel_ru_to_us = map (\<lambda>(a, b). (b, [a])) (layout_pairs @ sign_pairs)"
    unfolding sel_us_to_ru_def sel_ru_to_us_def us_to_ru_pairs ru_to_us_pairs
    by (subst full_map_fresh; simp add: sign_pairs_zip maketrans_def case_prod_unfold comp_def)+
qed

lemma sel_us_to_ru_eq [code]: "sel_us_to_ru =
    [(0x60, [0x451]), (0x71, [0x439]), (0x77, [0x446]), (0x65, [0x443]), (0x72, [0x43A]),
     (0x74, [0x435]), (0x79, [0x43D]), (0x75, [0x433]), (0x69, [0x448]), (0x6F, [0x449]),
     (0x70, [0x437]), (0x5B, [0x445]), (0x5D, [0x44A]), (0x5C, [0x5C]), (0x61, [0x444]),
     (0x73, [0x44B]), (0x64, [0x432]), (0x66, [0x430]), (0x67, [0x43F]), (0x68, [0x440]),
     (0x6A, [0x43E]), (0x6B, [0x43B]), (0x6C, [0x434]), (0x3B, [0x436]), (0x27, [0x44D]),
     (0x7A, [0x44F]), (0x78, [0x447]), (0x63, [0x441]), (0x76, [0x43C]), (0x62, [0x438]),
     (0x6E, [0x442]), (0x6D, [0x44C]), (0x2C, [0x431]), (0x2E, [0x44E]), (0x51, [0x419]),
     (0x57, [0x426]), (0x45, [0x423]), (0x52, [0x41A]), (0x54, [0x415]), (0x59, [0x41D]),
     (0x55, [0x413]), (0x49, [0x428]), (0x4F, [0x429]), (0x50, [0x417]), (0x41, [0x424]),
     (0x53, [0x42B]), (0x44, [0x412]), (0x46, [0x410]), (0x47, [0x41F]), (0x48, [0x420]),
     (0x4A, [0x41E]), (0x4B, [0x41B]), (0x4C, [0x414]), (0x5A, [0x42F]), (0x58, [0x427]),
     (0x43, [0x421]), (0x56, [0x41C]), (0x42, [0x418]), (0x4E, [0x422]), (0x4D, [0x42C]),
     (0x7E, [0x401]), (0x7B, [0x425]), (0x7D, [0x42A]), (0x7C, [0x2F]), (0x3A, [0x416]),
     (0x22, [0x42D]), (0x3C, [0x411]), (0x3E, [0x42E]), (0x2F, [0x2E]), (0x3F, [0x2C]),
     (0x40, [0x22]), (0x23, [0x2116]), (0x24, [0x3B]), (0x5E, [0x3A]), (0x26, [0x3F])]"
  by (simp add: sel_tables_pairs layout_pairs_def sign_pairs_def)

lemma sel_ru_to_us_eq [code]: "sel_ru_to_us =
    [(0x451, [0x60]), (0x439, [0x71]), (0x446, [0x77]), (0x443, [0x65]), (0x43A, [0x72]),
     (0x435, [0x74]), (0x43D, [0x79]), (0x433, [0x75]), (0x448, [0x69]), (0x449, [0x6F]),
     (0x437, [0x70]), (0x445, [0x5B]), (0x44A, [0x5D]), (0x5C, [0x5C]), (0x444, [0x61]),
     (0x44B, [0x73]), (0x432, [0x64]), (0x430, [0x66]), (0x43F, [0x67]), (0x440, [0x68]),
     (0x43E, [0x6A]), (0x43B, [0x6B]), (0x434, [0x6C]), (0x436, [0x3B]), (0x44D, [0x27]),
     (0x44F, [0x7A]), (0x447, [0x78]), (0x441, [0x63]), (0x43C, [0x76]), (0x438, [0x62]),
     (0x442, [0x6E]), (0x44C, [0x6D]), (0x431, [0x2C]), (0x44E, [0x2E]), (0x419, [0x51]),
     (0x426, [0x57]), (0x423, [0x45]), (0x41A, [0x52]), (0x415, [0x54]), (0x41D, [0x59]),
     (0x413, [0x55]), (0x428, [0x49]), (0x429, [0x4F]), (0x417, [0x50]), (0x424, [0x41]),
     (0x42B, [0x53]), (0x412, [0x44]), (0x410, [0x46]), (0x41F, [0x47]), (0x420, [0x48]),
     (0x41E, [0x4A]), (0x41B, [0x4B]), (0x414, [0x4C]), (0x42F, [0x5A]), (0x427, [0x58]),
     (0x421, [0x43]), (0x41C, [0x56]), (0x418, [0x42]), (0x422, [0x4E]), (0x42C, [0x4D]),
     (0x401, [0x7E]), (0x425, [0x7B]), (0x42A, [0x7D]), (0x2F, [0x7C]), (0x416, [0x3A]),
     (0x42D, [0x22]), (0x411, [0x3C]), (0x42E, [0x3E]), (0x2E, [0x2F]), (0x2C, [0x3F]),
     (0x22, [0x40]), (0x2116, [0x23]), (0x3B, [0x24]), (0x3A, [0x5E]), (0x3F, [0x26])]"
  by (simp add: sel_tables_pairs layout_pairs_def sign_pairs_def)

interpretation sel_us_ru: inverse_tables sel_us_to_ru sel_ru_to_us
  unfolding sel_tables_pairs by (rule inverse_tables_pairs) (rule key_pairs_distinct)+

interpretation sel_ru_us: inverse_tables sel_ru_to_us sel_us_to_ru
  by (rule inverse_tables_sym) (rule sel_us_ru.inverse_tables_axioms)

text \<open>The letters each layout types, small and capital.\<close>

definition layout_letters :: "ustr \<Rightarrow> ustr" where
  "layout_letters keys = concat (map (\<lambda>key. if isalpha_ch key then key # upper_ch key else []) keys)"

definition LATIN_LETTERS :: ustr where
  "LATIN_LETTERS = layout_letters US_KEYS"

definition CYRILLIC_LETTERS :: ustr where
  "CYRILLIC_LETTERS = layout_letters RU_KEYS"

subsection \<open>Layout conversion\<close>

datatype layout = US_LAYOUT | RU_LAYOUT

definition sel_table :: "layout \<Rightarrow> (uchar, ustr) odict" where
  "sel_table l = (case l of US_LAYOUT \<Rightarrow> sel_us_to_ru | RU_LAYOUT \<Rightarrow> sel_ru_to_us)"

definition other_layout :: "layout \<Rightarrow> layout" where
  "other_layout l = (case l of US_LAYOUT \<Rightarrow> RU_LAYOUT | RU_LAYOUT \<Rightarrow> US_LAYOUT)"

definition sel_letters :: "layout \<Rightarrow> ustr" where
  "sel_letters l = (case l of US_LAYOUT \<Rightarrow> LATIN_LETTERS | RU_LAYOUT \<Rightarrow> CYRILLIC_LETTERS)"

record layout_conversion =
  conv_text :: ustr
  conv_source :: layout
  conv_target :: layout

definition letter_count :: "layout \<Rightarrow> ustr \<Rightarrow> nat" where
  "letter_count l text = length (filter (\<lambda>c. c \<in> set (sel_letters l)) text)"

text \<open>
  \<open>_converted_runs\<close>. A run is closed at a character the source layout does not type (and at the end
  of the text): from its first letter to its last it is retyped, its signs at either end are not.
\<close>

definition close_run :: "layout \<Rightarrow> ustr \<Rightarrow> ustr" where
  "close_run source run =
     (let inside = filter (\<lambda>i. run ! i \<in> set (sel_letters source)) [0..<length run]
      in if inside = [] then run
         else let first = hd inside; past = Suc (last inside)
              in take first run @ translate_with (sel_table source) (drop first (take past run)) @ drop past run)"

fun converted_runs_from :: "layout \<Rightarrow> ustr \<Rightarrow> ustr \<Rightarrow> ustr" where
  "converted_runs_from source run [] = close_run source run"
| "converted_runs_from source run (c # text) =
     (if map_of (sel_table source) c \<noteq> None then converted_runs_from source (run @ [c]) text
      else close_run source run @ c # converted_runs_from source [] text)"

definition converted_runs :: "ustr \<Rightarrow> layout \<Rightarrow> ustr" where
  "converted_runs text source = converted_runs_from source [] text"

definition convert_layout :: "ustr \<Rightarrow> layout option \<Rightarrow> layout_conversion" where
  "convert_layout text current =
     (let latin = letter_count US_LAYOUT text; cyrillic = letter_count RU_LAYOUT text
      in if latin \<noteq> 0 \<and> cyrillic \<noteq> 0 \<and> latin \<noteq> cyrillic then
           let minority = (if latin < cyrillic then US_LAYOUT else RU_LAYOUT)
           in \<lparr>conv_text = converted_runs text minority, conv_source = minority,
               conv_target = other_layout minority\<rparr>
         else
           let source = (if cyrillic < latin then US_LAYOUT else if latin < cyrillic then RU_LAYOUT
                         else if current = Some RU_LAYOUT then RU_LAYOUT else US_LAYOUT)
           in \<lparr>conv_text = translate_with (sel_table source) text, conv_source = source,
               conv_target = other_layout source\<rparr>)"

subsection \<open>Case\<close>

definition cased_chars :: "ustr \<Rightarrow> ustr" where
  "cased_chars text = filter (\<lambda>c. [lower_ch c] \<noteq> upper_ch c) text"

definition word_inside :: "uchar \<Rightarrow> bool" where
  "word_inside c \<longleftrightarrow> c = 0x27 \<or> c = 0x2019"

text \<open>\<open>_title\<close>: \<open>earlier\<close> and \<open>previous\<close> are the two characters before the current one.\<close>

fun title_from :: "uchar option \<Rightarrow> uchar option \<Rightarrow> ustr \<Rightarrow> ustr" where
  "title_from earlier previous [] = []"
| "title_from earlier previous (c # text) =
     (let alnum = (\<lambda>x. case x of None \<Rightarrow> False | Some d \<Rightarrow> isalnum_ch d);
          inside = (alnum previous \<or>
            (case previous of None \<Rightarrow> False | Some d \<Rightarrow> word_inside d) \<and> alnum earlier)
      in (if inside then [lower_ch c] else upper_ch c) @ title_from previous (Some c) text)"

definition title_text :: "ustr \<Rightarrow> ustr" where
  "title_text text = title_from None None text"

text \<open>
  The runs of the regular expression of letters: word characters that are neither decimal digits nor
  the underscore.
\<close>

definition letter_run_ch :: "uchar \<Rightarrow> bool" where
  "letter_run_ch c \<longleftrightarrow> isalnum_ch c \<and> \<not> isdecimal_ch c"

definition letter_runs :: "ustr \<Rightarrow> ustr list" where
  "letter_runs text = filter (\<lambda>w. w \<noteq> []) (split_on (\<lambda>c. \<not> letter_run_ch c) text)"

definition CAPS_LOCK_WORD_MIN_CAPITALS :: nat where
  "CAPS_LOCK_WORD_MIN_CAPITALS = 4"

fun caps_lock_words :: "bool \<Rightarrow> ustr list \<Rightarrow> bool" where
  "caps_lock_words seen [] = seen"
| "caps_lock_words seen (word # words) =
     (case cased_chars word of
        [] \<Rightarrow> caps_lock_words seen words
      | [_] \<Rightarrow> caps_lock_words seen words
      | first # rest \<Rightarrow>
          if \<not> list_all isupper_ch rest then False
          else caps_lock_words
            (seen \<or> islower_ch first \<and> CAPS_LOCK_WORD_MIN_CAPITALS \<le> length rest) words)"

definition typed_under_caps_lock :: "ustr \<Rightarrow> bool" where
  "typed_under_caps_lock text = caps_lock_words False (letter_runs text)"

definition cycle_case :: "ustr \<Rightarrow> ustr" where
  "cycle_case text =
     (let letters = cased_chars text
      in if letters = [] then text
         else if typed_under_caps_lock text then swapcase text
         else let steps = (if list_all islower_ch letters then [upper, title_text, lower]
                           else if list_all isupper_ch letters then [title_text, lower, upper]
                           else [lower, upper, title_text])
              in case filter (\<lambda>r. r \<noteq> text) (map (\<lambda>step. step text) steps) of
                   [] \<Rightarrow> text | r # _ \<Rightarrow> r)"

subsection \<open>Transliteration\<close>

text \<open>ICAO Doc 9303: the Latin spelling of each small Russian letter; the soft sign has none.\<close>

definition CYRILLIC_TO_LATIN :: "(uchar, ustr) odict" where
  "CYRILLIC_TO_LATIN =
    [(0x430, asc ''a''), (0x431, asc ''b''), (0x432, asc ''v''), (0x433, asc ''g''), (0x434, asc ''d''),
     (0x435, asc ''e''), (0x451, asc ''e''), (0x436, asc ''zh''), (0x437, asc ''z''), (0x438, asc ''i''),
     (0x439, asc ''i''), (0x43A, asc ''k''), (0x43B, asc ''l''), (0x43C, asc ''m''), (0x43D, asc ''n''),
     (0x43E, asc ''o''), (0x43F, asc ''p''), (0x440, asc ''r''), (0x441, asc ''s''), (0x442, asc ''t''),
     (0x443, asc ''u''), (0x444, asc ''f''), (0x445, asc ''kh''), (0x446, asc ''ts''), (0x447, asc ''ch''),
     (0x448, asc ''sh''), (0x449, asc ''shch''), (0x44A, asc ''ie''), (0x44B, asc ''y''), (0x44C, asc ''''),
     (0x44D, asc ''e''), (0x44E, asc ''iu''), (0x44F, asc ''ia'')]"

definition LATIN_TO_CYRILLIC :: "(ustr, ustr) odict" where
  "LATIN_TO_CYRILLIC =
    [(asc ''shch'', [0x449]), (asc ''zh'', [0x436]), (asc ''kh'', [0x445]), (asc ''ts'', [0x446]),
     (asc ''ch'', [0x447]), (asc ''sh'', [0x448]), (asc ''iu'', [0x44E]), (asc ''ia'', [0x44F]),
     (asc ''ya'', [0x44F]), (asc ''yu'', [0x44E]), (asc ''yo'', [0x451]), (asc ''ja'', [0x44F]),
     (asc ''ju'', [0x44E]), (asc ''jo'', [0x451]), (asc ''a'', [0x430]), (asc ''b'', [0x431]),
     (asc ''v'', [0x432]), (asc ''g'', [0x433]), (asc ''d'', [0x434]), (asc ''e'', [0x435]),
     (asc ''z'', [0x437]), (asc ''i'', [0x438]), (asc ''k'', [0x43A]), (asc ''l'', [0x43B]),
     (asc ''m'', [0x43C]), (asc ''n'', [0x43D]), (asc ''o'', [0x43E]), (asc ''p'', [0x43F]),
     (asc ''r'', [0x440]), (asc ''s'', [0x441]), (asc ''t'', [0x442]), (asc ''u'', [0x443]),
     (asc ''f'', [0x444]), (asc ''y'', [0x44B]), (asc ''c'', [0x446]), (asc ''h'', [0x445]),
     (asc ''j'', [0x439]), (asc ''q'', [0x43A]), (asc ''w'', [0x432]), (asc ''x'', [0x43A, 0x441])]"

text \<open>\<open>sorted({len(s) for s in LATIN_TO_CYRILLIC}, reverse=True)\<close>.\<close>

definition SEQUENCE_LENGTHS :: "nat list" where
  "SEQUENCE_LENGTHS = rev (sort (remdups (map (\<lambda>(s, _). length s) LATIN_TO_CYRILLIC)))"

definition char_at :: "ustr \<Rightarrow> nat \<Rightarrow> uchar option" where
  "char_at text i = (if i < length text then Some (text ! i) else None)"

definition holds_at :: "(uchar \<Rightarrow> bool) \<Rightarrow> ustr \<Rightarrow> nat \<Rightarrow> bool" where
  "holds_at p text i \<longleftrightarrow> (case char_at text i of None \<Rightarrow> False | Some c \<Rightarrow> p c)"

definition in_case :: "ustr \<Rightarrow> ustr \<Rightarrow> nat \<Rightarrow> nat \<Rightarrow> ustr" where
  "in_case output text start stop =
     (if \<not> isupper_ch (text ! start) then lower output
      else let capitals =
             (holds_at isupper_ch text stop
              \<or> 1 < stop - start \<and> isupper (take (stop - start) (drop start text))
              \<or> \<not> holds_at isalpha_ch text stop \<and> 0 < start \<and> holds_at isupper_ch text (start - 1))
           in if capitals then upper output else capitalize output)"

definition to_latin :: "ustr \<Rightarrow> ustr" where
  "to_latin text = concat (map (\<lambda>i.
     (case map_of CYRILLIC_TO_LATIN (lower_ch (text ! i)) of
        None \<Rightarrow> [text ! i] | Some latin \<Rightarrow> in_case latin text i (Suc i))) [0..<length text])"

definition latin_letter :: "uchar \<Rightarrow> bool" where
  "latin_letter c \<longleftrightarrow> c < 128 \<and> isalpha_ch c"

definition word_edge :: "ustr \<Rightarrow> nat \<Rightarrow> bool" where
  "word_edge text i \<longleftrightarrow> \<not> holds_at latin_letter text i"

definition VERB_ENDING :: "ustr \<times> ustr" where
  "VERB_ENDING = (asc ''tsia'', [0x442, 0x441, 0x44F])"

definition TS_BEFORE_K :: "ustr \<times> ustr" where
  "TS_BEFORE_K = (asc ''tsk'', [0x442, 0x441])"

definition INITIAL_YE :: "ustr \<times> ustr" where
  "INITIAL_YE = (asc ''ye'', [0x435])"

definition reads_at :: "ustr \<Rightarrow> nat \<Rightarrow> ustr \<Rightarrow> bool" where
  "reads_at text i latin \<longleftrightarrow> lower (take (length latin) (drop i text)) = latin"

definition placed_sequence :: "ustr \<Rightarrow> nat \<Rightarrow> (ustr \<times> ustr) option" where
  "placed_sequence text i =
     (if word_edge text (i + length (fst VERB_ENDING)) \<and> reads_at text i (fst VERB_ENDING) then Some VERB_ENDING
      else if reads_at text i (fst TS_BEFORE_K) then Some (butlast (fst TS_BEFORE_K), snd TS_BEFORE_K)
      else if (i = 0 \<or> word_edge text (i - 1)) \<and> reads_at text i (fst INITIAL_YE) then Some INITIAL_YE
      else None)"

definition SHORT_I :: uchar where "SHORT_I = 0x439"
definition CYRILLIC_I :: uchar where "CYRILLIC_I = 0x438"
definition SOFT_SIGN :: uchar where "SOFT_SIGN = 0x44c"

definition CYRILLIC_VOWELS :: ustr where
  "CYRILLIC_VOWELS = [0x430, 0x435, 0x451, 0x438, 0x43E, 0x443, 0x44B, 0x44D, 0x44E, 0x44F]"

definition BEFORE_ADJECTIVE_ENDING :: ustr where
  "BEFORE_ADJECTIVE_ENDING = [0x43A, 0x433, 0x445]"

definition short_i :: "ustr \<Rightarrow> nat \<Rightarrow> ustr \<Rightarrow> bool" where
  "short_i text stop parts =
     (case rev (lower parts) of
        [] \<Rightarrow> False
      | vowel # earlier \<Rightarrow>
          if vowel \<notin> set CYRILLIC_VOWELS then False
          else if \<not> word_edge text stop then lower_ch (text ! stop) \<notin> set (asc ''aeiouy'')
          else vowel \<noteq> CYRILLIC_I \<or> (case earlier of [] \<Rightarrow> False | c # _ \<Rightarrow> c \<in> set BEFORE_ADJECTIVE_ENDING))"

text \<open>The longest sequence of the table that stands at \<open>i\<close>; only ASCII letters are read.\<close>

definition table_sequence :: "ustr \<Rightarrow> nat \<Rightarrow> ustr option" where
  "table_sequence text i =
     (case filter (\<lambda>chunk. list_all (\<lambda>c. c < 128) chunk \<and> map_of LATIN_TO_CYRILLIC (lower chunk) \<noteq> None)
             (map (\<lambda>n. take n (drop i text)) SEQUENCE_LENGTHS) of
        [] \<Rightarrow> None | chunk # _ \<Rightarrow> Some (lower chunk))"

text \<open>
  One step of \<open>_to_cyrillic\<close> at index \<open>i\<close> with \<open>parts\<close> written so far: how many characters it reads
  and what it writes.
\<close>

definition cyrillic_step :: "ustr \<Rightarrow> nat \<Rightarrow> ustr \<Rightarrow> nat \<times> ustr" where
  "cyrillic_step text i parts =
     (let placed = placed_sequence text i;
          found = (case placed of Some (s, _) \<Rightarrow> Some s | None \<Rightarrow> table_sequence text i)
      in case found of
           None \<Rightarrow>
             let between = (0 < i \<and> latin_letter (text ! (i - 1)) \<and> \<not> word_edge text (Suc i))
             in (1, [if word_inside (text ! i) \<and> between then SOFT_SIGN else text ! i])
         | Some s \<Rightarrow>
             let stop = i + length s;
                 cyrillic = (case placed of Some (_, c) \<Rightarrow> c
                             | None \<Rightarrow> (case map_of LATIN_TO_CYRILLIC s of None \<Rightarrow> [] | Some c \<Rightarrow> c));
                 written = (if s = asc ''i'' \<and> short_i text stop parts then [SHORT_I] else cyrillic)
             in (length s, in_case written text i stop))"

lemma placed_sequence_nonempty: "placed_sequence text i = Some (s, c) \<Longrightarrow> s \<noteq> []"
  by (auto simp: placed_sequence_def VERB_ENDING_def TS_BEFORE_K_def INITIAL_YE_def asc_def split: if_splits)

lemma table_sequence_nonempty: "table_sequence text i = Some s \<Longrightarrow> s \<noteq> []"
proof
  assume found: "table_sequence text i = Some s" and "s = []"
  have "map_of LATIN_TO_CYRILLIC [] = None"
    by (simp add: LATIN_TO_CYRILLIC_def asc_def)
  moreover have "map_of LATIN_TO_CYRILLIC s \<noteq> None"
    using found by (auto simp: table_sequence_def filter_eq_Cons_iff split: list.splits)
  ultimately show False using \<open>s = []\<close> by simp
qed

lemma cyrillic_step_advances: "0 < fst (cyrillic_step text i parts)"
  using placed_sequence_nonempty [of "text" i] table_sequence_nonempty [of "text" i]
  by (auto simp: cyrillic_step_def Let_def split: option.splits prod.splits)

function to_cyrillic_from :: "ustr \<Rightarrow> nat \<Rightarrow> ustr \<Rightarrow> ustr" where
  "to_cyrillic_from text i parts =
     (if i < length text
      then let (n, out) = cyrillic_step text i parts in to_cyrillic_from text (i + n) (parts @ out)
      else parts)"
  by pat_completeness auto
termination
proof (relation "measure (\<lambda>(text, i, _). length text - i)")
  fix "text" i parts x n out
  assume "i < length text" "x = cyrillic_step text i parts" "(n, out) = x"
  moreover from this have "0 < n" using cyrillic_step_advances [of "text" i parts] by (metis fst_conv)
  ultimately show "((text, i + n, parts @ out), (text, i, parts)) \<in> measure (\<lambda>(text, i, _). length text - i)"
    by simp
qed simp

declare to_cyrillic_from.simps [simp del]

definition to_cyrillic :: "ustr \<Rightarrow> ustr" where
  "to_cyrillic text = to_cyrillic_from text 0 []"

definition transliterate :: "ustr \<Rightarrow> ustr" where
  "transliterate text =
     (let latin = letter_count US_LAYOUT text; cyrillic = letter_count RU_LAYOUT text
      in if cyrillic \<noteq> 0 \<and> latin \<le> cyrillic then to_latin text
         else if latin \<noteq> 0 then to_cyrillic text
         else text)"

subsection \<open>The letters of the two layouts\<close>

lemma LATIN_LETTERS_eq [code]: "LATIN_LETTERS =
    [0x71, 0x51, 0x77, 0x57, 0x65, 0x45, 0x72, 0x52, 0x74, 0x54, 0x79, 0x59, 0x75, 0x55, 0x69, 0x49,
     0x6F, 0x4F, 0x70, 0x50, 0x61, 0x41, 0x73, 0x53, 0x64, 0x44, 0x66, 0x46, 0x67, 0x47, 0x68, 0x48,
     0x6A, 0x4A, 0x6B, 0x4B, 0x6C, 0x4C, 0x7A, 0x5A, 0x78, 0x58, 0x63, 0x43, 0x76, 0x56, 0x62, 0x42,
     0x6E, 0x4E, 0x6D, 0x4D]"
  by (simp add: LATIN_LETTERS_def layout_letters_def US_KEYS_def isalpha_ch_def letter_class_def upper_ch_def)

lemma CYRILLIC_LETTERS_eq [code]: "CYRILLIC_LETTERS =
    [0x451, 0x401, 0x439, 0x419, 0x446, 0x426, 0x443, 0x423, 0x43A, 0x41A, 0x435, 0x415, 0x43D, 0x41D,
     0x433, 0x413, 0x448, 0x428, 0x449, 0x429, 0x437, 0x417, 0x445, 0x425, 0x44A, 0x42A, 0x444, 0x424,
     0x44B, 0x42B, 0x432, 0x412, 0x430, 0x410, 0x43F, 0x41F, 0x440, 0x420, 0x43E, 0x41E, 0x43B, 0x41B,
     0x434, 0x414, 0x436, 0x416, 0x44D, 0x42D, 0x44F, 0x42F, 0x447, 0x427, 0x441, 0x421, 0x43C, 0x41C,
     0x438, 0x418, 0x442, 0x422, 0x44C, 0x42C, 0x431, 0x411, 0x44E, 0x42E]"
  by (simp add: CYRILLIC_LETTERS_def layout_letters_def RU_KEYS_def isalpha_ch_def letter_class_def upper_ch_def)

definition is_letter_of :: "layout \<Rightarrow> uchar \<Rightarrow> bool" where
  "is_letter_of l c \<longleftrightarrow> (case l of US_LAYOUT \<Rightarrow> 0x41 \<le> c \<and> c \<le> 0x5A \<or> 0x61 \<le> c \<and> c \<le> 0x7A
     | RU_LAYOUT \<Rightarrow> 0x410 \<le> c \<and> c \<le> 0x44F \<or> c = 0x401 \<or> c = 0x451)"

lemma sel_letters_range: "c \<in> set (sel_letters l) \<Longrightarrow> is_letter_of l c"
proof -
  have "list_all (is_letter_of l) (sel_letters l)"
    by (cases l) (simp_all add: sel_letters_def is_letter_of_def LATIN_LETTERS_eq CYRILLIC_LETTERS_eq)
  then show "c \<in> set (sel_letters l) \<Longrightarrow> is_letter_of l c" by (simp add: list_all_iff)
qed

lemma letters_typed:
  "c \<in> set (sel_letters l) \<Longrightarrow> map_of (sel_table l) c \<noteq> None"
  "c \<in> set (sel_letters (other_layout l)) \<Longrightarrow> map_of (sel_table l) c = None"
proof -
  have "set LATIN_LETTERS \<subseteq> fst ` set (layout_pairs @ sign_pairs)"
    "set CYRILLIC_LETTERS \<subseteq> snd ` set (layout_pairs @ sign_pairs)"
    by (simp_all add: LATIN_LETTERS_eq CYRILLIC_LETTERS_eq layout_pairs_def sign_pairs_def)
  then have "set (sel_letters l) \<subseteq> fst ` set (sel_table l)"
    by (cases l) (simp_all add: sel_letters_def sel_table_def sel_tables_pairs image_image image_Un case_prod_unfold)
  then show "c \<in> set (sel_letters l) \<Longrightarrow> map_of (sel_table l) c \<noteq> None"
    by (auto simp: map_of_eq_None_iff)
  have "list_all (\<lambda>(c, v). \<not> is_letter_of (other_layout l) c) (sel_table l)"
    by (cases l) (simp_all add: is_letter_of_def sel_table_def other_layout_def sel_us_to_ru_eq sel_ru_to_us_eq)
  then show "c \<in> set (sel_letters (other_layout l)) \<Longrightarrow> map_of (sel_table l) c = None"
    by (cases "map_of (sel_table l) c") (auto simp: list_all_iff dest!: map_of_SomeD sel_letters_range)
qed

text \<open>A retyped letter is no letter of its own layout.\<close>

lemma retyped_not_own_letter:
  "map_of (sel_table l) c = Some v \<Longrightarrow> set v \<inter> set (sel_letters l) = {}"
proof -
  have "list_all (\<lambda>(c, v). list_all (\<lambda>d. \<not> is_letter_of l d) v) (sel_table l)"
    by (cases l) (simp_all add: is_letter_of_def sel_table_def sel_us_to_ru_eq sel_ru_to_us_eq)
  then show "map_of (sel_table l) c = Some v \<Longrightarrow> set v \<inter> set (sel_letters l) = {}"
    by (auto simp: list_all_iff dest!: map_of_SomeD sel_letters_range)
qed

lemma sel_tables: "inverse_tables (sel_table l) (sel_table (other_layout l))"
  by (cases l) (simp_all add: sel_table_def other_layout_def sel_us_ru.inverse_tables_axioms sel_ru_us.inverse_tables_axioms)

lemma other_other [simp]: "other_layout (other_layout l) = l"
  by (cases l) (simp_all add: other_layout_def)

lemma other_neq [simp]: "other_layout l \<noteq> l" "l \<noteq> other_layout l"
  by (cases l; simp add: other_layout_def)+

lemma length_translate_sel [simp]: "length (translate_with (sel_table l) s) = length s"
  by (rule key_table.length_translate [of _ "sel_table (other_layout l)"])
    (rule inverse_tables.axioms(1) [OF sel_tables])

lemma letter_count_eq_0: "letter_count l s = 0 \<longleftrightarrow> set s \<inter> set (sel_letters l) = {}"
  by (auto simp: letter_count_def filter_empty_conv)

lemma letter_count_append [simp]: "letter_count l (s @ t) = letter_count l s + letter_count l t"
  by (simp add: letter_count_def)

lemma no_own_letters: "letter_count l (translate_with (sel_table l) s) = 0"
proof (induction s)
  case Nil
  then show ?case by (simp add: letter_count_def)
next
  case (Cons c s)
  then show ?case
    using retyped_not_own_letter [of l c] letters_typed(1) [of c l]
    by (auto simp: letter_count_eq_0 translate_with_Cons split: option.splits)
qed

lemma casefold_title_from: "casefold (title_from a b s) = casefold s"
  by (induction a b s rule: title_from.induct) (auto simp: Let_def casefold_Cons)

lemma casefold_title_text [simp]: "casefold (title_text s) = casefold s"
  by (simp add: title_text_def casefold_title_from)

subsection \<open>Every press keeps the letters\<close>

lemma islower_cased: "c \<in> set (cased_chars text) \<Longrightarrow> isupper_ch c \<or> islower_ch c"
  by (auto simp: cased_chars_def isupper_ch_def islower_ch_def lower_ch_def upper_ch_def split: letter_class.splits)

lemma isupper_is_cased: "isupper_ch c \<Longrightarrow> [lower_ch c] \<noteq> upper_ch c"
  using lower_ch_neq [of c] by (auto simp: isupper_ch_def upper_ch_def split: letter_class.splits)

lemma concat_map_same: "concat (map f s) = s \<Longrightarrow> (\<And>c. f c \<noteq> []) \<Longrightarrow> c \<in> set s \<Longrightarrow> f c = [c]"
proof (induction s)
  case Nil
  then show ?case by simp
next
  case (Cons a s)
  have len: "length t \<le> length (concat (map f t))" for t
  proof (induction t)
    case (Cons b t)
    have "0 < length (f b)" using \<open>\<And>c. f c \<noteq> []\<close> by simp
    then have "Suc (length t) \<le> length (f b) + length (concat (map f t))" using Cons by linarith
    then show ?case by simp
  qed simp
  obtain b t where f: "f a = b # t" using Cons.prems(2) by (cases "f a") auto
  with Cons.prems(1) have "t @ concat (map f s) = s" and b: "b = a" by auto
  then have "length t + length (concat (map f s)) = length s" by (metis length_append)
  with len [of s] have "length t = 0" by linarith
  then have "t = []" by simp
  with \<open>t @ concat (map f s) = s\<close> f b Cons show ?case by auto
qed

lemma upper_fixed_ch: "upper s = s \<Longrightarrow> c \<in> set s \<Longrightarrow> upper_ch c = [c]"
  unfolding upper_def by (rule concat_map_same) auto

lemma swapcase_fixed_ch:
  assumes "swapcase s = s" and "c \<in> set s"
  shows "\<not> isupper_ch c \<and> (islower_ch c \<longrightarrow> upper_ch c = [c])"
proof -
  let ?f = "\<lambda>c. if isupper_ch c then [lower_ch c] else if islower_ch c then upper_ch c else [c]"
  have "?f c = [c]"
    by (rule concat_map_same [of ?f s]) (use assms in \<open>auto simp: swapcase_def\<close>)
  then show ?thesis using lower_ch_neq [of c] by (auto split: if_splits)
qed

lemma lower_not_cased: "islower_ch c \<Longrightarrow> c \<in> set (cased_chars s) \<Longrightarrow> upper_ch c \<noteq> [c]"
  using upper_ch_neq [of c] by (auto simp: cased_chars_def)

lemma cased_in: "c \<in> set (cased_chars s) \<Longrightarrow> c \<in> set s"
  by (simp add: cased_chars_def)

lemma caps_lock_words_cased:
  "caps_lock_words seen ws \<Longrightarrow> seen \<or> (\<exists>w\<in>set ws. \<exists>c\<in>set (cased_chars w). islower_ch c)"
proof (induction seen ws rule: caps_lock_words.induct)
  case (1 seen)
  then show ?case by simp
next
  case (2 seen word words)
  show ?case
  proof (cases "cased_chars word")
    case Nil
    with 2 show ?thesis by simp
  next
    case (Cons a as)
    with 2 show ?thesis by (cases as) (auto split: if_splits)
  qed
qed

lemma split_on_chars: "w \<in> set (split_on p s) \<Longrightarrow> set w \<subseteq> set s"
proof (induction s arbitrary: w)
  case Nil
  then show ?case by simp
next
  case (Cons c s)
  then show ?case
    by (cases "p c"; cases "split_on p s") (fastforce split: list.splits)+
qed

lemma caps_lock_cased_letter:
  assumes "typed_under_caps_lock text"
  shows "\<exists>c\<in>set (cased_chars text). islower_ch c"
proof -
  obtain w c where "w \<in> set (letter_runs text)" "c \<in> set (cased_chars w)" "islower_ch c"
    using caps_lock_words_cased [of False] assms unfolding typed_under_caps_lock_def by blast
  moreover from this have "set w \<subseteq> set text"
    using split_on_chars by (fastforce simp: letter_runs_def)
  ultimately show ?thesis by (auto simp: cased_chars_def)
qed

text \<open>A press of the case hotkey changes case only: whatever the selection, the result reads the same
  when case is ignored, and the selection is left unchanged exactly when it holds no letter that has
  two cases.\<close>

theorem cycle_case_changes_case_only:
  "casefold (cycle_case text) = casefold text \<and> (cycle_case text = text \<longleftrightarrow> cased_chars text = [])"
proof (cases "cased_chars text = [] \<or> typed_under_caps_lock text")
  case True
  then show ?thesis
  proof
    assume "cased_chars text = []"
    then show ?thesis by (simp add: cycle_case_def)
  next
    assume caps: "typed_under_caps_lock text"
    then obtain c where c: "c \<in> set (cased_chars text)" "islower_ch c"
      using caps_lock_cased_letter by blast
    then have "swapcase text \<noteq> text"
      using swapcase_fixed_ch [of "text" c] lower_not_cased cased_in by blast
    moreover have "cycle_case text = swapcase text" "cased_chars text \<noteq> []"
      using caps c by (auto simp: cycle_case_def Let_def)
    ultimately show ?thesis by simp
  qed
next
  case False
  define letters where "letters = cased_chars text"
  define steps where "steps = (if list_all islower_ch letters then [upper, title_text, lower]
      else if list_all isupper_ch letters then [title_text, lower, upper] else [lower, upper, title_text])"
  have fold: "casefold r = casefold text" if "r \<in> set (map (\<lambda>step. step text) steps)" for r
    using that by (auto simp: steps_def split: if_splits)
  have some: "\<exists>r \<in> set (map (\<lambda>step. step text) steps). r \<noteq> text"
  proof (cases "\<exists>c \<in> set letters. isupper_ch c")
    case True
    then have "lower text \<noteq> text"
      using lower_fixed [of "text"] cased_in by (auto simp: letters_def list_ex_iff)
    then show ?thesis by (auto simp: steps_def)
  next
    case no_upper: False
    moreover have "hd letters \<in> set letters" using False by (simp add: letters_def)
    then obtain c where c: "c \<in> set letters" by blast
    ultimately have "islower_ch c" using islower_cased by (auto simp: letters_def)
    then have "upper text \<noteq> text"
      using c upper_fixed_ch lower_not_cased cased_in unfolding letters_def by blast
    then show ?thesis by (auto simp: steps_def)
  qed
  have eq: "cycle_case text = (case filter (\<lambda>r. r \<noteq> text) (map (\<lambda>step. step text) steps) of [] \<Rightarrow> text | r # _ \<Rightarrow> r)"
    using False by (simp add: cycle_case_def steps_def letters_def Let_def)
  obtain r rs where rs: "filter (\<lambda>r. r \<noteq> text) (map (\<lambda>step. step text) steps) = r # rs"
    using some by (cases "filter (\<lambda>r. r \<noteq> text) (map (\<lambda>step. step text) steps)") (auto simp: filter_empty_conv)
  then have "r \<in> set (map (\<lambda>step. step text) steps) \<and> r \<noteq> text"
    by (metis (mono_tags, lifting) filter_eq_ConsD in_set_conv_decomp)
  with eq rs fold False show ?thesis by simp
qed

subsection \<open>Converting there and back\<close>

text \<open>A text typed wholly on one layout: every sign of it is one that layout types, or neither does.\<close>

definition typed_in :: "layout \<Rightarrow> ustr \<Rightarrow> bool" where
  "typed_in l text \<longleftrightarrow>
     list_all (\<lambda>c. map_of (sel_table l) c \<noteq> None \<or> map_of (sel_table (other_layout l)) c = None) text"

lemma typed_in_no_foreign: "typed_in l text \<Longrightarrow> letter_count (other_layout l) text = 0"
  using letters_typed(1) [of _ "other_layout l"] letters_typed(2) [of _ l]
  by (fastforce simp: typed_in_def letter_count_eq_0 list_all_iff)

lemma typed_in_back:
  "typed_in l text \<Longrightarrow> translate_with (sel_table (other_layout l)) (translate_with (sel_table l) text) = text"
  unfolding inverse_tables.translate_back_iff [OF sel_tables] by (simp add: typed_in_def list_all_iff)

lemma convert_whole_source:
  assumes "letter_count (other_layout l) text = 0" and "letter_count l text \<noteq> 0 \<or> current = Some l \<or> l = US_LAYOUT \<and> current = None"
  shows "convert_layout text current =
    \<lparr>conv_text = translate_with (sel_table l) text, conv_source = l, conv_target = other_layout l\<rparr>"
  using assms by (cases l) (auto simp: convert_layout_def Let_def other_layout_def)

lemma convert_source_letters:
  assumes "typed_in l text" and "conv_source (convert_layout text current) = l"
  shows "convert_layout text current =
    \<lparr>conv_text = translate_with (sel_table l) text, conv_source = l, conv_target = other_layout l\<rparr>"
  using assms(2) typed_in_no_foreign [OF assms(1)]
  by (cases l) (auto simp: convert_layout_def Let_def other_layout_def split: if_splits)

text \<open>C36: Pressing the layout hotkey again brings the text back: a selection typed wholly on the layout
  the conversion reads it in (every character one that layout types, or one neither types) is retyped
  into the other layout, the conversion names that layout as the one to switch to, and converting the
  result with that layout current restores the selection character for character.\<close>

theorem convert_layout_round_trip:
  assumes "typed_in (conv_source (convert_layout text current)) text"
  shows "conv_target (convert_layout text current) = other_layout (conv_source (convert_layout text current))
    \<and> conv_text (convert_layout (conv_text (convert_layout text current))
           (Some (conv_target (convert_layout text current)))) = text"
proof -
  obtain l where l: "conv_source (convert_layout text current) = l" by simp
  have typed: "typed_in l text" using assms by (simp only: l)
  note eq = convert_source_letters [OF typed l]
  have "convert_layout (translate_with (sel_table l) text) (Some (other_layout l)) =
      \<lparr>conv_text = translate_with (sel_table (other_layout l)) (translate_with (sel_table l) text),
       conv_source = other_layout l, conv_target = other_layout (other_layout l)\<rparr>"
    by (rule convert_whole_source) (simp_all add: no_own_letters)
  then show ?thesis
    using typed_in_back [OF typed] by (simp add: eq)
qed

theorem convert_layout_round_trip_witness:
  "conv_text (convert_layout (conv_text (convert_layout (asc ''ghbdtn, vbh'') (Some US_LAYOUT))) (Some RU_LAYOUT))
     = asc ''ghbdtn, vbh''"
proof -
  have c: "convert_layout (asc ''ghbdtn, vbh'') (Some US_LAYOUT) =
      \<lparr>conv_text = translate_with (sel_table US_LAYOUT) (asc ''ghbdtn, vbh''), conv_source = US_LAYOUT,
       conv_target = RU_LAYOUT\<rparr>"
    by (simp add: convert_layout_def letter_count_def sel_letters_def LATIN_LETTERS_eq CYRILLIC_LETTERS_eq
        asc_def other_layout_def)
  have t: "typed_in US_LAYOUT (asc ''ghbdtn, vbh'')"
    by (simp add: typed_in_def sel_table_def other_layout_def sel_us_to_ru_eq sel_ru_to_us_eq asc_def)
  have "typed_in (conv_source (convert_layout (asc ''ghbdtn, vbh'') (Some US_LAYOUT))) (asc ''ghbdtn, vbh'')"
    using t by (simp add: c)
  from convert_layout_round_trip [OF this] show ?thesis by (simp add: c)
qed

subsection \<open>Mixed selections\<close>

text \<open>The runs of \<open>converted_runs\<close> keep their length, and each character is kept or retyped.\<close>

definition kept_or_retyped :: "layout \<Rightarrow> ustr \<Rightarrow> ustr \<Rightarrow> bool" where
  "kept_or_retyped l s t \<longleftrightarrow> list_all2 (\<lambda>c d. d = c \<or> map_of (sel_table l) c = Some [d]) s t"

lemma kept_or_retyped_refl [simp]: "kept_or_retyped l s s"
  by (simp add: kept_or_retyped_def list_all2_refl)

lemma kept_or_retyped_append:
  "kept_or_retyped l s t \<Longrightarrow> kept_or_retyped l s' t' \<Longrightarrow> kept_or_retyped l (s @ s') (t @ t')"
  unfolding kept_or_retyped_def by (rule list_all2_appendI)

lemma kept_or_retyped_translate: "kept_or_retyped l s (translate_with (sel_table l) s)"
proof (induction s)
  case Nil
  then show ?case by (simp add: kept_or_retyped_def)
next
  case (Cons c s)
  have "\<exists>d. v = [d]" if "map_of (sel_table l) c = Some v" for v
    using inverse_tables.axioms(1) [OF sel_tables, of l] that unfolding key_table_def by blast
  with Cons show ?case
    by (cases "map_of (sel_table l) c") (auto simp: translate_with_Cons kept_or_retyped_def)
qed

lemma close_run_kept: "kept_or_retyped l run (close_run l run)"
proof (cases "filter (\<lambda>i. run ! i \<in> set (sel_letters l)) [0..<length run] = []")
  case True
  then show ?thesis by (simp add: close_run_def Let_def)
next
  case False
  define inside where "inside = filter (\<lambda>i. run ! i \<in> set (sel_letters l)) [0..<length run]"
  define m where "m = drop (hd inside) (take (Suc (last inside)) run)"
  have "sorted inside" unfolding inside_def by (intro sorted_wrt_filter sorted_upt)
  then have "hd inside \<le> last inside"
    using False by (cases inside) (auto simp: inside_def)
  then have "run = take (hd inside) run @ m @ drop (Suc (last inside)) run"
    by (metis (no_types, lifting) append.assoc append_take_drop_id le_SucI m_def min.absorb1 take_take)
  moreover have "close_run l run = take (hd inside) run @ translate_with (sel_table l) m @ drop (Suc (last inside)) run"
    using False by (simp add: close_run_def inside_def m_def Let_def)
  moreover have "kept_or_retyped l (take (hd inside) run @ m @ drop (Suc (last inside)) run)
      (take (hd inside) run @ translate_with (sel_table l) m @ drop (Suc (last inside)) run)"
    by (intro kept_or_retyped_append kept_or_retyped_translate kept_or_retyped_refl)
  ultimately show ?thesis by simp
qed

lemma close_run_no_letters: "letter_count l (close_run l run) = 0"
proof -
  define inside where "inside = filter (\<lambda>i. run ! i \<in> set (sel_letters l)) [0..<length run]"
  have in_iff: "i \<in> set inside \<longleftrightarrow> i < length run \<and> run ! i \<in> set (sel_letters l)" for i
    by (auto simp: inside_def)
  have sorted: "sorted inside" unfolding inside_def by (intro sorted_wrt_filter sorted_upt)
  show ?thesis
  proof (cases "inside = []")
    case True
    have "run ! i \<notin> set (sel_letters l)" if "i < length run" for i
      using in_iff [of i] that True by simp
    then have "set run \<inter> set (sel_letters l) = {}"
      by (auto simp: in_set_conv_nth)
    with True show ?thesis by (simp add: close_run_def Let_def letter_count_eq_0 inside_def)
  next
    case False
    have hd: "run ! i \<notin> set (sel_letters l)" if "i < hd inside" "i < length run" for i
      using in_iff [of i] that sorted False by (cases inside) auto
    have le_last: "i \<le> last inside" if "i \<in> set inside" for i
      using that sorted False by (metis last_conv_nth in_set_conv_nth sorted_nth_mono diff_less length_greater_0_conv
          less_Suc_eq_le Suc_diff_1 zero_less_one)
    have last: "run ! i \<notin> set (sel_letters l)" if "last inside < i" "i < length run" for i
    proof
      assume "run ! i \<in> set (sel_letters l)"
      with in_iff [of i] that(2) have "i \<in> set inside" by simp
      then have "i \<le> last inside" by (rule le_last)
      with that(1) show False by simp
    qed
    have "c \<notin> set (sel_letters l)" if "c \<in> set (take (hd inside) run)" for c
      using that hd by (metis in_set_conv_nth length_take min_less_iff_conj nth_take)
    then have "letter_count l (take (hd inside) run) = 0"
      by (auto simp: letter_count_eq_0)
    moreover have "c \<notin> set (sel_letters l)" if c: "c \<in> set (drop (Suc (last inside)) run)" for c
    proof -
      obtain j where "j < length run - Suc (last inside)" "c = run ! (Suc (last inside) + j)"
        using c by (auto simp: in_set_conv_nth)
      with last [of "Suc (last inside) + j"] show ?thesis by simp
    qed
    then have "letter_count l (drop (Suc (last inside)) run) = 0"
      by (auto simp: letter_count_eq_0)
    ultimately show ?thesis
      using False by (simp add: close_run_def Let_def inside_def no_own_letters)
  qed
qed

lemma converted_runs_from_spec:
  "kept_or_retyped l (run @ text) (converted_runs_from l run text)
   \<and> letter_count l (converted_runs_from l run text) = 0"
proof (induction l run "text" rule: converted_runs_from.induct)
  case (1 source run)
  then show ?case by (simp add: close_run_kept close_run_no_letters)
next
  case (2 source run c "text")
  show ?case
  proof (cases "map_of (sel_table source) c = None")
    case False
    with 2 show ?thesis by simp
  next
    case True
    then have "c \<notin> set (sel_letters source)" using letters_typed(1) by blast
    then have c: "letter_count source [c] = 0" by (simp add: letter_count_eq_0)
    have "kept_or_retyped source (run @ [c] @ text)
        (close_run source run @ [c] @ converted_runs_from source [] text)"
      using 2 True close_run_kept by (intro kept_or_retyped_append) auto
    moreover have "letter_count source (close_run source run @ [c] @ converted_runs_from source [] text) = 0"
      using 2 True c by (simp add: close_run_no_letters del: append_Cons)
    ultimately show ?thesis using True by simp
  qed
qed

text \<open>A selection that mixes the scripts unevenly is read as typed in the script with more letters:
  the conversion retypes characters of the minority's layout only (so every letter of the majority and
  every character that layout does not type stays, and the length is kept), leaves no letter of the
  minority script, and names the majority's layout as the one to switch to.\<close>

theorem convert_layout_mixed:
  assumes "letter_count l text \<noteq> 0" and "letter_count l text < letter_count (other_layout l) text"
  shows "conv_target (convert_layout text current) = other_layout l
    \<and> letter_count l (conv_text (convert_layout text current)) = 0
    \<and> list_all2 (\<lambda>c d. d = c \<or> c \<notin> set (sel_letters (other_layout l)) \<and> map_of (sel_table l) c = Some [d])
        text (conv_text (convert_layout text current))"
proof -
  have eq: "convert_layout text current =
      \<lparr>conv_text = converted_runs text l, conv_source = l, conv_target = other_layout l\<rparr>"
    using assms by (cases l) (auto simp: convert_layout_def Let_def other_layout_def)
  have "list_all2 (\<lambda>c d. d = c \<or> map_of (sel_table l) c = Some [d]) text (converted_runs text l)"
    using converted_runs_from_spec [of l "[]" "text"] by (simp add: converted_runs_def kept_or_retyped_def)
  then have "list_all2 (\<lambda>c d. d = c \<or> c \<notin> set (sel_letters (other_layout l)) \<and> map_of (sel_table l) c = Some [d])
      text (converted_runs text l)"
    by (rule list_all2_mono) (use letters_typed(2) in fastforce)
  then show ?thesis
    using converted_runs_from_spec [of l "[]" "text"] by (simp add: eq converted_runs_def)
qed

theorem convert_layout_mixed_witness:
  "letter_count US_LAYOUT (conv_text (convert_layout ([0x43F, 0x440, 0x438, 0x432] @ asc '' vbh'') None)) = 0"
proof -
  have "letter_count US_LAYOUT ([0x43F, 0x440, 0x438, 0x432] @ asc '' vbh'') = 3"
    "letter_count (other_layout US_LAYOUT) ([0x43F, 0x440, 0x438, 0x432] @ asc '' vbh'') = 4"
    by (simp_all add: letter_count_def sel_letters_def LATIN_LETTERS_eq CYRILLIC_LETTERS_eq asc_def other_layout_def)
  then show ?thesis
    using convert_layout_mixed [of US_LAYOUT "[0x43F, 0x440, 0x438, 0x432] @ asc '' vbh''" None] by simp
qed

subsection \<open>Three presses\<close>

text \<open>A character that is its own small form and whose capital is one character that leads back to it:
  every Russian and English small letter, and every character without case.\<close>

definition small_char :: "uchar \<Rightarrow> bool" where
  "small_char c \<longleftrightarrow> length (upper_ch c) = 1 \<and> lower_ch (hd (upper_ch c)) = c"

lemma small_charE:
  assumes "small_char c"
  obtains u where "upper_ch c = [u]" "lower_ch u = c" "upper_ch u = [u]" "lower_ch c = c"
    "isalnum_ch u = isalnum_ch c" "u = c \<or> isupper_ch u" "\<not> isupper_ch c"
proof -
  obtain u where u: "upper_ch c = [u]" "lower_ch u = c"
    using assms by (auto simp: small_char_def length_Suc_conv)
  have c: "lower_ch c = c" using u(2) lower_ch_idem [of u] by simp
  have not_upper: "\<not> isupper_ch c" using lower_ch_not_upper [of u] u by simp
  have or: "u = c \<or> isupper_ch u" using lower_ch_fixed [of u] u by auto
  have "upper_ch u = [u] \<and> isalnum_ch u = isalnum_ch c"
  proof (cases "u = c")
    case True
    with u show ?thesis by simp
  next
    case False
    with or have up: "isupper_ch u" by simp
    then have "islower_ch c"
      using upper_to_lower_class [of u] u(2)
      by (auto simp: isupper_ch_def islower_ch_def lower_ch_def split: letter_class.splits)
    with up show ?thesis
      by (auto simp: isalnum_ch_def alpha_iff_cased upper_ch_def isupper_ch_def split: letter_class.splits)
  qed
  with u c not_upper or that show ?thesis by blast
qed

lemma title_from_successive:
  assumes "list_all small_char s"
  shows "successively (\<lambda>c d. isalnum_ch c \<longrightarrow> \<not> isupper_ch d) (title_from a b s)
    \<and> (s \<noteq> [] \<and> (\<exists>c. b = Some c \<and> isalnum_ch c) \<longrightarrow> \<not> isupper_ch (hd (title_from a b s)))
    \<and> lower (title_from a b s) = s"
  using assms
proof (induction s arbitrary: a b)
  case Nil
  then show ?case by (simp add: lower_def)
next
  case (Cons c s)
  obtain u where u: "upper_ch c = [u]" "lower_ch u = c" "lower_ch c = c" "isalnum_ch u = isalnum_ch c" "\<not> isupper_ch c"
    using Cons.prems by (auto elim: small_charE)
  define x where "x = hd (title_from a b (c # s))"
  have x: "title_from a b (c # s) = x # title_from b (Some c) s" "x = c \<or> x = u"
      "(\<exists>c. b = Some c \<and> isalnum_ch c) \<longrightarrow> x = c"
    using u unfolding x_def by (auto simp: Let_def)
  have IH: "successively (\<lambda>c d. isalnum_ch c \<longrightarrow> \<not> isupper_ch d) (title_from b (Some c) s)"
    "s \<noteq> [] \<and> isalnum_ch c \<longrightarrow> \<not> isupper_ch (hd (title_from b (Some c) s))"
    "lower (title_from b (Some c) s) = s"
    using Cons by auto
  then have "title_from b (Some c) s = [] \<longleftrightarrow> s = []" by (metis length_0_conv length_lower)
  with IH u x show ?case
    by (auto simp: successively_Cons lower_def)
qed

lemma title_from_upper:
  assumes "list_all small_char s"
    and "map_option isalnum_ch a' = map_option isalnum_ch a" and "map_option isalnum_ch b' = map_option isalnum_ch b"
    and "map_option word_inside b' = map_option word_inside b"
  shows "title_from a' b' (upper s) = title_from a b s"
  using assms
proof (induction s arbitrary: a b a' b')
  case Nil
  then show ?case by (simp add: upper_def)
next
  case (Cons c s)
  obtain u where u: "upper_ch c = [u]" "lower_ch u = c" "upper_ch u = [u]" "lower_ch c = c"
      "isalnum_ch u = isalnum_ch c" "u = c \<or> isupper_ch u"
    using Cons.prems by (auto elim: small_charE)
  have caseless: "upper_ch d = [d] \<and> lower_ch d = d" if "word_inside d" for d
    using that unfolding word_inside_def
    by (elim disjE) (simp_all add: upper_ch_def lower_ch_def letter_class_def)
  have inside: "word_inside u = word_inside c"
    using u(1,2) caseless [of c] caseless [of u] by (cases "word_inside c"; cases "word_inside u") auto
  have "title_from b' (Some u) (upper s) = title_from b (Some c) s"
    using Cons u inside by auto
  with u Cons.prems(2-4) show ?case
    by (cases a; cases a'; cases b; cases b') (auto simp: upper_def Let_def)
qed

lemma split_on_head: "split_on p s = w # ws \<Longrightarrow> \<exists>r. s = w @ r"
proof (induction s arbitrary: w ws)
  case Nil
  then show ?case by simp
next
  case (Cons c s)
  then show ?case
    by (cases "p c"; cases "split_on p s") (fastforce split: list.splits)+
qed

lemma split_on_successively:
  "successively P s \<Longrightarrow> w \<in> set (split_on p s) \<Longrightarrow> successively P w \<and> (\<forall>c\<in>set w. \<not> p c)"
proof (induction s arbitrary: w)
  case Nil
  then show ?case by simp
next
  case (Cons c s)
  have s: "successively P s" using Cons.prems by (cases s) auto
  obtain v vs where v: "split_on p s = v # vs" by (cases "split_on p s") auto
  then obtain r where r: "s = v @ r" using split_on_head by blast
  have "successively P (c # v)"
    using Cons.prems(1) unfolding r by (metis append_Cons successively_append_iff)
  moreover have "\<forall>c\<in>set v. \<not> p c" using Cons.IH [OF s, of v] v by simp
  ultimately show ?case using Cons.IH [OF s] Cons.prems(2) v by (auto split: if_splits)
qed

lemma successively_small_tail:
  "successively (\<lambda>c d. isalnum_ch c \<longrightarrow> \<not> isupper_ch d) w \<Longrightarrow> \<forall>c\<in>set w. isalnum_ch c \<Longrightarrow>
    \<forall>d\<in>set (tl w). \<not> isupper_ch d"
proof (induction w)
  case Nil
  then show ?case by simp
next
  case step: (Cons c w)
  show ?case
  proof (cases w)
    case Nil
    then show ?thesis by simp
  next
    case (Cons d v)
    have "successively (\<lambda>c d. isalnum_ch c \<longrightarrow> \<not> isupper_ch d) w" "\<not> isupper_ch d"
      using step.prems \<open>w = d # v\<close> by simp_all
    moreover have "\<forall>c\<in>set w. isalnum_ch c" using step.prems(2) by simp
    ultimately have "\<forall>d\<in>set (tl w). \<not> isupper_ch d" using step.IH by blast
    with \<open>\<not> isupper_ch d\<close> show ?thesis by (simp add: \<open>w = d # v\<close>)
  qed
qed

lemma caps_lock_needs_capitals:
  assumes "\<forall>w\<in>set ws. \<forall>d\<in>set (tl w). \<not> isupper_ch d"
  shows "caps_lock_words seen ws \<Longrightarrow> seen"
  using assms
proof (induction seen ws rule: caps_lock_words.induct)
  case (1 seen)
  then show ?case by simp
next
  case (2 seen word words)
  show ?case
  proof (cases "cased_chars word")
    case Nil
    with 2 show ?thesis by simp
  next
    case (Cons a as)
    then have sub: "set as \<subseteq> set (tl word)"
      by (cases word) (auto simp: cased_chars_def split: if_splits dest: filter_eq_ConsD)
    show ?thesis
    proof (cases as)
      case Nil
      with Cons 2 show ?thesis by simp
    next
      case (Cons b bs)
      with sub 2(5) have "\<not> isupper_ch b" by auto
      with 2(4) \<open>cased_chars word = a # as\<close> Cons show ?thesis by simp
    qed
  qed
qed

lemma title_not_caps_lock:
  assumes "list_all small_char s"
  shows "\<not> typed_under_caps_lock (title_text s)"
proof
  have run: "\<forall>d\<in>set (tl w). \<not> isupper_ch d" if "w \<in> set (letter_runs (title_text s))" for w
  proof (rule successively_small_tail)
    have "w \<in> set (split_on (\<lambda>c. \<not> letter_run_ch c) (title_from None None s))"
      using that by (simp add: letter_runs_def title_text_def)
    note split = split_on_successively [OF conjunct1 [OF title_from_successive [OF assms, of None None]] this]
    show "successively (\<lambda>c d. isalnum_ch c \<longrightarrow> \<not> isupper_ch d) w" using split by blast
    show "\<forall>c\<in>set w. isalnum_ch c" using split by (auto simp: letter_run_ch_def)
  qed
  assume "typed_under_caps_lock (title_text s)"
  then show False
    using caps_lock_needs_capitals [of "letter_runs (title_text s)" False] run
    by (auto simp: typed_under_caps_lock_def)
qed


lemma cycle_case_steps:
  assumes "cased_chars text \<noteq> []" and "\<not> typed_under_caps_lock text"
  shows "\<not> list_ex isupper_ch (cased_chars text) \<Longrightarrow> upper text \<noteq> text \<Longrightarrow> cycle_case text = upper text"
    and "list_all isupper_ch (cased_chars text) \<Longrightarrow> title_text text \<noteq> text \<Longrightarrow> cycle_case text = title_text text"
    and "list_ex isupper_ch (cased_chars text) \<Longrightarrow> \<not> list_all isupper_ch (cased_chars text) \<Longrightarrow> cycle_case text = lower text"
proof -
  have low: "list_all islower_ch (cased_chars text) \<longleftrightarrow> \<not> list_ex isupper_ch (cased_chars text)"
    using islower_cased [of _ "text"] isupper_not_islower by (auto simp: list_all_iff list_ex_iff)
  show "\<not> list_ex isupper_ch (cased_chars text) \<Longrightarrow> upper text \<noteq> text \<Longrightarrow> cycle_case text = upper text"
    using assms low by (simp add: cycle_case_def Let_def)
  have some: "list_all isupper_ch (cased_chars text) \<Longrightarrow> list_ex isupper_ch (cased_chars text)"
    using assms(1) by (cases "cased_chars text") auto
  then show "list_all isupper_ch (cased_chars text) \<Longrightarrow> title_text text \<noteq> text \<Longrightarrow> cycle_case text = title_text text"
    using assms low by (simp add: cycle_case_def Let_def)
  assume up: "list_ex isupper_ch (cased_chars text)" and "\<not> list_all isupper_ch (cased_chars text)"
  moreover have "lower text \<noteq> text"
    using up lower_fixed [of "text"] by (auto simp: list_ex_iff cased_chars_def)
  ultimately show "cycle_case text = lower text"
    using assms low by (simp add: cycle_case_def Let_def)
qed

lemma upper_small_simps:
  assumes "list_all small_char s"
  shows "lower (upper s) = s" and "list_all isupper_ch (cased_chars (upper s))"
    and "length (upper s) = length s" and "title_text (upper s) = title_text s"
proof -
  show "lower (upper s) = s" "list_all isupper_ch (cased_chars (upper s))" "length (upper s) = length s"
    using assms
  proof (induction s)
    case Nil
    { case 1 then show ?case by (simp add: upper_def lower_def) }
    { case 2 then show ?case by (simp add: upper_def cased_chars_def) }
    { case 3 then show ?case by (simp add: upper_def) }
  next
    case (Cons c s)
    have step: "lower (upper (c # s)) = c # s \<and> list_all isupper_ch (cased_chars (upper (c # s)))
        \<and> length (upper (c # s)) = length (c # s)" if "list_all small_char (c # s)"
    proof -
      obtain u where "upper_ch c = [u]" "lower_ch u = c" "upper_ch u = [u]" "u = c \<or> isupper_ch u"
        using \<open>list_all small_char (c # s)\<close> by (auto elim: small_charE)
      then show ?thesis using Cons that by (auto simp: upper_def lower_def cased_chars_def)
    qed
    { case 1 then show ?case using step by blast }
    { case 2 then show ?case using step by blast }
    { case 3 then show ?case using step by blast }
  qed
  show "title_text (upper s) = title_text s"
    unfolding title_text_def by (rule title_from_upper [OF assms]) simp_all
qed

lemma lower_upper_eq_small: "list_all small_char s \<Longrightarrow> \<not> list_ex isupper_ch s \<and> lower s = s"
  by (induction s) (auto simp: lower_def elim: small_charE)

lemma uncased_fixed: "[lower_ch c] = upper_ch c \<Longrightarrow> lower_ch c = c \<and> upper_ch c = [c]"
  using isupper_is_cased [of c] lower_ch_fixed [of c] by metis

lemma no_case_fixed: "cased_chars s = [] \<Longrightarrow> title_text s = s"
proof -
  have "cased_chars s = [] \<Longrightarrow> title_from a b s = s" for a b
  proof (induction s arbitrary: a b)
    case Nil
    then show ?case by simp
  next
    case (Cons c s)
    then have "[lower_ch c] = upper_ch c" and rest: "cased_chars s = []"
      by (auto simp: cased_chars_def split: if_splits)
    then show ?case using uncased_fixed [of c] Cons.IH [OF rest, of b "Some c"] by (simp add: Let_def)
  qed
  then show "cased_chars s = [] \<Longrightarrow> title_text s = s" by (simp add: title_text_def)
qed

lemma title_all_capital:
  "list_all small_char s \<Longrightarrow> list_all isupper_ch (cased_chars (title_from a b s)) \<Longrightarrow> title_from a b s = upper s"
proof (induction s arbitrary: a b)
  case Nil
  then show ?case by (simp add: upper_def)
next
  case (Cons c s)
  obtain u where u: "upper_ch c = [u]" "lower_ch c = c" "\<not> isupper_ch c"
    using Cons.prems(1) by (auto elim: small_charE)
  define x where "x = hd (title_from a b (c # s))"
  have x: "title_from a b (c # s) = x # title_from b (Some c) s" "x = c \<or> x = u"
    using u unfolding x_def by (auto simp: Let_def)
  have "x = u"
    using Cons.prems(2) x u by (auto simp: cased_chars_def split: if_splits)
  moreover have "title_from b (Some c) s = upper s"
    using Cons.prems Cons.IH [of b "Some c"] unfolding x by (auto simp: cased_chars_def split: if_splits)
  ultimately show ?case using x u by (simp add: upper_def)
qed

text \<open>Three presses of the case hotkey walk small letters, CAPITALS, Title Case and back to the very
  text that was there, for every selection of small letters whose Title Case is neither the selection
  itself nor its capitals (a word of one letter is both, and there two presses are the whole cycle).\<close>

theorem cycle_case_three_presses:
  assumes "list_all small_char s" and "title_text s \<noteq> s" and "title_text s \<noteq> upper s"
  shows "cycle_case s = upper s \<and> cycle_case (upper s) = title_text s \<and> cycle_case (title_text s) = s"
proof (intro conjI)
  have small: "\<not> list_ex isupper_ch s" "lower s = s" using lower_upper_eq_small [OF assms(1)] by auto
  have cased: "cased_chars s \<noteq> []" using assms(2) no_case_fixed by blast
  note up = upper_small_simps [OF assms(1)]
  have low_title: "lower (title_text s) = s"
    using title_from_successive [OF assms(1), of None None] by (simp add: title_text_def)
  have upper_neq: "upper s \<noteq> s"
  proof
    assume "upper s = s"
    then have "list_all isupper_ch (cased_chars s)" using up(2) by simp
    with cased small(1) show False by (cases "cased_chars s") (auto simp: cased_chars_def filter_eq_Cons_iff)
  qed
  have no_low: "\<not> typed_under_caps_lock t" if "\<forall>c\<in>set (cased_chars t). \<not> islower_ch c" for t
    using that caps_lock_cased_letter by blast
  have "\<not> typed_under_caps_lock s"
  proof
    assume "typed_under_caps_lock s"
    have "\<forall>d\<in>set (tl w). \<not> isupper_ch d" if "w \<in> set (letter_runs s)" for w
    proof -
      have "set w \<subseteq> set s" using that split_on_chars [of w] by (auto simp: letter_runs_def)
      with small(1) show ?thesis by (cases w) (auto simp: list_ex_iff)
    qed
    with \<open>typed_under_caps_lock s\<close> show False
      using caps_lock_needs_capitals [of "letter_runs s" False] by (auto simp: typed_under_caps_lock_def)
  qed
  with cased small(1) upper_neq show "cycle_case s = upper s"
    by (intro cycle_case_steps(1)) (auto simp: list_ex_iff cased_chars_def)
  have cased_up: "cased_chars (upper s) \<noteq> []"
    using upper_neq up(1) cased no_case_fixed [of "upper s"] up(4) assms(3) by auto
  have "\<not> typed_under_caps_lock (upper s)"
    using up(2) isupper_not_islower by (intro no_low) (auto simp: list_all_iff)
  with cased_up up(2) assms(3) up(4) show "cycle_case (upper s) = title_text s"
    by (subst cycle_case_steps(2)) auto
  have ex: "list_ex isupper_ch (cased_chars (title_text s))"
  proof -
    have "\<not> \<not> list_ex isupper_ch (title_text s)"
      using lower_fixed [of "title_text s"] low_title assms(2) by auto
    then show ?thesis using isupper_is_cased by (fastforce simp: list_ex_iff cased_chars_def)
  qed
  have "\<not> list_all isupper_ch (cased_chars (title_text s))"
    using title_all_capital [OF assms(1), of None None] assms(3) by (auto simp: title_text_def)
  with ex show "cycle_case (title_text s) = s"
    using cycle_case_steps(3) [of "title_text s"] title_not_caps_lock [OF assms(1)] low_title
    by (cases "cased_chars (title_text s)") auto
qed

theorem cycle_case_three_presses_witness:
  "cycle_case (cycle_case (cycle_case (asc ''it is''))) = asc ''it is''"
proof -
  have "list_all small_char (asc ''it is'')" "title_text (asc ''it is'') \<noteq> asc ''it is''"
    "title_text (asc ''it is'') \<noteq> upper (asc ''it is'')"
    by (simp_all add: asc_def small_char_def upper_ch_def lower_ch_def letter_class_def title_text_def
        isalnum_ch_def isalpha_ch_def isdigit_ch_def isdecimal_ch_def word_inside_def upper_def Let_def)
  from cycle_case_three_presses [OF this] show ?thesis by simp
qed

subsection \<open>Transliteration leaves nothing of the script written over\<close>

lemma in_case_preserves:
  assumes "\<forall>c\<in>set output. p c" and "\<And>c. p c \<Longrightarrow> p (lower_ch c) \<and> (\<forall>d\<in>set (upper_ch c). p d) \<and> (\<forall>d\<in>set (title_ch c). p d)"
  shows "\<forall>c\<in>set (in_case output text i stop). p c"
proof -
  have step: "p (lower_ch c) \<and> (\<forall>d\<in>set (upper_ch c). p d) \<and> (\<forall>d\<in>set (title_ch c). p d)" if "c \<in> set output" for c
    using assms(1) that by (intro assms(2)) blast
  have "\<forall>c\<in>set (lower output). p c" "\<forall>c\<in>set (upper output). p c"
    using step by (auto simp: lower_def upper_def)
  moreover have "\<forall>c\<in>set (capitalize output). p c"
    using step by (cases "output") (auto simp: lower_def)
  ultimately show ?thesis by (simp add: in_case_def Let_def)
qed

definition latin_char :: "uchar \<Rightarrow> bool" where
  "latin_char c \<longleftrightarrow> is_letter_of US_LAYOUT c"

definition russian_char :: "uchar \<Rightarrow> bool" where
  "russian_char c \<longleftrightarrow> is_letter_of RU_LAYOUT c"

lemma letter_class_ranges:
  "0x41 \<le> c \<Longrightarrow> c \<le> 0x5A \<Longrightarrow> letter_class c = Upper_Letter (c + 32)"
  "0x61 \<le> c \<Longrightarrow> c \<le> 0x7A \<Longrightarrow> letter_class c = Lower_Letter [c - 32]"
  "0x410 \<le> c \<Longrightarrow> c \<le> 0x42F \<Longrightarrow> letter_class c = Upper_Letter (c + 32)"
  "0x430 \<le> c \<Longrightarrow> c \<le> 0x44F \<Longrightarrow> letter_class c = Lower_Letter [c - 32]"
  "letter_class 0x401 = Upper_Letter 0x451" "letter_class 0x451 = Lower_Letter [0x401]"
proof -
  show "letter_class 0x401 = Upper_Letter 0x451" "letter_class 0x451 = Lower_Letter [0x401]"
    by (simp_all add: letter_class_def)
  show "letter_class c = Upper_Letter (c + 32)" if "0x41 \<le> c" "c \<le> 0x5A"
    using that by (simp add: letter_class_def split del: if_split)
  show "letter_class c = Lower_Letter [c - 32]" if "0x61 \<le> c" "c \<le> 0x7A"
    using that by (simp add: letter_class_def split del: if_split)
  have skip: "c \<noteq> 0xAA \<and> c \<noteq> 0xBA" "c \<noteq> 0xB5" "c \<noteq> 0xDF" "c \<noteq> 0xFF" "c \<noteq> 0x178" "c \<noteq> 0x39C" "c \<noteq> 0x3BC"
    "\<not> c < 0x41" "\<not> c \<le> 0x5A" "\<not> c < 0x61" "\<not> c \<le> 0x7A" "\<not> c < 0xC0" "c \<noteq> 0xD7" "c \<noteq> 0xF7" "\<not> c \<le> 0xDE"
    "\<not> c \<le> 0xFE" "\<not> c < 0x400" "\<not> c \<le> 0x40F" if "0x410 \<le> c"
    using that by linarith+
  show "letter_class c = Upper_Letter (c + 32)" if "0x410 \<le> c" "c \<le> 0x42F"
    unfolding letter_class_def using that(2) by (simp only: skip [OF that(1)] if_True if_False simp_thms)
  show "letter_class c = Lower_Letter [c - 32]" if "0x430 \<le> c" "c \<le> 0x44F"
  proof -
    have "0x410 \<le> c" "\<not> c \<le> 0x42F" using that(1) by linarith+
    then show ?thesis
      unfolding letter_class_def using that(2) by (simp only: skip if_True if_False simp_thms)
  qed
qed

text \<open>A single small letter: its Title Case is its capital, and two presses bring it back.\<close>

lemma cycle_case_single_letter:
  "cycle_case [0x44F] = [0x42F] \<and> cycle_case [0x42F] = [0x44F]"
proof -
  have small: "letter_class 0x44F = Lower_Letter [0x42F]" and capital: "letter_class 0x42F = Upper_Letter 0x44F"
    using letter_class_ranges(4) [of "0x44F"] letter_class_ranges(3) [of "0x42F"] by simp_all
  have caps: "typed_under_caps_lock [c] = False" if "isalpha_ch c" for c
    using that alpha_not_digit [of c]
    by (simp add: typed_under_caps_lock_def letter_runs_def letter_run_ch_def isalnum_ch_def isdigit_ch_def cased_chars_def)
  show ?thesis
    using caps [of "0x44F"] caps [of "0x42F"]
    by (simp add: cycle_case_def cased_chars_def lower_ch_def upper_ch_def isupper_ch_def islower_ch_def isalpha_ch_def
        title_text_def upper_def lower_def Let_def small capital)
qed

text \<open>Each alphabet is closed under the case mappings, and its small letters are a range (and yo).\<close>

lemma latin_charE:
  assumes "latin_char c"
  obtains (capital) "0x41 \<le> c" "c \<le> 0x5A" "letter_class c = Upper_Letter (c + 32)"
  | (small) "0x61 \<le> c" "c \<le> 0x7A" "letter_class c = Lower_Letter [c - 32]"
  using assms letter_class_ranges(1,2) [of c] by (auto simp: latin_char_def is_letter_of_def)

lemma russian_charE:
  assumes "russian_char c"
  obtains (capital) "0x410 \<le> c" "c \<le> 0x42F" "letter_class c = Upper_Letter (c + 32)"
  | (small) "0x430 \<le> c" "c \<le> 0x44F" "letter_class c = Lower_Letter [c - 32]"
  | (capital_yo) "c = 0x401" | (small_yo) "c = 0x451"
proof -
  have "0x410 \<le> c \<and> c \<le> 0x42F \<or> 0x430 \<le> c \<and> c \<le> 0x44F \<or> c = 0x401 \<or> c = 0x451"
    using assms by (auto simp: russian_char_def is_letter_of_def)
  with that letter_class_ranges(3,4) [of c] show thesis by blast
qed

lemma case_mappings_latin:
  "latin_char c \<Longrightarrow> latin_char (lower_ch c) \<and> (\<forall>d\<in>set (upper_ch c). latin_char d) \<and> (\<forall>d\<in>set (title_ch c). latin_char d)"
  by (erule latin_charE; auto simp: latin_char_def is_letter_of_def lower_ch_def upper_ch_def title_ch_def)

lemma case_mappings_russian:
  "russian_char c \<Longrightarrow> russian_char (lower_ch c) \<and> (\<forall>d\<in>set (upper_ch c). russian_char d) \<and> (\<forall>d\<in>set (title_ch c). russian_char d)"
  by (erule russian_charE; auto simp: russian_char_def is_letter_of_def lower_ch_def upper_ch_def title_ch_def
      letter_class_ranges(5,6))

lemma latin_lower_range: "latin_char c \<Longrightarrow> lower_ch c \<in> {0x61..<0x7B}"
  by (erule latin_charE) (simp_all add: lower_ch_def)

lemma russian_lower_range: "russian_char c \<Longrightarrow> lower_ch c \<in> {0x430..<0x450} \<union> {0x451}"
  by (erule russian_charE) (simp_all add: lower_ch_def letter_class_ranges(5,6))

lemma latin_spellings: "map_of CYRILLIC_TO_LATIN c = Some s \<Longrightarrow> \<forall>d\<in>set s. latin_char d"
proof -
  have "list_all (\<lambda>(c, s). list_all latin_char s) CYRILLIC_TO_LATIN"
    by (simp add: CYRILLIC_TO_LATIN_def asc_def latin_char_def is_letter_of_def)
  then show "map_of CYRILLIC_TO_LATIN c = Some s \<Longrightarrow> \<forall>d\<in>set s. latin_char d"
    by (auto simp: list_all_iff dest!: map_of_SomeD)
qed

lemma russian_spellings: "map_of LATIN_TO_CYRILLIC s = Some w \<Longrightarrow> \<forall>d\<in>set w. russian_char d"
proof -
  have "list_all (\<lambda>(s, w). list_all russian_char w) LATIN_TO_CYRILLIC"
    by (simp add: LATIN_TO_CYRILLIC_def russian_char_def is_letter_of_def)
  then show "map_of LATIN_TO_CYRILLIC s = Some w \<Longrightarrow> \<forall>d\<in>set w. russian_char d"
    by (auto simp: list_all_iff dest!: map_of_SomeD)
qed

lemma every_russian_letter_spelled: "russian_char c \<Longrightarrow> map_of CYRILLIC_TO_LATIN (lower_ch c) \<noteq> None"
proof -
  have "set ([0x430..<0x450] @ [0x451]) \<subseteq> fst ` set CYRILLIC_TO_LATIN"
    by (simp add: CYRILLIC_TO_LATIN_def upt_rec_numeral)
  moreover assume "russian_char c"
  then have "lower_ch c \<in> set ([0x430..<0x450] @ [0x451])"
    unfolding set_append set_upt using russian_lower_range by simp
  ultimately show ?thesis unfolding map_of_eq_None_iff by blast
qed

lemma no_russian_letters: "\<forall>c\<in>set s. \<not> russian_char c \<Longrightarrow> letter_count RU_LAYOUT s = 0"
  using sel_letters_range [of _ RU_LAYOUT] by (auto simp: letter_count_eq_0 russian_char_def)

lemma no_latin_letters: "\<forall>c\<in>set s. \<not> latin_char c \<Longrightarrow> letter_count US_LAYOUT s = 0"
  using sel_letters_range [of _ US_LAYOUT] by (auto simp: letter_count_eq_0 latin_char_def)

lemma latin_not_russian: "latin_char c \<Longrightarrow> \<not> russian_char c"
  by (auto simp: latin_char_def russian_char_def is_letter_of_def)

lemma to_latin_no_russian: "letter_count RU_LAYOUT (to_latin text) = 0"
proof (rule no_russian_letters, rule ballI)
  fix c assume "c \<in> set (to_latin text)"
  then obtain i where i: "i < length text" "c \<in> set (case map_of CYRILLIC_TO_LATIN (lower_ch (text ! i)) of
      None \<Rightarrow> [text ! i] | Some latin \<Rightarrow> in_case latin text i (Suc i))"
    by (auto simp: to_latin_def)
  show "\<not> russian_char c"
  proof (cases "map_of CYRILLIC_TO_LATIN (lower_ch (text ! i))")
    case None
    with i every_russian_letter_spelled [of "text ! i"] show ?thesis by auto
  next
    case (Some latin)
    then have "\<forall>d\<in>set (in_case latin text i (Suc i)). latin_char d"
      using latin_spellings case_mappings_latin by (intro in_case_preserves) blast+
    with Some i show ?thesis by (auto dest: latin_not_russian)
  qed
qed

lemma SEQUENCE_LENGTHS_one: "1 \<in> set SEQUENCE_LENGTHS"
  by (auto simp: SEQUENCE_LENGTHS_def LATIN_TO_CYRILLIC_def asc_def)

lemma every_latin_letter_read: "latin_char c \<Longrightarrow> map_of LATIN_TO_CYRILLIC [lower_ch c] \<noteq> None"
proof -
  have "set (map (\<lambda>c. [c]) [0x61..<0x7B]) \<subseteq> fst ` set LATIN_TO_CYRILLIC"
    by (simp add: LATIN_TO_CYRILLIC_def asc_def upt_rec_numeral)
  moreover assume "latin_char c"
  then have "[lower_ch c] \<in> set (map (\<lambda>c. [c]) [0x61..<0x7B])"
    unfolding set_map set_upt using latin_lower_range by blast
  ultimately show ?thesis unfolding map_of_eq_None_iff by blast
qed

lemma table_sequence_reads_letter:
  assumes "i < length text" and "latin_char (text ! i)"
  shows "table_sequence text i \<noteq> None"
proof
  let ?good = "\<lambda>chunk. list_all (\<lambda>c. c < 128) chunk \<and> map_of LATIN_TO_CYRILLIC (lower chunk) \<noteq> None"
  assume "table_sequence text i = None"
  then have "filter ?good (map (\<lambda>n. take n (drop i text)) SEQUENCE_LENGTHS) = []"
    by (auto simp: table_sequence_def split: list.splits)
  moreover have "take 1 (drop i text) \<in> set (map (\<lambda>n. take n (drop i text)) SEQUENCE_LENGTHS)"
    using SEQUENCE_LENGTHS_one by (auto simp del: One_nat_def)
  moreover have "take 1 (drop i text) = [text ! i]" using assms(1) by (simp add: take_Suc_conv_app_nth)
  ultimately have "\<not> ?good [text ! i]" by (metis (mono_tags, lifting) filter_empty_conv)
  moreover have "text ! i < 128" using assms(2) by (auto simp: latin_char_def is_letter_of_def)
  ultimately show False using every_latin_letter_read [OF assms(2)] by (simp add: lower_def)
qed

lemma cyrillic_step_no_latin:
  assumes "i < length text"
  shows "\<forall>c\<in>set (snd (cyrillic_step text i parts)). \<not> latin_char c"
proof -
  have russian: "\<forall>c\<in>set (in_case w text i stop). \<not> latin_char c" if "\<forall>d\<in>set w. russian_char d" for w stop
    using in_case_preserves [of w russian_char] case_mappings_russian that latin_not_russian by blast
  have placed: "\<forall>d\<in>set w. russian_char d" if "placed_sequence text i = Some (s, w)" for s w
    using that by (auto simp: placed_sequence_def VERB_ENDING_def TS_BEFORE_K_def INITIAL_YE_def russian_char_def
        is_letter_of_def split: if_splits)
  show ?thesis
  proof (cases "(case placed_sequence text i of Some (s, _) \<Rightarrow> Some s | None \<Rightarrow> table_sequence text i)")
    case None
    then have "\<not> latin_char (text ! i)"
      using table_sequence_reads_letter [OF assms] by (auto split: option.splits)
    moreover have "\<not> latin_char SOFT_SIGN" by (simp add: latin_char_def is_letter_of_def SOFT_SIGN_def)
    ultimately show ?thesis by (simp add: cyrillic_step_def None)
  next
    case (Some s)
    have short: "\<forall>d\<in>set [SHORT_I]. russian_char d" by (simp add: russian_char_def is_letter_of_def SHORT_I_def)
    have table: "\<forall>d\<in>set (case map_of LATIN_TO_CYRILLIC s of None \<Rightarrow> [] | Some c \<Rightarrow> c). russian_char d"
      using russian_spellings [of s] by (cases "map_of LATIN_TO_CYRILLIC s") auto
    show ?thesis
      using russian [OF short] russian [OF table] russian [OF placed]
      by (auto simp: cyrillic_step_def Some Let_def split: option.splits)
  qed
qed

lemma to_cyrillic_from_no_latin:
  "\<forall>c\<in>set parts. \<not> latin_char c \<Longrightarrow> \<forall>c\<in>set (to_cyrillic_from text i parts). \<not> latin_char c"
proof (induction "text" i parts rule: to_cyrillic_from.induct)
  case (1 "text" i parts)
  show ?case
  proof (cases "i < length text")
    case False
    with "1.prems" show ?thesis by (simp add: to_cyrillic_from.simps [of _ i])
  next
    case True
    obtain n out where step: "cyrillic_step text i parts = (n, out)" by fastforce
    with cyrillic_step_no_latin [OF True, of parts] "1.prems" have "\<forall>c\<in>set (parts @ out). \<not> latin_char c" by auto
    from "1.IH" [OF True step [symmetric] refl this] True step show ?thesis
      by (simp add: to_cyrillic_from.simps [of _ i])
  qed
qed

text \<open>Transliteration writes over the whole of one script: the Russian letters when the selection
  holds as many of them as Latin ones or more, otherwise the Latin letters; no letter of the script
  written over is left, and a selection without letters of either layout is left as it is.\<close>

theorem transliterate_writes_over:
  "letter_count (if letter_count RU_LAYOUT text < letter_count US_LAYOUT text then US_LAYOUT else RU_LAYOUT)
     (transliterate text) = 0
   \<and> (letter_count RU_LAYOUT text + letter_count US_LAYOUT text = 0 \<longrightarrow> transliterate text = text)"
proof -
  have "letter_count US_LAYOUT (to_cyrillic text) = 0"
    unfolding to_cyrillic_def by (rule no_latin_letters) (rule to_cyrillic_from_no_latin, simp)
  then show ?thesis
    using to_latin_no_russian [of "text"] by (auto simp: transliterate_def Let_def)
qed

theorem transliterate_writes_over_witness: "transliterate (asc ''42?'') = asc ''42?''"
proof -
  have "letter_count RU_LAYOUT (asc ''42?'') + letter_count US_LAYOUT (asc ''42?'') = 0"
    by (simp add: letter_count_def sel_letters_def LATIN_LETTERS_eq CYRILLIC_LETTERS_eq asc_def)
  with transliterate_writes_over [of "asc ''42?''"] show ?thesis by simp
qed

end
