(* ===== verification/Json.thy ===== *)
theory Json
  imports Py_Text
begin

text \<open>
  JSON values as \<open>json.loads\<close> returns them, and the user's files that hold them
  (\<open>src/keyswitch/config.py\<close>, \<open>learning.py\<close>, \<open>personal_words.py\<close>). The parser and the printer of the
  standard library are not modelled: a file is what a load finds there, nothing, something that is not
  JSON (or cannot be read), or a value. Python compares the values with \<open>==\<close>: numbers by value across
  their types, \<open>True\<close> as 1, dictionaries without regard to order.
\<close>

datatype json =
    JNull
  | JBool bool
  | JInt int
  | JFloat real
  | JInf bool
  | JNan
  | JStr ustr
  | JList "json list"
  | JObj "(ustr \<times> json) list"

text \<open>A number's value, for \<open>==\<close>.\<close>

definition num_value :: "json \<Rightarrow> real option" where
  "num_value v = (case v of JBool b \<Rightarrow> Some (if b then 1 else 0) | JInt i \<Rightarrow> Some (of_int i)
     | JFloat r \<Rightarrow> Some r | _ \<Rightarrow> None)"

lemma size_map_of [termination_simp]: "map_of d k = Some w \<Longrightarrow> size w < Suc (size_list (size_prod (\<lambda>_. 0) size) d)"
  by (induction d) (auto split: if_splits)

lemma size_member_snd [termination_simp]:
  "(k, v) \<in> set d \<Longrightarrow> size v < Suc (size_list (size_prod (\<lambda>_. 0) size) d)"
  by (induction d) auto

lemma size_zip_left [termination_simp]: "(x, y) \<in> set (zip xs ys) \<Longrightarrow> size x < Suc (size_list size xs)"
  using set_zip_leftD [of x y xs ys] size_list_estimation' [of x xs "size x" size] by fastforce

function (sequential) py_eq :: "json \<Rightarrow> json \<Rightarrow> bool" where
  "py_eq (JStr s) w = (w = JStr s)"
| "py_eq JNull w = (w = JNull)"
| "py_eq (JInf b) w = (w = JInf b)"
| "py_eq JNan w = False"
| "py_eq (JList xs) w =
     (case w of JList ys \<Rightarrow> length xs = length ys \<and> list_all (\<lambda>(x, y). py_eq x y) (zip xs ys) | _ \<Rightarrow> False)"
| "py_eq (JObj d) w =
     (case w of JObj e \<Rightarrow> length d = length e
        \<and> list_all (\<lambda>(k, x). case map_of e k of None \<Rightarrow> False | Some y \<Rightarrow> py_eq x y) d | _ \<Rightarrow> False)"
| "py_eq v w = (num_value w \<noteq> None \<and> num_value v = num_value w)"
  by pat_completeness auto
termination
  by (relation "measure (\<lambda>(v, _). size v)") (auto dest: size_zip_left size_member_snd)

text \<open>\<open>isinstance(v, dict)\<close>, and \<open>d.get(key)\<close>.\<close>

definition obj_of :: "json \<Rightarrow> (ustr \<times> json) list option" where
  "obj_of v = (case v of JObj d \<Rightarrow> Some d | _ \<Rightarrow> None)"

definition dict_get :: "(ustr \<times> json) list \<Rightarrow> ustr \<Rightarrow> json" where
  "dict_get d k = (case map_of d k of None \<Rightarrow> JNull | Some v \<Rightarrow> v)"

text \<open>The items of a dictionary, none for any other value.\<close>

definition dict_entries :: "json \<Rightarrow> (ustr \<times> json) list" where
  "dict_entries v = (case v of JObj d \<Rightarrow> d | _ \<Rightarrow> [])"

datatype file_state = No_File | Not_Json | Holds json

text \<open>The outcome of an operation that may raise: its value or the exception, and the state after it.\<close>

type_synonym ('a, 's) outcome = "(py_error + 'a) \<times> 's"

end
