(* ===== verification/Learning.thy ===== *)
theory Learning
  imports Json "HOL-Library.Product_Lexorder" "HOL-Library.List_Lexorder"
begin

text \<open>
  \<open>src/keyswitch/learning.py\<close>: the switching rules the user added, what a rule matches, which rule
  decides about a word, and the store that keeps them in \<open>learning.json\<close>, the conversion of the files of
  older versions included. The store's state is its list of rules and the two files it writes; every
  operation that saves takes the outcome of the write as an argument, because the code lets an
  \<open>OSError\<close> of \<open>save\<close> through after it has changed the rules in memory.
\<close>

subsection \<open>Rules\<close>

datatype rule_match = Exact | Prefix | Contains
datatype rule_action = Convert | Keep

definition RULE_MATCHES :: "rule_match list" where
  "RULE_MATCHES = [Contains, Prefix, Exact]"

definition MAX_WORD_STROKES :: nat where
  "MAX_WORD_STROKES = 256"

record learned_rule =
  pattern_of :: ustr
  source_group :: int
  target_group :: int
  action_of :: rule_action
  rmatch :: rule_match
  case_sensitive :: bool

definition folded_text :: "learned_rule \<Rightarrow> ustr \<Rightarrow> ustr" where
  "folded_text r text = (if case_sensitive r then text else casefold text)"

definition rule_key :: "learned_rule \<Rightarrow> ustr" where
  "rule_key r = (if case_sensitive r then pattern_of r else casefold (pattern_of r))"

definition rule_identity :: "learned_rule \<Rightarrow> int \<times> rule_match \<times> bool \<times> ustr" where
  "rule_identity r = (source_group r, rmatch r, case_sensitive r, rule_key r)"

definition rule_matches :: "learned_rule \<Rightarrow> ustr \<Rightarrow> bool" where
  "rule_matches r word =
     (let text = (if case_sensitive r then word else casefold word)
      in if rmatch r = Exact then text = rule_key r
         else if rmatch r = Prefix then starts_with text (rule_key r)
         else occurs_in (rule_key r) text)"

definition may_match_continuation :: "learned_rule \<Rightarrow> ustr \<Rightarrow> bool" where
  "may_match_continuation r prefix =
     (let text = (if case_sensitive r then prefix else casefold prefix)
      in if rmatch r = Exact then starts_with (rule_key r) text
         else if rmatch r = Prefix then starts_with (rule_key r) text \<or> starts_with text (rule_key r)
         else occurs_in (rule_key r) text
           \<or> list_ex (\<lambda>start. starts_with (rule_key r) (drop start text)) [0..<length text])"

text \<open>\<open>RULE_MATCHES.index\<close>: the position is the rank.\<close>

fun index_in :: "'a list \<Rightarrow> 'a \<Rightarrow> nat" where
  "index_in [] x = 0"
| "index_in (y # ys) x = (if y = x then 0 else Suc (index_in ys x))"

definition specificity :: "learned_rule \<Rightarrow> nat \<times> nat \<times> bool" where
  "specificity r = (index_in RULE_MATCHES (rmatch r), length (pattern_of r), action_of r = Keep)"

subsection \<open>Validation\<close>

datatype invalid_rule =
    Blank_Pattern | Several_Words | No_Letters | Too_Long | One_Layout | Two_Alphabets

text \<open>The last check of \<open>validate_rule\<close> (an unknown condition or action) is the type of the fields here.\<close>

definition validate_rule :: "learned_rule \<Rightarrow> invalid_rule option" where
  "validate_rule r =
     (if pattern_of r = [] \<or> pattern_of r \<noteq> strip (pattern_of r) then Some Blank_Pattern
      else if list_ex isspace_ch (pattern_of r) then Some Several_Words
      else if \<not> list_ex isalpha_ch (pattern_of r) then Some No_Letters
      else if MAX_WORD_STROKES < length (pattern_of r) then Some Too_Long
      else if source_group r = target_group r \<or> min (source_group r) (target_group r) < 0 then Some One_Layout
      else None)"

abbreviation valid_rule :: "learned_rule \<Rightarrow> bool" where
  "valid_rule r \<equiv> validate_rule r = None"

subsection \<open>Rules as JSON\<close>

definition action_name :: "rule_action \<Rightarrow> ustr" where
  "action_name a = (case a of Convert \<Rightarrow> asc ''convert'' | Keep \<Rightarrow> asc ''keep'')"

definition match_name :: "rule_match \<Rightarrow> ustr" where
  "match_name m = (case m of Exact \<Rightarrow> asc ''exact'' | Prefix \<Rightarrow> asc ''prefix'' | Contains \<Rightarrow> asc ''contains'')"

definition action_of_json :: "json \<Rightarrow> rule_action option" where
  "action_of_json v = (if v = JStr (asc ''convert'') then Some Convert
     else if v = JStr (asc ''keep'') then Some Keep else None)"

definition match_of_json :: "json \<Rightarrow> rule_match option" where
  "match_of_json v = (if v = JStr (asc ''contains'') then Some Contains
     else if v = JStr (asc ''prefix'') then Some Prefix
     else if v = JStr (asc ''exact'') then Some Exact else None)"

definition rule_from_json :: "json \<Rightarrow> learned_rule option" where
  "rule_from_json value =
     (case value of
        JObj d \<Rightarrow>
          (case (dict_get d (asc ''pattern''), dict_get d (asc ''source_group''), dict_get d (asc ''target_group''),
                 action_of_json (dict_get d (asc ''action'')), match_of_json (dict_get d (asc ''match'')),
                 case map_of d (asc ''case_sensitive'') of None \<Rightarrow> JBool False | Some v \<Rightarrow> v) of
             (JStr p, JInt source, JInt target, Some a, Some m, JBool c) \<Rightarrow>
               let r = \<lparr>pattern_of = p, source_group = source, target_group = target, action_of = a, rmatch = m,
                        case_sensitive = c\<rparr>
               in if validate_rule r = None then Some r else None
           | _ \<Rightarrow> None)
      | _ \<Rightarrow> None)"

definition rule_to_json :: "learned_rule \<Rightarrow> json" where
  "rule_to_json r = JObj
     [(asc ''pattern'', JStr (pattern_of r)), (asc ''source_group'', JInt (source_group r)),
      (asc ''target_group'', JInt (target_group r)), (asc ''action'', JStr (action_name (action_of r))),
      (asc ''match'', JStr (match_name (rmatch r))), (asc ''case_sensitive'', JBool (case_sensitive r))]"

subsection \<open>Files of schema 2 and older\<close>

text \<open>\<open>int(s)\<close> of a string of digits: a superscript is a digit for \<open>isdigit\<close> and no number for \<open>int\<close>.\<close>

definition int_of_digits :: "ustr \<Rightarrow> py_error + int" where
  "int_of_digits s = (if s \<noteq> [] \<and> list_all isdecimal_ch s
     then Inr (int (fold (\<lambda>c n. 10 * n + (c - 0x30)) s 0)) else Inl ValueError)"

definition legacy_identity :: "ustr \<Rightarrow> py_error + (int \<times> ustr) option" where
  "legacy_identity k =
     (let (group, separator, word) = partition_at 0x3A k
      in if \<not> separator \<or> \<not> isdigit group then Inr None
         else case int_of_digits group of Inl e \<Rightarrow> Inl e | Inr n \<Rightarrow> Inr (Some (n, word)))"

definition plain_rule :: "ustr \<Rightarrow> int \<Rightarrow> int \<Rightarrow> rule_action \<Rightarrow> learned_rule" where
  "plain_rule p source target a =
     \<lparr>pattern_of = p, source_group = source, target_group = target, action_of = a, rmatch = Exact, case_sensitive = False\<rparr>"

text \<open>The two loops of \<open>migrate_legacy\<close> over the entries of the file, in the file's order.\<close>

fun legacy_rules :: "int \<Rightarrow> (ustr \<times> json) list \<Rightarrow> py_error + learned_rule list" where
  "legacy_rules required [] = Inr []"
| "legacy_rules required ((k, v) # rest) =
     (case legacy_identity k of
        Inl e \<Rightarrow> Inl e
      | Inr found \<Rightarrow>
          (case legacy_rules required rest of
             Inl e \<Rightarrow> Inl e
           | Inr rules \<Rightarrow> Inr
               ((case (found, v) of
                   (Some (source, word), JObj d) \<Rightarrow>
                     (case (dict_get d (asc ''target_group''),
                            case map_of d (asc ''confirmations'') of None \<Rightarrow> JInt 0 | Some c \<Rightarrow> c) of
                        (JInt target, JInt confirmations) \<Rightarrow>
                          if confirmations < max 1 required then [] else [plain_rule word source target Convert]
                      | _ \<Rightarrow> [])
                 | _ \<Rightarrow> []) @ rules)))"

fun legacy_rejections :: "(ustr \<times> json) list \<Rightarrow> py_error + learned_rule list" where
  "legacy_rejections [] = Inr []"
| "legacy_rejections ((k, v) # rest) =
     (case legacy_identity k of
        Inl e \<Rightarrow> Inl e
      | Inr found \<Rightarrow>
          (case legacy_rejections rest of
             Inl e \<Rightarrow> Inl e
           | Inr rules \<Rightarrow> Inr
               ((case (found, v) of
                   (Some (source, word), JList targets) \<Rightarrow>
                     concat (map (\<lambda>t. case t of JInt target \<Rightarrow> [plain_rule word source target Keep] | _ \<Rightarrow> []) targets)
                 | _ \<Rightarrow> []) @ rules)))"

text \<open>The valid rules by rule_identity; of two with one rule_identity a keep rule wins, else the first stays.\<close>

definition merge_rule :: "learned_rule \<Rightarrow> (int \<times> rule_match \<times> bool \<times> ustr, learned_rule) odict
    \<Rightarrow> (int \<times> rule_match \<times> bool \<times> ustr, learned_rule) odict" where
  "merge_rule r valid =
     (if validate_rule r \<noteq> None then valid
      else if map_of valid (rule_identity r) = None \<or> action_of r = Keep then AList.update (rule_identity r) r valid
      else valid)"

definition migrate_legacy :: "(ustr \<times> json) list \<Rightarrow> int \<Rightarrow> py_error + learned_rule list" where
  "migrate_legacy payload required =
     (case legacy_rules required (dict_entries (dict_get payload (asc ''rules''))) of
        Inl e \<Rightarrow> Inl e
      | Inr rules \<Rightarrow>
          (case legacy_rejections (dict_entries (dict_get payload (asc ''rejections''))) of
             Inl e \<Rightarrow> Inl e
           | Inr rejections \<Rightarrow> Inr (map snd (fold merge_rule (rules @ rejections) []))))"

subsection \<open>The store\<close>

record learning_store =
  rules_stored :: "learned_rule list"
  migrated :: nat
  unreadable :: bool
  main_file :: file_state
  backup_file :: file_state
  aside_file :: file_state

definition LEARNING_STORE_SCHEMA_VERSION :: int where
  "LEARNING_STORE_SCHEMA_VERSION = 3"

definition insert_rule :: "learned_rule \<Rightarrow> learned_rule list \<Rightarrow> learned_rule list" where
  "insert_rule r rules = filter (\<lambda>item. rule_identity item \<noteq> rule_identity r) rules @ [r]"

definition store_json :: "learned_rule list \<Rightarrow> json" where
  "store_json rules = JObj [(asc ''schema_version'', JInt LEARNING_STORE_SCHEMA_VERSION),
     (asc ''rules'', JList (map rule_to_json rules))]"

text \<open>\<open>save\<close>: the file is written aside and moved into place, so a failed write leaves it as it was.\<close>

definition save_rules :: "bool \<Rightarrow> learning_store \<Rightarrow> (unit, learning_store) outcome" where
  "save_rules disk_ok st =
     (if disk_ok then (Inr (), st\<lparr>main_file := Holds (store_json (rules_stored st))\<rparr>) else (Inl OSError, st))"

text \<open>\<open>set_aside_unreadable\<close> of \<open>config.py\<close>; \<open>move_ok\<close> says whether the file system lets the file be moved.\<close>

definition set_aside_unreadable :: "bool \<Rightarrow> learning_store \<Rightarrow> learning_store" where
  "set_aside_unreadable move_ok st =
     (if move_ok then st\<lparr>aside_file := main_file st, main_file := No_File, unreadable := True\<rparr>
      else st\<lparr>unreadable := False\<rparr>)"

text \<open>
  \<open>load\<close>. \<open>backup_ok\<close> and \<open>save_ok\<close> are the outcomes of the two writes after a conversion; a failure of
  the first skips the second.
\<close>

definition load_rules :: "json list \<Rightarrow> learned_rule list" where
  "load_rules values =
     fold (\<lambda>v rules. case rule_from_json v of None \<Rightarrow> rules | Some r \<Rightarrow> insert_rule r rules) values []"

definition load_store :: "int \<Rightarrow> bool \<Rightarrow> bool \<Rightarrow> bool \<Rightarrow> learning_store \<Rightarrow> (unit, learning_store) outcome" where
  "load_store required move_ok backup_ok save_ok st0 =
     (let st = st0\<lparr>rules_stored := []\<rparr>;
          payload = (case main_file st of Holds v \<Rightarrow> v | _ \<Rightarrow> JNull)
      in if main_file st = No_File then (Inr (), st)
         else case payload of
           JObj d \<Rightarrow>
             (case dict_get d (asc ''rules'') of
                JList values \<Rightarrow> (Inr (), st\<lparr>rules_stored := load_rules values\<rparr>)
              | rules_value \<Rightarrow>
                  if obj_of rules_value = None \<and> obj_of (dict_get d (asc ''rejections'')) = None
                  then (Inr (), set_aside_unreadable move_ok st)
                  else case migrate_legacy d required of
                    Inl e \<Rightarrow> (Inl e, st)
                  | Inr rules \<Rightarrow>
                      let st1 = st\<lparr>rules_stored := fold insert_rule rules []\<rparr>;
                          st2 = st1\<lparr>migrated := length (rules_stored st1)\<rparr>
                      in if backup_file st2 \<noteq> No_File then (Inr (), snd (save_rules save_ok st2))
                         else if \<not> backup_ok then (Inr (), st2)
                         else (Inr (), snd (save_rules save_ok (st2\<lparr>backup_file := main_file st2\<rparr>))))
         | _ \<Rightarrow> (Inr (), set_aside_unreadable move_ok st))"

definition rules_listed :: "learning_store \<Rightarrow> learned_rule list" where
  "rules_listed st = sort_key
     (\<lambda>r. (casefold (pattern_of r), source_group r, match_name (rmatch r), case_sensitive r)) (rules_stored st)"

definition add_rule :: "bool \<Rightarrow> learned_rule \<Rightarrow> learning_store \<Rightarrow> (invalid_rule + (py_error + learned_rule)) \<times> learning_store" where
  "add_rule disk_ok r st =
     (case validate_rule r of
        Some problem \<Rightarrow> (Inl problem, st)
      | None \<Rightarrow>
          (case save_rules disk_ok (st\<lparr>rules_stored := insert_rule r (rules_stored st)\<rparr>) of
             (Inl e, st') \<Rightarrow> (Inr (Inl e), st')
           | (Inr _, st') \<Rightarrow> (Inr (Inr r), st')))"

definition replace_rule :: "bool \<Rightarrow> learned_rule \<Rightarrow> learned_rule \<Rightarrow> learning_store
    \<Rightarrow> (invalid_rule + (py_error + learned_rule)) \<times> learning_store" where
  "replace_rule disk_ok old new st =
     (case validate_rule new of
        Some problem \<Rightarrow> (Inl problem, st)
      | None \<Rightarrow>
          (case save_rules disk_ok (st\<lparr>rules_stored := insert_rule new (filter (\<lambda>item. item \<noteq> old) (rules_stored st))\<rparr>) of
             (Inl e, st') \<Rightarrow> (Inr (Inl e), st')
           | (Inr _, st') \<Rightarrow> (Inr (Inr new), st')))"

definition remove_rule :: "bool \<Rightarrow> learned_rule \<Rightarrow> learning_store \<Rightarrow> (bool, learning_store) outcome" where
  "remove_rule disk_ok r st =
     (let remaining = filter (\<lambda>item. item \<noteq> r) (rules_stored st)
      in if length remaining = length (rules_stored st) then (Inr False, st)
         else case save_rules disk_ok (st\<lparr>rules_stored := remaining\<rparr>) of
           (Inl e, st') \<Rightarrow> (Inl e, st') | (Inr _, st') \<Rightarrow> (Inr True, st'))"

definition clear_rules :: "bool \<Rightarrow> learning_store \<Rightarrow> (unit, learning_store) outcome" where
  "clear_rules disk_ok st = save_rules disk_ok (st\<lparr>rules_stored := []\<rparr>)"

subsection \<open>Which rule decides\<close>

definition rule_match_for :: "learning_store \<Rightarrow> int \<Rightarrow> ustr \<Rightarrow> learned_rule option" where
  "rule_match_for st source word =
     (if word = [] then None
      else max_by specificity (filter (\<lambda>r. source_group r = source \<and> rule_matches r word) (rules_stored st)))"

definition forced_target :: "learning_store \<Rightarrow> int \<Rightarrow> ustr \<Rightarrow> int option" where
  "forced_target st source word =
     (case rule_match_for st source word of
        None \<Rightarrow> None | Some r \<Rightarrow> if action_of r = Convert then Some (target_group r) else None)"

definition keeps :: "learning_store \<Rightarrow> int \<Rightarrow> ustr \<Rightarrow> bool" where
  "keeps st source word =
     (case rule_match_for st source word of None \<Rightarrow> False | Some r \<Rightarrow> action_of r = Keep)"

definition keeps_continuation :: "learning_store \<Rightarrow> int \<Rightarrow> ustr \<Rightarrow> bool" where
  "keeps_continuation st source prefix =
     list_ex (\<lambda>r. action_of r = Keep \<and> source_group r = source \<and> may_match_continuation r prefix) (rules_stored st)"

subsection \<open>The store's invariant\<close>

text \<open>Every rule is valid, and no two rules have one identity.\<close>

definition rules_ok :: "learned_rule list \<Rightarrow> bool" where
  "rules_ok rules \<longleftrightarrow> distinct (map rule_identity rules) \<and> list_all valid_rule rules"

lemma rules_ok_Nil [simp, store_simps]: "rules_ok []"
  by (simp add: rules_ok_def)

lemma rules_ok_filter [simp, store_simps]: "rules_ok rules \<Longrightarrow> rules_ok (filter p rules)"
  by (auto simp: rules_ok_def list_all_iff distinct_map inj_on_def)

lemma rules_ok_insert [simp, store_simps]: "rules_ok rules \<Longrightarrow> valid_rule r \<Longrightarrow> rules_ok (insert_rule r rules)"
  by (auto simp: rules_ok_def insert_rule_def list_all_iff distinct_map inj_on_def)

lemma set_insert_rule: "r' \<in> set (insert_rule r rules) \<longleftrightarrow> r' = r \<or> r' \<in> set rules \<and> rule_identity r' \<noteq> rule_identity r"
  by (auto simp: insert_rule_def)

lemma insert_rule_fresh: "rule_identity r \<notin> rule_identity ` set rules \<Longrightarrow> insert_rule r rules = rules @ [r]"
  by (simp add: insert_rule_def filter_id_conv) (metis imageI)

lemma rules_ok_fold_insert:
  "rules_ok rules \<Longrightarrow> list_all valid_rule later \<Longrightarrow> rules_ok (fold insert_rule later rules)"
  by (induction later arbitrary: rules) auto

lemma rule_from_json_valid: "rule_from_json v = Some r \<Longrightarrow> valid_rule r"
  by (auto simp: rule_from_json_def Let_def split: json.splits option.splits if_splits)

lemma rules_ok_load: "rules_ok (load_rules values)"
proof -
  let ?f = "\<lambda>v rules. case rule_from_json v of None \<Rightarrow> rules | Some r \<Rightarrow> insert_rule r rules"
  have "rules_ok rules \<Longrightarrow> rules_ok (fold ?f values rules)" for rules
    by (induction "values" arbitrary: rules) (auto split: option.splits dest: rule_from_json_valid)
  then show ?thesis by (simp add: load_rules_def)
qed

lemma stored_save [simp, frame_simps]:
  "rules_stored (snd (save_rules ok st)) = rules_stored st"
  by (simp add: save_rules_def)

lemma stored_set_aside [simp, frame_simps]:
  "rules_stored (set_aside_unreadable ok st) = rules_stored st"
  by (simp add: set_aside_unreadable_def)

subsection \<open>Migration\<close>

definition merged_ok :: "(int \<times> rule_match \<times> bool \<times> ustr, learned_rule) odict \<Rightarrow> bool" where
  "merged_ok valid \<longleftrightarrow> dict_ok valid \<and> (\<forall>(i, r)\<in>set valid. rule_identity r = i \<and> valid_rule r)"

lemma merged_ok_step: "merged_ok valid \<Longrightarrow> merged_ok (merge_rule r valid)"
proof -
  assume ok: "merged_ok valid"
  have "set (AList.update k v d) \<subseteq> insert (k, v) (set d)" for k :: "int \<times> rule_match \<times> bool \<times> ustr" and v d
    by (induction d) auto
  then have "set (AList.update (rule_identity r) r valid) \<subseteq> insert (rule_identity r, r) (set valid)" .
  with ok show ?thesis by (auto simp: merged_ok_def merge_rule_def)
qed

lemma merged_ok_fold: "merged_ok valid \<Longrightarrow> merged_ok (fold merge_rule rules valid)"
  by (induction rules arbitrary: valid) (auto simp: merged_ok_step)

lemma merged_rules_ok:
  assumes "merged_ok valid"
  shows "rules_ok (map snd valid)"
proof -
  have "map rule_identity (map snd valid) = map fst valid"
    using assms by (auto simp: merged_ok_def)
  then have "distinct (map rule_identity (map snd valid))"
    using assms unfolding merged_ok_def dict_ok_def by (simp only:)
  with assms show ?thesis by (auto simp: rules_ok_def merged_ok_def list_all_iff)
qed

lemma migrate_legacy_ok:
  assumes "migrate_legacy payload required = Inr rules"
  shows "rules_ok rules"
proof -
  obtain rs where "rules = map snd (fold merge_rule rs [])"
    using assms by (auto simp: migrate_legacy_def simp del: fold_append split: sum.splits)
  moreover have "merged_ok (fold merge_rule rs [])"
    by (rule merged_ok_fold) (simp add: merged_ok_def)
  ultimately show ?thesis by (simp only: merged_rules_ok)
qed

text \<open>Whatever the file on disk holds (rules of the current schema, a file of an older version, another
  value, or no JSON at all) and however the writes of a conversion end, a load leaves the store with
  valid rules only and no two of one identity, also when it raises.\<close>

theorem load_store_invariant:
  "rules_ok (rules_stored (snd (load_store required move_ok backup_ok save_ok st)))"
proof -
  have migrated: "rules_ok (fold insert_rule rules [])" if "migrate_legacy d required = Inr rules" for d rules
    using migrate_legacy_ok [OF that] by (intro rules_ok_fold_insert) (auto simp: rules_ok_def)
  show ?thesis
    by (auto simp: load_store_def Let_def rules_ok_load migrated save_rules_def set_aside_unreadable_def
        split: file_state.splits json.splits sum.splits if_splits)
qed

subsection \<open>Operations on the rules\<close>

datatype store_op = Add learned_rule | Replace learned_rule learned_rule | Remove learned_rule | Clear

definition run_op :: "bool \<Rightarrow> store_op \<Rightarrow> learning_store \<Rightarrow> learning_store" where
  "run_op disk_ok op st = (case op of Add r \<Rightarrow> snd (add_rule disk_ok r st)
     | Replace old new \<Rightarrow> snd (replace_rule disk_ok old new st)
     | Remove r \<Rightarrow> snd (remove_rule disk_ok r st) | Clear \<Rightarrow> snd (clear_rules disk_ok st))"

definition run_ops :: "(bool \<times> store_op) list \<Rightarrow> learning_store \<Rightarrow> learning_store" where
  "run_ops ops st = fold (\<lambda>(disk_ok, op) st. run_op disk_ok op st) ops st"

lemma run_op_stored [store_simps]:
  "rules_stored (run_op ok (Add r) st) = (if valid_rule r then insert_rule r (rules_stored st) else rules_stored st)"
  "rules_stored (run_op ok (Replace old r) st) =
     (if valid_rule r then insert_rule r (filter (\<lambda>item. item \<noteq> old) (rules_stored st)) else rules_stored st)"
  "rules_stored (run_op ok (Remove r) st) = filter (\<lambda>item. item \<noteq> r) (rules_stored st)"
  "rules_stored (run_op ok Clear st) = []"
proof -
  have same: "length (filter p xs) = length xs \<Longrightarrow> filter p xs = xs" for p and xs :: "learned_rule list"
    by (metis filter_True length_filter_less order_less_irrefl)
  show "rules_stored (run_op ok (Add r) st) = (if valid_rule r then insert_rule r (rules_stored st) else rules_stored st)"
    by (auto simp: run_op_def add_rule_def save_rules_def split: option.splits)
  show "rules_stored (run_op ok (Replace old r) st) =
      (if valid_rule r then insert_rule r (filter (\<lambda>item. item \<noteq> old) (rules_stored st)) else rules_stored st)"
    by (auto simp: run_op_def replace_rule_def save_rules_def split: option.splits)
  show "rules_stored (run_op ok (Remove r) st) = filter (\<lambda>item. item \<noteq> r) (rules_stored st)"
    using same [of "\<lambda>item. item \<noteq> r" "rules_stored st"]
    by (auto simp: run_op_def remove_rule_def save_rules_def Let_def)
  show "rules_stored (run_op ok Clear st) = []"
    by (simp add: run_op_def clear_rules_def)
qed

lemma run_op_ok: "rules_ok (rules_stored st) \<Longrightarrow> rules_ok (rules_stored (run_op ok op st))"
  by (cases op) (simp_all add: store_simps)

text \<open>C26: Any sequence of additions, replacements, removals and clears, each with a write that may fail,
  keeps the store's rules valid and their identities distinct.\<close>

theorem run_ops_invariant:
  assumes "rules_ok (rules_stored st)"
  shows "rules_ok (rules_stored (run_ops ops st))"
  using assms unfolding run_ops_def
  by (induction ops arbitrary: st) (auto simp: run_op_ok)

definition empty_store :: learning_store where
  "empty_store = \<lparr>rules_stored = [], migrated = 0, unreadable = False, main_file = No_File, backup_file = No_File,
     aside_file = No_File\<rparr>"

theorem run_ops_invariant_witness:
  "rules_ok (rules_stored (run_ops [(True, Add (plain_rule (asc ''ghbdtn'') 0 1 Convert)), (False, Clear)] empty_store))"
  by (rule run_ops_invariant) (simp add: empty_store_def)

subsection \<open>Saving and loading\<close>

lemma rule_json_round_trip:
  assumes "valid_rule r"
  shows "rule_from_json (rule_to_json r) = Some r"
  using assms
  by (cases r; cases "action_of r"; cases "rmatch r")
    (simp_all add: rule_from_json_def Let_def rule_to_json_def dict_get_def action_of_json_def match_of_json_def
      action_name_def match_name_def asc_def)

lemma load_rules_round_trip:
  assumes "rules_ok rules"
  shows "load_rules (map rule_to_json rules) = rules"
proof -
  let ?f = "\<lambda>v rules. case rule_from_json v of None \<Rightarrow> rules | Some r \<Rightarrow> insert_rule r rules"
  have "rules_ok (so_far @ later) \<Longrightarrow> fold ?f (map rule_to_json later) so_far = so_far @ later" for so_far later
  proof (induction later arbitrary: so_far)
    case Nil
    then show ?case by simp
  next
    case (Cons r later)
    then have "valid_rule r" "rule_identity r \<notin> rule_identity ` set so_far"
      by (auto simp: rules_ok_def)
    then have "?f (rule_to_json r) so_far = so_far @ [r]"
      by (simp add: rule_json_round_trip insert_rule_fresh)
    moreover have "rules_ok ((so_far @ [r]) @ later)" using Cons.prems by simp
    ultimately show ?case using Cons.IH [of "so_far @ [r]"] by simp
  qed
  from this [of "[]" rules] assms show ?thesis by (simp add: load_rules_def)
qed

text \<open>C28: What a successful change wrote is what the next start reads: after any operation whose save
  succeeds, loading the written file into a fresh store gives the same rules in the same order, without
  an exception and without moving the file aside.\<close>

theorem save_then_load:
  assumes "rules_ok (rules_stored st)" and "save_rules True st = (result, st')"
  shows "result = Inr () \<and>
    load_store required move_ok backup_ok save_ok (empty_store\<lparr>main_file := main_file st'\<rparr>) =
      (Inr (), empty_store\<lparr>main_file := main_file st', rules_stored := rules_stored st\<rparr>)"
  using assms
  by (auto simp: save_rules_def load_store_def store_json_def dict_get_def asc_def load_rules_round_trip Let_def
      empty_store_def)

theorem save_then_load_witness:
  "load_store 2 True True True (empty_store\<lparr>main_file := main_file (snd (save_rules True
       (empty_store\<lparr>rules_stored := [plain_rule (asc ''ghbdtn'') 0 1 Convert]\<rparr>)))\<rparr>) =
   (Inr (), empty_store\<lparr>main_file := main_file (snd (save_rules True
       (empty_store\<lparr>rules_stored := [plain_rule (asc ''ghbdtn'') 0 1 Convert]\<rparr>))),
     rules_stored := [plain_rule (asc ''ghbdtn'') 0 1 Convert]\<rparr>)"
proof -
  have "rules_ok [plain_rule (asc ''ghbdtn'') 0 1 Convert]"
    by (simp add: rules_ok_def validate_rule_def plain_rule_def asc_def strip_def lstrip_chars_def rstrip_chars_def
        isspace_ch_def isalpha_ch_def letter_class_def MAX_WORD_STROKES_def)
  then show ?thesis
    using save_then_load [of "empty_store\<lparr>rules_stored := [plain_rule (asc ''ghbdtn'') 0 1 Convert]\<rparr>" _ _ 2 True True True]
    by (simp add: save_rules_def)
qed

subsection \<open>The deciding rule\<close>

definition fits :: "learned_rule \<Rightarrow> int \<Rightarrow> ustr \<Rightarrow> bool" where
  "fits r source word \<longleftrightarrow> source_group r = source \<and> rule_matches r word"

lemma rule_match_for_SomeD:
  assumes "rule_match_for st source word = Some r"
  shows "r \<in> set (rules_stored st)" "fits r source word" "word \<noteq> []"
    and "r' \<in> set (rules_stored st) \<Longrightarrow> fits r' source word \<Longrightarrow> specificity r' \<le> specificity r"
proof -
  let ?fitting = "filter (\<lambda>r. source_group r = source \<and> rule_matches r word) (rules_stored st)"
  have max: "max_by specificity ?fitting = Some r" and "word \<noteq> []"
    using assms by (auto simp: rule_match_for_def split: if_splits)
  from max_by_in [OF max] show "r \<in> set (rules_stored st)" "fits r source word" by (auto simp: fits_def)
  show "word \<noteq> []" by fact
  show "r' \<in> set (rules_stored st) \<Longrightarrow> fits r' source word \<Longrightarrow> specificity r' \<le> specificity r"
    using max_by_ge [OF max, of r'] by (simp add: fits_def)
qed

lemma rule_match_for_None:
  "rule_match_for st source word = None \<longleftrightarrow> word = [] \<or> (\<forall>r\<in>set (rules_stored st). \<not> fits r source word)"
  by (auto simp: rule_match_for_def fits_def filter_empty_conv)

text \<open>C27: The most specific rule that fits decides: a word is taken to a layout (or kept as typed) exactly
  when some stored rule of that action fits it, typed in the rule's own layout, such that no fitting rule
  is more specific by condition, then by length, then by keeping; never both, and with no fitting rule
  neither.\<close>

theorem deciding_rule:
  "(\<forall>t. forced_target st source word = Some t \<longrightarrow>
      (\<exists>r\<in>set (rules_stored st). fits r source word \<and> action_of r = Convert \<and> target_group r = t
        \<and> (\<forall>r'\<in>set (rules_stored st). fits r' source word \<longrightarrow> specificity r' \<le> specificity r)))
   \<and> (keeps st source word \<longrightarrow>
      (\<exists>r\<in>set (rules_stored st). fits r source word \<and> action_of r = Keep
        \<and> (\<forall>r'\<in>set (rules_stored st). fits r' source word \<longrightarrow> specificity r' \<le> specificity r)))
   \<and> (forced_target st source word \<noteq> None \<longrightarrow> \<not> keeps st source word)
   \<and> (forced_target st source word = None \<and> \<not> keeps st source word \<longleftrightarrow>
       word = [] \<or> (\<forall>r\<in>set (rules_stored st). \<not> fits r source word))"
proof (cases "rule_match_for st source word")
  case None
  then show ?thesis using rule_match_for_None [of st source word] by (simp add: forced_target_def keeps_def)
next
  case (Some r)
  note r = rule_match_for_SomeD [OF Some]
  show ?thesis
  proof (cases "action_of r")
    case Convert
    then show ?thesis using r Some by (auto simp: forced_target_def keeps_def)
  next
    case Keep
    then show ?thesis using r Some by (auto simp: forced_target_def keeps_def)
  qed
qed

theorem deciding_rule_witness:
  "let st = empty_store\<lparr>rules_stored := [plain_rule (asc ''db'') 0 1 Convert]\<rparr>
   in forced_target st 0 (asc ''DB'') = Some 1 \<and> \<not> keeps st 0 (asc ''DB'')"
proof -
  let ?st = "empty_store\<lparr>rules_stored := [plain_rule (asc ''db'') 0 1 Convert]\<rparr>"
  have "forced_target ?st 0 (asc ''DB'') = Some 1"
    by (simp add: forced_target_def rule_match_for_def rule_matches_def rule_key_def plain_rule_def asc_def
        casefold_def casefold_ch_def lower_ch_def letter_class_def)
  with deciding_rule [of ?st 0 "asc ''DB''"] show ?thesis by (simp add: Let_def)
qed

lemma specificity_exact: "rmatch r = Exact \<Longrightarrow> rmatch r' \<noteq> Exact \<Longrightarrow> specificity r' < specificity r"
  by (cases "rmatch r'") (auto simp: specificity_def RULE_MATCHES_def)

lemma valid_pattern_nonempty: "valid_rule r \<Longrightarrow> pattern_of r \<noteq> []"
  by (auto simp: validate_rule_def split: if_splits)

lemma exact_fits_own_pattern: "rmatch r = Exact \<Longrightarrow> fits r (source_group r) (pattern_of r)"
  by (simp add: fits_def rule_matches_def rule_key_def)

text \<open>C29: A whole-word rule takes effect at once: after it is added (even when the file could not be
  written) it decides its own word, unless another whole-word rule that differs in case sensitivity
  fits that word too.\<close>

theorem added_rule_decides:
  assumes "rules_ok (rules_stored st)" and "valid_rule r" and "rmatch r = Exact"
    and "\<forall>r'\<in>set (rules_stored st). rmatch r' = Exact \<and> fits r' (source_group r) (pattern_of r)
           \<longrightarrow> rule_identity r' = rule_identity r"
  shows "forced_target (snd (add_rule disk_ok r st)) (source_group r) (pattern_of r) =
      (if action_of r = Convert then Some (target_group r) else None)
    \<and> keeps (snd (add_rule disk_ok r st)) (source_group r) (pattern_of r) = (action_of r = Keep)"
proof -
  let ?st = "snd (add_rule disk_ok r st)"
  have stored: "rules_stored ?st = insert_rule r (rules_stored st)"
    using run_op_stored(1) [of disk_ok r st] assms(2) by (simp add: run_op_def)
  have mem: "r \<in> set (rules_stored ?st)" by (simp add: stored set_insert_rule)
  obtain m where m: "rule_match_for ?st (source_group r) (pattern_of r) = Some m"
    using rule_match_for_None [of ?st "source_group r" "pattern_of r"] mem exact_fits_own_pattern [OF assms(3)]
      valid_pattern_nonempty [OF assms(2)] by fastforce
  note spec = rule_match_for_SomeD [OF m]
  have "specificity r \<le> specificity m" using spec(4) mem exact_fits_own_pattern [OF assms(3)] by blast
  then have "rmatch m = Exact" using specificity_exact [OF assms(3), of m] by (metis leD)
  with spec(1,2) assms(4) have "m = r" by (auto simp: stored set_insert_rule)
  with m show ?thesis by (cases "action_of r") (simp_all add: forced_target_def keeps_def)
qed

theorem added_rule_decides_witness:
  "keeps (snd (add_rule False (plain_rule (asc ''db'') 0 1 Keep) empty_store)) 0 (asc ''db'')"
proof -
  have "valid_rule (plain_rule (asc ''db'') 0 1 Keep)"
    by (simp add: validate_rule_def plain_rule_def asc_def strip_def lstrip_chars_def rstrip_chars_def
        isspace_ch_def isalpha_ch_def letter_class_def MAX_WORD_STROKES_def)
  then have "keeps (snd (add_rule False (plain_rule (asc ''db'') 0 1 Keep) empty_store))
      (source_group (plain_rule (asc ''db'') 0 1 Keep)) (pattern_of (plain_rule (asc ''db'') 0 1 Keep))
      = (action_of (plain_rule (asc ''db'') 0 1 Keep) = Keep)"
    using added_rule_decides [of empty_store "plain_rule (asc ''db'') 0 1 Keep" False]
    by (simp add: empty_store_def plain_rule_def)
  then show ?thesis by (simp add: plain_rule_def)
qed

subsection \<open>Before the word is finished\<close>

lemma folded_append: "folded_text r (s @ t) = folded_text r s @ folded_text r t"
  by (simp add: folded_text_def)

lemma rule_matches_folded:
  "rule_matches r word = (case rmatch r of Exact \<Rightarrow> folded_text r word = rule_key r
     | Prefix \<Rightarrow> starts_with (folded_text r word) (rule_key r)
     | Contains \<Rightarrow> occurs_in (rule_key r) (folded_text r word))"
  by (cases "rmatch r") (simp_all add: rule_matches_def folded_text_def Let_def)

lemma may_match_folded:
  "may_match_continuation r prefix = (case rmatch r of Exact \<Rightarrow> starts_with (rule_key r) (folded_text r prefix)
     | Prefix \<Rightarrow> starts_with (rule_key r) (folded_text r prefix) \<or> starts_with (folded_text r prefix) (rule_key r)
     | Contains \<Rightarrow> occurs_in (rule_key r) (folded_text r prefix)
         \<or> (\<exists>start < length (folded_text r prefix). starts_with (rule_key r) (drop start (folded_text r prefix))))"
  by (cases "rmatch r") (auto simp: may_match_continuation_def folded_text_def Let_def list_ex_iff)

text \<open>Two beginnings of one text: one continues the other.\<close>

lemma starts_with_linear: "starts_with s a \<Longrightarrow> starts_with s b \<Longrightarrow> starts_with a b \<or> starts_with b a"
  by (auto simp: starts_with_iff append_eq_append_conv2)

text \<open>An occurrence in \<open>a @ b\<close> lies in \<open>a\<close>, lies in \<open>b\<close>, or starts inside \<open>a\<close> and goes past its end.\<close>

lemma occurs_in_split:
  assumes "occurs_in k (a @ b)"
  shows "occurs_in k a \<or> occurs_in k b \<or> (\<exists>start < length a. starts_with k (drop start a))"
proof -
  obtain u v where uv: "a @ b = u @ k @ v" using assms by (auto simp: occurs_in_iff)
  show ?thesis
  proof (cases "length u < length a")
    case False
    from False uv have "u = a @ drop (length a) u" "b = drop (length a) u @ k @ v"
      by (auto simp: append_eq_append_conv2)
    then show ?thesis by (metis occurs_in_iff)
  next
    case True
    then have rest: "drop (length u) a @ b = k @ v"
      using uv by (metis append_eq_conv_conj drop_append drop_eq_Nil less_imp_le_nat diff_is_0_eq drop0)
    then have "starts_with (drop (length u) a) k \<or> starts_with k (drop (length u) a)"
      by (auto simp: starts_with_iff append_eq_append_conv2)
    then show ?thesis
    proof
      assume "starts_with (drop (length u) a) k"
      then obtain w where "drop (length u) a = k @ w" by (auto simp: starts_with_iff)
      then have "a = take (length u) a @ k @ w" by (metis append_take_drop_id)
      then show ?thesis by (metis occurs_in_iff)
    next
      assume "starts_with k (drop (length u) a)"
      with True show ?thesis by blast
    qed
  qed
qed

text \<open>While a word is being typed, a keep rule that will keep the finished word is already reported for
  every beginning of it, so the early switch never takes such a word; the one exception is a rule on a
  part of the word whose part lies wholly in letters that are not typed yet.\<close>

theorem keeps_continuation_sound:
  assumes "keeps st source (typed @ rest)"
    and "\<forall>r\<in>set (rules_stored st). rmatch r = Contains \<longrightarrow> \<not> occurs_in (rule_key r) (folded_text r rest)"
  shows "keeps_continuation st source typed"
proof -
  obtain r where r: "r \<in> set (rules_stored st)" "source_group r = source" "rule_matches r (typed @ rest)" "action_of r = Keep"
  proof (cases "rule_match_for st source (typed @ rest)")
    case None
    with assms(1) show ?thesis by (simp add: keeps_def)
  next
    case (Some r)
    with rule_match_for_SomeD [OF Some] assms(1) that [of r] show ?thesis by (simp add: keeps_def fits_def)
  qed
  have "may_match_continuation r typed"
  proof (cases "rmatch r")
    case Exact
    with r(3) have "rule_key r = folded_text r typed @ folded_text r rest"
      by (simp add: rule_matches_folded folded_append)
    with Exact show ?thesis by (simp add: may_match_folded)
  next
    case Prefix
    with r(3) have "starts_with (folded_text r typed @ folded_text r rest) (rule_key r)"
      by (simp add: rule_matches_folded folded_append)
    then show ?thesis using starts_with_linear [OF _ starts_with_append] Prefix by (auto simp: may_match_folded)
  next
    case Contains
    with r(3) have "occurs_in (rule_key r) (folded_text r typed @ folded_text r rest)"
      by (simp add: rule_matches_folded folded_append)
    with occurs_in_split assms(2) r(1) Contains show ?thesis by (fastforce simp: may_match_folded)
  qed
  with r show ?thesis by (auto simp: keeps_continuation_def list_ex_iff)
qed

theorem keeps_continuation_sound_witness:
  "keeps_continuation (empty_store\<lparr>rules_stored := [plain_rule (asc ''db'') 0 1 Keep]\<rparr>) 0 (asc ''d'')"
proof -
  let ?st = "empty_store\<lparr>rules_stored := [plain_rule (asc ''db'') 0 1 Keep]\<rparr>"
  have "keeps ?st 0 (asc ''d'' @ asc ''b'')"
    by (simp add: keeps_def rule_match_for_def rule_matches_def rule_key_def plain_rule_def asc_def)
  then show ?thesis
    by (rule keeps_continuation_sound) (simp add: plain_rule_def)
qed

subsection \<open>Old files\<close>



end
