(* ===== verification/Personal_Words.thy ===== *)
theory Personal_Words
  imports Json
begin

text \<open>
  \<open>src/keyswitch/personal_words.py\<close>: the words the typo correction leaves alone, kept as salted hashes.
  The digest and the fresh salt come from \<open>hashlib\<close> and \<open>secrets\<close> and are parameters; the two
  insertion-ordered dictionaries are a list of distinct keys and an association list. The locale
  \<open>recency_store\<close> is the contract both share: a put makes the key the newest and drops the oldest
  ones past the bound.
\<close>

subsection \<open>Bounded stores ordered by recency\<close>

locale recency_store =
  fixes put :: "'k \<Rightarrow> 's \<Rightarrow> 's" and keys :: "'s \<Rightarrow> 'k list" and cap :: nat
  assumes cap_pos: "0 < cap"
    and put_keys: "keys (put k s) = last_n cap (filter (\<lambda>x. x \<noteq> k) (keys s) @ [k])"
begin

lemma bounded: "length (keys (put k s)) \<le> cap"
  by (simp add: put_keys)

lemma newest: "k \<in> set (keys (put k s))"
proof -
  have "last_n cap (filter (\<lambda>x. x \<noteq> k) (keys s) @ [k]) = last_n (cap - 1) (filter (\<lambda>x. x \<noteq> k) (keys s)) @ [k]"
    using cap_pos by (cases cap) simp_all
  then show ?thesis by (simp add: put_keys)
qed

lemma distinct_put: "distinct (keys s) \<Longrightarrow> distinct (keys (put k s))"
  by (simp add: put_keys)

lemma put_subset: "set (keys (put k s)) \<subseteq> insert k (set (keys s))"
  using set_last_n [of cap "filter (\<lambda>x. x \<noteq> k) (keys s) @ [k]"] by (auto simp: put_keys)

text \<open>A key stays while fewer than \<open>cap\<close> keys were put after it: it is among the newest \<open>n\<close>.\<close>

definition among_newest :: "nat \<Rightarrow> 'k \<Rightarrow> 's \<Rightarrow> bool" where
  "among_newest n k s \<longleftrightarrow> k \<in> set (last_n n (keys s))"

lemma put_newest: "among_newest 1 k (put k s)"
proof -
  have "last_n 1 (last_n cap (xs @ [k])) = last_n (Suc 0) (xs @ [k])" for xs
    using cap_pos by simp
  then show ?thesis by (simp add: among_newest_def put_keys)
qed

lemma put_keeps_newest:
  assumes "among_newest n k s" and "n < cap"
  shows "among_newest (Suc n) k (put k' s)"
proof (cases "k' = k")
  case True
  have "last_n (Suc n) (last_n cap (xs @ [k])) = last_n n xs @ [k]" for xs
    using assms(2) by simp
  with True show ?thesis by (simp add: among_newest_def put_keys)
next
  case False
  let ?xs = "keys s"
  obtain ys where ys: "?xs = ys @ last_n n ?xs" using last_n_suffix by blast
  let ?zs = "filter (\<lambda>x. x \<noteq> k') (last_n n ?xs) @ [k']"
  have len: "length ?zs \<le> Suc n"
    using length_filter_le [of "\<lambda>x. x \<noteq> k'" "last_n n ?xs"] by simp
  have "filter (\<lambda>x. x \<noteq> k') ?xs @ [k'] = filter (\<lambda>x. x \<noteq> k') ys @ ?zs"
    by (subst ys) (simp del: last_n_suffix)
  moreover have "set ?zs \<subseteq> set (last_n (Suc n) (last_n cap (us @ ?zs)))" for us
  proof -
    have "last_n (Suc n) (last_n cap (us @ ?zs)) = last_n (Suc n) (us @ ?zs)"
      using assms(2) by simp
    moreover have "set ?zs \<subseteq> set (last_n (Suc n) (us @ ?zs))"
      using len unfolding last_n_def by (auto simp: drop_append)
    ultimately show ?thesis by simp
  qed
  moreover have "k \<in> set ?zs" using assms(1) False by (simp add: among_newest_def)
  ultimately show ?thesis unfolding among_newest_def put_keys by (simp only: append_assoc subset_eq)
qed

lemma stays:
  assumes "length ks < cap"
  shows "k \<in> set (keys (fold put ks (put k s)))"
proof -
  have "length ks < cap \<Longrightarrow> among_newest (Suc (length ks)) k (fold put ks (put k s))"
  proof (induction ks rule: rev_induct)
    case Nil
    then show ?case using put_newest by simp
  next
    case (snoc k' ks)
    then show ?case using put_keeps_newest by simp
  qed
  with assms set_last_n show ?thesis by (fastforce simp: among_newest_def)
qed

end

subsection \<open>State\<close>

definition PERSONAL_WORD_MIN_COUNT :: int where
  "PERSONAL_WORD_MIN_COUNT = 2"

definition PERSONAL_WORDS_MAX :: nat where
  "PERSONAL_WORDS_MAX = 20000"

definition PERSONAL_WORD_COUNTS_MAX :: nat where
  "PERSONAL_WORD_COUNTS_MAX = 5000"

definition PERSONAL_WORD_HASH_HEX_CHARACTERS :: nat where
  "PERSONAL_WORD_HASH_HEX_CHARACTERS = 16"

definition PERSONAL_WORDS_SCHEMA_VERSION :: int where
  "PERSONAL_WORDS_SCHEMA_VERSION = 1"

record personal_words =
  pw_salt :: ustr
  pw_personal :: "ustr list"
  pw_counts :: "(ustr, int) odict"
  pw_file :: file_state
  pw_unreadable :: bool

text \<open>
  What an operation meets outside: the digest, the salt drawn when there is none yet, whether the file may
  be written (\<open>persist\<close>) and whether the write succeeds.
\<close>

record pw_world =
  digest :: "ustr \<Rightarrow> ustr"
  fresh_salt :: ustr
  persist :: bool
  write_ok :: bool

subsection \<open>Operations\<close>

definition pw_salted :: "pw_world \<Rightarrow> personal_words \<Rightarrow> personal_words" where
  "pw_salted w st = (if pw_salt st = [] then st\<lparr>pw_salt := fresh_salt w\<rparr> else st)"

definition pw_key :: "pw_world \<Rightarrow> personal_words \<Rightarrow> ustr \<Rightarrow> ustr" where
  "pw_key w st word = take PERSONAL_WORD_HASH_HEX_CHARACTERS (digest w (pw_salt (pw_salted w st) @ casefold word))"

definition pw_contains :: "pw_world \<Rightarrow> personal_words \<Rightarrow> ustr \<Rightarrow> bool" where
  "pw_contains w st word \<longleftrightarrow> pw_salt st \<noteq> [] \<and> pw_key w st word \<in> set (pw_personal st)"

definition pw_json :: "personal_words \<Rightarrow> json" where
  "pw_json st = JObj [(asc ''schema_version'', JInt PERSONAL_WORDS_SCHEMA_VERSION), (asc ''salt'', JStr (pw_salt st)),
     (asc ''personal'', JList (map JStr (pw_personal st))),
     (asc ''counts'', JObj (map (\<lambda>(k, n). (k, JInt n)) (pw_counts st)))]"

text \<open>\<open>save\<close> swallows an \<open>OSError\<close>: the words stay for the session.\<close>

definition pw_save :: "pw_world \<Rightarrow> personal_words \<Rightarrow> personal_words" where
  "pw_save w st = (if persist w \<and> write_ok w then st\<lparr>pw_file := Holds (pw_json st)\<rparr> else st)"

definition remember_key :: "ustr \<Rightarrow> ustr list \<Rightarrow> ustr list" where
  "remember_key k ks = evict PERSONAL_WORDS_MAX (removeAll k ks @ [k])"

definition pw_add :: "pw_world \<Rightarrow> ustr \<Rightarrow> personal_words \<Rightarrow> personal_words" where
  "pw_add w word st0 =
     (let st = pw_salted w st0; k = pw_key w st0 word
      in pw_save w (st\<lparr>pw_counts := AList.delete k (pw_counts st), pw_personal := remember_key k (pw_personal st)\<rparr>))"

definition put_count :: "ustr \<Rightarrow> int \<Rightarrow> (ustr, int) odict \<Rightarrow> (ustr, int) odict" where
  "put_count k n counts = evict PERSONAL_WORD_COUNTS_MAX (AList.update k n (AList.delete k counts))"

definition pw_keep :: "pw_world \<Rightarrow> ustr \<Rightarrow> personal_words \<Rightarrow> bool \<times> personal_words" where
  "pw_keep w word st0 =
     (let st = pw_salted w st0; k = pw_key w st0 word
      in if k \<in> set (pw_personal st) then (True, st)
         else let count = (case map_of (pw_counts st) k of None \<Rightarrow> 0 | Some n \<Rightarrow> n) + 1
              in if PERSONAL_WORD_MIN_COUNT \<le> count
                 then (True, pw_save w (st\<lparr>pw_counts := AList.delete k (pw_counts st),
                         pw_personal := remember_key k (pw_personal st)\<rparr>))
                 else (False, pw_save w (st\<lparr>pw_counts := put_count k count (pw_counts st)\<rparr>)))"

definition pw_clear :: "pw_world \<Rightarrow> personal_words \<Rightarrow> personal_words" where
  "pw_clear w st = pw_save w (st\<lparr>pw_salt := [], pw_personal := [], pw_counts := []\<rparr>)"

text \<open>\<open>{key: None for key in personal if isinstance(key, str)}\<close>: the first occurrence sets the place.\<close>

definition first_strings :: "json list \<Rightarrow> ustr list" where
  "first_strings values =
     fold (\<lambda>v ks. case v of JStr k \<Rightarrow> if k \<in> set ks then ks else ks @ [k] | _ \<Rightarrow> ks) values []"

definition positive_counts :: "(ustr \<times> json) list \<Rightarrow> (ustr, int) odict" where
  "positive_counts d = List.map_filter (\<lambda>(k, v). case v of JInt n \<Rightarrow> if 0 < n then Some (k, n) else None | _ \<Rightarrow> None) d"

definition pw_load :: "bool \<Rightarrow> personal_words \<Rightarrow> personal_words" where
  "pw_load move_ok st0 =
     (let st = st0\<lparr>pw_salt := [], pw_personal := [], pw_counts := []\<rparr>;
          aside = (if move_ok then st\<lparr>pw_file := No_File, pw_unreadable := True\<rparr> else st\<lparr>pw_unreadable := False\<rparr>)
      in case pw_file st of
           No_File \<Rightarrow> st
         | Holds (JObj d) \<Rightarrow>
             (case (py_eq (dict_get d (asc ''schema_version'')) (JInt PERSONAL_WORDS_SCHEMA_VERSION),
                    dict_get d (asc ''salt''), dict_get d (asc ''personal''), dict_get d (asc ''counts'')) of
                (True, JStr salt, JList personal, JObj counts) \<Rightarrow>
                  st\<lparr>pw_salt := salt, pw_personal := first_strings personal, pw_counts := positive_counts counts\<rparr>
              | _ \<Rightarrow> aside)
         | _ \<Rightarrow> aside)"

subsection \<open>The two stores are recency stores\<close>

lemma remember_key_keys: "remember_key k ks = last_n PERSONAL_WORDS_MAX (filter (\<lambda>x. x \<noteq> k) ks @ [k])"
  by (simp add: remember_key_def evict_eq_last_n removeAll_filter_not_eq eq_commute)

lemma filter_keys_delete: "map fst (AList.delete k d) = filter (\<lambda>x. x \<noteq> k) (map fst d)"
  by (induction d) auto

lemma put_count_keys:
  "map fst (put_count k n counts) = last_n PERSONAL_WORD_COUNTS_MAX (filter (\<lambda>x. x \<noteq> k) (map fst counts) @ [k])"
  by (simp add: put_count_def update_delete evict_eq_last_n map_last_n filter_keys_delete)

interpretation personal: recency_store remember_key "\<lambda>ks. ks" PERSONAL_WORDS_MAX
  by unfold_locales (simp_all add: remember_key_keys PERSONAL_WORDS_MAX_def)

interpretation count_table: recency_store "\<lambda>k. put_count k n" "map fst" PERSONAL_WORD_COUNTS_MAX for n
  by unfold_locales (simp add: PERSONAL_WORD_COUNTS_MAX_def, rule put_count_keys)


subsection \<open>Invariant\<close>

definition pw_ok :: "personal_words \<Rightarrow> bool" where
  "pw_ok st \<longleftrightarrow> distinct (pw_personal st) \<and> length (pw_personal st) \<le> PERSONAL_WORDS_MAX
     \<and> dict_ok (pw_counts st) \<and> length (pw_counts st) \<le> PERSONAL_WORD_COUNTS_MAX
     \<and> list_all (\<lambda>(k, n). 0 < n \<and> n < PERSONAL_WORD_MIN_COUNT \<and> k \<notin> set (pw_personal st)) (pw_counts st)"

lemma pw_salted_simps [simp]:
  "pw_personal (pw_salted w st) = pw_personal st" "pw_counts (pw_salted w st) = pw_counts st"
  "pw_salted w (pw_salted w st) = pw_salted w st"
  by (simp_all add: pw_salted_def)

lemma pw_save_simps [simp, frame_simps]:
  "pw_personal (pw_save w st) = pw_personal st" "pw_counts (pw_save w st) = pw_counts st"
  "pw_salt (pw_save w st) = pw_salt st"
  by (simp_all add: pw_save_def)

lemma set_delete: "x \<in> set (AList.delete k d) \<longleftrightarrow> x \<in> set d \<and> fst x \<noteq> k"
  by (induction d) auto

lemma remember_subset: "set (remember_key k ks) \<subseteq> insert k (set ks)"
  using personal.put_subset [of k ks] by simp

lemma pw_ok_count:
  "pw_ok st \<Longrightarrow> (k, n) \<in> set (pw_counts st) \<Longrightarrow> 0 < n \<and> n < PERSONAL_WORD_MIN_COUNT \<and> k \<notin> set (pw_personal st)"
  by (auto simp: pw_ok_def list_all_iff)

lemma pw_ok_remember:
  assumes "pw_ok st"
  shows "pw_ok (st\<lparr>pw_counts := AList.delete k (pw_counts st), pw_personal := remember_key k (pw_personal st)\<rparr>)"
proof -
  have "0 < n \<and> n < PERSONAL_WORD_MIN_COUNT \<and> k' \<notin> set (remember_key k (pw_personal st))"
    if "(k', n) \<in> set (AList.delete k (pw_counts st))" for k' n
    using that pw_ok_count [OF assms, of k' n] remember_subset [of k "pw_personal st"] by (auto simp: set_delete)
  then show ?thesis
    using assms personal.bounded [of k "pw_personal st"] personal.distinct_put [of "pw_personal st" k]
      length_delete_le [of k "pw_counts st"]
    by (auto simp: pw_ok_def list_all_iff)
qed

lemma pw_ok_put_count:
  assumes "pw_ok st" and "0 < n" and "n < PERSONAL_WORD_MIN_COUNT" and "k \<notin> set (pw_personal st)"
  shows "pw_ok (st\<lparr>pw_counts := put_count k n (pw_counts st)\<rparr>)"
proof -
  have "set (put_count k n (pw_counts st)) \<subseteq> insert (k, n) (set (pw_counts st))"
    using set_last_n [of PERSONAL_WORD_COUNTS_MAX "AList.delete k (pw_counts st) @ [(k, n)]"]
    by (auto simp: put_count_def update_delete evict_eq_last_n set_delete)
  moreover have "dict_ok (put_count k n (pw_counts st))" "length (put_count k n (pw_counts st)) \<le> PERSONAL_WORD_COUNTS_MAX"
    using assms(1) by (simp_all add: put_count_def pw_ok_def)
  ultimately show ?thesis using assms by (auto simp: pw_ok_def list_all_iff)
qed

lemma pw_ok_cong:
  "pw_personal st' = pw_personal st \<Longrightarrow> pw_counts st' = pw_counts st \<Longrightarrow> pw_ok st \<Longrightarrow> pw_ok st'"
  by (simp add: pw_ok_def)

datatype pw_op = Add_Word ustr | Keep_Word ustr | Clear_Words

definition pw_step :: "pw_world \<times> pw_op \<Rightarrow> personal_words \<Rightarrow> personal_words" where
  "pw_step = (\<lambda>(w, op) st. case op of Add_Word x \<Rightarrow> pw_add w x st | Keep_Word x \<Rightarrow> snd (pw_keep w x st)
     | Clear_Words \<Rightarrow> pw_clear w st)"

lemma pw_step_ok:
  assumes "pw_ok st"
  shows "pw_ok (pw_step (w, op) st)"
proof (cases op)
  case (Add_Word x)
  then show ?thesis
    using pw_ok_remember [of "pw_salted w st" "pw_key w st x"] assms
    by (simp add: pw_step_def pw_add_def Let_def pw_ok_def)
next
  case (Keep_Word x)
  define k where "k = pw_key w st x"
  define count where "count = (case map_of (pw_counts st) k of None \<Rightarrow> 0 | Some n \<Rightarrow> n) + 1"
  have salted: "pw_ok (pw_salted w st)" using assms by (simp add: pw_ok_def)
  have "0 < count"
  proof (cases "map_of (pw_counts st) k")
    case (Some n)
    with pw_ok_count [OF assms map_of_SomeD [OF Some]] show ?thesis by (simp add: count_def)
  qed (simp add: count_def)
  moreover have "pw_ok ((pw_salted w st)\<lparr>pw_counts := put_count k count (pw_counts st)\<rparr>)"
    if "k \<notin> set (pw_personal st)" "\<not> PERSONAL_WORD_MIN_COUNT \<le> count"
    using pw_ok_put_count [OF salted, of count k] that \<open>0 < count\<close> by simp
  moreover have "pw_ok ((pw_salted w st)\<lparr>pw_counts := AList.delete k (pw_counts st),
      pw_personal := remember_key k (pw_personal st)\<rparr>)"
    using pw_ok_remember [OF salted, of k] by simp
  ultimately show ?thesis
    using Keep_Word salted
    by (simp add: pw_step_def pw_keep_def Let_def k_def [symmetric] count_def [symmetric])
       (simp add: pw_ok_def)
next
  case Clear_Words
  then show ?thesis by (simp add: pw_step_def pw_clear_def pw_ok_def)
qed

text \<open>C33: Any sequence of additions, keeps and clears, with writes that succeed, fail or are not allowed,
  leaves both lists within their bounds and without doubles, no word in both, and every count positive
  and short of the number that makes a word the user's own.\<close>

theorem personal_words_invariant:
  assumes "pw_ok st"
  shows "pw_ok (fold pw_step ops st)"
  using assms
proof (induction ops arbitrary: st)
  case (Cons op ops)
  then show ?case using pw_step_ok [of st] by (cases op) simp
qed simp

definition pw_fresh :: personal_words where
  "pw_fresh = \<lparr>pw_salt = [], pw_personal = [], pw_counts = [], pw_file = No_File, pw_unreadable = False\<rparr>"

definition pw_test_world :: pw_world where
  "pw_test_world = \<lparr>digest = (\<lambda>s. s), fresh_salt = asc ''salt'', persist = True, write_ok = True\<rparr>"

theorem personal_words_invariant_witness:
  "pw_ok (fold pw_step [(pw_test_world, Keep_Word (asc ''mitap'')), (pw_test_world, Add_Word (asc ''komit''))] pw_fresh)"
  by (rule personal_words_invariant)
    (simp add: pw_ok_def pw_fresh_def PERSONAL_WORDS_MAX_def PERSONAL_WORD_COUNTS_MAX_def)

subsection \<open>When a word is the user's own\<close>

lemma pw_key_frame [simp]: "pw_key w (pw_save w' st) x = pw_key w st x"
  by (simp add: pw_key_def pw_salted_def)

lemma pw_key_salted [simp]: "pw_key w (pw_salted w st) x = pw_key w st x"
  by (simp add: pw_key_def)

lemma pw_key_updates [simp]:
  "pw_key w (st\<lparr>pw_personal := a\<rparr>) x = pw_key w st x"
  "pw_key w (st\<lparr>pw_counts := b\<rparr>) x = pw_key w st x"
  by (simp_all add: pw_key_def pw_salted_def)

text \<open>A word becomes the user's own at the second time it is left as typed: a keep answers yes exactly
  when the word is already the user's own or was counted before, otherwise it is counted and the next
  keep of it answers yes, whether or not the file can be written.\<close>

theorem keep_twice:
  assumes "pw_ok st" and "fresh_salt w \<noteq> []"
  shows "(fst (pw_keep w x st) \<longleftrightarrow> pw_key w st x \<in> set (pw_personal st) \<union> fst ` set (pw_counts st))
    \<and> fst (pw_keep w x (snd (pw_keep w x st)))"
proof -
  define k where "k = pw_key w st x"
  have one: "n = 1" if "map_of (pw_counts st) k = Some n" for n
    using pw_ok_count [OF assms(1) map_of_SomeD [OF that]] by (simp add: PERSONAL_WORD_MIN_COUNT_def)
  consider (own) "k \<in> set (pw_personal st)"
    | (counted) "k \<notin> set (pw_personal st)" "map_of (pw_counts st) k = Some 1"
    | (new) "k \<notin> set (pw_personal st)" "map_of (pw_counts st) k = None"
    using one by (cases "map_of (pw_counts st) k") auto
  then show ?thesis
  proof cases
    case own
    then show ?thesis by (simp add: pw_keep_def Let_def k_def [symmetric])
  next
    case counted
    then have "k \<in> fst ` set (pw_counts st)" by (auto dest: map_of_SomeD intro: rev_image_eqI)
    moreover have "fst (pw_keep w x st)" "k \<in> set (pw_personal (snd (pw_keep w x st)))" "pw_key w (snd (pw_keep w x st)) x = k"
      using counted personal.newest [of k "pw_personal st"]
      by (simp_all add: pw_keep_def Let_def k_def [symmetric] PERSONAL_WORD_MIN_COUNT_def)
    ultimately show ?thesis by (simp add: k_def [symmetric]) (simp add: pw_keep_def Let_def)
  next
    case new
    then have "k \<notin> fst ` set (pw_counts st)" by (simp add: map_of_eq_None_iff)
    moreover have "\<not> fst (pw_keep w x st)" and st1: "pw_personal (snd (pw_keep w x st)) = pw_personal st"
      "pw_counts (snd (pw_keep w x st)) = put_count k 1 (pw_counts st)" "pw_key w (snd (pw_keep w x st)) x = k"
      using new by (simp_all add: pw_keep_def Let_def k_def [symmetric] PERSONAL_WORD_MIN_COUNT_def)
    moreover have "map_of (put_count k 1 (pw_counts st)) k = Some 1"
    proof -
      obtain ys where "put_count k 1 (pw_counts st) = ys @ [(k, 1)]"
        using evict_snoc [of PERSONAL_WORD_COUNTS_MAX "AList.delete k (pw_counts st)" "(k, 1)"]
        by (auto simp: put_count_def update_delete PERSONAL_WORD_COUNTS_MAX_def)
      moreover have "dict_ok (put_count k 1 (pw_counts st))"
        using assms(1) by (simp add: put_count_def pw_ok_def)
      ultimately show ?thesis by (simp add: dict_ok_def map_add_def map_of_eq_None_iff [THEN iffD2])
    qed
    ultimately show ?thesis
      using new by (simp add: k_def [symmetric]) (simp add: pw_keep_def Let_def PERSONAL_WORD_MIN_COUNT_def)
  qed
qed

theorem keep_twice_witness:
  "fst (pw_keep pw_test_world (asc ''mitap'') (snd (pw_keep pw_test_world (asc ''mitap'') pw_fresh)))"
proof -
  have "pw_ok pw_fresh" "fresh_salt pw_test_world \<noteq> []"
    by (simp_all add: pw_ok_def pw_fresh_def pw_test_world_def asc_def)
  from keep_twice [OF this] show ?thesis by blast
qed

text \<open>Each operation but a clear puts at most one key among the user's words.\<close>

lemma pw_step_remembers:
  assumes "op \<noteq> Clear_Words"
  shows "\<exists>ks. length ks \<le> 1 \<and> pw_personal (pw_step (w, op) st) = fold remember_key ks (pw_personal st)"
proof -
  have "\<exists>ks. length ks \<le> 1 \<and> ps = fold remember_key ks ps" for ps
    by (rule exI [of _ "[]"]) simp
  moreover have "\<exists>ks. length ks \<le> 1 \<and> remember_key k ps = fold remember_key ks ps" for k ps
    by (rule exI [of _ "[k]"]) simp
  ultimately show ?thesis
    using assms by (cases op) (auto simp: pw_step_def pw_add_def pw_keep_def Let_def)
qed

lemma pw_steps_remember:
  assumes "\<forall>(w, op)\<in>set ops. op \<noteq> Clear_Words"
  shows "\<exists>ks. length ks \<le> length ops \<and> pw_personal (fold pw_step ops st) = fold remember_key ks (pw_personal st)"
  using assms
proof (induction ops arbitrary: st)
  case Nil
  show ?case by (rule exI [of _ "[]"]) simp
next
  case (Cons op ops)
  obtain w o' where op: "op = (w, o')" by fastforce
  obtain ks where ks: "length ks \<le> 1" "pw_personal (pw_step op st) = fold remember_key ks (pw_personal st)"
    using pw_step_remembers [of o' w st] Cons.prems op by auto
  obtain ls where "length ls \<le> length ops" "pw_personal (fold pw_step ops (pw_step op st)) = fold remember_key ls (pw_personal (pw_step op st))"
    using Cons.IH [of "pw_step op st"] Cons.prems by auto
  with ks show ?case by (intro exI [of _ "ks @ ls"]) simp
qed

lemma pw_salt_steps:
  "pw_salt st \<noteq> [] \<Longrightarrow> \<forall>(w, op)\<in>set ops. op \<noteq> Clear_Words \<Longrightarrow> pw_salt (fold pw_step ops st) = pw_salt st"
proof (induction ops arbitrary: st)
  case (Cons op ops)
  then have "pw_salt (pw_step op st) = pw_salt st"
    by (cases op; cases "snd op") (auto simp: pw_step_def pw_add_def pw_keep_def Let_def pw_salted_def)
  with Cons show ?case by simp
qed simp

text \<open>A word whose correction was taken back stays the user's own while fewer than
  \<open>PERSONAL_WORDS_MAX\<close> further words are added or kept: later operations push it out only by filling
  the list.\<close>

theorem added_word_stays:
  assumes "fresh_salt w \<noteq> []" and "\<forall>(w', op)\<in>set ops. op \<noteq> Clear_Words" and "length ops < PERSONAL_WORDS_MAX"
  shows "pw_contains w (fold pw_step ops (pw_add w x st)) x"
proof -
  define k where "k = pw_key w st x"
  have salt: "pw_salt (pw_add w x st) = pw_salt (pw_salted w st)" "pw_salt (pw_salted w st) \<noteq> []"
    using assms(1) by (simp_all add: pw_add_def Let_def pw_salted_def)
  have personal: "pw_personal (pw_add w x st) = remember_key k (pw_personal st)"
    by (simp add: pw_add_def Let_def k_def)
  obtain ks where ks: "length ks \<le> length ops"
      "pw_personal (fold pw_step ops (pw_add w x st)) = fold remember_key ks (remember_key k (pw_personal st))"
    using pw_steps_remember [OF assms(2), of "pw_add w x st"] personal by auto
  have "k \<in> set (fold remember_key ks (remember_key k (pw_personal st)))"
    using personal.stays [of ks k "pw_personal st"] ks(1) assms(3) by simp
  moreover have "pw_salt (fold pw_step ops (pw_add w x st)) = pw_salt (pw_salted w st)"
    using pw_salt_steps [of "pw_add w x st" ops] salt assms(2) by simp
  ultimately show ?thesis
    using ks(2) salt(2) by (simp add: pw_contains_def pw_key_def k_def pw_salted_def split: if_splits)
qed

theorem added_word_stays_witness:
  "pw_contains pw_test_world (fold pw_step [(pw_test_world, Keep_Word (asc ''mitap''))]
     (pw_add pw_test_world (asc ''komit'') pw_fresh)) (asc ''KOMIT'')"
proof -
  have "pw_contains pw_test_world (fold pw_step [(pw_test_world, Keep_Word (asc ''mitap''))]
     (pw_add pw_test_world (asc ''KOMIT'') pw_fresh)) (asc ''KOMIT'')"
    by (rule added_word_stays) (simp_all add: pw_test_world_def asc_def PERSONAL_WORDS_MAX_def)
  moreover have "casefold (asc ''KOMIT'') = casefold (asc ''komit'')"
    by (simp add: asc_def casefold_def casefold_ch_def lower_ch_def letter_class_def)
  ultimately show ?thesis by (simp add: pw_add_def pw_key_def Let_def)
qed

subsection \<open>The file\<close>

lemma first_strings_distinct: "distinct ks \<Longrightarrow> first_strings (map JStr ks) = ks"
proof -
  let ?f = "\<lambda>v ks. case v of JStr k \<Rightarrow> if k \<in> set ks then ks else ks @ [k] | _ \<Rightarrow> ks"
  have "distinct (acc @ ks) \<Longrightarrow> fold ?f (map JStr ks) acc = acc @ ks" for acc
    by (induction ks arbitrary: acc) auto
  from this [of "[]"] show "distinct ks \<Longrightarrow> first_strings (map JStr ks) = ks"
    by (simp add: first_strings_def)
qed

lemma positive_counts_map:
  "list_all (\<lambda>(k, n). 0 < n) d \<Longrightarrow> positive_counts (map (\<lambda>(k, n). (k, JInt n)) d) = d"
  by (induction d) (auto simp: positive_counts_def List.map_filter_simps)

text \<open>What was saved is read back at the next start: after a save the file allows, loading it gives the
  same salt, the same words in the same order and the same counts.\<close>

theorem personal_words_file:
  assumes "pw_ok st" and "persist w" and "write_ok w"
  shows "pw_load move_ok (pw_fresh\<lparr>pw_file := pw_file (pw_save w st)\<rparr>) =
    \<lparr>pw_salt = pw_salt st, pw_personal = pw_personal st, pw_counts = pw_counts st,
     pw_file = Holds (pw_json st), pw_unreadable = False\<rparr>"
proof -
  have "first_strings (map JStr (pw_personal st)) = pw_personal st"
    using assms(1) by (simp add: pw_ok_def first_strings_distinct)
  moreover have "positive_counts (map (\<lambda>(k, n). (k, JInt n)) (pw_counts st)) = pw_counts st"
    using assms(1) by (intro positive_counts_map) (auto simp: pw_ok_def list_all_iff)
  ultimately show ?thesis
    using assms(2,3)
    by (simp add: pw_save_def pw_load_def pw_json_def dict_get_def asc_def num_value_def Let_def pw_fresh_def)
qed

theorem personal_words_file_witness:
  "pw_personal (pw_load True (pw_fresh\<lparr>pw_file := pw_file (pw_save pw_test_world (pw_fresh\<lparr>pw_personal := [asc ''0f'']\<rparr>))\<rparr>))
     = [asc ''0f'']"
proof -
  have "pw_ok (pw_fresh\<lparr>pw_personal := [asc ''0f'']\<rparr>)" "persist pw_test_world" "write_ok pw_test_world"
    by (simp_all add: pw_ok_def pw_fresh_def pw_test_world_def PERSONAL_WORDS_MAX_def PERSONAL_WORD_COUNTS_MAX_def)
  from personal_words_file [OF this, of True] show ?thesis by simp
qed

end
