(* ===== verification/History.thy ===== *)
theory History
  imports Json
begin

text \<open>
  \<open>src/keyswitch/history.py\<close>: the correction history, one JSON object per line, kept to a limit. The file
  is modelled as its text, because the store reads it back with \<open>str.splitlines\<close>, which knows more line
  breaks than the writer writes. The printer and the parser of the standard library are the parameters
  \<open>dumps\<close> and \<open>loads\<close>; the entries' fields are JSON values, since a line's fields are not checked.
\<close>

definition DEFAULT_HISTORY_LIMIT :: int where
  "DEFAULT_HISTORY_LIMIT = 200"

record history_entry =
  h_timestamp :: json
  h_original :: json
  h_replacement :: json
  h_application :: json
  h_confidence :: json

definition entry_json :: "history_entry \<Rightarrow> json" where
  "entry_json e = JObj [(asc ''timestamp'', h_timestamp e), (asc ''original'', h_original e),
     (asc ''replacement'', h_replacement e), (asc ''application'', h_application e), (asc ''confidence'', h_confidence e)]"

text \<open>\<open>HistoryEntry(**payload)\<close>: a dictionary with exactly the five fields, otherwise \<open>TypeError\<close>.\<close>

definition entry_of_json :: "json \<Rightarrow> history_entry option" where
  "entry_of_json v = (case v of
     JObj d \<Rightarrow>
       (case (map_of d (asc ''timestamp''), map_of d (asc ''original''), map_of d (asc ''replacement''),
              map_of d (asc ''application''), map_of d (asc ''confidence'')) of
          (Some t, Some original, Some r, Some a, Some c) \<Rightarrow>
            if length d = 5 then Some \<lparr>h_timestamp = t, h_original = original, h_replacement = r, h_application = a,
              h_confidence = c\<rparr> else None
        | _ \<Rightarrow> None)
   | _ \<Rightarrow> None)"

text \<open>The characters \<open>str.splitlines\<close> breaks at (a carriage return was translated by the text mode before).\<close>

definition line_break :: "uchar \<Rightarrow> bool" where
  "line_break c \<longleftrightarrow> c \<in> {0xA, 0xB, 0xC, 0xD, 0x1C, 0x1D, 0x1E, 0x85, 0x2028, 0x2029}"

text \<open>A break at the end of the text starts no further line.\<close>

definition splitlines :: "ustr \<Rightarrow> ustr list" where
  "splitlines s = (let parts = split_on line_break s in if last parts = [] then butlast parts else parts)"

datatype history_file = Absent_File | Unreadable_File | Undecodable_File | Text_File ustr

text \<open>\<open>history_limit\<close> of a settings value; \<open>int_of_str\<close> is \<open>int\<close> on a string.\<close>

definition trunc_real :: "real \<Rightarrow> int" where
  "trunc_real r = (if 0 \<le> r then \<lfloor>r\<rfloor> else \<lceil>r\<rceil>)"

definition history_limit :: "(ustr \<Rightarrow> int option) \<Rightarrow> json \<Rightarrow> py_error + int" where
  "history_limit int_of_str v = (case v of
     JInt n \<Rightarrow> Inr (max 1 n)
   | JFloat r \<Rightarrow> Inr (max 1 (trunc_real r))
   | JInf _ \<Rightarrow> Inl OverflowError
   | JStr s \<Rightarrow> (case int_of_str s of None \<Rightarrow> Inr DEFAULT_HISTORY_LIMIT | Some n \<Rightarrow> Inr (max 1 n))
   | _ \<Rightarrow> Inr DEFAULT_HISTORY_LIMIT)"

text \<open>The lines that are entries, in order; any other line is skipped.\<close>

definition parsed_entries :: "(ustr \<Rightarrow> json option) \<Rightarrow> ustr \<Rightarrow> history_entry list" where
  "parsed_entries loads s =
     List.map_filter (\<lambda>line. case loads line of None \<Rightarrow> None | Some v \<Rightarrow> entry_of_json v) (splitlines s)"

text \<open>\<open>result[-limit:]\<close> for a positive limit.\<close>

definition history_read :: "(ustr \<Rightarrow> json option) \<Rightarrow> nat option \<Rightarrow> history_file \<Rightarrow> py_error + history_entry list" where
  "history_read loads limit file = (case file of
     Absent_File \<Rightarrow> Inr []
   | Unreadable_File \<Rightarrow> Inr []
   | Undecodable_File \<Rightarrow> Inl ValueError
   | Text_File s \<Rightarrow> Inr (case limit of None \<Rightarrow> parsed_entries loads s | Some n \<Rightarrow> last_n n (parsed_entries loads s)))"

definition entry_lines :: "(history_entry \<Rightarrow> ustr) \<Rightarrow> history_entry list \<Rightarrow> ustr" where
  "entry_lines dumps es = concat (map (\<lambda>e. dumps e @ [0xA]) es)"

definition history_rewrite :: "(history_entry \<Rightarrow> ustr) \<Rightarrow> history_entry list \<Rightarrow> history_file" where
  "history_rewrite dumps es = Text_File (entry_lines dumps es)"

text \<open>
  \<open>append\<close>: the line is written at the end of the file, the file is read back, and only past the limit
  is it written anew. The callbacks run when no exception was raised: the boolean of the result.
\<close>

definition history_append :: "(history_entry \<Rightarrow> ustr) \<Rightarrow> (ustr \<Rightarrow> json option) \<Rightarrow> nat \<Rightarrow> history_entry \<Rightarrow> history_file
    \<Rightarrow> (bool, history_file) outcome" where
  "history_append dumps loads limit e file =
     (let written = (case file of Absent_File \<Rightarrow> Text_File (entry_lines dumps [e])
                     | Text_File s \<Rightarrow> Text_File (s @ entry_lines dumps [e]) | _ \<Rightarrow> file)
      in case history_read loads (Some (limit + 1)) written of
           Inl error \<Rightarrow> (Inl error, written)
         | Inr es \<Rightarrow> (Inr True, if limit < length es then history_rewrite dumps (last_n limit es) else written))"

definition history_clear :: "history_file \<Rightarrow> history_file" where
  "history_clear file = (case file of Absent_File \<Rightarrow> Absent_File | _ \<Rightarrow> Text_File [])"

subsection \<open>Lines\<close>

definition unbroken :: "ustr \<Rightarrow> bool" where
  "unbroken s \<longleftrightarrow> list_all (\<lambda>c. \<not> line_break c) s"

lemma newline_breaks: "line_break 0xA"
  by (simp add: line_break_def)

lemma split_last_Nil: "s = [] \<or> last s = 0xA \<Longrightarrow> last (split_on line_break s) = []"
proof -
  assume "s = [] \<or> last s = 0xA"
  then consider "s = []" | t where "s = t @ [0xA]" by (metis append_butlast_last_id)
  then show ?thesis
    by cases (simp_all add: split_on_append_sep [where t = "[]" and c = "0xA" and p = line_break] newline_breaks)
qed

text \<open>The text of a file whose last line is complete.\<close>

definition complete_lines :: "ustr \<Rightarrow> bool" where
  "complete_lines s \<longleftrightarrow> s = [] \<or> last s = 0xA"

lemma splitlines_snoc:
  assumes "complete_lines s" and "unbroken line"
  shows "splitlines (s @ line @ [0xA]) = splitlines s @ [line]"
proof -
  have last: "last (split_on line_break s) = []"
    using assms(1) split_last_Nil by (simp add: complete_lines_def)
  have one: "split_on line_break (line @ [0xA]) = [line, []]"
    using split_on_append_sep [where t = "[]" and c = "0xA" and p = line_break and s = line] assms(2)
    by (simp add: split_on_free unbroken_def newline_breaks)
  have "split_on line_break (s @ line @ [0xA]) = butlast (split_on line_break s) @ [line, []]"
  proof (cases "s = []")
    case True
    with one show ?thesis by simp
  next
    case False
    with assms(1) obtain t where s: "s = t @ [0xA]" by (metis append_butlast_last_id complete_lines_def)
    have "split_on line_break (t @ 0xA # (line @ [0xA])) = split_on line_break t @ [line, []]"
      using split_on_append_sep [where p = line_break and c = "0xA" and s = t and t = "line @ [0xA]"] one
      by (simp add: newline_breaks)
    moreover have "butlast (split_on line_break s) = split_on line_break t"
      using split_on_append_sep [where t = "[]" and c = "0xA" and p = line_break and s = t] by (simp add: s newline_breaks)
    ultimately show ?thesis by (simp add: s)
  qed
  with last show ?thesis by (simp add: splitlines_def Let_def butlast_append)
qed

lemma complete_lines_snoc: "complete_lines (s @ line @ [0xA])"
  by (simp add: complete_lines_def)

text \<open>
  What the standard library promises of these entries: parsing what was printed gives the printed object
  back; and that the printed line holds no line break.
\<close>

definition printed_well :: "(history_entry \<Rightarrow> ustr) \<Rightarrow> (ustr \<Rightarrow> json option) \<Rightarrow> history_entry \<Rightarrow> bool" where
  "printed_well dumps loads e \<longleftrightarrow> loads (dumps e) = Some (entry_json e) \<and> unbroken (dumps e)"

lemma entry_round_trip [simp]: "entry_of_json (entry_json e) = Some e"
  by (simp add: entry_of_json_def entry_json_def asc_def)

lemma map_filter_snoc: "List.map_filter f (xs @ [x]) = List.map_filter f xs @ (case f x of None \<Rightarrow> [] | Some y \<Rightarrow> [y])"
  by (simp add: List.map_filter_def split: option.splits)

lemma parsed_snoc:
  assumes "complete_lines s" and "printed_well dumps loads e"
  shows "parsed_entries loads (s @ dumps e @ [0xA]) = parsed_entries loads s @ [e]"
  using assms by (simp add: parsed_entries_def splitlines_snoc printed_well_def map_filter_snoc)

lemma parsed_entry_lines:
  assumes "list_all (printed_well dumps loads) es"
  shows "parsed_entries loads (entry_lines dumps es) = es \<and> complete_lines (entry_lines dumps es)"
  using assms
proof (induction es rule: rev_induct)
  case Nil
  show ?case by (simp add: entry_lines_def parsed_entries_def splitlines_def complete_lines_def List.map_filter_def)
next
  case (snoc e es)
  then have "entry_lines dumps (es @ [e]) = entry_lines dumps es @ dumps e @ [0xA]"
    by (simp add: entry_lines_def)
  with snoc parsed_snoc [of "entry_lines dumps es" dumps loads e] show ?case
    by (simp add: complete_lines_snoc)
qed

lemma last_n_trim: "last_n n (last_n n xs @ [x]) = last_n n (xs @ [x])"
proof (cases n)
  case 0
  then show ?thesis by (simp add: last_n_def)
qed simp


definition sample_entry :: history_entry where
  "sample_entry = \<lparr>h_timestamp = JStr [], h_original = JStr (asc ''ghbdtn''), h_replacement = JStr [0x43F],
     h_application = JStr [], h_confidence = JFloat 1\<rparr>"




text \<open>What raises: an append raises exactly when the file's bytes are not text (the reader catches an
  \<open>OSError\<close> and a bad line, not a bad byte), and \<open>history_limit\<close> raises exactly for an infinite number and
  otherwise gives a limit of one or more.\<close>

theorem history_raises:
  "(isl (fst (history_append dumps loads limit e file)) \<longleftrightarrow> file = Undecodable_File)
   \<and> (history_limit int_of_str v = Inl OverflowError \<longleftrightarrow> v = JInf True \<or> v = JInf False)
   \<and> (\<exists>n. history_limit int_of_str v = Inl OverflowError \<or> history_limit int_of_str v = Inr n \<and> 1 \<le> n)"
proof (intro conjI)
  show "isl (fst (history_append dumps loads limit e file)) \<longleftrightarrow> file = Undecodable_File"
    by (cases "file") (simp_all add: history_append_def history_read_def Let_def)
  show "history_limit int_of_str v = Inl OverflowError \<longleftrightarrow> v = JInf True \<or> v = JInf False"
    by (cases v) (auto simp: history_limit_def split: option.splits)
  show "\<exists>n. history_limit int_of_str v = Inl OverflowError \<or> history_limit int_of_str v = Inr n \<and> 1 \<le> n"
    by (cases v) (auto simp: history_limit_def DEFAULT_HISTORY_LIMIT_def split: option.splits)
qed

end
