(* ===== verification/Input_Delay.thy ===== *)
theory Input_Delay
  imports Prelude
begin

text \<open>
  \<open>src/keyswitch/input_delay.py\<close>: the counts the keyboard hook keeps of its own delay, and the gap it
  leaves when keys may have passed it. The counters are shared by two threads under a lock, so each
  method is one atomic step here. Times are whole milliseconds.
\<close>

definition HOOK_GAP_MS :: int where "HOOK_GAP_MS = 280"
definition INPUT_DELAY_LATE_MS :: int where "INPUT_DELAY_LATE_MS = 100"
definition INPUT_DELAY_SLOW_CALLBACK_MS :: int where "INPUT_DELAY_SLOW_CALLBACK_MS = 20"
definition INPUT_DELAY_UNSTAMPED_MS :: int where "INPUT_DELAY_UNSTAMPED_MS = 60000"

lemmas delay_limits = HOOK_GAP_MS_def INPUT_DELAY_LATE_MS_def INPUT_DELAY_SLOW_CALLBACK_MS_def INPUT_DELAY_UNSTAMPED_MS_def

record input_delay_report =
  keys_seen :: nat
  late_keys :: nat
  worst_late_ms :: int
  slow_callbacks :: nat
  worst_callback_ms :: int
  unstamped_keys :: nat
  foreign_keys :: nat

record hook_gap =
  gap_late_ms :: int
  gap_callback_ms :: int

record input_delay =
  delay_report :: input_delay_report
  delay_gap :: "hook_gap option"

definition empty_report :: input_delay_report where
  "empty_report = \<lparr>keys_seen = 0, late_keys = 0, worst_late_ms = 0, slow_callbacks = 0, worst_callback_ms = 0,
     unstamped_keys = 0, foreign_keys = 0\<rparr>"

definition initial_delay :: input_delay where
  "initial_delay = \<lparr>delay_report = empty_report, delay_gap = None\<rparr>"

definition stalled :: "input_delay_report \<Rightarrow> bool" where
  "stalled r \<longleftrightarrow> late_keys r \<noteq> 0 \<or> slow_callbacks r \<noteq> 0"

definition note_gap :: "hook_gap \<Rightarrow> input_delay \<Rightarrow> input_delay" where
  "note_gap g st = st\<lparr>delay_gap := Some g\<rparr>"

definition note_wait :: "int \<Rightarrow> input_delay \<Rightarrow> input_delay" where
  "note_wait late st =
     (if HOOK_GAP_MS \<le> late \<and> late < INPUT_DELAY_UNSTAMPED_MS
      then note_gap \<lparr>gap_late_ms = late, gap_callback_ms = 0\<rparr> st else st)"

definition record_key :: "int \<Rightarrow> int \<Rightarrow> input_delay \<Rightarrow> input_delay" where
  "record_key late callback st0 =
     (let stamped = late < INPUT_DELAY_UNSTAMPED_MS; r = delay_report st0;
          st = st0\<lparr>delay_report := r\<lparr>
            keys_seen := keys_seen r + 1,
            late_keys := late_keys r + (if stamped \<and> INPUT_DELAY_LATE_MS \<le> late then 1 else 0),
            worst_late_ms := (if stamped then max (worst_late_ms r) late else worst_late_ms r),
            slow_callbacks := slow_callbacks r + (if INPUT_DELAY_SLOW_CALLBACK_MS \<le> callback then 1 else 0),
            worst_callback_ms := max (worst_callback_ms r) callback,
            unstamped_keys := unstamped_keys r + (if stamped then 0 else 1)\<rparr>\<rparr>
      in if stamped \<and> late < HOOK_GAP_MS \<and> HOOK_GAP_MS \<le> late + callback
         then note_gap \<lparr>gap_late_ms = late, gap_callback_ms = callback\<rparr> st else st)"

definition record_foreign :: "int \<Rightarrow> input_delay \<Rightarrow> input_delay" where
  "record_foreign callback st0 =
     (let r = delay_report st0;
          st = st0\<lparr>delay_report := r\<lparr>
            slow_callbacks := slow_callbacks r + (if INPUT_DELAY_SLOW_CALLBACK_MS \<le> callback then 1 else 0),
            worst_callback_ms := max (worst_callback_ms r) callback,
            foreign_keys := foreign_keys r + 1\<rparr>\<rparr>
      in if HOOK_GAP_MS \<le> callback then note_gap \<lparr>gap_late_ms = 0, gap_callback_ms = callback\<rparr> st else st)"

definition take_report :: "input_delay \<Rightarrow> input_delay_report \<times> input_delay" where
  "take_report st = (delay_report st, st\<lparr>delay_report := empty_report\<rparr>)"

definition take_gap :: "input_delay \<Rightarrow> hook_gap option \<times> input_delay" where
  "take_gap st = (delay_gap st, st\<lparr>delay_gap := None\<rparr>)"

subsection \<open>What the report says of the keys since the last take\<close>

text \<open>A typed key goes through the hook as \<open>note_wait\<close> and then \<open>record\<close>; another program's key as \<open>record_foreign\<close>.\<close>

datatype hook_key = Typed int int | Foreign int

definition hook_step :: "hook_key \<Rightarrow> input_delay \<Rightarrow> input_delay" where
  "hook_step k st = (case k of Typed late callback \<Rightarrow> record_key late callback (note_wait late st)
     | Foreign callback \<Rightarrow> record_foreign callback st)"

definition hook_steps :: "hook_key list \<Rightarrow> input_delay \<Rightarrow> input_delay" where
  "hook_steps ks st = fold hook_step ks st"

definition stamped_key :: "hook_key \<Rightarrow> bool" where
  "stamped_key k = (case k of Typed late _ \<Rightarrow> late < INPUT_DELAY_UNSTAMPED_MS | Foreign _ \<Rightarrow> False)"

definition late_key :: "hook_key \<Rightarrow> bool" where
  "late_key k = (case k of Typed late _ \<Rightarrow> late < INPUT_DELAY_UNSTAMPED_MS \<and> INPUT_DELAY_LATE_MS \<le> late | Foreign _ \<Rightarrow> False)"

definition callback_of :: "hook_key \<Rightarrow> int" where
  "callback_of k = (case k of Typed _ c \<Rightarrow> c | Foreign c \<Rightarrow> c)"

definition lateness :: "hook_key \<Rightarrow> int" where
  "lateness k = (case k of Typed late _ \<Rightarrow> if late < INPUT_DELAY_UNSTAMPED_MS then late else 0 | Foreign _ \<Rightarrow> 0)"

definition gap_of :: "hook_key \<Rightarrow> hook_gap option" where
  "gap_of k = (case k of
     Typed late callback \<Rightarrow>
       if late < INPUT_DELAY_UNSTAMPED_MS \<and> HOOK_GAP_MS \<le> late + callback
       then Some \<lparr>gap_late_ms = late, gap_callback_ms = (if HOOK_GAP_MS \<le> late then 0 else callback)\<rparr> else None
   | Foreign callback \<Rightarrow>
       if HOOK_GAP_MS \<le> callback then Some \<lparr>gap_late_ms = 0, gap_callback_ms = callback\<rparr> else None)"

abbreviation counted :: "('a \<Rightarrow> bool) \<Rightarrow> 'a list \<Rightarrow> nat" where
  "counted p xs \<equiv> length (filter p xs)"

definition typed_key :: "hook_key \<Rightarrow> bool" where
  "typed_key k = (case k of Typed _ _ \<Rightarrow> True | Foreign _ \<Rightarrow> False)"

definition summary :: "hook_key list \<Rightarrow> input_delay_report" where
  "summary ks = \<lparr>keys_seen = counted typed_key ks, late_keys = counted late_key ks,
     worst_late_ms = fold max (map lateness ks) 0,
     slow_callbacks = counted (\<lambda>k. INPUT_DELAY_SLOW_CALLBACK_MS \<le> callback_of k) ks,
     worst_callback_ms = fold max (map callback_of ks) 0,
     unstamped_keys = counted (\<lambda>k. typed_key k \<and> \<not> stamped_key k) ks,
     foreign_keys = counted (\<lambda>k. \<not> typed_key k) ks\<rparr>"

definition last_gap :: "hook_key list \<Rightarrow> hook_gap option" where
  "last_gap ks = (case filter (\<lambda>g. g \<noteq> None) (map gap_of ks) of [] \<Rightarrow> None | gs \<Rightarrow> last gs)"

lemma fold_max_ge: "(b::int) \<le> fold max xs b"
proof (induction xs arbitrary: b)
  case (Cons x xs)
  have "b \<le> max x b" by simp
  also have "\<dots> \<le> fold max xs (max x b)" by (rule Cons.IH)
  finally show ?case by simp
qed simp

lemma hook_steps_report:
  "delay_report (hook_steps ks initial_delay) = summary ks"
proof (induction ks rule: rev_induct)
  case Nil
  show ?case by (simp add: hook_steps_def initial_delay_def empty_report_def summary_def)
next
  case (snoc k ks)
  have step: "hook_steps (ks @ [k]) initial_delay = hook_step k (hook_steps ks initial_delay)"
    by (simp add: hook_steps_def)
  have frame: "delay_report (note_wait late st) = delay_report st" "delay_report (note_gap g st) = delay_report st" for late g st
    by (simp_all add: note_wait_def note_gap_def)
  have zero: "0 \<le> worst_late_ms (summary ks)" by (simp add: summary_def fold_max_ge)
  show ?case
    unfolding step
  proof (cases k)
    case (Typed late callback)
    with snoc zero show "delay_report (hook_step k (hook_steps ks initial_delay)) = summary (ks @ [k])"
      by (simp add: hook_step_def record_key_def Let_def frame)
        (simp add: summary_def typed_key_def late_key_def stamped_key_def lateness_def callback_of_def max.commute)
  next
    case (Foreign callback)
    with snoc zero show "delay_report (hook_step k (hook_steps ks initial_delay)) = summary (ks @ [k])"
      by (simp add: hook_step_def record_foreign_def Let_def frame)
        (simp add: summary_def typed_key_def late_key_def stamped_key_def lateness_def callback_of_def max.commute)
  qed
qed

lemma hook_step_gap:
  assumes "0 \<le> callback_of k"
  shows "delay_gap (hook_step k st) = (case gap_of k of None \<Rightarrow> delay_gap st | Some g \<Rightarrow> Some g)"
  using assms
  by (cases k) (auto simp: hook_step_def note_wait_def record_key_def record_foreign_def note_gap_def gap_of_def
      callback_of_def Let_def delay_limits)

lemma hook_steps_gap:
  assumes "\<forall>k\<in>set ks. 0 \<le> callback_of k"
  shows "delay_gap (hook_steps ks st) = (case last_gap ks of None \<Rightarrow> delay_gap st | Some g \<Rightarrow> Some g)"
  using assms
proof (induction ks rule: rev_induct)
  case Nil
  show ?case by (simp add: hook_steps_def last_gap_def)
next
  case (snoc k ks)
  have "last_gap (ks @ [k]) = (case gap_of k of None \<Rightarrow> last_gap ks | Some g \<Rightarrow> Some g)"
    by (cases "filter (\<lambda>g. g \<noteq> None) (map gap_of ks)"; cases "gap_of k")
      (auto simp: last_gap_def split: list.splits)
  moreover have "hook_steps (ks @ [k]) st = hook_step k (hook_steps ks st)" by (simp add: hook_steps_def)
  ultimately show ?case
    using snoc hook_step_gap [of k "hook_steps ks st"] by (auto split: option.splits)
qed

text \<open>The report the worker takes is exactly the summary of the keys since the previous take, whatever
  their order: how many were typed, late, answered slowly, unstamped or another program's, and the worst
  of both times; and the gap it takes is that of the last key that was stamped and together with the
  hook's answer reached \<open>HOOK_GAP_MS\<close>, noted once although two calls look at each typed key.\<close>

theorem delay_summary:
  assumes "\<forall>k\<in>set ks. 0 \<le> callback_of k"
  shows "fst (take_report (hook_steps ks (snd (take_report (snd (take_gap st)))))) = summary ks
    \<and> fst (take_gap (hook_steps ks (snd (take_report (snd (take_gap st)))))) = last_gap ks"
proof -
  have start: "snd (take_report (snd (take_gap st))) = initial_delay"
    by (cases st) (simp add: take_report_def take_gap_def initial_delay_def)
  show ?thesis
    using hook_steps_report [of ks] hook_steps_gap [OF assms, of initial_delay]
    unfolding start by (simp add: take_report_def take_gap_def initial_delay_def split: option.splits)
qed

theorem delay_summary_witness:
  "fst (take_gap (hook_steps [Typed 5 1, Typed 270 15, Foreign 3] initial_delay)) =
     Some \<lparr>gap_late_ms = 270, gap_callback_ms = 15\<rparr>"
proof -
  have start: "snd (take_report (snd (take_gap initial_delay))) = initial_delay"
    by (simp add: take_report_def take_gap_def initial_delay_def)
  have "\<forall>k\<in>set [Typed 5 1, Typed 270 15, Foreign 3]. 0 \<le> callback_of k"
    by (simp add: callback_of_def)
  from delay_summary [OF this, of initial_delay] show ?thesis
    unfolding start by (simp add: last_gap_def gap_of_def delay_limits)
qed

end
