(* ===== verification/Log_Privacy.thy ===== *)
theory Log_Privacy
  imports Layouts Json
begin

text \<open>
  \<open>src/keyswitch/log_privacy.py\<close>: words that look like a password go into the technical log as stars. The
  text is walked token by token, a token after a marker word, a long token of letters and digits, and a
  remembered secret are hidden; a record is a JSON object whose structural keys are left as they are.
\<close>

definition LOG_SECRET_MIN_CHARACTERS :: nat where "LOG_SECRET_MIN_CHARACTERS = 8"
definition LOG_SECRET_REMEMBERED_WORDS :: nat where "LOG_SECRET_REMEMBERED_WORDS = 16"

text \<open>The five cases of the Russian word, then the two English ones.\<close>

definition LOG_SECRET_MARKERS :: "ustr list" where
  "LOG_SECRET_MARKERS =
    (let stem = [0x43F, 0x430, 0x440, 0x43E, 0x43B]
     in [stem @ [0x44C], stem @ [0x44F], stem @ [0x44E], stem @ [0x435, 0x43C], stem @ [0x435],
         asc ''password'', asc ''passwd''])"

definition LOG_STRUCTURE_KEYS :: "ustr list" where
  "LOG_STRUCTURE_KEYS = map asc [''event'', ''schema'', ''application'', ''backend'', ''build_platform'', ''intent_model'',
     ''context_model_status'', ''language_models'', ''field_reader_details'', ''field_reader_status'']"

definition LOG_STRUCTURE_KEY_SUFFIXES :: "ustr list" where
  "LOG_STRUCTURE_KEY_SUFFIXES = map asc [''version'', ''sha256'', ''checksum'', ''_id'', ''path'']"

definition LOG_WORD_KEYS :: "ustr list" where
  "LOG_WORD_KEYS = map asc [''original'', ''replacement'', ''literal_head'', ''alternatives'', ''word'']"

text \<open>Signs around a word that are no part of it, and the star.\<close>

definition EDGE_SIGNS :: ustr where
  "EDGE_SIGNS = [0x2E, 0x2C, 0x21, 0x3F, 0x3A, 0x3B, 0x22, 0x27, 0x28, 0x29, 0x5B, 0x5D, 0x7B, 0x7D, 0x3C, 0x3E, 0xAB, 0xBB]"

definition MASK :: uchar where "MASK = 0x2A"

definition strip_signs :: "ustr \<Rightarrow> ustr" where
  "strip_signs token = rstrip_chars (\<lambda>c. c \<in> set EDGE_SIGNS) (lstrip_chars (\<lambda>c. c \<in> set EDGE_SIGNS) token)"

definition core :: "ustr \<Rightarrow> ustr" where
  "core token = casefold (strip_signs token)"

text \<open>The markers, and each typed on the keys of the other layout.\<close>

definition MARKERS :: "ustr list" where
  "MARKERS =
     (let words = map casefold LOG_SECRET_MARKERS
      in map core (words @ map (translate_with ru_to_us_table) words @ map (translate_with us_to_ru_table) words))"

definition secret_token :: "ustr \<Rightarrow> bool" where
  "secret_token token =
     (let c = strip_signs token
      in LOG_SECRET_MIN_CHARACTERS \<le> length c \<and> list_ex isalpha_ch c \<and> list_ex isdigit_ch c)"

text \<open>The loop over the matches of \<open>\S+\<close>: the gap before the token, the token, and so on to the end.\<close>

function masked_from :: "ustr list \<Rightarrow> bool \<Rightarrow> ustr \<Rightarrow> ustr" where
  "masked_from secrets after_marker text =
     (let gap = takeWhile isspace_ch text; rest = dropWhile isspace_ch text
      in if rest = [] then text
         else let token = takeWhile (\<lambda>c. \<not> isspace_ch c) rest;
                  hidden = (after_marker \<or> secret_token token \<or> core token \<in> set secrets)
              in gap @ (if hidden then replicate (length token) MASK else token)
                 @ masked_from secrets (core token \<in> set MARKERS) (dropWhile (\<lambda>c. \<not> isspace_ch c) rest))"
  by pat_completeness auto
termination
proof (relation "measure (\<lambda>(_, _, text). length text)")
  fix secrets after_marker "text" gap rest
  assume "gap = takeWhile isspace_ch text" "rest = dropWhile isspace_ch text" "rest \<noteq> []"
  then have "\<not> isspace_ch (hd rest)" by (metis hd_dropWhile)
  then have "length (dropWhile (\<lambda>c. \<not> isspace_ch c) rest) < length rest"
    using \<open>rest \<noteq> []\<close> by (cases rest) (auto simp: le_imp_less_Suc length_dropWhile_le)
  also have "\<dots> \<le> length text"
    using \<open>rest = dropWhile isspace_ch text\<close> by (simp add: length_dropWhile_le)
  finally show "((secrets, core token \<in> set MARKERS, dropWhile (\<lambda>c. \<not> isspace_ch c) rest), secrets, after_marker, text)
      \<in> measure (\<lambda>(_, _, text). length text)" for token by simp
qed simp

declare masked_from.simps [simp del]

definition masked_text :: "ustr \<Rightarrow> ustr list \<Rightarrow> ustr" where
  "masked_text text secrets = masked_from secrets False text"

definition structure_key :: "ustr \<Rightarrow> bool" where
  "structure_key k \<longleftrightarrow> k \<in> set LOG_STRUCTURE_KEYS \<or> list_ex (ends_with k) LOG_STRUCTURE_KEY_SUFFIXES"

fun masked_value :: "ustr list \<Rightarrow> json \<Rightarrow> json" where
  "masked_value secrets (JStr s) = JStr (masked_text s secrets)"
| "masked_value secrets (JObj d) =
     JObj (map (\<lambda>(k, item). (k, if structure_key k then item else masked_value secrets item)) d)"
| "masked_value secrets (JList xs) = JList (map (masked_value secrets) xs)"
| "masked_value secrets v = v"

text \<open>\<open>re.findall\<close> of the tokens; \<open>text.split()\<close> gives the same list.\<close>

definition tokens :: "ustr \<Rightarrow> ustr list" where
  "tokens text = filter (\<lambda>w. w \<noteq> []) (split_on isspace_ch text)"

fun value_texts :: "json \<Rightarrow> ustr list" where
  "value_texts (JStr s) = map core (tokens s)"
| "value_texts (JObj d) = concat (map (\<lambda>(k, item). value_texts item) d)"
| "value_texts (JList xs) = concat (map value_texts xs)"
| "value_texts v = []"

fun record_words :: "json \<Rightarrow> ustr list" where
  "record_words (JObj d) = concat (map (\<lambda>(k, item).
     if k \<in> set LOG_WORD_KEYS then value_texts item else if \<not> structure_key k then record_words item else []) d)"
| "record_words (JList xs) = concat (map record_words xs)"
| "record_words v = []"

text \<open>The last word of each text before the record's word, from \<open>payload["context"]["words"]\<close>.\<close>

definition previous_words :: "(ustr \<times> json) list \<Rightarrow> ustr list" where
  "previous_words payload =
     (case dict_get payload (asc ''context'') of
        JObj context \<Rightarrow>
          (case dict_get context (asc ''words'') of
             JObj before_words \<Rightarrow> List.map_filter
               (\<lambda>(k, v). case v of JStr s \<Rightarrow> if tokens s = [] then None else Some (core (last (tokens s))) | _ \<Rightarrow> None)
               before_words
           | _ \<Rightarrow> [])
      | _ \<Rightarrow> [])"

text \<open>\<open>LogRedactor.record\<close>: the bounded queue of remembered secrets, and the masked record.\<close>

definition redactor_secrets :: "ustr list \<Rightarrow> (ustr \<times> json) list \<Rightarrow> ustr list" where
  "redactor_secrets secrets payload =
     (if list_ex (\<lambda>w. w \<in> set MARKERS) (previous_words payload)
      then last_n LOG_SECRET_REMEMBERED_WORDS
        (secrets @ filter (\<lambda>w. w \<noteq> [] \<and> w \<notin> set MARKERS) (record_words (JObj payload)))
      else secrets)"

definition redactor_record :: "ustr list \<Rightarrow> (ustr \<times> json) list \<Rightarrow> json \<times> ustr list" where
  "redactor_record secrets payload =
     (let now = redactor_secrets secrets payload in (masked_value now (JObj payload), now))"

subsection \<open>What the walk hides\<close>

text \<open>The tokens as they come out: the reference the walk is compared with.\<close>

fun shown_tokens :: "ustr list \<Rightarrow> bool \<Rightarrow> ustr list \<Rightarrow> ustr list" where
  "shown_tokens secrets after_marker [] = []"
| "shown_tokens secrets after_marker (t # ts) =
     (if after_marker \<or> secret_token t \<or> core t \<in> set secrets then replicate (length t) MASK else t)
     # shown_tokens secrets (core t \<in> set MARKERS) ts"

lemma mask_not_space: "\<not> isspace_ch MASK"
  by (simp add: isspace_ch_def MASK_def)

lemma split_on_no_sep: "list_all (\<lambda>c. \<not> p c) t \<Longrightarrow> split_on p (t @ s) = (t @ hd (split_on p s)) # tl (split_on p s)"
proof (induction t)
  case Nil
  then show ?case by (cases "split_on p s") auto
qed simp

lemma tokens_gap: "list_all isspace_ch gap \<Longrightarrow> tokens (gap @ s) = tokens s"
  by (induction gap) (auto simp: tokens_def)

lemma tokens_word:
  assumes "list_all (\<lambda>c. \<not> isspace_ch c) t" and "t \<noteq> []" and "s = [] \<or> isspace_ch (hd s)"
  shows "tokens (t @ s) = t # tokens s"
proof (cases s)
  case Nil
  with assms split_on_no_sep [of isspace_ch t "[]"] show ?thesis by (simp add: tokens_def)
next
  case (Cons c s')
  with assms split_on_no_sep [of isspace_ch t s] show ?thesis by (simp add: tokens_def)
qed

lemma tokens_spaces: "list_all isspace_ch gap \<Longrightarrow> tokens gap = []"
  using tokens_gap [of gap "[]"] by (simp add: tokens_def)

lemma masked_from_head:
  "masked_from secrets after_marker text = [] \<and> text = []
   \<or> (\<exists>c s. text = c # s \<and> (isspace_ch c \<longrightarrow> hd (masked_from secrets after_marker text) = c))"
  by (cases "text") (auto simp: masked_from.simps [of secrets after_marker] Let_def)

lemma masked_from_tokens:
  "tokens (masked_from secrets after_marker text) = shown_tokens secrets after_marker (tokens text)
   \<and> length (masked_from secrets after_marker text) = length text"
proof (induction secrets after_marker "text" rule: masked_from.induct)
  case (1 secrets after_marker "text")
  define gap where "gap = takeWhile isspace_ch text"
  define rest where "rest = dropWhile isspace_ch text"
  have text_eq: "text = gap @ rest" by (simp add: gap_def rest_def)
  have gap: "list_all isspace_ch gap"
    by (auto simp: gap_def list_all_iff dest: set_takeWhileD)
  show ?case
  proof (cases "rest = []")
    case True
    then have "masked_from secrets after_marker text = text"
      unfolding masked_from.simps [of secrets after_marker "text"] Let_def rest_def [symmetric] by simp
    with True gap text_eq show ?thesis by (simp add: tokens_spaces)
  next
    case False
    define token where "token = takeWhile (\<lambda>c. \<not> isspace_ch c) rest"
    define tail where "tail = dropWhile (\<lambda>c. \<not> isspace_ch c) rest"
    define hidden where "hidden = (after_marker \<or> secret_token token \<or> core token \<in> set secrets)"
    define shown where "shown = (if hidden then replicate (length token) MASK else token)"
    define later where "later = masked_from secrets (core token \<in> set MARKERS) tail"
    have eq: "masked_from secrets after_marker text = gap @ shown @ later"
      unfolding masked_from.simps [of secrets after_marker "text"] Let_def rest_def [symmetric] gap_def [symmetric]
        token_def [symmetric] tail_def [symmetric]
      using False by (simp add: hidden_def shown_def later_def)
    have IH: "tokens later = shown_tokens secrets (core token \<in> set MARKERS) (tokens tail)" "length later = length tail"
      using "1.IH" [OF gap_def rest_def False token_def hidden_def]
      by (auto simp: later_def tail_def)
    have rest_eq: "rest = token @ tail" by (simp add: token_def tail_def)
    have "\<not> isspace_ch (hd rest)" using False by (metis hd_dropWhile rest_def)
    then have token: "token \<noteq> []" "list_all (\<lambda>c. \<not> isspace_ch c) token"
      using False by (cases rest; auto simp: token_def list_all_iff dest: set_takeWhileD)+
    have tail_head: "tail = [] \<or> isspace_ch (hd tail)"
      unfolding tail_def by (metis (mono_tags, lifting) hd_dropWhile)
    have later_head: "later = [] \<or> isspace_ch (hd later)"
      using masked_from_head [of secrets "core token \<in> set MARKERS" tail] tail_head by (auto simp: later_def)
    have shown: "shown \<noteq> []" "list_all (\<lambda>c. \<not> isspace_ch c) shown" "length shown = length token"
      using token mask_not_space by (auto simp: shown_def list_all_iff)
    have toks: "tokens (gap @ shown @ later) = shown # tokens later" "tokens text = token # tokens tail"
      using tokens_gap [OF gap] tokens_word [OF shown(2,1) later_head] tokens_word [OF token(2,1) tail_head]
      by (simp_all add: text_eq rest_eq)
    have "shown_tokens secrets after_marker (token # tokens tail) = shown # shown_tokens secrets (core token \<in> set MARKERS) (tokens tail)"
      by (simp add: shown_def hidden_def)
    moreover have "length (gap @ shown @ later) = length text"
      using shown(3) IH(2) by (simp add: text_eq rest_eq)
    ultimately show ?thesis unfolding eq toks IH(1) by simp
  qed
qed

lemma length_shown [simp]: "length (shown_tokens secrets m ts) = length ts"
  by (induction ts arbitrary: m) auto

lemma shown_nth:
  "i < length ts \<Longrightarrow> shown_tokens secrets m ts ! i =
     (if (case i of 0 \<Rightarrow> m | Suc j \<Rightarrow> core (ts ! j) \<in> set MARKERS) \<or> secret_token (ts ! i) \<or> core (ts ! i) \<in> set secrets
      then replicate (length (ts ! i)) MASK else ts ! i)"
proof (induction ts arbitrary: m i)
  case (Cons t ts)
  then show ?case by (cases i) (auto split: nat.split)
qed simp

text \<open>C34: No password reaches the log as typed: the masked text has the same length and the same number of
  tokens, and its \<open>i\<close>-th token is as many stars as the token has characters exactly when that token comes
  right after a marker word (typed in either layout, hidden itself or not), is a long token of letters and
  digits, or is one of the remembered secrets, and the token as typed otherwise.\<close>

theorem masked_text_hides:
  "length (masked_text text secrets) = length text \<and> length (tokens (masked_text text secrets)) = length (tokens text)
   \<and> list_all (\<lambda>i. tokens (masked_text text secrets) ! i =
        (if 0 < i \<and> core (tokens text ! (i - 1)) \<in> set MARKERS \<or> secret_token (tokens text ! i)
            \<or> core (tokens text ! i) \<in> set secrets
         then replicate (length (tokens text ! i)) MASK else tokens text ! i)) [0..<length (tokens text)]"
  using masked_from_tokens [of secrets False "text"]
  by (auto simp: masked_text_def list_all_iff shown_nth split: nat.splits)


lemma marker_password: "asc ''password'' \<in> set MARKERS"
proof -
  have "core (casefold (asc ''password'')) = asc ''password''"
    by (simp add: core_def strip_signs_def lstrip_chars_def rstrip_chars_def EDGE_SIGNS_def asc_def casefold_def
        casefold_ch_def lower_ch_def letter_class_def)
  then show ?thesis by (auto simp: MARKERS_def LOG_SECRET_MARKERS_def Let_def)
qed

text \<open>No marker holds a digit, in either layout.\<close>

lemma no_digit_core: "0x37 \<notin> set s \<Longrightarrow> 0x37 \<notin> set (core s)"
proof -
  assume no: "0x37 \<notin> set s"
  have ch: "c = 0x37" if "0x37 \<in> set (casefold_ch c)" for c
  proof (cases "isupper_ch c")
    case True
    have "isalpha_ch (lower_ch c)"
      using True upper_to_lower_class [of c]
      by (auto simp: isupper_ch_def lower_ch_def isalpha_ch_def split: letter_class.splits)
    then have "lower_ch c \<noteq> 0x37" using alpha_ge [of "lower_ch c"] by auto
    with that show ?thesis by (auto simp: casefold_ch_def split: if_splits)
  next
    case False
    with that show ?thesis by (auto simp: casefold_ch_def lower_ch_fixed split: if_splits)
  qed
  have "set (strip_signs s) \<subseteq> set s"
    by (auto simp: strip_signs_def lstrip_chars_def rstrip_chars_def dest!: set_dropWhileD)
  with no ch show ?thesis by (fastforce simp: core_def casefold_def)
qed

lemma no_digit_translate:
  assumes "0x37 \<notin> set s" and "list_all (\<lambda>(k, v). 0x37 \<notin> set v) t"
  shows "0x37 \<notin> set (translate_with t s)"
  using assms by (induction s) (auto simp: translate_with_Cons list_all_iff split: option.splits dest!: map_of_SomeD)

lemma no_digit_markers: "m \<in> set MARKERS \<Longrightarrow> 0x37 \<notin> set m"
proof -
  have words: "list_all (\<lambda>w. 0x37 \<notin> set w) (map casefold LOG_SECRET_MARKERS)"
    by (simp add: LOG_SECRET_MARKERS_def asc_def casefold_def casefold_ch_def lower_ch_def letter_class_def Let_def)
  have tables: "list_all (\<lambda>(k, v). 0x37 \<notin> set v) us_to_ru_table" "list_all (\<lambda>(k, v). 0x37 \<notin> set v) ru_to_us_table"
    by (simp_all add: us_to_ru_table_eq ru_to_us_table_eq)
  assume "m \<in> set MARKERS"
  then obtain w where "w \<in> set (map casefold LOG_SECRET_MARKERS)"
      "m = core w \<or> m = core (translate_with ru_to_us_table w) \<or> m = core (translate_with us_to_ru_table w)"
    by (auto simp: MARKERS_def Let_def)
  with words tables no_digit_core no_digit_translate show ?thesis by (auto simp: list_all_iff)
qed


end
