(* ===== verification/Packed_Grams.thy ===== *)
theory Packed_Grams
  imports Py_Text "HOL-Library.List_Lexorder"
begin

text \<open>
  \<open>src/keyswitch/packed_grams.py\<close>: a table of grams packed into a sorted array of integers and an array of
  values, looked up by binary search. The locale \<open>gram_table\<close> is what the model that uses a table asks of
  it; it is interpreted on the dictionary and on the packed table, and \<open>packed_lookup\<close> says that the two
  answer every gram alike. The keys are natural numbers below \<open>2 ^ 56\<close>, so the signed 64-bit array holds
  them; the values are the reals the floats stand for and are copied, not computed.
\<close>

definition PACKED_GRAM_LAST_CODE :: nat where "PACKED_GRAM_LAST_CODE = 255"
definition PACKED_GRAM_BITS_PER_CODE :: nat where "PACKED_GRAM_BITS_PER_CODE = 8"
definition PACKED_GRAM_KEY_BYTES :: nat where "PACKED_GRAM_KEY_BYTES = 8"
definition PACKED_GRAM_MAX_CHARACTERS :: nat where "PACKED_GRAM_MAX_CHARACTERS = PACKED_GRAM_KEY_BYTES - 1"
definition PACKED_GRAM_MIN_ENTRIES :: nat where "PACKED_GRAM_MIN_ENTRIES = 4096"

record packed_grams =
  pg_alphabet :: ustr
  pg_keys :: "nat list"
  pg_values :: "real list"

fun code_from :: "nat \<Rightarrow> ustr \<Rightarrow> uchar \<Rightarrow> nat option" where
  "code_from n [] c = None"
| "code_from n (a # as) c = (if a = c then Some n else code_from (Suc n) as c)"

text \<open>
  The translation and the Latin-1 encoding of one character: its code, zero for any other Latin-1
  character, and no byte (the encoder raises) for the rest.
\<close>

definition encode_ch :: "ustr \<Rightarrow> uchar \<Rightarrow> nat option" where
  "encode_ch alphabet c = (case code_from 1 alphabet c of Some n \<Rightarrow> Some n
     | None \<Rightarrow> if c \<le> PACKED_GRAM_LAST_CODE then Some 0 else None)"

definition big_endian :: "nat list \<Rightarrow> nat" where
  "big_endian bytes = fold (\<lambda>b n. 256 * n + b) bytes 0"

definition gram_key :: "ustr \<Rightarrow> ustr \<Rightarrow> nat option" where
  "gram_key alphabet gram =
     (let data = map (encode_ch alphabet) gram
      in if None \<in> set data then None
         else let bytes = map the data
              in if PACKED_GRAM_MAX_CHARACTERS < length bytes \<or> 0 \<in> set bytes then None else Some (big_endian bytes))"

definition packed_get :: "packed_grams \<Rightarrow> ustr \<Rightarrow> real option" where
  "packed_get p gram =
     (case gram_key (pg_alphabet p) gram of
        None \<Rightarrow> None
      | Some k \<Rightarrow>
          if k = 0 then None
          else let i = bisect_left (<) (pg_keys p) k
               in if i < length (pg_keys p) \<and> pg_keys p ! i = k then Some (pg_values p ! i) else None)"

definition packed_getitem :: "packed_grams \<Rightarrow> ustr \<Rightarrow> py_error + real" where
  "packed_getitem p gram = (case packed_get p gram of None \<Rightarrow> Inl KeyError | Some v \<Rightarrow> Inr v)"

text \<open>
  \<open>pack\<close>: each gram padded on the left to the key's width, translated, and read as one big-endian
  integer; the keys and values in the order of the keys.
\<close>

definition padded_key :: "ustr \<Rightarrow> ustr \<Rightarrow> nat" where
  "padded_key alphabet gram =
     big_endian (map (\<lambda>c. case encode_ch alphabet c of None \<Rightarrow> 0 | Some n \<Rightarrow> n)
       (replicate (PACKED_GRAM_KEY_BYTES - length gram) 0 @ gram))"

definition gram_alphabet :: "(ustr, real) odict \<Rightarrow> ustr" where
  "gram_alphabet table = sort (remdups (concat (map fst table)))"

definition pack :: "(ustr, real) odict \<Rightarrow> packed_grams option" where
  "pack table =
     (let alphabet = gram_alphabet table
      in if length table < PACKED_GRAM_MIN_ENTRIES \<or> PACKED_GRAM_LAST_CODE < length alphabet \<or> 0 \<in> set alphabet
            \<or> list_ex (\<lambda>(g, _). PACKED_GRAM_MAX_CHARACTERS < length g) table \<or> list_ex (\<lambda>(g, _). g = []) table
         then None
         else let ordered = sort_key fst (map (\<lambda>(g, v). (padded_key alphabet g, v)) table)
              in Some \<lparr>pg_alphabet = alphabet, pg_keys = map fst ordered, pg_values = map snd ordered\<rparr>)"

text \<open>\<open>__iter__\<close>: the bytes of a key, of the length its bits need, read back through the alphabet.\<close>

function key_bytes :: "nat \<Rightarrow> nat list" where
  "key_bytes k = (if k = 0 then [] else key_bytes (k div 256) @ [k mod 256])"
  by pat_completeness auto
termination by (relation "measure id") auto

declare key_bytes.simps [simp del]

definition packed_grams_of :: "packed_grams \<Rightarrow> ustr list" where
  "packed_grams_of p = map (\<lambda>k. map (\<lambda>b. pg_alphabet p ! (b - 1)) (key_bytes k)) (pg_keys p)"

definition packed_len :: "packed_grams \<Rightarrow> nat" where
  "packed_len p = length (pg_keys p)"

subsection \<open>Codes and keys\<close>

lemma code_from_None [simp]: "code_from n as c = None \<longleftrightarrow> c \<notin> set as"
  by (induction n as c rule: code_from.induct) auto

lemma code_from_Some:
  "code_from n as c = Some k \<Longrightarrow> n \<le> k \<and> k < n + length as \<and> as ! (k - n) = c"
proof (induction n as c rule: code_from.induct)
  case (2 n a as c)
  show ?case
  proof (cases "a = c")
    case False
    with 2 have "Suc n \<le> k \<and> k < Suc n + length as \<and> as ! (k - Suc n) = c" by simp
    moreover from this have "k - n = Suc (k - Suc n)" by arith
    ultimately show ?thesis by auto
  qed (use 2 in auto)
qed simp

lemma big_endian_snoc: "big_endian (bs @ [b]) = 256 * big_endian bs + b"
  by (simp add: big_endian_def)

lemma big_endian_Nil [simp]: "big_endian [] = 0"
  by (simp add: big_endian_def)

lemma big_endian_zeros: "big_endian (replicate n 0 @ bs) = big_endian bs"
  by (induction n) (simp_all add: big_endian_def)

lemma big_endian_less: "\<forall>b\<in>set bs. b < 256 \<Longrightarrow> big_endian bs < 256 ^ length bs"
  by (induction bs rule: rev_induct) (auto simp: big_endian_snoc)

lemma key_bytes_big_endian:
  "\<forall>b\<in>set bs. 0 < b \<and> b < 256 \<Longrightarrow> key_bytes (big_endian bs) = bs"
proof (induction bs rule: rev_induct)
  case Nil
  show ?case by (simp add: key_bytes.simps)
next
  case (snoc b bs)
  then show ?case by (simp add: big_endian_snoc key_bytes.simps [of "256 * big_endian bs + b"])
qed

lemma bisect_left_finds:
  fixes x :: "'a::linorder"
  assumes "sorted_wrt (<) ks"
  shows "bisect_left (<) ks x < length ks \<and> ks ! bisect_left (<) ks x = x \<longleftrightarrow> x \<in> set ks"
proof
  show "x \<in> set ks" if "bisect_left (<) ks x < length ks \<and> ks ! bisect_left (<) ks x = x"
    using that by (metis nth_mem)
next
  let ?i = "bisect_left (<) ks x"
  assume "x \<in> set ks"
  then obtain j where j: "j < length ks" "ks ! j = x" by (auto simp: in_set_conv_nth)
  have i: "?i = length (takeWhile (\<lambda>a. a < x) ks)"
    using bisect_left_split(1) [OF assms] by auto
  have "?i = j"
    unfolding i
  proof (rule antisym)
    show "length (takeWhile (\<lambda>a. a < x) ks) \<le> j"
    proof (rule ccontr)
      assume "\<not> ?thesis"
      then have "ks ! j < x" by (metis not_le nth_mem set_takeWhileD takeWhile_nth)
      with j show False by simp
    qed
    show "j \<le> length (takeWhile (\<lambda>a. a < x) ks)"
      by (rule length_takeWhile_less_P_nth)
        (use assms j in \<open>auto simp: sorted_wrt_iff_nth_less\<close>)
  qed
  with j show "?i < length ks \<and> ks ! ?i = x" by simp
qed


text \<open>The code of a character of the alphabet: one byte, never zero, and read back by its place.\<close>

lemma encode_ch_alphabet:
  assumes "c \<in> set alphabet" and "length alphabet \<le> PACKED_GRAM_LAST_CODE"
  obtains n where "encode_ch alphabet c = Some n" "0 < n" "n < 256" "alphabet ! (n - 1) = c"
proof -
  obtain n where n: "code_from 1 alphabet c = Some n" using assms(1) by (cases "code_from 1 alphabet c") auto
  from code_from_Some [OF n] assms(2) that [of n] n show thesis
    by (auto simp: encode_ch_def PACKED_GRAM_LAST_CODE_def)
qed

definition codes :: "ustr \<Rightarrow> ustr \<Rightarrow> nat list" where
  "codes alphabet gram = map (\<lambda>c. the (encode_ch alphabet c)) gram"

lemma codes_bytes:
  assumes "set gram \<subseteq> set alphabet" and "length alphabet \<le> PACKED_GRAM_LAST_CODE"
  shows "\<forall>b\<in>set (codes alphabet gram). 0 < b \<and> b < 256"
    and "map (\<lambda>b. alphabet ! (b - 1)) (codes alphabet gram) = gram"
    and "None \<notin> encode_ch alphabet ` set gram"
proof -
  have one: "\<exists>n. encode_ch alphabet c = Some n \<and> 0 < n \<and> n < 256 \<and> alphabet ! (n - 1) = c" if "c \<in> set gram" for c
    using encode_ch_alphabet [of c alphabet] that assms by blast
  then show "\<forall>b\<in>set (codes alphabet gram). 0 < b \<and> b < 256" "None \<notin> encode_ch alphabet ` set gram"
    by (fastforce simp: codes_def)+
  show "map (\<lambda>b. alphabet ! (b - 1)) (codes alphabet gram) = gram"
    unfolding codes_def map_map
  proof (rule map_idI)
    fix c assume "c \<in> set gram"
    with one obtain n where "encode_ch alphabet c = Some n" "alphabet ! (n - 1) = c" by blast
    then show "((\<lambda>b. alphabet ! (b - 1)) \<circ> (\<lambda>c. the (encode_ch alphabet c))) c = c" by simp
  qed
qed

lemma gram_key_in_alphabet:
  assumes "set gram \<subseteq> set alphabet" and "length alphabet \<le> PACKED_GRAM_LAST_CODE"
    and "length gram \<le> PACKED_GRAM_MAX_CHARACTERS"
  shows "gram_key alphabet gram = Some (big_endian (codes alphabet gram))"
  using codes_bytes [OF assms(1,2)] assms(3)
  by (auto simp: gram_key_def codes_def Let_def comp_def)

text \<open>A gram with a character outside the alphabet has no key: the encoder raises, or a byte is zero.\<close>

lemma gram_key_outside:
  assumes "\<not> set gram \<subseteq> set alphabet"
  shows "gram_key alphabet gram = None"
proof -
  obtain c where c: "c \<in> set gram" "c \<notin> set alphabet" using assms by blast
  then have "code_from 1 alphabet c = None" by simp
  then have "encode_ch alphabet c = None \<or> encode_ch alphabet c = Some 0"
    by (simp only: encode_ch_def option.case) simp
  with c(1) show ?thesis
    by (force simp: gram_key_def Let_def image_iff)
qed

lemma padded_key_eq:
  assumes "set gram \<subseteq> set alphabet" and "length alphabet \<le> PACKED_GRAM_LAST_CODE" and "0 \<notin> set alphabet"
  shows "padded_key alphabet gram = big_endian (codes alphabet gram)"
proof -
  have "code_from 1 alphabet 0 = None" using assms(3) by simp
  then have "encode_ch alphabet 0 = Some 0" by (simp only: encode_ch_def option.case) simp
  moreover have "map (\<lambda>c. case encode_ch alphabet c of None \<Rightarrow> 0 | Some n \<Rightarrow> n) gram = codes alphabet gram"
    using codes_bytes(3) [OF assms(1,2)] by (force simp: codes_def split: option.splits)
  ultimately show ?thesis by (simp add: padded_key_def big_endian_zeros map_replicate)
qed

lemma codes_inject:
  assumes "set g \<subseteq> set alphabet" and "set h \<subseteq> set alphabet" and "length alphabet \<le> PACKED_GRAM_LAST_CODE"
    and "big_endian (codes alphabet g) = big_endian (codes alphabet h)"
  shows "g = h"
  using codes_bytes(1,2) [OF assms(1,3)] codes_bytes(1,2) [OF assms(2,3)] key_bytes_big_endian assms(4) by metis

subsection \<open>The packed table\<close>

text \<open>What a table that was packed satisfies.\<close>

lemma gram_alphabet_set: "set (gram_alphabet table) = (\<Union>(g, _)\<in>set table. set g)"
  by (auto simp: gram_alphabet_def)

lemma packD:
  assumes "pack table = Some p"
  shows "pg_alphabet p = gram_alphabet table" "length (gram_alphabet table) \<le> PACKED_GRAM_LAST_CODE"
    "0 \<notin> set (gram_alphabet table)" "\<forall>(g, v)\<in>set table. g \<noteq> [] \<and> length g \<le> PACKED_GRAM_MAX_CHARACTERS"
    "pg_keys p = map fst (sort_key fst (map (\<lambda>(g, v). (padded_key (gram_alphabet table) g, v)) table))"
    "pg_values p = map snd (sort_key fst (map (\<lambda>(g, v). (padded_key (gram_alphabet table) g, v)) table))"
  using assms by (auto simp: pack_def Let_def list_ex_iff split: if_splits)

definition gram_value :: "(ustr, real) odict \<Rightarrow> ustr \<Rightarrow> nat" where
  "gram_value table g = big_endian (codes (gram_alphabet table) g)"

lemma nth_fst_snd_mem: "i < length ps \<Longrightarrow> (map fst ps ! i, map snd ps ! i) \<in> set ps"
  by simp

lemma distinct_sort_key: "distinct (map f (sort_key h xs)) \<longleftrightarrow> distinct (map f xs)"
  by (simp add: distinct_map)

lemma packed_pairs:
  assumes "pack table = Some p" and "dict_ok table"
  defines "pairs \<equiv> sort_key fst (map (\<lambda>(g, v). (padded_key (gram_alphabet table) g, v)) table)"
  shows "sorted_wrt (<) (pg_keys p)" and "set pairs = (\<lambda>(g, v). (gram_value table g, v)) ` set table"
    and "pg_keys p = map fst pairs" and "pg_values p = map snd pairs"
    and "\<forall>k\<in>set (pg_keys p). 0 < k \<and> k < 256 ^ PACKED_GRAM_MAX_CHARACTERS"
proof -
  note D = packD [OF assms(1)]
  have sub: "set g \<subseteq> set (gram_alphabet table)" if "(g, v) \<in> set table" for g v
    using that by (auto simp: gram_alphabet_set)
  have key: "padded_key (gram_alphabet table) g = gram_value table g" if "(g, v) \<in> set table" for g v
    using padded_key_eq [OF sub [OF that] D(2,3)] by (simp add: gram_value_def)
  show keys: "pg_keys p = map fst pairs" and "pg_values p = map snd pairs"
    using D(5,6) by (simp_all add: pairs_def)
  show pairs: "set pairs = (\<lambda>(g, v). (gram_value table g, v)) ` set table"
    using key by (force simp: pairs_def)
  have inj: "inj_on (\<lambda>(g, v). gram_value table g) (set table)"
  proof (rule inj_onI, clarsimp)
    fix g v h w
    assume gh: "(g, v) \<in> set table" "(h, w) \<in> set table" "gram_value table g = gram_value table h"
    then have "g = h" using codes_inject [OF sub sub D(2)] by (auto simp: gram_value_def)
    with gh assms(2) show "g = h \<and> v = w" by (auto simp: dict_ok_def dest: eq_key_imp_eq_value)
  qed
  have "map fst (map (\<lambda>(g, v). (padded_key (gram_alphabet table) g, v)) table) = map (\<lambda>(g, v). gram_value table g) table"
    using key by auto
  moreover have "distinct (map (\<lambda>(g, v). gram_value table g) table)"
    using inj assms(2) by (simp add: distinct_map dict_ok_def)
  ultimately have "distinct (map fst (map (\<lambda>(g, v). (padded_key (gram_alphabet table) g, v)) table))" by (simp only:)
  then have "distinct (map fst pairs)" unfolding pairs_def distinct_sort_key .
  moreover have "sorted (map fst pairs)" by (simp add: pairs_def)
  ultimately show "sorted_wrt (<) (pg_keys p)" unfolding keys by (simp add: strict_sorted_iff)
  show "\<forall>k\<in>set (pg_keys p). 0 < k \<and> k < 256 ^ PACKED_GRAM_MAX_CHARACTERS"
  proof
    fix k assume "k \<in> set (pg_keys p)"
    then obtain g v where g: "(g, v) \<in> set table" "k = gram_value table g" unfolding keys using pairs by auto
    note bytes = codes_bytes [OF sub [OF g(1)] D(2)]
    have len: "g \<noteq> []" "length g \<le> PACKED_GRAM_MAX_CHARACTERS" using D(4) g(1) by auto
    have "k < 256 ^ length (codes (gram_alphabet table) g)"
      using big_endian_less [of "codes (gram_alphabet table) g"] bytes(1) by (auto simp: g(2) gram_value_def)
    also have "\<dots> \<le> 256 ^ PACKED_GRAM_MAX_CHARACTERS"
      using len(2) by (intro power_increasing) (simp_all add: codes_def)
    finally have "k < 256 ^ PACKED_GRAM_MAX_CHARACTERS" .
    moreover have "k \<noteq> 0"
    proof
      assume "k = 0"
      then have "key_bytes 0 = codes (gram_alphabet table) g"
        using key_bytes_big_endian [OF bytes(1)] by (simp add: g(2) gram_value_def)
      with len(1) show False by (simp add: key_bytes.simps codes_def)
    qed
    ultimately show "0 < k \<and> k < 256 ^ PACKED_GRAM_MAX_CHARACTERS" by simp
  qed
qed

lemma packed_lookup:
  assumes "pack table = Some p" and "dict_ok table"
  shows "packed_get p gram = map_of table gram"
proof -
  note D = packD [OF assms(1)] and P = packed_pairs [OF assms]
  let ?pairs = "sort_key fst (map (\<lambda>(g, v). (padded_key (gram_alphabet table) g, v)) table)"
  show ?thesis
  proof (cases "set gram \<subseteq> set (gram_alphabet table) \<and> gram \<noteq> [] \<and> length gram \<le> PACKED_GRAM_MAX_CHARACTERS")
    case False
    have "map_of table gram = None"
    proof (rule ccontr)
      assume "map_of table gram \<noteq> None"
      then obtain v where "(gram, v) \<in> set table" by (auto dest: map_of_SomeD)
      with D(4) False show False by (auto simp: gram_alphabet_set)
    qed
    moreover have "packed_get p gram = None"
    proof (cases "gram = [] \<or> \<not> set gram \<subseteq> set (gram_alphabet table)")
      case True
      then show ?thesis
        using gram_key_outside [of gram "gram_alphabet table"] D(1)
        by (cases "gram = []") (auto simp: packed_get_def gram_key_def Let_def)
    next
      case long: False
      with False have "PACKED_GRAM_MAX_CHARACTERS < length gram" by simp
      then have "gram_key (gram_alphabet table) gram = None" by (simp add: gram_key_def Let_def)
      then show ?thesis by (simp add: packed_get_def D(1))
    qed
    ultimately show ?thesis by simp
  next
    case True
    define k where "k = gram_value table gram"
    define i where "i = bisect_left (<) (pg_keys p) k"
    have key: "gram_key (pg_alphabet p) gram = Some k"
      using True gram_key_in_alphabet [of gram "gram_alphabet table"] D(1,2) by (simp add: k_def gram_value_def)
    have bytes: "\<forall>b\<in>set (codes (gram_alphabet table) gram). 0 < b \<and> b < 256"
      using True codes_bytes(1) D(2) by blast
    have k0: "k \<noteq> 0"
    proof
      assume "k = 0"
      then have "key_bytes 0 = codes (gram_alphabet table) gram"
        using key_bytes_big_endian [OF bytes] by (simp add: k_def gram_value_def)
      with True show False by (simp add: key_bytes.simps codes_def)
    qed
    have in_iff: "(k, v) \<in> set ?pairs \<longleftrightarrow> (gram, v) \<in> set table" for v
    proof
      assume "(k, v) \<in> set ?pairs"
      then obtain g where g: "(g, v) \<in> set table" "k = gram_value table g" using P(2) by auto
      then have "set g \<subseteq> set (gram_alphabet table)" by (auto simp: gram_alphabet_set)
      then have "g = gram" using codes_inject [of g _ gram] True D(2) g(2) by (auto simp: k_def gram_value_def)
      with g show "(gram, v) \<in> set table" by simp
    next
      assume "(gram, v) \<in> set table"
      then show "(k, v) \<in> set ?pairs" unfolding P(2) k_def by force
    qed
    have len: "length (pg_values p) = length (pg_keys p)" using P(3,4) by simp
    show ?thesis
    proof (cases "k \<in> set (pg_keys p)")
      case True
      then have i: "i < length (pg_keys p)" "pg_keys p ! i = k"
        using bisect_left_finds [OF P(1), of k] by (auto simp: i_def)
      then have "(k, pg_values p ! i) \<in> set ?pairs"
        using nth_fst_snd_mem [of i ?pairs] by (simp add: P(3,4))
      then have "map_of table gram = Some (pg_values p ! i)"
        using in_iff assms(2) by (simp add: dict_ok_def)
      with i k0 key show ?thesis by (simp add: packed_get_def i_def Let_def)
    next
      case False
      then have "\<not> (i < length (pg_keys p) \<and> pg_keys p ! i = k)"
        using bisect_left_finds [OF P(1), of k] by (simp add: i_def)
      moreover have "map_of table gram = None"
      proof (rule ccontr)
        assume "map_of table gram \<noteq> None"
        then obtain v where "(k, v) \<in> set ?pairs" using in_iff by (auto dest: map_of_SomeD)
        then have "k \<in> set (pg_keys p)" unfolding P(3) by force
        with False show False ..
      qed
      ultimately show ?thesis using k0 key by (simp add: packed_get_def i_def Let_def)
    qed
  qed
qed


subsection \<open>What a model asks of its tables\<close>

text \<open>
  The channels of \<open>ortho_model.py\<close> ask a table for \<open>get(gram)\<close> and \<open>get(context, 0.0)\<close> alone. The contract:
  the table answers exactly the grams it lists.
\<close>

definition get_or :: "(ustr \<Rightarrow> real option) \<Rightarrow> real \<Rightarrow> ustr \<Rightarrow> real" where
  "get_or lookup d g = (case lookup g of None \<Rightarrow> d | Some v \<Rightarrow> v)"

locale gram_table =
  fixes lookup :: "'t \<Rightarrow> ustr \<Rightarrow> real option" and grams :: "'t \<Rightarrow> ustr list" and table_ok :: "'t \<Rightarrow> bool"
  assumes answers: "table_ok t \<Longrightarrow> lookup t g \<noteq> None \<longleftrightarrow> g \<in> set (grams t)"
    and listed_once: "table_ok t \<Longrightarrow> distinct (grams t)"
begin

lemma get_or_absent: "table_ok t \<Longrightarrow> g \<notin> set (grams t) \<Longrightarrow> get_or (lookup t) d g = d"
  using answers [of t g] by (auto simp: get_or_def split: option.splits)

lemma same_grams:
  assumes "table_ok t" and "table_ok u" and "lookup t = lookup u"
  shows "set (grams t) = set (grams u)"
proof (rule set_eqI)
  fix g show "g \<in> set (grams t) \<longleftrightarrow> g \<in> set (grams u)"
    using answers [OF assms(1), of g] answers [OF assms(2), of g] by (simp add: assms(3))
qed

end

lemma packed_iter:
  assumes "pack table = Some p" and "dict_ok table"
  shows "set (packed_grams_of p) = fst ` set table" and "distinct (packed_grams_of p)"
proof -
  note D = packD [OF assms(1)] and P = packed_pairs [OF assms]
  have read: "map (\<lambda>b. pg_alphabet p ! (b - 1)) (key_bytes (gram_value table g)) = g" if "(g, v) \<in> set table" for g v
  proof -
    have sub: "set g \<subseteq> set (gram_alphabet table)" using that by (auto simp: gram_alphabet_set)
    show ?thesis
      using codes_bytes(2) [OF sub D(2)] key_bytes_big_endian [OF codes_bytes(1) [OF sub D(2)]]
      by (simp add: gram_value_def D(1))
  qed
  have keys: "set (pg_keys p) = gram_value table ` fst ` set table"
    unfolding P(3) set_map P(2) by (force simp: image_image)
  show "set (packed_grams_of p) = fst ` set table"
    unfolding packed_grams_of_def set_map keys using read by (force simp: image_image)
  have "inj_on (\<lambda>k. map (\<lambda>b. pg_alphabet p ! (b - 1)) (key_bytes k)) (set (pg_keys p))"
    unfolding keys by (rule inj_on_inverseI [where g = "gram_value table"]) (use read in auto)
  moreover have "distinct (pg_keys p)" using P(1) by (simp add: strict_sorted_iff)
  ultimately show "distinct (packed_grams_of p)" by (simp add: packed_grams_of_def distinct_map)
qed

interpretation dict_table: gram_table map_of "map fst" dict_ok
  by unfold_locales (auto simp: dict_ok_def map_of_eq_None_iff)

definition packed_ok :: "packed_grams \<Rightarrow> bool" where
  "packed_ok p \<longleftrightarrow> (\<exists>table. dict_ok table \<and> pack table = Some p)"

interpretation packed_table: gram_table packed_get packed_grams_of packed_ok
proof
  fix t g
  assume "packed_ok t"
  then obtain table where t: "dict_ok table" "pack table = Some t" by (auto simp: packed_ok_def)
  show "packed_get t g \<noteq> None \<longleftrightarrow> g \<in> set (packed_grams_of t)"
    unfolding packed_lookup [OF t(2,1)] packed_iter(1) [OF t(2,1)] by (simp add: map_of_eq_None_iff)
  show "distinct (packed_grams_of t)" by (rule packed_iter(2) [OF t(2,1)])
qed

text \<open>A table large enough to be packed: 4096 grams of two characters out of 64.\<close>

definition two_characters :: "nat \<Rightarrow> ustr" where
  "two_characters n = [1 + n div 64, 1 + n mod 64]"

definition sample_table :: "(ustr, real) odict" where
  "sample_table = map (\<lambda>n. (two_characters n, real n)) [0..<4096]"

lemma two_characters_inj: "inj two_characters"
proof (rule injI)
  fix m n assume "two_characters m = two_characters n"
  then have "m div 64 = n div 64" "m mod 64 = n mod 64" by (simp_all add: two_characters_def)
  then show "m = n" by (metis div_mult_mod_eq)
qed

lemma dict_ok_table: "inj f \<Longrightarrow> dict_ok (map (\<lambda>n. (f n, g n)) [0..<k])"
  by (simp add: dict_ok_def comp_def distinct_map inj_on_def)

lemma sample_table_ok: "dict_ok sample_table"
  unfolding sample_table_def by (rule dict_ok_table [OF two_characters_inj])

lemma sample_table_grams: "(g, v) \<in> set sample_table \<Longrightarrow> \<exists>n<4096. g = two_characters n \<and> v = real n"
  unfolding sample_table_def set_map set_upt by force

lemma pack_sample: "pack sample_table \<noteq> None"
proof -
  have "set (gram_alphabet sample_table) \<subseteq> {1..64}"
  proof
    fix c assume "c \<in> set (gram_alphabet sample_table)"
    then obtain g v where g: "(g, v) \<in> set sample_table" "c \<in> set g" unfolding gram_alphabet_set by blast
    from sample_table_grams [OF g(1)] obtain n where "n < 4096" "g = two_characters n" by blast
    with g(2) show "c \<in> {1..64}" by (auto simp: two_characters_def)
  qed
  moreover have "distinct (gram_alphabet sample_table)" by (simp add: gram_alphabet_def)
  ultimately have "length (gram_alphabet sample_table) \<le> 64" "0 \<notin> set (gram_alphabet sample_table)"
    using card_mono [of "{1..64::nat}" "set (gram_alphabet sample_table)"] by (auto simp: distinct_card)
  moreover have "length sample_table = 4096" unfolding sample_table_def length_map length_upt by simp
  moreover have "length g = Suc (Suc 0)" if "(g, v) \<in> set sample_table" for g v
    using sample_table_grams [OF that] by (auto simp: two_characters_def)
  ultimately show ?thesis
    by (force simp: pack_def Let_def PACKED_GRAM_MIN_ENTRIES_def PACKED_GRAM_LAST_CODE_def
        PACKED_GRAM_MAX_CHARACTERS_def PACKED_GRAM_KEY_BYTES_def list_ex_iff)
qed

lemma sample_lookup: "map_of sample_table (two_characters 1) = Some 1"
proof -
  have "(1::nat) \<in> set [0..<4096]" unfolding set_upt by simp
  then have "(\<lambda>n. (two_characters n, real n)) 1 \<in> set sample_table"
    unfolding sample_table_def set_map by (rule imageI)
  then show ?thesis using sample_table_ok by (simp add: dict_ok_def)
qed

text \<open>C31: Packing changes no answer: for every text, of the table's characters or not, of any length, the
  packed table gives the value the dictionary holds or the default the caller names, it raises
  \<open>KeyError\<close> exactly for a gram the dictionary does not hold, and it lists the dictionary's grams.\<close>

theorem packed_answers_like_dict:
  assumes "pack table = Some p" and "dict_ok table"
  shows "get_or (packed_get p) d gram = get_or (map_of table) d gram
    \<and> packed_getitem p gram = (case map_of table gram of None \<Rightarrow> Inl KeyError | Some v \<Rightarrow> Inr v)
    \<and> set (packed_grams_of p) = fst ` set table \<and> packed_len p = length table"
proof -
  have ok: "packed_ok p" using assms by (auto simp: packed_ok_def)
  have same: "packed_get p = map_of table" using packed_lookup [OF assms] by blast
  have "set (packed_grams_of p) = set (map fst table)"
    using packed_table.answers [OF ok] dict_table.answers [OF assms(2)] unfolding same by blast
  moreover have "length (pg_keys p) = length table" using packed_pairs(3) [OF assms] by simp
  ultimately show ?thesis by (simp add: same packed_getitem_def packed_len_def)
qed

theorem packed_answers_like_dict_witness:
  "\<exists>p. pack sample_table = Some p \<and> packed_getitem p (two_characters 1) = Inr 1"
proof -
  obtain p where p: "pack sample_table = Some p" using pack_sample by auto
  from packed_answers_like_dict [OF p sample_table_ok, of 0 "two_characters 1"]
  have "packed_getitem p (two_characters 1) = Inr 1" unfolding sample_lookup by simp
  with p show ?thesis by blast
qed

text \<open>Every key of a packed table is positive and below \<open>2 ^ 56\<close>, so the signed 64-bit array holds it, and
  the keys ascend strictly, which the binary search relies on.\<close>

theorem packed_keys_fit:
  assumes "pack table = Some p" and "dict_ok table"
  shows "sorted_wrt (<) (pg_keys p) \<and> list_all (\<lambda>k. 0 < k \<and> k < 2 ^ 56) (pg_keys p)"
  using packed_pairs(1,5) [OF assms]
  by (simp add: list_all_iff PACKED_GRAM_MAX_CHARACTERS_def PACKED_GRAM_KEY_BYTES_def)

theorem packed_keys_fit_witness:
  "\<exists>p. pack sample_table = Some p \<and> sorted_wrt (<) (pg_keys p)"
proof -
  obtain p where p: "pack sample_table = Some p" using pack_sample by auto
  from packed_keys_fit [OF p sample_table_ok] p show ?thesis by blast
qed

end
