(* ===== verification/Config.thy ===== *)
theory Config
  imports Json
begin

text \<open>
  \<open>src/keyswitch/config.py\<close> and the shipped settings of \<open>constants/settings_defaults.py\<close>: the settings are a
  JSON object read along dotted paths and merged over the defaults. The store keeps the data, the file,
  the subscribers and the calls they got; every operation that saves takes the outcome of the write, since
  the code lets an \<open>OSError\<close> through with the change already made in memory. \<open>copy.deepcopy\<close> is the
  identity here. The environment variables that choose the folder are not modelled.
\<close>

subsection \<open>The shipped settings\<close>

definition DEFAULT_MINIMUM_WORD_LENGTH :: int where "DEFAULT_MINIMUM_WORD_LENGTH = 3"
definition DEFAULT_CONFIDENCE_THRESHOLD :: real where "DEFAULT_CONFIDENCE_THRESHOLD = 2"
definition DEFAULT_PAUSE_DELAY_SECONDS :: real where "DEFAULT_PAUSE_DELAY_SECONDS = 7 / 10"
definition PREVIOUS_DEFAULT_PAUSE_DELAY_SECONDS :: real where "PREVIOUS_DEFAULT_PAUSE_DELAY_SECONDS = 3 / 2"
definition DEFAULT_EARLY_SWITCH_MIN_LENGTH :: int where "DEFAULT_EARLY_SWITCH_MIN_LENGTH = 4"
definition DEFAULT_FIELD_CATCH_UP :: ustr where "DEFAULT_FIELD_CATCH_UP = asc ''300''"
definition DEFAULT_HISTORY_LIMIT_SETTING :: int where "DEFAULT_HISTORY_LIMIT_SETTING = 200"
definition EARLY_SWITCH_DEFAULT_SCHEMA_VERSION :: int where "EARLY_SWITCH_DEFAULT_SCHEMA_VERSION = 7"
definition PAUSE_DELAY_DEFAULT_SCHEMA_VERSION :: int where "PAUSE_DELAY_DEFAULT_SCHEMA_VERSION = 8"
definition HOTKEY_SELECTION_LAYOUT :: ustr where "HOTKEY_SELECTION_LAYOUT = asc ''selection_layout''"
definition HOTKEY_SELECTION_CASE :: ustr where "HOTKEY_SELECTION_CASE = asc ''selection_case''"
definition HOTKEY_SELECTION_TRANSLITERATE :: ustr where
  "HOTKEY_SELECTION_TRANSLITERATE = asc ''selection_transliterate''"
definition SELECTION_HOTKEYS :: "ustr list" where
  "SELECTION_HOTKEYS = [HOTKEY_SELECTION_LAYOUT, HOTKEY_SELECTION_CASE, HOTKEY_SELECTION_TRANSLITERATE]"
definition DEFAULT_SELECTION_LAYOUT_HOTKEY :: ustr where "DEFAULT_SELECTION_LAYOUT_HOTKEY = asc ''Shift+Pause''"
definition DEFAULT_SELECTION_CASE_HOTKEY :: ustr where "DEFAULT_SELECTION_CASE_HOTKEY = asc ''Alt+Pause''"
definition DEFAULT_SELECTION_TRANSLITERATE_HOTKEY :: ustr where
  "DEFAULT_SELECTION_TRANSLITERATE_HOTKEY = asc ''Alt+Scroll_Lock''"

definition MACOS_SELECTION_HOTKEY_DEFAULTS :: "(ustr \<times> json) list" where
  "MACOS_SELECTION_HOTKEY_DEFAULTS =
    [(HOTKEY_SELECTION_LAYOUT, JStr (asc ''Ctrl+Alt+L'')), (HOTKEY_SELECTION_CASE, JStr (asc ''Ctrl+Alt+U'')),
     (HOTKEY_SELECTION_TRANSLITERATE, JStr (asc ''Ctrl+Alt+T''))]"

definition DEFAULT_SETTINGS :: "(ustr \<times> json) list" where
  "DEFAULT_SETTINGS =
    [(asc ''schema_version'', JInt PAUSE_DELAY_DEFAULT_SCHEMA_VERSION),
     (asc ''enabled'', JBool True),
     (asc ''general'', JObj [
        (asc ''start_hidden'', JBool True), (asc ''close_to_tray'', JBool True), (asc ''autostart'', JBool True),
        (asc ''notifications'', JBool True), (asc ''sound'', JBool False), (asc ''keep_history'', JBool True)]),
     (asc ''detection'', JObj [
        (asc ''layouts'', JList [JStr (asc ''us''), JStr (asc ''ru'')]),
        (asc ''language_models'', JList [JStr (asc ''en_US''), JStr (asc ''ru_RU'')]),
        (asc ''minimum_length'', JInt DEFAULT_MINIMUM_WORD_LENGTH),
        (asc ''confidence'', JFloat DEFAULT_CONFIDENCE_THRESHOLD),
        (asc ''correct_on_pause'', JBool True),
        (asc ''pause_delay_seconds'', JFloat DEFAULT_PAUSE_DELAY_SECONDS),
        (asc ''early_switch'', JBool True),
        (asc ''early_switch_min_length'', JInt DEFAULT_EARLY_SWITCH_MIN_LENGTH),
        (asc ''correct_on_space'', JBool True), (asc ''correct_on_enter'', JBool True),
        (asc ''correct_on_tab'', JBool True), (asc ''correct_on_punctuation'', JBool True),
        (asc ''respect_manual_layout'', JBool True), (asc ''fix_double_capitals'', JBool True),
        (asc ''aggressive'', JBool True), (asc ''context_aware'', JBool True),
        (asc ''context_policy'', JStr (asc ''assist'')), (asc ''context_read_field'', JBool True),
        (asc ''hold_after_caret_move'', JBool True), (asc ''field_catch_up'', JStr DEFAULT_FIELD_CATCH_UP),
        (asc ''protect_code'', JBool True), (asc ''intent_model_enabled'', JBool True),
        (asc ''correct_typos'', JBool True), (asc ''correct_typos_english'', JBool False),
        (asc ''learning'', JBool True), (asc ''injected_input'', JBool False)]),
     (asc ''hotkeys'', JObj [
        (asc ''toggle'', JStr (asc ''Ctrl+Alt+P'')), (asc ''convert_last'', JStr (asc ''Pause'')),
        (asc ''undo'', JStr (asc ''Ctrl+Alt+Z'')),
        (HOTKEY_SELECTION_LAYOUT, JStr DEFAULT_SELECTION_LAYOUT_HOTKEY),
        (HOTKEY_SELECTION_CASE, JStr DEFAULT_SELECTION_CASE_HOTKEY),
        (HOTKEY_SELECTION_TRANSLITERATE, JStr DEFAULT_SELECTION_TRANSLITERATE_HOTKEY)]),
     (asc ''applications'', JObj [(asc ''telegram_quote_mention'', JBool True)]),
     (asc ''exclusions'', JObj [
        (asc ''applications'', JList [JStr (asc ''keepassxc''), JStr (asc ''1password''), JStr (asc ''bitwarden'')]),
        (asc ''words'', JList [])]),
     (asc ''appearance'', JObj [
        (asc ''theme'', JStr (asc ''system'')), (asc ''show_indicator'', JBool True),
        (asc ''indicator_style'', JStr (asc ''letters''))]),
     (asc ''updates'', JObj [(asc ''check_automatically'', JBool True), (asc ''install_automatically'', JBool True)]),
     (asc ''diagnostics'', JObj [(asc ''technical_logging'', JBool False)]),
     (asc ''history'', JObj [(asc ''limit'', JInt DEFAULT_HISTORY_LIMIT_SETTING)])]"

text \<open>\<open>dict.update\<close>, and the defaults of a platform.\<close>

definition dict_update :: "(ustr \<times> json) list \<Rightarrow> (ustr \<times> json) list \<Rightarrow> (ustr \<times> json) list" where
  "dict_update d new = fold (\<lambda>(k, v). AList.update k v) new d"

definition default_settings :: "string \<Rightarrow> (ustr \<times> json) list" where
  "default_settings platform =
     (case dict_get DEFAULT_SETTINGS (asc ''hotkeys'') of
        JObj hotkeys \<Rightarrow>
          if platform = ''darwin''
          then AList.update (asc ''hotkeys'') (JObj (dict_update hotkeys MACOS_SELECTION_HOTKEY_DEFAULTS)) DEFAULT_SETTINGS
          else DEFAULT_SETTINGS
      | _ \<Rightarrow> DEFAULT_SETTINGS)"

subsection \<open>Merging and paths\<close>

text \<open>\<open>_deep_merge\<close>: the loop over the loaded items, the result starting as the defaults.\<close>

fun deep_merge :: "(ustr \<times> json) list \<Rightarrow> (ustr \<times> json) list \<Rightarrow> (ustr \<times> json) list" where
  "deep_merge result [] = result"
| "deep_merge result ((k, v) # loaded) =
     deep_merge
       (AList.update k
         (case v of
            JObj l \<Rightarrow> (case dict_get result k of JObj d \<Rightarrow> JObj (deep_merge d l) | _ \<Rightarrow> v)
          | _ \<Rightarrow> v) result) loaded"

definition path_parts :: "ustr \<Rightarrow> ustr list" where
  "path_parts dotted = split_on (\<lambda>c. c = 0x2E) dotted"

fun path_get :: "json \<Rightarrow> ustr list \<Rightarrow> json option" where
  "path_get v [] = Some v"
| "path_get v (part # parts) =
     (case v of JObj d \<Rightarrow> (case map_of d part of None \<Rightarrow> None | Some w \<Rightarrow> path_get w parts) | _ \<Rightarrow> None)"

text \<open>
  The walk of \<open>set\<close>: a node on the way that is no object becomes an empty one, also when the value turns
  out to be equal to the stored one; the second component says whether the value was written.
\<close>

fun path_set :: "(ustr \<times> json) list \<Rightarrow> ustr list \<Rightarrow> json \<Rightarrow> (ustr \<times> json) list \<times> bool" where
  "path_set d [] v = (d, False)"
| "path_set d [part] v = (if py_eq (dict_get d part) v then (d, False) else (AList.update part v d, True))"
| "path_set d (part # next_part # parts) v =
     (let node = (case dict_get d part of JObj e \<Rightarrow> e | _ \<Rightarrow> []);
          (written, changed) = path_set node (next_part # parts) v
      in (AList.update part (JObj written) d, changed))"

subsection \<open>The store\<close>

record settings_store =
  cfg_data :: "(ustr \<times> json) list"
  cfg_defaults :: "(ustr \<times> json) list"
  cfg_file :: file_state
  cfg_unreadable :: bool
  cfg_callbacks :: "nat list"
  cfg_calls :: "(nat \<times> ustr \<times> json) list"

definition adopt_new_defaults ::
  "(ustr \<times> json) list \<Rightarrow> (ustr \<times> json) list \<Rightarrow> (ustr \<times> json) list" where
  "adopt_new_defaults loaded dat =
     (case dict_get loaded (asc ''schema_version'') of
        JInt version \<Rightarrow>
          if PAUSE_DELAY_DEFAULT_SCHEMA_VERSION \<le> version then dat
          else
            let adopted =
              (case (dict_get loaded (asc ''detection''), dict_get dat (asc ''detection'')) of
                 (JObj detection, JObj current) \<Rightarrow>
                   let early =
                         (if version < EARLY_SWITCH_DEFAULT_SCHEMA_VERSION
                             \<and> dict_get detection (asc ''early_switch'') = JBool False
                          then AList.update (asc ''early_switch'') (JBool True) current else current);
                       pause =
                         (if py_eq (dict_get detection (asc ''pause_delay_seconds''))
                               (JFloat PREVIOUS_DEFAULT_PAUSE_DELAY_SECONDS)
                          then AList.update (asc ''pause_delay_seconds'') (JFloat DEFAULT_PAUSE_DELAY_SECONDS) early
                          else early)
                   in AList.update (asc ''detection'') (JObj pause) dat
               | _ \<Rightarrow> dat)
            in AList.update (asc ''schema_version'') (dict_get DEFAULT_SETTINGS (asc ''schema_version'')) adopted
      | _ \<Rightarrow> dat)"

text \<open>\<open>load\<close>; \<open>move_ok\<close> is whether an unreadable file could be moved aside.\<close>

definition load_settings :: "bool \<Rightarrow> settings_store \<Rightarrow> settings_store" where
  "load_settings move_ok st =
     (if cfg_file st = No_File then st
      else case (case cfg_file st of Holds v \<Rightarrow> v | _ \<Rightarrow> JNull) of
        JObj loaded \<Rightarrow> st\<lparr>cfg_data := adopt_new_defaults loaded (deep_merge (cfg_defaults st) loaded)\<rparr>
      | _ \<Rightarrow> if move_ok then st\<lparr>cfg_data := cfg_defaults st, cfg_unreadable := True, cfg_file := No_File\<rparr>
             else st\<lparr>cfg_data := cfg_defaults st, cfg_unreadable := False\<rparr>)"

definition open_settings :: "string \<Rightarrow> bool \<Rightarrow> file_state \<Rightarrow> settings_store" where
  "open_settings platform move_ok file =
     load_settings move_ok
       \<lparr>cfg_data = default_settings platform, cfg_defaults = default_settings platform, cfg_file = file,
        cfg_unreadable = False, cfg_callbacks = [], cfg_calls = []\<rparr>"

definition save_settings :: "bool \<Rightarrow> settings_store \<Rightarrow> (unit, settings_store) outcome" where
  "save_settings disk_ok st =
     (if disk_ok then (Inr (), st\<lparr>cfg_file := Holds (JObj (cfg_data st))\<rparr>) else (Inl OSError, st))"

definition get_setting :: "settings_store \<Rightarrow> ustr \<Rightarrow> json \<Rightarrow> json" where
  "get_setting st path fallback =
     (case path_get (JObj (cfg_data st)) (path_parts path) of None \<Rightarrow> fallback | Some v \<Rightarrow> v)"

definition notify :: "ustr \<Rightarrow> json \<Rightarrow> settings_store \<Rightarrow> settings_store" where
  "notify path v st = st\<lparr>cfg_calls := cfg_calls st @ map (\<lambda>callback. (callback, path, v)) (cfg_callbacks st)\<rparr>"

definition set_setting :: "bool \<Rightarrow> bool \<Rightarrow> ustr \<Rightarrow> json \<Rightarrow> settings_store \<Rightarrow> (unit, settings_store) outcome" where
  "set_setting disk_ok persist path v st =
     (let (dat, changed) = path_set (cfg_data st) (path_parts path) v;
          st1 = st\<lparr>cfg_data := dat\<rparr>
      in if \<not> changed then (Inr (), st1)
         else case (if persist then save_settings disk_ok st1 else (Inr (), st1)) of
           (Inl e, st2) \<Rightarrow> (Inl e, st2)
         | (Inr _, st2) \<Rightarrow> (Inr (), notify path v st2))"

definition shipped_value :: "settings_store \<Rightarrow> ustr \<Rightarrow> json option" where
  "shipped_value st path = path_get (JObj (cfg_defaults st)) (path_parts path)"

text \<open>\<open>missing\<close> is an object equal only to itself.\<close>

definition is_default :: "settings_store \<Rightarrow> ustr \<Rightarrow> bool" where
  "is_default st path =
     (case (path_get (JObj (cfg_data st)) (path_parts path), shipped_value st path) of
        (Some v, Some w) \<Rightarrow> py_eq v w
      | (None, None) \<Rightarrow> True
      | _ \<Rightarrow> False)"

definition restore_default :: "bool \<Rightarrow> ustr \<Rightarrow> settings_store \<Rightarrow> (bool, settings_store) outcome" where
  "restore_default disk_ok path st =
     (case shipped_value st path of
        None \<Rightarrow> (Inr False, st)
      | Some v \<Rightarrow> (case set_setting disk_ok True path v st of
           (Inl e, st1) \<Rightarrow> (Inl e, st1)
         | (Inr _, st1) \<Rightarrow> (Inr True, st1)))"

definition subscribe :: "nat \<Rightarrow> settings_store \<Rightarrow> settings_store" where
  "subscribe callback st = st\<lparr>cfg_callbacks := cfg_callbacks st @ [callback]\<rparr>"

definition unsubscribe :: "nat \<Rightarrow> settings_store \<Rightarrow> settings_store" where
  "unsubscribe callback st = st\<lparr>cfg_callbacks := remove1 callback (cfg_callbacks st)\<rparr>"

definition reset_settings :: "bool \<Rightarrow> settings_store \<Rightarrow> (unit, settings_store) outcome" where
  "reset_settings disk_ok st =
     (case save_settings disk_ok (st\<lparr>cfg_data := cfg_defaults st\<rparr>) of
        (Inl e, st1) \<Rightarrow> (Inl e, st1)
      | (Inr _, st1) \<Rightarrow> (Inr (), notify (asc ''*'') (JObj (cfg_data st1)) st1))"

subsection \<open>What a merge and a walk give\<close>

text \<open>The parser gives objects whose keys are distinct.\<close>

fun json_ok :: "json \<Rightarrow> bool" where
  "json_ok (JObj d) \<longleftrightarrow> distinct (map fst d) \<and> list_all (\<lambda>(k, x). json_ok x) d"
| "json_ok (JList xs) \<longleftrightarrow> list_all json_ok xs"
| "json_ok v \<longleftrightarrow> True"

definition is_obj :: "json \<Rightarrow> bool" where
  "is_obj v \<longleftrightarrow> (case v of JObj _ \<Rightarrow> True | _ \<Rightarrow> False)"

lemma is_obj_simps [simp]:
  "is_obj (JObj d)" "\<not> is_obj JNull" "\<not> is_obj (JBool b)" "\<not> is_obj (JInt i)" "\<not> is_obj (JFloat r)" "\<not> is_obj (JStr t)"
  by (simp_all add: is_obj_def)

lemma is_objE: "is_obj v \<Longrightarrow> (\<And>d. v = JObj d \<Longrightarrow> thesis) \<Longrightarrow> thesis"
  by (cases v) (auto simp: is_obj_def)

lemma path_get_not_obj: "\<not> is_obj v \<Longrightarrow> path_get v (part # parts) = None"
  by (cases v) auto

text \<open>\<open>silent v parts\<close>: the value has no entry on the way, so it says nothing of the path.\<close>

fun silent :: "json \<Rightarrow> ustr list \<Rightarrow> bool" where
  "silent v [] \<longleftrightarrow> False"
| "silent v (part # parts) \<longleftrightarrow>
     (case v of JObj d \<Rightarrow> (case map_of d part of None \<Rightarrow> True | Some w \<Rightarrow> silent w parts) | _ \<Rightarrow> False)"

lemma silent_not_obj: "\<not> is_obj v \<Longrightarrow> \<not> silent v parts"
  by (cases parts; cases v) auto

definition merge_value :: "json \<Rightarrow> json \<Rightarrow> json" where
  "merge_value old v = (case v of JObj l \<Rightarrow> (case old of JObj d \<Rightarrow> JObj (deep_merge d l) | _ \<Rightarrow> v) | _ \<Rightarrow> v)"

lemma deep_merge_Cons: "deep_merge result ((k, v) # loaded) = deep_merge (AList.update k (merge_value (dict_get result k) v) result) loaded"
  by (cases v) (simp_all add: merge_value_def)

lemma dict_get_update [simp]: "dict_get (AList.update k v d) k' = (if k' = k then v else dict_get d k')"
  by (simp add: dict_get_def update_conv')

lemma map_of_deep_merge:
  "distinct (map fst loaded) \<Longrightarrow> map_of (deep_merge result loaded) k =
     (case map_of loaded k of None \<Rightarrow> map_of result k | Some v \<Rightarrow> Some (merge_value (dict_get result k) v))"
proof (induction loaded arbitrary: result)
  case Nil
  then show ?case by simp
next
  case (Cons entry loaded)
  obtain k' v where e: "entry = (k', v)" by fastforce
  have "k' \<notin> fst ` set loaded" and "distinct (map fst loaded)" using Cons.prems e by auto
  then have absent: "map_of loaded k' = None" by (simp add: map_of_eq_None_iff)
  show ?case
    unfolding e deep_merge_Cons Cons.IH [OF \<open>distinct (map fst loaded)\<close>]
    by (simp add: absent update_conv' split: option.splits)
qed

lemma json_ok_lookup: "json_ok (JObj d) \<Longrightarrow> map_of d k = Some v \<Longrightarrow> json_ok v"
  by (auto simp: list_all_iff dest: map_of_SomeD)

lemma path_get_merge:
  assumes "json_ok (JObj loaded)" and "\<not> is_obj v"
  shows "path_get (JObj (deep_merge d loaded)) parts = Some v \<longleftrightarrow>
    path_get (JObj loaded) parts = Some v \<or> silent (JObj loaded) parts \<and> path_get (JObj d) parts = Some v"
  using assms(1)
proof (induction parts arbitrary: d loaded)
  case Nil
  then show ?case using assms(2) by auto
next
  case (Cons part parts)
  show ?case
  proof (cases "map_of loaded part")
    case None
    then show ?thesis using Cons.prems by (simp add: map_of_deep_merge)
  next
    case (Some w)
    have w: "map_of (deep_merge d loaded) part = Some (merge_value (dict_get d part) w)"
      using Some Cons.prems by (simp add: map_of_deep_merge)
    show ?thesis
    proof (cases "is_obj w \<and> is_obj (dict_get d part)")
      case True
      then obtain l e where le: "w = JObj l" "dict_get d part = JObj e" by (auto elim!: is_objE)
      then have "map_of d part = Some (JObj e)" by (auto simp: dict_get_def split: option.splits)
      then show ?thesis
        using Cons.IH [of l e] json_ok_lookup [OF Cons.prems Some] Some w le by (simp add: merge_value_def)
    next
      case False
      then have "merge_value (dict_get d part) w = w"
        by (auto simp: merge_value_def is_obj_def split: json.splits)
      moreover have "\<not> (silent w parts \<and> path_get x parts = Some v)" if "map_of d part = Some x" for x
      proof (cases "is_obj w")
        case True
        with False that have "\<not> is_obj x" by (simp add: dict_get_def)
        then show ?thesis
          by (cases parts) (auto simp: path_get_not_obj simp del: path_get.simps(2) silent.simps(2))
      qed (simp add: silent_not_obj)
      ultimately show ?thesis using Some w by (auto split: option.splits)
    qed
  qed
qed

lemma path_set_Cons: "parts \<noteq> [] \<Longrightarrow> path_set d (part # parts) v =
    (AList.update part (JObj (fst (path_set (dict_entries (dict_get d part)) parts v))) d,
     snd (path_set (dict_entries (dict_get d part)) parts v))"
  by (cases parts) (auto simp: Let_def dict_entries_def split: prod.splits json.splits)

lemma path_set_empty: "parts \<noteq> [] \<Longrightarrow> snd (path_set [] parts v) \<longleftrightarrow> v \<noteq> JNull"
proof (induction parts)
  case (Cons part parts)
  then show ?case
    by (cases "parts = []") (simp_all add: path_set_Cons dict_get_def dict_entries_def)
qed simp

lemma update_same: "map_of d k = Some v \<Longrightarrow> AList.update k v d = d"
  by (induction d) auto

lemma dict_get_obj: "dict_get d k = JObj e \<longleftrightarrow> map_of d k = Some (JObj e)"
  by (auto simp: dict_get_def split: option.splits)

lemma path_set_unchanged:
  "parts \<noteq> [] \<Longrightarrow> \<not> snd (path_set d parts v) \<Longrightarrow> v \<noteq> JNull \<Longrightarrow> fst (path_set d parts v) = d"
proof (induction parts arbitrary: d)
  case (Cons part parts)
  show ?case
  proof (cases "parts = []")
    case True
    with Cons.prems show ?thesis by (auto split: if_splits)
  next
    case False
    note unchanged = Cons.prems(2) [unfolded path_set_Cons [OF False], simplified]
    have obj: "is_obj (dict_get d part)"
    proof (rule ccontr)
      assume "\<not> ?thesis"
      then have "dict_entries (dict_get d part) = []" by (auto simp: is_obj_def dict_entries_def split: json.splits)
      with unchanged path_set_empty [OF False, of v] Cons.prems(3) show False by simp
    qed
    then obtain e where e: "dict_get d part = JObj e" by (auto elim: is_objE)
    with Cons.IH [OF False, of e] unchanged Cons.prems(3) have "fst (path_set e parts v) = e"
      by (simp add: dict_entries_def)
    moreover have "map_of d part = Some (JObj e)" using e by (simp only: dict_get_obj)
    ultimately show ?thesis unfolding path_set_Cons [OF False] e by (simp add: dict_entries_def update_same)
  qed
qed simp

lemma path_set_get:
  "parts \<noteq> [] \<Longrightarrow> v \<noteq> JNull \<Longrightarrow>
     \<exists>w. path_get (JObj (fst (path_set d parts v))) parts = Some w \<and> (if snd (path_set d parts v) then w = v else py_eq w v)"
proof (induction parts arbitrary: d)
  case (Cons part parts)
  show ?case
  proof (cases "parts = []")
    case True
    with Cons.prems show ?thesis
      by (auto simp: dict_get_def update_conv' split: option.splits)
  next
    case False
    with Cons.IH [OF False, of "dict_entries (dict_get d part)"] Cons.prems show ?thesis
      by (simp add: path_set_Cons update_conv')
  qed
qed simp

text \<open>Two paths that part at some place.\<close>

fun apart :: "ustr list \<Rightarrow> ustr list \<Rightarrow> bool" where
  "apart (p # ps) (q # qs) \<longleftrightarrow> p \<noteq> q \<or> apart ps qs"
| "apart _ _ \<longleftrightarrow> False"

lemma path_set_frame: "apart parts others \<Longrightarrow> path_get (JObj (fst (path_set d parts v))) others = path_get (JObj d) others"
proof (induction parts others arbitrary: d rule: apart.induct)
  case (1 p ps q qs)
  show ?case
  proof (cases "ps = []")
    case True
    with 1 show ?thesis by (auto simp: update_conv')
  next
    case False
    show ?thesis
    proof (cases "p = q")
      case True
      with 1 have apart: "apart ps qs" by simp
      then obtain r rs where qs: "qs = r # rs" by (cases ps; cases qs) auto
      have "path_get (JObj (dict_entries (dict_get d p))) qs = (case map_of d p of None \<Rightarrow> None | Some w \<Rightarrow> path_get w qs)"
        unfolding qs by (auto simp: dict_entries_def dict_get_def split: option.splits json.splits)
      with True 1 apart False show ?thesis by (simp add: path_set_Cons update_conv' split: option.splits)
    qed (simp add: path_set_Cons [OF False] update_conv')
  qed
qed simp_all

subsection \<open>Objects keep distinct keys\<close>

lemma json_ok_update: "json_ok (JObj d) \<Longrightarrow> json_ok v \<Longrightarrow> json_ok (JObj (AList.update k v d))"
proof -
  assume d: "json_ok (JObj d)" and v: "json_ok v"
  have "(k', x) \<in> set d \<or> x = v" if "(k', x) \<in> set (AList.update k v d)" for k' x
    using that by (induction d) (auto split: if_splits)
  with d v show ?thesis by (fastforce simp: list_all_iff distinct_update)
qed

lemma json_ok_entries [simp]: "json_ok v \<Longrightarrow> json_ok (JObj (dict_entries v))"
  by (cases v) (auto simp: dict_entries_def)

lemma json_ok_dict_get [simp]: "json_ok (JObj d) \<Longrightarrow> json_ok (dict_get d k)"
  using json_ok_lookup [of d k] by (auto simp: dict_get_def simp del: json_ok.simps(1) split: option.splits)

lemma json_ok_path_set: "json_ok (JObj d) \<Longrightarrow> json_ok v \<Longrightarrow> json_ok (JObj (fst (path_set d parts v)))"
proof (induction parts arbitrary: d)
  case (Cons part parts)
  show ?case
  proof (cases "parts = []")
    case True
    with Cons.prems show ?thesis by (auto intro: json_ok_update simp del: json_ok.simps)
  next
    case False
    have "json_ok (JObj (fst (path_set (dict_entries (dict_get d part)) parts v)))"
      using Cons.prems by (intro Cons.IH) (auto simp del: json_ok.simps)
    with Cons.prems show ?thesis by (simp add: path_set_Cons [OF False] json_ok_update del: json_ok.simps)
  qed
qed simp

lemma json_ok_merge: "json_ok (JObj d) \<Longrightarrow> json_ok (JObj loaded) \<Longrightarrow> json_ok (JObj (deep_merge d loaded))"
proof (induction d loaded rule: deep_merge.induct)
  case (2 result k v loaded)
  have v: "json_ok v" and rest: "json_ok (JObj loaded)" using "2.prems" by auto
  have "json_ok (merge_value (dict_get result k) v)"
  proof (cases "is_obj v \<and> is_obj (dict_get result k)")
    case True
    then obtain l d where ld: "v = JObj l" "dict_get result k = JObj d" by (auto elim!: is_objE)
    with "2.IH"(1) [OF ld] v json_ok_dict_get [OF "2.prems"(1), of k] show ?thesis by (simp add: merge_value_def)
  next
    case False
    with v show ?thesis by (auto simp: merge_value_def is_obj_def split: json.splits)
  qed
  then show ?case
    unfolding deep_merge_Cons
    using "2.IH"(2) "2.prems"(1) rest by (auto simp: merge_value_def intro: json_ok_update simp del: json_ok.simps)
qed simp

subsection \<open>Opening and saving\<close>

lemma schema_of_defaults: "dict_get (default_settings platform) (asc ''schema_version'') = JInt 8"
  by (simp add: default_settings_def DEFAULT_SETTINGS_def dict_get_def PAUSE_DELAY_DEFAULT_SCHEMA_VERSION_def asc_def)

lemma json_ok_shipped: "json_ok (JObj DEFAULT_SETTINGS)"
  by (simp add: DEFAULT_SETTINGS_def asc_def HOTKEY_SELECTION_LAYOUT_def HOTKEY_SELECTION_CASE_def
      HOTKEY_SELECTION_TRANSLITERATE_def)

lemma json_ok_defaults: "json_ok (JObj (default_settings platform))"
proof -
  have "json_ok (JObj (dict_update d MACOS_SELECTION_HOTKEY_DEFAULTS))" if "json_ok (JObj d)" for d
    using that by (simp add: dict_update_def MACOS_SELECTION_HOTKEY_DEFAULTS_def json_ok_update del: json_ok.simps(1))
  moreover have "json_ok (dict_get DEFAULT_SETTINGS (asc ''hotkeys''))" using json_ok_shipped by simp
  ultimately show ?thesis
    unfolding default_settings_def
    using json_ok_shipped by (cases "dict_get DEFAULT_SETTINGS (asc ''hotkeys'')") (auto simp: json_ok_update simp del: json_ok.simps(1))
qed

text \<open>Data whose schema version asks for no adoption.\<close>

definition settled :: "(ustr \<times> json) list \<Rightarrow> bool" where
  "settled dat \<longleftrightarrow> (case dict_get dat (asc ''schema_version'') of JInt n \<Rightarrow> 8 \<le> n | _ \<Rightarrow> True)"

lemma adopt_settled: "settled loaded \<Longrightarrow> adopt_new_defaults loaded dat = dat"
  by (auto simp: settled_def adopt_new_defaults_def PAUSE_DELAY_DEFAULT_SCHEMA_VERSION_def split: json.splits)

lemma settled_adopted:
  assumes "distinct (map fst loaded)" and "settled d"
  shows "settled (adopt_new_defaults loaded (deep_merge d loaded))"
proof (cases "settled loaded")
  case True
  let ?v = "asc ''schema_version''"
  have merged: "dict_get (deep_merge d loaded) ?v =
      (if map_of loaded ?v = None then dict_get d ?v else merge_value (dict_get d ?v) (dict_get loaded ?v))"
    using assms(1) by (auto simp: dict_get_def map_of_deep_merge)
  show ?thesis
    unfolding adopt_settled [OF True] settled_def merged
    using True assms(2) by (cases "dict_get loaded ?v") (auto simp: settled_def merge_value_def split: json.splits)
next
  case False
  then obtain n where "dict_get loaded (asc ''schema_version'') = JInt n" "n < 8"
    by (auto simp: settled_def split: json.splits)
  then show ?thesis
    using schema_of_defaults [of "''linux''"]
    by (simp add: adopt_new_defaults_def settled_def PAUSE_DELAY_DEFAULT_SCHEMA_VERSION_def Let_def default_settings_def
        DEFAULT_SETTINGS_def dict_get_def [of "_ # _"])
qed

lemma json_ok_section: "json_ok (JObj d) \<Longrightarrow> dict_get d k = JObj e \<Longrightarrow> json_ok (JObj e)"
  using json_ok_dict_get [of d k] by (simp del: json_ok.simps)

lemma json_ok_adopt: "json_ok (JObj dat) \<Longrightarrow> json_ok (JObj (adopt_new_defaults loaded dat))"
  using json_ok_dict_get [OF json_ok_shipped, of "asc ''schema_version''"]
  by (auto simp: adopt_new_defaults_def Let_def simp del: json_ok.simps(1) split: json.splits
      intro!: json_ok_update elim: json_ok_section)

definition file_ok :: "file_state \<Rightarrow> bool" where
  "file_ok file \<longleftrightarrow> (case file of Holds v \<Rightarrow> json_ok v | _ \<Rightarrow> True)"

lemma open_settings_data:
  "cfg_data (open_settings platform m file) =
     (case file of Holds (JObj loaded) \<Rightarrow> adopt_new_defaults loaded (deep_merge (default_settings platform) loaded)
      | _ \<Rightarrow> default_settings platform)"
  by (auto simp: open_settings_def load_settings_def split: file_state.splits json.splits)

lemma open_settings_file:
  "cfg_file (open_settings platform m file) =
     (case file of Holds (JObj loaded) \<Rightarrow> file | No_File \<Rightarrow> No_File | _ \<Rightarrow> if m then No_File else file)"
  by (auto simp: open_settings_def load_settings_def split: file_state.splits json.splits)

lemma open_settings_again:
  "cfg_data (open_settings platform m' (cfg_file (open_settings platform m file))) = cfg_data (open_settings platform m file)"
  by (auto simp: open_settings_data open_settings_file split: file_state.splits json.splits)

lemma open_settings_ok:
  assumes "file_ok file"
  shows "json_ok (JObj (cfg_data (open_settings platform m file)))" and "settled (cfg_data (open_settings platform m file))"
proof -
  have d: "settled (default_settings platform)" by (simp add: settled_def schema_of_defaults)
  show "json_ok (JObj (cfg_data (open_settings platform m file)))"
    using assms json_ok_defaults
    by (auto simp: open_settings_data file_ok_def json_ok_adopt json_ok_merge simp del: json_ok.simps(1) split: file_state.splits json.splits)
  show "settled (cfg_data (open_settings platform m file))"
    using assms d settled_adopted [OF _ d] by (auto simp: open_settings_data file_ok_def split: file_state.splits json.splits)
qed

lemma settled_path_set: "hd parts \<noteq> asc ''schema_version'' \<Longrightarrow> settled d \<Longrightarrow> settled (fst (path_set d parts v))"
proof (cases parts)
  case (Cons part rest)
  assume "hd parts \<noteq> asc ''schema_version''" "settled d"
  with Cons show ?thesis by (cases "rest = []") (simp_all add: settled_def path_set_Cons)
qed simp

lemma path_parts_nonempty [simp]: "path_parts p \<noteq> []"
  by (simp add: path_parts_def)

text \<open>The paths an old file may adopt.\<close>

definition adopted_paths :: "ustr list list" where
  "adopted_paths = [[asc ''schema_version''], [asc ''detection'', asc ''early_switch''],
     [asc ''detection'', asc ''pause_delay_seconds'']]"

lemma adopt_frame:
  assumes "list_all (\<lambda>p. apart p parts) adopted_paths"
  shows "path_get (JObj (adopt_new_defaults loaded dat)) parts = path_get (JObj dat) parts"
proof -
  obtain p ps where parts: "parts = p # ps" using assms by (cases parts) (auto simp: adopted_paths_def)
  show ?thesis
  proof (cases "p = asc ''detection''")
    case True
    with assms parts obtain q qs where qs: "ps = q # qs" "q \<noteq> asc ''early_switch''" "q \<noteq> asc ''pause_delay_seconds''"
      by (cases ps) (auto simp: adopted_paths_def)
    have "asc ''detection'' \<noteq> asc ''schema_version''" by (simp add: asc_def)
    with qs show ?thesis
      by (auto simp: parts True adopt_new_defaults_def Let_def update_conv' dict_get_obj split: json.splits)
  next
    case False
    moreover have "p \<noteq> asc ''schema_version''" using assms parts by (auto simp: adopted_paths_def)
    ultimately show ?thesis
      by (auto simp: parts adopt_new_defaults_def Let_def update_conv' split: json.splits)
  qed
qed

text \<open>Opening a settings file: a setting that is no section has the value the file gives it; where the
  file has no entry on its way it has the shipped default of the platform, and where the file has something else
  in the way it has no value. Only the schema version and the two settings whose defaults changed may differ.\<close>

theorem open_settings_layers:
  assumes "json_ok (JObj loaded)" and "\<not> is_obj v" and "list_all (\<lambda>p. apart p parts) adopted_paths"
  shows "path_get (JObj (cfg_data (open_settings platform m (Holds (JObj loaded))))) parts = Some v \<longleftrightarrow>
    path_get (JObj loaded) parts = Some v
    \<or> silent (JObj loaded) parts \<and> path_get (JObj (default_settings platform)) parts = Some v"
  using path_get_merge [OF assms(1,2)] by (simp add: open_settings_data adopt_frame [OF assms(3)])

theorem open_settings_layers_witness:
  "path_get (JObj (cfg_data (open_settings ''linux'' True
       (Holds (JObj [(asc ''history'', JObj [(asc ''limit'', JInt 50)])]))))) [asc ''history'', asc ''limit''] = Some (JInt 50)"
  using open_settings_layers [of "[(asc ''history'', JObj [(asc ''limit'', JInt 50)])]" "JInt 50"
      "[asc ''history'', asc ''limit'']" "''linux''" True]
  by (simp add: adopted_paths_def asc_def)

text \<open>C30: A setting changed and saved survives a restart: the store opened on the file then written has the new
  value (or the stored one Python finds equal to it), and every other setting off its path that is no section
  has the value it had before.\<close>

theorem set_survives_restart:
  assumes "file_ok file" and "json_ok v" and "\<not> is_obj v" and "v \<noteq> JNull"
    and "hd (path_parts p) \<noteq> asc ''schema_version''"
    and "set_setting True True p v (open_settings platform m file) = (Inr (), st)"
  shows "(let found = get_setting (open_settings platform m' (cfg_file st)) p JNull in found = v \<or> py_eq found v)
    \<and> (apart (path_parts p) q \<and> path_get (JObj (cfg_data (open_settings platform m file))) q = Some x \<and> \<not> is_obj x \<longrightarrow>
        path_get (JObj (cfg_data (open_settings platform m' (cfg_file st)))) q = Some x)"
proof -
  let ?before = "cfg_data (open_settings platform m file)" and ?parts = "path_parts p"
  let ?again = "cfg_data (open_settings platform m' (cfg_file st))"
  define d where "d = fst (path_set ?before ?parts v)"
  note ok = open_settings_ok [OF assms(1), of platform m]
  have keeps: "path_get (JObj ?again) parts = Some w" if "path_get (JObj d) parts = Some w" "\<not> is_obj w" for parts w
  proof (cases "snd (path_set ?before ?parts v)")
    case True
    have "settled d" "json_ok (JObj d)"
      using settled_path_set [OF assms(5) ok(2)] json_ok_path_set [OF ok(1) assms(2)] by (simp_all add: d_def)
    moreover have "cfg_file st = Holds (JObj d)"
      using assms(6) True by (auto simp: set_setting_def save_settings_def notify_def d_def split: prod.splits)
    ultimately show ?thesis
      using that path_get_merge [of d w "default_settings platform" parts] by (simp add: open_settings_data adopt_settled)
  next
    case False
    then have "d = ?before" using path_set_unchanged assms(4) by (simp add: d_def)
    moreover have "cfg_file st = cfg_file (open_settings platform m file)"
      using assms(6) False by (auto simp: set_setting_def split: prod.splits)
    ultimately show ?thesis using that by (simp add: open_settings_again)
  qed
  obtain w where w: "path_get (JObj d) ?parts = Some w" "w = v \<or> py_eq w v"
    using path_set_get [of ?parts v ?before] assms(4) by (auto simp: d_def split: if_splits)
  have "\<not> is_obj w" using w(2) assms(3) by (cases w; cases v) (auto simp: is_obj_def)
  from keeps [OF w(1) this] w(2) have "let found = get_setting (open_settings platform m' (cfg_file st)) p JNull in found = v \<or> py_eq found v"
    by (simp add: get_setting_def)
  moreover have "apart ?parts q \<and> path_get (JObj ?before) q = Some x \<and> \<not> is_obj x \<longrightarrow> path_get (JObj ?again) q = Some x"
    using keeps path_set_frame [of ?parts q ?before v] by (simp add: d_def)
  ultimately show ?thesis by blast
qed

lemma set_setting_saves: "fst (set_setting True persist p v st) = Inr ()"
  by (auto simp: set_setting_def save_settings_def Let_def split: prod.splits sum.splits)

lemma py_eq_str: "py_eq w (JStr s) \<Longrightarrow> w = JStr s"
  by (cases w) (auto simp: num_value_def)

theorem set_survives_restart_witness:
  "let dark = JStr (asc ''dark'');
       after_set = snd (set_setting True True (asc ''appearance.theme'') dark (open_settings ''linux'' True Not_Json))
   in get_setting (open_settings ''linux'' True (cfg_file after_set)) (asc ''appearance.theme'') JNull = dark"
proof -
  let ?st = "snd (set_setting True True (asc ''appearance.theme'') (JStr (asc ''dark'')) (open_settings ''linux'' True Not_Json))"
  have set: "set_setting True True (asc ''appearance.theme'') (JStr (asc ''dark'')) (open_settings ''linux'' True Not_Json) = (Inr (), ?st)"
    using set_setting_saves [of True "asc ''appearance.theme''"] by (metis prod.collapse)
  have "hd (path_parts (asc ''appearance.theme'')) \<noteq> asc ''schema_version''" by (simp add: path_parts_def asc_def)
  from set_survives_restart [OF _ _ _ _ this set, of True] show ?thesis
    by (auto simp: file_ok_def Let_def dest: py_eq_str)
qed

end
