(* ===== verification/Language_Model.thy ===== *)
theory Language_Model
  imports Py_Text "HOL-Library.List_Lexorder" "HOL-Library.Product_Lexorder"
begin

text \<open>
  \<open>src/keyswitch/language_model.py\<close> and the word check of \<open>spellcheck.py\<close>: a frequency lexicon with
  Hunspell morphology and smoothed character n-grams, and the score it gives a word. Floats are read as the
  reals they stand for; the caches return what the functions they wrap return, so they leave no trace. The
  Hunspell library is a parameter: the answer of \<open>Hunspell_spell\<close> for a word the dictionary's encoding has.
  The counts of a lexicon are integers, as the file may hold any; \<open>lexicon_ok\<close> is what the shipped ones satisfy.
\<close>

subsection \<open>Constants\<close>

definition SYNTHETIC_FREQUENCY_FLOOR :: int where "SYNTHETIC_FREQUENCY_FLOOR = 1000"
definition SYNTHETIC_FREQUENCY_DIVISOR :: int where "SYNTHETIC_FREQUENCY_DIVISOR = 20"
definition LANGUAGE_MODEL_NGRAM_ORDERS :: "nat list" where "LANGUAGE_MODEL_NGRAM_ORDERS = [2, 3, 4]"
definition LANGUAGE_MODEL_TRIGRAM_ORDER :: nat where "LANGUAGE_MODEL_TRIGRAM_ORDER = 3"
definition LANGUAGE_MODEL_MIN_WORD_CHARACTERS :: nat where "LANGUAGE_MODEL_MIN_WORD_CHARACTERS = 2"
definition LANGUAGE_MODEL_CALIBRATION_WORD_LIMIT :: nat where "LANGUAGE_MODEL_CALIBRATION_WORD_LIMIT = 12000"
definition LANGUAGE_MODEL_CALIBRATION_MIN_CHARACTERS :: nat where "LANGUAGE_MODEL_CALIBRATION_MIN_CHARACTERS = 3"
definition LANGUAGE_MODEL_DEFAULT_NGRAM_MEAN :: real where "LANGUAGE_MODEL_DEFAULT_NGRAM_MEAN = -10"
definition LANGUAGE_MODEL_MIN_NGRAM_DEVIATION :: real where "LANGUAGE_MODEL_MIN_NGRAM_DEVIATION = 5 / 100"
definition LANGUAGE_MODEL_MAX_GRAM_WEIGHT :: int where "LANGUAGE_MODEL_MAX_GRAM_WEIGHT = 32"
definition LANGUAGE_MODEL_GRAM_SMOOTHING :: real where "LANGUAGE_MODEL_GRAM_SMOOTHING = 2 / 10"
definition LANGUAGE_MODEL_UNSEEN_GRAM_VOCABULARY :: nat where "LANGUAGE_MODEL_UNSEEN_GRAM_VOCABULARY = 2048"
definition LANGUAGE_MODEL_EMPTY_TOKEN_SCORE :: real where "LANGUAGE_MODEL_EMPTY_TOKEN_SCORE = -30"
definition LANGUAGE_MODEL_NATURALNESS_MIN :: real where "LANGUAGE_MODEL_NATURALNESS_MIN = -15"
definition LANGUAGE_MODEL_NATURALNESS_MAX :: real where "LANGUAGE_MODEL_NATURALNESS_MAX = 4"
definition LANGUAGE_MODEL_KNOWN_WORD_NATURALNESS_FLOOR :: real where "LANGUAGE_MODEL_KNOWN_WORD_NATURALNESS_FLOOR = -4"
definition LANGUAGE_MODEL_EXACT_WORD_BASE_SCORE :: real where "LANGUAGE_MODEL_EXACT_WORD_BASE_SCORE = 7"
definition LANGUAGE_MODEL_POPULARITY_WEIGHT :: real where "LANGUAGE_MODEL_POPULARITY_WEIGHT = 3"
definition LANGUAGE_MODEL_SPELL_KNOWN_SCORE :: real where "LANGUAGE_MODEL_SPELL_KNOWN_SCORE = 65 / 10"
definition LANGUAGE_MODEL_NATURALNESS_WEIGHT :: real where "LANGUAGE_MODEL_NATURALNESS_WEIGHT = 115 / 100"
definition LANGUAGE_MODEL_INVALID_RATIO_WEIGHT :: real where "LANGUAGE_MODEL_INVALID_RATIO_WEIGHT = 75 / 100"
definition LANGUAGE_MODEL_DELETION_MIN_CHARACTERS :: nat where "LANGUAGE_MODEL_DELETION_MIN_CHARACTERS = 4"
definition LANGUAGE_MODEL_DELETION_POSITIONS :: nat where "LANGUAGE_MODEL_DELETION_POSITIONS = 12"
definition HUNSPELL_MAX_CHECK_CHARACTERS :: nat where "HUNSPELL_MAX_CHECK_CHARACTERS = 128"

text \<open>The built-in words of the two languages, in the order of the source.\<close>

definition LOCALE_FALLBACKS :: "string \<Rightarrow> ustr list" where
  "LOCALE_FALLBACKS locale =
    (if locale = ''en_US'' then map asc
      [
       ''hello'', ''world'', ''please'', ''thanks'', ''thank'', ''good'', ''morning'', ''evening'', ''today'',
       ''tomorrow'', ''keyboard'', ''layout'', ''switch'', ''application'', ''program'', ''settings'',
       ''language'', ''english'', ''test'', ''text'', ''word'', ''ubuntu'', ''computer'', ''message'',
       ''correct'', ''wrong'', ''github'', ''docker'', ''linux'', ''python'', ''terminal'', ''browser'',
       ''email'']
     else if locale = ''ru_RU'' then
      [[0x43F, 0x440, 0x438, 0x432, 0x435, 0x442],
       [0x43F, 0x43E, 0x43A, 0x430],
       [0x441, 0x43F, 0x430, 0x441, 0x438, 0x431, 0x43E],
       [0x43F, 0x43E, 0x436, 0x430, 0x43B, 0x443, 0x439, 0x441, 0x442, 0x430],
       [0x445, 0x43E, 0x440, 0x43E, 0x448, 0x43E],
       [0x437, 0x434, 0x440, 0x430, 0x432, 0x441, 0x442, 0x432, 0x443, 0x439, 0x442, 0x435],
       [0x441, 0x435, 0x433, 0x43E, 0x434, 0x43D, 0x44F],
       [0x437, 0x430, 0x432, 0x442, 0x440, 0x430],
       [0x43A, 0x43B, 0x430, 0x432, 0x438, 0x430, 0x442, 0x443, 0x440, 0x430],
       [0x440, 0x430, 0x441, 0x43A, 0x43B, 0x430, 0x434, 0x43A, 0x430],
       [0x43F, 0x435, 0x440, 0x435, 0x43A, 0x43B, 0x44E, 0x447, 0x438, 0x442, 0x44C],
       [0x43F, 0x440, 0x438, 0x43B, 0x43E, 0x436, 0x435, 0x43D, 0x438, 0x435],
       [0x43F, 0x440, 0x43E, 0x433, 0x440, 0x430, 0x43C, 0x43C, 0x430],
       [0x43D, 0x430, 0x441, 0x442, 0x440, 0x43E, 0x439, 0x43A, 0x438],
       [0x44F, 0x437, 0x44B, 0x43A],
       [0x440, 0x443, 0x441, 0x441, 0x43A, 0x438, 0x439],
       [0x442, 0x435, 0x441, 0x442],
       [0x442, 0x435, 0x43A, 0x441, 0x442],
       [0x441, 0x43B, 0x43E, 0x432, 0x43E],
       [0x443, 0x431, 0x443, 0x43D, 0x442, 0x443],
       [0x43A, 0x43E, 0x43C, 0x43F, 0x44C, 0x44E, 0x442, 0x435, 0x440],
       [0x441, 0x43E, 0x43E, 0x431, 0x449, 0x435, 0x43D, 0x438, 0x435],
       [0x438, 0x441, 0x43F, 0x440, 0x430, 0x432, 0x438, 0x442, 0x44C],
       [0x43E, 0x448, 0x438, 0x431, 0x43A, 0x430],
       [0x440, 0x430, 0x431, 0x43E, 0x442, 0x430, 0x435, 0x442],
       [0x440, 0x430, 0x431, 0x43E, 0x442, 0x430],
       [0x43C, 0x43E, 0x436, 0x43D, 0x43E],
       [0x43D, 0x443, 0x436, 0x43D, 0x43E],
       [0x43A, 0x43E, 0x433, 0x434, 0x430],
       [0x431, 0x443, 0x434, 0x435, 0x442],
       [0x43E, 0x447, 0x435, 0x43D, 0x44C],
       [0x44D, 0x442, 0x43E, 0x442],
       [0x44D, 0x442, 0x430],
       [0x44D, 0x442, 0x43E],
       [0x43C, 0x43E, 0x439],
       [0x43C, 0x43E, 0x44F],
       [0x434, 0x43B, 0x44F],
       [0x43A, 0x430, 0x43A],
       [0x447, 0x442, 0x43E]]
     else [])"

subsection \<open>Words and their grams\<close>

definition word_sign :: "uchar \<Rightarrow> bool" where
  "word_sign c \<longleftrightarrow> c = 0x27 \<or> c = 0x2D"

definition normalize_word :: "ustr \<Rightarrow> ustr" where
  "normalize_word word = filter (\<lambda>c. isalpha_ch c \<or> word_sign c) (casefold word)"

definition padded :: "ustr \<Rightarrow> ustr" where
  "padded word = [0x5E] @ word @ [0x24]"

definition grams_of :: "nat \<Rightarrow> ustr \<Rightarrow> ustr list" where
  "grams_of order text = map (\<lambda>i. take order (drop i text)) [0..<length text + 1 - order]"

text \<open>A \<open>Counter\<close>: \<open>counter[k] += w\<close> and \<open>counter.get(k, 0)\<close>.\<close>

definition count_of :: "('a, int) odict \<Rightarrow> 'a \<Rightarrow> int" where
  "count_of counter k = (case map_of counter k of None \<Rightarrow> 0 | Some n \<Rightarrow> n)"

definition count_up :: "'a \<Rightarrow> int \<Rightarrow> ('a, int) odict \<Rightarrow> ('a, int) odict" where
  "count_up k n counter = AList.update k (count_of counter k + n) counter"

definition gram_weight :: "int \<Rightarrow> int" where
  "gram_weight frequency =
     max 1 (min LANGUAGE_MODEL_MAX_GRAM_WEIGHT (\<lfloor>log 2 (real_of_int (max 1 frequency))\<rfloor> + 1))"

definition build_gram_counts :: "(ustr, int) odict \<Rightarrow> nat \<Rightarrow> (ustr, int) odict" where
  "build_gram_counts frequencies order =
     fold (\<lambda>(word, frequency) counter.
         if length word < LANGUAGE_MODEL_MIN_WORD_CHARACTERS \<or> \<not> isalpha word then counter
         else fold (\<lambda>gram. count_up gram (gram_weight frequency)) (grams_of order (padded word)) counter)
       frequencies []"

subsection \<open>The model\<close>

record language_model =
  lm_frequencies :: "(ustr, int) odict"
  lm_bigrams :: "(ustr \<times> ustr, int) odict"
  lm_maximum :: int
  lm_maximum_bigram :: int
  lm_speller :: "ustr \<Rightarrow> bool"
  lm_gram_counts :: "nat \<Rightarrow> (ustr, int) odict"
  lm_gram_totals :: "nat \<Rightarrow> int"
  lm_ngram_mean :: real
  lm_ngram_deviation :: real

definition max_value :: "('a, int) odict \<Rightarrow> int" where
  "max_value d = (if d = [] then 1 else Max (set (map snd d)))"

definition fmean :: "real list \<Rightarrow> real" where
  "fmean xs = sum_list xs / real (length xs)"

definition pstdev :: "real list \<Rightarrow> real" where
  "pstdev xs = sqrt (fmean (map (\<lambda>x. (x - fmean xs)\<^sup>2) xs))"

definition order_score :: "(ustr, int) odict \<Rightarrow> int \<Rightarrow> ustr list \<Rightarrow> real" where
  "order_score counter gram_total grams =
     (let vocabulary = real (length counter + LANGUAGE_MODEL_UNSEEN_GRAM_VOCABULARY); alpha = LANGUAGE_MODEL_GRAM_SMOOTHING
      in sum_list (map (\<lambda>gram. ln ((real_of_int (count_of counter gram) + alpha) / (real_of_int gram_total + alpha * vocabulary))) grams)
         / real (length grams))"

definition raw_ngram_score :: "(nat \<Rightarrow> (ustr, int) odict) \<Rightarrow> (nat \<Rightarrow> int) \<Rightarrow> ustr \<Rightarrow> real" where
  "raw_ngram_score gram_counts totals word =
     (let normalized = normalize_word word;
          order_scores = List.map_filter (\<lambda>order.
            let grams = grams_of order (padded normalized)
            in if grams = [] then None else Some (order_score (gram_counts order) (totals order) grams))
            LANGUAGE_MODEL_NGRAM_ORDERS
      in if normalized = [] then LANGUAGE_MODEL_EMPTY_TOKEN_SCORE
         else if order_scores \<noteq> [] then fmean order_scores else LANGUAGE_MODEL_EMPTY_TOKEN_SCORE)"

definition calibration_words :: "(ustr, int) odict \<Rightarrow> ustr list" where
  "calibration_words frequencies =
     filter (\<lambda>word. LANGUAGE_MODEL_CALIBRATION_MIN_CHARACTERS \<le> length word \<and> isalpha word)
       (map fst (take LANGUAGE_MODEL_CALIBRATION_WORD_LIMIT (sort_key (\<lambda>(word, frequency). (- frequency, word)) frequencies)))"

definition new_language_model ::
  "(ustr, int) odict \<Rightarrow> (ustr \<times> ustr, int) odict \<Rightarrow> (ustr \<Rightarrow> bool) \<Rightarrow> language_model" where
  "new_language_model frequencies bigrams speller =
     (let counts = build_gram_counts frequencies;
          totals = (\<lambda>order. sum_list (map snd (counts order)));
          calibration = map (raw_ngram_score counts totals) (calibration_words frequencies);
          deviation = (if 1 < length calibration then pstdev calibration else 1)
      in \<lparr>lm_frequencies = frequencies, lm_bigrams = bigrams, lm_maximum = max_value frequencies,
          lm_maximum_bigram = max_value bigrams, lm_speller = speller, lm_gram_counts = counts, lm_gram_totals = totals,
          lm_ngram_mean = (if calibration = [] then LANGUAGE_MODEL_DEFAULT_NGRAM_MEAN else fmean calibration),
          lm_ngram_deviation = (if deviation < LANGUAGE_MODEL_MIN_NGRAM_DEVIATION then 1 else deviation)\<rparr>)"

text \<open>\<open>HunspellDictionary.check\<close>: \<open>spell\<close> is the library's answer, absent without a dictionary; it has none
  for a word the encoding cannot write.\<close>

definition spell_check :: "(ustr \<Rightarrow> bool option) option \<Rightarrow> ustr \<Rightarrow> bool" where
  "spell_check handle word =
     (let normalized = strip word
      in case handle of None \<Rightarrow> False
       | Some spell \<Rightarrow>
           if normalized = [] \<or> HUNSPELL_MAX_CHECK_CHARACTERS < length normalized then False
           else case spell normalized of None \<Rightarrow> False | Some found \<Rightarrow> found)"

definition ngram_score_of :: "language_model \<Rightarrow> ustr \<Rightarrow> real" where
  "ngram_score_of m word =
     (raw_ngram_score (lm_gram_counts m) (lm_gram_totals m) word - lm_ngram_mean m) / lm_ngram_deviation m"

definition context_score_of :: "language_model \<Rightarrow> ustr \<Rightarrow> ustr \<Rightarrow> real" where
  "context_score_of m previous word =
     (let frequency = count_of (lm_bigrams m) (normalize_word previous, normalize_word word)
      in if frequency = 0 then 0 else ln (1 + real_of_int frequency) / ln (1 + real_of_int (lm_maximum_bigram m)))"

subsection \<open>The score of a word\<close>

record word_score =
  sc_value :: real
  sc_known :: bool
  sc_frequency :: int
  sc_gram_ratio :: real
  sc_exact :: bool
  sc_spell_known :: bool
  sc_ngram_score :: real
  sc_invalid_ratio :: real
  sc_raw_ngram_score :: real

definition empty_score :: word_score where
  "empty_score =
     \<lparr>sc_value = LANGUAGE_MODEL_EMPTY_TOKEN_SCORE, sc_known = False, sc_frequency = 0, sc_gram_ratio = 0, sc_exact = False,
      sc_spell_known = False, sc_ngram_score = LANGUAGE_MODEL_NATURALNESS_MIN, sc_invalid_ratio = 1,
      sc_raw_ngram_score = LANGUAGE_MODEL_NATURALNESS_MIN\<rparr>"

definition score_of :: "language_model \<Rightarrow> ustr \<Rightarrow> word_score" where
  "score_of m word =
     (let normalized = normalize_word word
      in if normalized = [] then empty_score
         else
           let lexical_eligible = list_all (\<lambda>c. isalpha_ch c \<or> word_sign c) word;
               frequency = (if lexical_eligible then count_of (lm_frequencies m) normalized else 0);
               exact = (frequency \<noteq> 0);
               spell_known = (lexical_eligible \<and> isalpha normalized \<and> lm_speller m normalized);
               known = (exact \<or> spell_known);
               trigrams = grams_of LANGUAGE_MODEL_TRIGRAM_ORDER (padded normalized);
               hits = length (filter (\<lambda>gram. map_of (lm_gram_counts m LANGUAGE_MODEL_TRIGRAM_ORDER) gram \<noteq> None) trigrams);
               ratio = (if trigrams = [] then 0 else real hits / real (length trigrams));
               invalid_ratio = 1 - ratio;
               raw_naturalness = max LANGUAGE_MODEL_NATURALNESS_MIN
                 (min LANGUAGE_MODEL_NATURALNESS_MAX (ngram_score_of m normalized));
               lexical =
                 (if exact
                  then LANGUAGE_MODEL_EXACT_WORD_BASE_SCORE
                    + LANGUAGE_MODEL_POPULARITY_WEIGHT * (ln (1 + real_of_int frequency) / ln (1 + real_of_int (lm_maximum m)))
                  else if spell_known then LANGUAGE_MODEL_SPELL_KNOWN_SCORE else 0);
               naturalness = (if known then max raw_naturalness LANGUAGE_MODEL_KNOWN_WORD_NATURALNESS_FLOOR else raw_naturalness)
           in \<lparr>sc_value = lexical + LANGUAGE_MODEL_NATURALNESS_WEIGHT * naturalness
                 - LANGUAGE_MODEL_INVALID_RATIO_WEIGHT * invalid_ratio,
               sc_known = known, sc_frequency = frequency, sc_gram_ratio = ratio, sc_exact = exact,
               sc_spell_known = spell_known, sc_ngram_score = naturalness, sc_invalid_ratio = invalid_ratio,
               sc_raw_ngram_score = raw_naturalness\<rparr>)"

text \<open>
  \<open>best_single_deletion\<close> with its default limit: every place of a short word, twelve evenly spaced places of a
  longer one. \<open>round\<close> meets no tie here, since twice an integer over eleven is never an odd half.
\<close>

definition deletion_places :: "nat \<Rightarrow> nat list" where
  "deletion_places n =
     (if LANGUAGE_MODEL_DELETION_POSITIONS < n
      then sort (remdups (map (\<lambda>i. (2 * (i * (n - 1)) + (LANGUAGE_MODEL_DELETION_POSITIONS - 1))
              div (2 * (LANGUAGE_MODEL_DELETION_POSITIONS - 1))) [0..<LANGUAGE_MODEL_DELETION_POSITIONS]))
      else [0..<n])"

definition drop_place :: "ustr \<Rightarrow> nat \<Rightarrow> ustr" where
  "drop_place word i = take i word @ drop (i + 1) word"

definition best_single_deletion_of :: "(ustr \<Rightarrow> word_score) \<Rightarrow> ustr \<Rightarrow> word_score" where
  "best_single_deletion_of score word =
     (if length word < LANGUAGE_MODEL_DELETION_MIN_CHARACTERS then score []
      else case max_by sc_value (map (\<lambda>i. score (drop_place word i)) (deletion_places (length word))) of
        None \<Rightarrow> score [] | Some s \<Rightarrow> s)"

subsection \<open>Reading a model file\<close>

text \<open>One line of \<open>_read_arpa\<close>: the section and the two dictionaries so far.\<close>

definition arpa_line ::
  "ustr \<Rightarrow> nat \<times> (ustr, int) odict \<times> (ustr \<times> ustr, int) odict \<Rightarrow> nat \<times> (ustr, int) odict \<times> (ustr \<times> ustr, int) odict" where
  "arpa_line line state =
     (let (section, unigrams, bigrams) = state
      in if line = asc (CHR 0x5C # ''1-grams:'') then (1, unigrams, bigrams)
         else if line = asc (CHR 0x5C # ''2-grams:'') then (2, unigrams, bigrams)
         else if starts_with line (asc [CHR 0x5C]) then (0, unigrams, bigrams)
         else if section = 0 \<or> line = [] then state
         else
           let (count_text, separator, payload) = partition_at 0x20 line
           in if \<not> separator \<or> starts_with payload (asc ''<'') then state
              else case py_int count_text of
                None \<Rightarrow> state
              | Some count \<Rightarrow>
                  if section = 1 then
                    let token = normalize_word payload
                    in if LANGUAGE_MODEL_MIN_WORD_CHARACTERS \<le> length token
                       then (section, count_up token count unigrams, bigrams) else state
                  else
                    let (left, separator2, right) = partition_at 0x20 payload
                    in if \<not> separator2 then state
                       else let pair = (normalize_word left, normalize_word right)
                            in if fst pair \<noteq> [] \<and> snd pair \<noteq> []
                               then (section, unigrams, count_up pair count bigrams) else state)"

text \<open>\<open>_read_arpa\<close>: no dictionaries for a file that cannot be read.\<close>

definition read_arpa :: "ustr list option \<Rightarrow> (ustr, int) odict \<times> (ustr \<times> ustr, int) odict" where
  "read_arpa file_lines =
     (case file_lines of None \<Rightarrow> ([], [])
      | Some ls \<Rightarrow> snd (fold arpa_line ls (0, [], [])))"

text \<open>\<open>_load_cached\<close> after the file is found (or not): the built-in and extra words get at least the synthetic count.\<close>

definition synthetic_frequency :: "(ustr, int) odict \<Rightarrow> int" where
  "synthetic_frequency frequencies =
     max ((if frequencies = [] then SYNTHETIC_FREQUENCY_FLOOR else Max (set (map snd frequencies))) div SYNTHETIC_FREQUENCY_DIVISOR)
       SYNTHETIC_FREQUENCY_FLOOR"

definition add_words :: "ustr list \<Rightarrow> (ustr, int) odict \<Rightarrow> (ustr, int) odict" where
  "add_words words frequencies =
     (let synthetic = synthetic_frequency frequencies
      in fold (\<lambda>word d. let normalized = normalize_word word
           in if normalized = [] then d else AList.update normalized (max (count_of d normalized) synthetic) d) words frequencies)"

definition load_language_model ::
  "string \<Rightarrow> ustr list \<Rightarrow> ustr list option option \<Rightarrow> (ustr \<Rightarrow> bool) \<Rightarrow> language_model" where
  "load_language_model locale extra_words model_file speller =
     (let extra = sort (remdups (filter (\<lambda>w. w \<noteq> []) (map normalize_word extra_words)));
          (frequencies, bigrams) = (case model_file of None \<Rightarrow> ([], []) | Some file_lines \<Rightarrow> read_arpa file_lines)
      in new_language_model (add_words (LOCALE_FALLBACKS locale @ extra) frequencies) bigrams speller)"

subsection \<open>What a score says\<close>

definition lexicon_ok :: "(ustr, int) odict \<Rightarrow> bool" where
  "lexicon_ok frequencies \<longleftrightarrow> list_all (\<lambda>(word, frequency). 0 < frequency) frequencies"

lemma count_of_lexicon:
  assumes "lexicon_ok d"
  shows "0 \<le> count_of d k" and "count_of d k \<noteq> 0 \<Longrightarrow> 0 < count_of d k \<and> count_of d k \<le> max_value d"
proof -
  have pos: "0 < n" if "map_of d k = Some n" for n
    using that assms by (auto simp: lexicon_ok_def list_all_iff dest: map_of_SomeD)
  then show "0 \<le> count_of d k" by (force simp: count_of_def split: option.splits)
  assume "count_of d k \<noteq> 0"
  then obtain n where n: "map_of d k = Some n" "count_of d k = n" by (auto simp: count_of_def split: option.splits)
  then have "(k, n) \<in> set d" by (simp add: map_of_SomeD)
  then have "n \<in> snd ` set d" and "d \<noteq> []" by force+
  then have "n \<le> max_value d" by (simp add: max_value_def)
  with n pos show "0 < count_of d k \<and> count_of d k \<le> max_value d" by auto
qed

lemma popularity_bounds:
  fixes n m :: int
  assumes "0 < n" and "n \<le> m"
  shows "0 \<le> ln (1 + real_of_int n) / ln (1 + real_of_int m)" and "ln (1 + real_of_int n) / ln (1 + real_of_int m) \<le> 1"
proof -
  have "0 < ln (1 + real_of_int n)" "ln (1 + real_of_int n) \<le> ln (1 + real_of_int m)" using assms by simp_all
  then show "0 \<le> ln (1 + real_of_int n) / ln (1 + real_of_int m)" "ln (1 + real_of_int n) / ln (1 + real_of_int m) \<le> 1"
    by (auto simp: divide_le_eq)
qed

lemma ratio_bounds: "0 \<le> real (length (filter p xs)) / real (length xs)" "real (length (filter p xs)) / real (length xs) \<le> 1"
  by (auto simp: divide_le_eq)

text \<open>The three parts of a value, in their ranges.\<close>

lemma value_ranges:
  fixes lexical naturalness invalid :: real
  assumes "0 \<le> invalid" and "invalid \<le> 1" and "-15 \<le> naturalness" and "naturalness \<le> 4"
  defines "v \<equiv> lexical + LANGUAGE_MODEL_NATURALNESS_WEIGHT * naturalness - LANGUAGE_MODEL_INVALID_RATIO_WEIGHT * invalid"
  shows "lexical = 0 \<Longrightarrow> -18 \<le> v \<and> v \<le> 46 / 10"
    and "65 / 10 \<le> lexical \<Longrightarrow> lexical \<le> 10 \<Longrightarrow> -4 \<le> naturalness \<Longrightarrow> 115 / 100 \<le> v \<and> v \<le> 146 / 10"
  using assms(1-4) by (auto simp: v_def LANGUAGE_MODEL_NATURALNESS_WEIGHT_def LANGUAGE_MODEL_INVALID_RATIO_WEIGHT_def)

text \<open>The ranges of a score: a known word has at least 1.15, any other at most 4.6.\<close>

definition score_ok :: "word_score \<Rightarrow> bool" where
  "score_ok s \<longleftrightarrow> (sc_known s \<longleftrightarrow> sc_exact s \<or> sc_spell_known s) \<and> sc_invalid_ratio s = 1 - sc_gram_ratio s
    \<and> 0 \<le> sc_gram_ratio s \<and> sc_gram_ratio s \<le> 1 \<and> -15 \<le> sc_ngram_score s \<and> sc_ngram_score s \<le> 4
    \<and> (sc_known s \<longrightarrow> -4 \<le> sc_ngram_score s) \<and> (sc_exact s \<longleftrightarrow> 0 < sc_frequency s) \<and> 0 \<le> sc_frequency s
    \<and> (sc_known s \<longrightarrow> 115 / 100 \<le> sc_value s \<and> sc_value s \<le> 146 / 10)
    \<and> (\<not> sc_known s \<longrightarrow> -30 \<le> sc_value s \<and> sc_value s \<le> 46 / 10)"

lemma score_of_ok:
  assumes "lexicon_ok (lm_frequencies m)" and "lm_maximum m = max_value (lm_frequencies m)"
  shows "score_ok (score_of m word)"
proof (cases "normalize_word word = []")
  case True
  then show ?thesis
    by (simp add: score_ok_def score_of_def empty_score_def LANGUAGE_MODEL_EMPTY_TOKEN_SCORE_def LANGUAGE_MODEL_NATURALNESS_MIN_def)
next
  case False
  define s where "s = score_of m word"
  define exact where "exact \<longleftrightarrow> sc_exact s"
  define known where "known \<longleftrightarrow> sc_known s"
  define ratio where "ratio = sc_gram_ratio s"
  define naturalness where "naturalness = sc_ngram_score s"
  define lexical where "lexical =
    (if exact then LANGUAGE_MODEL_EXACT_WORD_BASE_SCORE
       + LANGUAGE_MODEL_POPULARITY_WEIGHT * (ln (1 + real_of_int (sc_frequency s)) / ln (1 + real_of_int (lm_maximum m)))
     else if sc_spell_known s then LANGUAGE_MODEL_SPELL_KNOWN_SCORE else 0)"
  have parts: "known \<longleftrightarrow> exact \<or> sc_spell_known s" "sc_invalid_ratio s = 1 - ratio" "exact \<longleftrightarrow> sc_frequency s \<noteq> 0"
    "sc_value s = lexical + LANGUAGE_MODEL_NATURALNESS_WEIGHT * naturalness - LANGUAGE_MODEL_INVALID_RATIO_WEIGHT * (1 - ratio)"
    using False by (simp_all add: known_def exact_def ratio_def naturalness_def lexical_def s_def score_of_def Let_def)
  have frequency: "0 \<le> sc_frequency s" "sc_frequency s \<noteq> 0 \<Longrightarrow> 0 < sc_frequency s \<and> sc_frequency s \<le> lm_maximum m"
    using False count_of_lexicon [OF assms(1)] by (auto simp: s_def score_of_def Let_def assms(2) split: if_splits)
  have ratio: "0 \<le> ratio" "ratio \<le> 1"
    using False ratio_bounds by (auto simp: ratio_def s_def score_of_def Let_def)
  have natural: "-15 \<le> naturalness" "naturalness \<le> 4" "known \<Longrightarrow> -4 \<le> naturalness"
    using False by (auto simp: naturalness_def known_def s_def score_of_def Let_def LANGUAGE_MODEL_NATURALNESS_MIN_def
        LANGUAGE_MODEL_NATURALNESS_MAX_def LANGUAGE_MODEL_KNOWN_WORD_NATURALNESS_FLOOR_def)
  have lexical: "65 / 10 \<le> lexical \<and> lexical \<le> 10" if known
  proof (cases exact)
    case True
    then have "0 < sc_frequency s" "sc_frequency s \<le> lm_maximum m" using frequency parts(3) by auto
    from popularity_bounds [OF this] True show ?thesis
      unfolding lexical_def LANGUAGE_MODEL_EXACT_WORD_BASE_SCORE_def LANGUAGE_MODEL_POPULARITY_WEIGHT_def by simp
  qed (use that parts(1) in \<open>simp add: lexical_def LANGUAGE_MODEL_SPELL_KNOWN_SCORE_def\<close>)
  have unknown: "\<not> known \<Longrightarrow> lexical = 0" using parts(1) by (simp add: lexical_def)
  have "known \<Longrightarrow> 115 / 100 \<le> sc_value s \<and> sc_value s \<le> 146 / 10" "\<not> known \<Longrightarrow> -30 \<le> sc_value s \<and> sc_value s \<le> 46 / 10"
    using value_ranges [of "1 - ratio" naturalness lexical] ratio natural lexical unknown unfolding parts(4) by auto
  with parts frequency ratio natural have "score_ok s"
    unfolding score_ok_def known_def exact_def ratio_def naturalness_def by auto
  then show ?thesis by (simp add: s_def)
qed

lemma deletion_places_long:
  assumes "LANGUAGE_MODEL_DELETION_POSITIONS < n"
  shows "set (deletion_places n) = (\<lambda>i. (2 * (i * (n - 1)) + 11) div 22) ` {..<12}"
  using assms by (simp add: deletion_places_def LANGUAGE_MODEL_DELETION_POSITIONS_def lessThan_atLeast0)

lemma deletion_places_less: "i \<in> set (deletion_places n) \<Longrightarrow> i < n"
proof (cases "LANGUAGE_MODEL_DELETION_POSITIONS < n")
  case True
  assume "i \<in> set (deletion_places n)"
  then obtain j where j: "j \<le> 11" "i = (2 * (j * (n - 1)) + 11) div 22"
    unfolding deletion_places_long [OF True] by (auto simp: less_Suc_eq_le [of _ 11, simplified])
  then have "2 * (j * (n - 1)) + 11 \<le> 22 * (n - 1) + 11" by (simp add: mult_le_mono1)
  then have "i \<le> (22 * (n - 1) + 11) div 22" unfolding j(2) by (rule div_le_mono)
  then have "i \<le> n - 1" by simp
  with True show ?thesis by simp
qed (simp add: deletion_places_def)

lemma deletion_places_nonempty: "0 < n \<Longrightarrow> deletion_places n \<noteq> []"
  by (auto simp: deletion_places_def LANGUAGE_MODEL_DELETION_POSITIONS_def simp flip: set_empty2)

text \<open>The best score after one deletion is reached by a tried place and no tried place beats it.\<close>

lemma best_single_deletion_best:
  assumes "LANGUAGE_MODEL_DELETION_MIN_CHARACTERS \<le> length word"
  shows "\<exists>i\<in>set (deletion_places (length word)). best_single_deletion_of score word = score (drop_place word i)"
    and "i \<in> set (deletion_places (length word)) \<Longrightarrow> sc_value (score (drop_place word i)) \<le> sc_value (best_single_deletion_of score word)"
proof -
  have "deletion_places (length word) \<noteq> []"
    using assms by (intro deletion_places_nonempty) (auto simp: LANGUAGE_MODEL_DELETION_MIN_CHARACTERS_def)
  then obtain s where s: "max_by sc_value (map (\<lambda>i. score (drop_place word i)) (deletion_places (length word))) = Some s"
    by (cases "max_by sc_value (map (\<lambda>i. score (drop_place word i)) (deletion_places (length word)))") auto
  then have best: "best_single_deletion_of score word = s" using assms by (simp add: best_single_deletion_of_def)
  show "\<exists>i\<in>set (deletion_places (length word)). best_single_deletion_of score word = score (drop_place word i)"
    using max_by_in [OF s] best by auto
  show "i \<in> set (deletion_places (length word)) \<Longrightarrow> sc_value (score (drop_place word i)) \<le> sc_value (best_single_deletion_of score word)"
    using max_by_ge [OF s, of "score (drop_place word i)"] best by auto
qed

lemma lexicon_ok_update: "lexicon_ok d \<Longrightarrow> 0 < n \<Longrightarrow> lexicon_ok (AList.update k n d)"
  by (induction d) (auto simp: lexicon_ok_def)

lemma lexicon_ok_add_words: "lexicon_ok d \<Longrightarrow> lexicon_ok (add_words words d)"
proof -
  have "0 < synthetic_frequency d" for d by (simp add: synthetic_frequency_def SYNTHETIC_FREQUENCY_FLOOR_def)
  then have "lexicon_ok e \<Longrightarrow> lexicon_ok (fold (\<lambda>word d. let normalized = normalize_word word
      in if normalized = [] then d else AList.update normalized (max (count_of d normalized) (synthetic_frequency d')) d) words e)" for d' e
    by (induction words arbitrary: e) (simp_all add: Let_def lexicon_ok_update less_max_iff_disj)
  then show "lexicon_ok d \<Longrightarrow> lexicon_ok (add_words words d)" by (simp add: add_words_def Let_def)
qed

text \<open>Every word has a score in range under a model loaded from counts that are positive: the word is
  known exactly when the lexicon or the speller has it, a known word has a value of at least 1.15 and a
  naturalness of at least -4, any other word at most 4.6, and the two n-gram ratios are complementary.\<close>

theorem loaded_scores_in_range:
  assumes "lexicon_ok (fst (case model_file of None \<Rightarrow> ([], []) | Some file_lines \<Rightarrow> read_arpa file_lines))"
  shows "score_ok (score_of (load_language_model locale extra_words model_file speller) word)"
proof (rule score_of_ok)
  have new: "lm_frequencies (new_language_model d b p) = d" "lm_maximum (new_language_model d b p) = max_value d" for d b p
    by (simp_all add: new_language_model_def Let_def)
  obtain ws d b where m: "load_language_model locale extra_words model_file speller = new_language_model (add_words ws d) b speller"
    and d: "(d, b) = (case model_file of None \<Rightarrow> ([], []) | Some file_lines \<Rightarrow> read_arpa file_lines)"
    by (fastforce simp: load_language_model_def Let_def split: prod.splits option.splits)
  have "lexicon_ok d" using assms unfolding d [symmetric] by simp
  then show "lexicon_ok (lm_frequencies (load_language_model locale extra_words model_file speller))"
    by (simp add: m new lexicon_ok_add_words)
  show "lm_maximum (load_language_model locale extra_words model_file speller)
      = max_value (lm_frequencies (load_language_model locale extra_words model_file speller))"
    by (simp add: m new)
qed

theorem loaded_scores_in_range_witness:
  "let m = load_language_model ''en_US'' [] None (\<lambda>_. False) in score_ok (score_of m (asc ''hello''))"
  using loaded_scores_in_range [of None "''en_US''" "[]" "\<lambda>_. False" "asc ''hello''"]
  by (simp add: lexicon_ok_def Let_def)

end
