(* ===== verification/Detector.thy ===== *)
theory Detector
  imports Language_Model
begin

text \<open>
  \<open>src/keyswitch/detector.py\<close>: the decision whether a typed word was typed in the wrong layout. The scorers
  of the layout groups are what the protocol \<open>LanguageScorer\<close> asks for, a record of the three functions the
  detector calls; \<open>model_scorer\<close> gives it for a \<open>language_model\<close>. The intent classifier is a function from its
  input to a prediction, or absent. Floats are reals. The reason of a decision is the text the code gives; it
  is a value of \<open>reason\<close> here, one for each text.
\<close>

subsection \<open>Constants\<close>

definition CONTEXT_DELTA_MULTIPLIER :: real where "CONTEXT_DELTA_MULTIPLIER = 175 / 100"
definition CONTEXT_TARGET_GROUP_BONUS :: real where "CONTEXT_TARGET_GROUP_BONUS = 55 / 100"
definition CONTEXT_SOURCE_GROUP_PENALTY :: real where "CONTEXT_SOURCE_GROUP_PENALTY = 3 / 10"
definition CONFIRMED_RULE_MIN_CONFIDENCE :: real where "CONFIRMED_RULE_MIN_CONFIDENCE = 20"
definition HEURISTIC_KNOWN_TARGET_RELIEF_START_CHARACTERS :: nat where "HEURISTIC_KNOWN_TARGET_RELIEF_START_CHARACTERS = 3"
definition HEURISTIC_KNOWN_TARGET_RELIEF_PER_CHARACTER :: real where "HEURISTIC_KNOWN_TARGET_RELIEF_PER_CHARACTER = 18 / 100"
definition HEURISTIC_KNOWN_TARGET_MIN_MARGIN :: real where "HEURISTIC_KNOWN_TARGET_MIN_MARGIN = 65 / 100"
definition HEURISTIC_SPELL_ONLY_TARGET_EXTRA_MARGIN :: real where "HEURISTIC_SPELL_ONLY_TARGET_EXTRA_MARGIN = 15 / 100"
definition HEURISTIC_TYPO_DELETION_MIN_CHARACTERS :: nat where "HEURISTIC_TYPO_DELETION_MIN_CHARACTERS = 5"
definition HEURISTIC_TYPO_DELETION_EXTRA_MARGIN :: real where "HEURISTIC_TYPO_DELETION_EXTRA_MARGIN = 5 / 10"
definition HEURISTIC_NGRAM_EXTRA_MARGIN :: real where "HEURISTIC_NGRAM_EXTRA_MARGIN = 24 / 10"
definition HEURISTIC_NGRAM_RELIEF_START_CHARACTERS :: nat where "HEURISTIC_NGRAM_RELIEF_START_CHARACTERS = 4"
definition HEURISTIC_NGRAM_RELIEF_PER_CHARACTER :: real where "HEURISTIC_NGRAM_RELIEF_PER_CHARACTER = 32 / 100"
definition HEURISTIC_NGRAM_RELIEF_CAP :: real where "HEURISTIC_NGRAM_RELIEF_CAP = 2"
definition HEURISTIC_NGRAM_AGGRESSIVE_MARGIN_REDUCTION :: real where "HEURISTIC_NGRAM_AGGRESSIVE_MARGIN_REDUCTION = 75 / 100"
definition HEURISTIC_NGRAM_MIN_EXTRA_MARGIN :: real where "HEURISTIC_NGRAM_MIN_EXTRA_MARGIN = 25 / 100"
definition HEURISTIC_UNLIKELY_SOURCE_NGRAM_MAX :: real where "HEURISTIC_UNLIKELY_SOURCE_NGRAM_MAX = - 11 / 10"
definition HEURISTIC_UNLIKELY_SOURCE_NGRAM_MAX_AGGRESSIVE :: real where "HEURISTIC_UNLIKELY_SOURCE_NGRAM_MAX_AGGRESSIVE = - 65 / 100"
definition HEURISTIC_PLAUSIBLE_TARGET_NGRAM_MIN :: real where "HEURISTIC_PLAUSIBLE_TARGET_NGRAM_MIN = - 125 / 100"
definition HEURISTIC_PLAUSIBLE_TARGET_NGRAM_MIN_AGGRESSIVE :: real where "HEURISTIC_PLAUSIBLE_TARGET_NGRAM_MIN_AGGRESSIVE = -2"
definition HEURISTIC_NGRAM_MIN_CHARACTERS :: nat where "HEURISTIC_NGRAM_MIN_CHARACTERS = 5"
definition HEURISTIC_NGRAM_MIN_CHARACTERS_AGGRESSIVE :: nat where "HEURISTIC_NGRAM_MIN_CHARACTERS_AGGRESSIVE = 4"
definition MAX_CONVERTIBLE_TOKEN_CHARACTERS :: nat where "MAX_CONVERTIBLE_TOKEN_CHARACTERS = 64"
definition ACRONYM_MIN_LETTERS :: nat where "ACRONYM_MIN_LETTERS = 2"
definition REPEATED_CHARACTER_RUN :: nat where "REPEATED_CHARACTER_RUN = 4"
definition LAYOUT_GROUP_COUNT :: nat where "LAYOUT_GROUP_COUNT = 2"
definition INTENT_MIN_RUNTIME_TOKEN_CHARACTERS :: nat where "INTENT_MIN_RUNTIME_TOKEN_CHARACTERS = 5"
definition INTENT_RAW_TOKEN_MAX_CHARACTERS :: nat where "INTENT_RAW_TOKEN_MAX_CHARACTERS = 64"

subsection \<open>Scorers, predictions and decisions\<close>

record scorer =
  score_word :: "ustr \<Rightarrow> word_score"
  score_context :: "ustr \<Rightarrow> ustr \<Rightarrow> real"
  score_deletion :: "ustr \<Rightarrow> word_score"

definition model_scorer :: "language_model \<Rightarrow> scorer" where
  "model_scorer m =
     \<lparr>score_word = score_of m, score_context = context_score_of m, score_deletion = best_single_deletion_of (score_of m)\<rparr>"

datatype trigger = Boundary_Probe | On_Pause | On_Space | On_Enter | On_Tab | On_Punctuation

record intent_input =
  in_original :: ustr
  in_alternative :: ustr
  in_source :: int
  in_target :: int
  in_trigger :: trigger
  in_source_score :: word_score
  in_target_score :: word_score
  in_context_delta :: real
  in_context_group :: "int option"

record linear_prediction =
  pr_logit :: real
  pr_probability :: real
  pr_threshold :: real
  pr_coverage :: real
  pr_should_switch :: bool
  pr_model_version :: ustr

text \<open>The reasons of \<open>decide\<close>, in the order of its returns, then those of the layers above it.\<close>

datatype reason =
    Not_Needed | No_Other_Layout | Too_Short | User_Exclusion | User_Rejection | Confirmed_Rule | Code_Or_Address
  | Both_Valid | Source_Valid | Model_Confident | Model_Unsure | Target_In_Lexicon | Target_Word_Form | Rare_Word_Form
  | Weak_Word_Form | One_Slip_Away | Ngram_Advantage | Source_Plausible | Target_Unusual | Ngram_Unsure
  | Natural_Source | Trusted_Short_Word | Short_Word_In_Context | Short_Word_At_Start | Not_A_Word
  | Model_Decides | Suggestion_Confirmed | Model_Keeps | Model_Waits | Model_Suggests | Slang_Kept | Lone_Letter_Kept
  | Pause_Word_Start | Field_Withheld | Field_Text_Changed | Keys_Unlike_Language | Stranded_Short_Word | Typed_Inside_Word
  | Early_Switch_Withdrawn | Asked_Again

record decision =
  dc_convert :: bool
  dc_original :: ustr
  dc_replacement :: ustr
  dc_source :: int
  dc_target :: int
  dc_confidence :: real
  dc_reason :: reason
  dc_source_score :: word_score
  dc_target_score :: word_score
  dc_probability :: "real option"
  dc_threshold :: "real option"
  dc_model_version :: ustr

text \<open>\<open>DetectionDecision\<close> with the last three fields left at their defaults.\<close>

definition plain_decision ::
  "bool \<Rightarrow> ustr \<Rightarrow> ustr \<Rightarrow> int \<Rightarrow> int \<Rightarrow> real \<Rightarrow> reason \<Rightarrow> word_score \<Rightarrow> word_score \<Rightarrow> decision" where
  "plain_decision convert original replacement source target confidence why source_score target_score =
     \<lparr>dc_convert = convert, dc_original = original, dc_replacement = replacement, dc_source = source, dc_target = target,
      dc_confidence = confidence, dc_reason = why, dc_source_score = source_score, dc_target_score = target_score,
      dc_probability = None, dc_threshold = None, dc_model_version = []\<rparr>"

text \<open>\<open>_prediction_fields\<close>, put into a decision.\<close>

definition with_prediction :: "linear_prediction option \<Rightarrow> decision \<Rightarrow> decision" where
  "with_prediction prediction d =
     (case prediction of None \<Rightarrow> d
      | Some p \<Rightarrow> d\<lparr>dc_probability := Some (pr_probability p), dc_threshold := Some (pr_threshold p),
          dc_model_version := pr_model_version p\<rparr>)"

record detector =
  det_models :: "int \<Rightarrow> scorer option"
  det_intent :: "(intent_input \<Rightarrow> linear_prediction) option"
  det_protected :: "ustr list"

definition new_detector ::
  "(int, scorer) odict \<Rightarrow> (intent_input \<Rightarrow> linear_prediction) option \<Rightarrow> ustr list \<Rightarrow> py_error + detector" where
  "new_detector models intent protected =
     (if length models < LAYOUT_GROUP_COUNT then Inl ValueError
      else Inr \<lparr>det_models = map_of models, det_intent = intent, det_protected = protected\<rparr>)"

text \<open>\<open>_load_protected_tokens\<close> on the lines of the resource, absent when it cannot be read.\<close>

definition load_protected_tokens :: "ustr list option \<Rightarrow> ustr list" where
  "load_protected_tokens file_lines =
     (case file_lines of None \<Rightarrow> []
      | Some ls \<Rightarrow> map (\<lambda>line. casefold (strip line))
          (filter (\<lambda>line. strip line \<noteq> [] \<and> \<not> starts_with (lstrip_chars isspace_ch line) (asc ''#'')) ls))"

text \<open>The keyword arguments of \<open>decide\<close>; the sets are lists read by membership.\<close>

record decide_options =
  minimum_length :: nat
  confidence_threshold :: real
  ignored_words :: "ustr list"
  aggressive :: bool
  protect_code :: bool
  previous_words :: "int \<Rightarrow> ustr option"
  context_group :: "int option"
  forced_target_group :: "int option"
  rejected_targets :: "int list"
  opt_trigger :: trigger
  use_intent_model :: bool

definition token_key :: "ustr \<Rightarrow> ustr" where
  "token_key token = casefold (strip token)"

datatype script = Cyrillic_Script | Latin_Script

text \<open>The script in a letter's Unicode name; the ordinal indicators and the Greek letters name none of the two.\<close>

definition script_of :: "uchar \<Rightarrow> script option" where
  "script_of c =
     (if 0x400 \<le> c \<and> c \<le> 0x52F then Some Cyrillic_Script
      else if c = 0xAA \<or> c = 0xBA \<or> c = 0xB5 \<or> c = 0x39C \<or> c = 0x3BC then None
      else Some Latin_Script)"

definition protected_token :: "ustr list \<Rightarrow> ustr \<Rightarrow> bool" where
  "protected_token protected token =
     (let lowered = casefold token; letters = filter isalpha_ch token
      in MAX_CONVERTIBLE_TOKEN_CHARACTERS < length token
         \<or> lowered \<in> set protected
         \<or> starts_with lowered (asc ''-'')
         \<or> list_ex (\<lambda>marker. occurs_in marker lowered) [asc ''http://'', asc ''https://'', asc ''www.'', asc ''@'']
         \<or> list_ex isdigit_ch token
         \<or> list_ex (\<lambda>c. c \<in> {0x5F, 0x2F, 0x5C, 0x3D, 0x3A}) token
         \<or> ACRONYM_MIN_LETTERS \<le> length letters \<and> list_all isupper_ch letters
         \<or> list_ex isupper_ch (drop 1 letters)
         \<or> list_ex (\<lambda>i. take REPEATED_CHARACTER_RUN (drop i lowered) = replicate REPEATED_CHARACTER_RUN (lowered ! i))
             [0..<length lowered - (REPEATED_CHARACTER_RUN - 1)]
         \<or> 1 < length (remdups (List.map_filter script_of letters)))"

subsection \<open>The decision\<close>

definition word_before :: "decide_options \<Rightarrow> int \<Rightarrow> ustr" where
  "word_before opts g = (case previous_words opts g of None \<Rightarrow> [] | Some w \<Rightarrow> w)"

definition context_delta :: "decide_options \<Rightarrow> scorer \<Rightarrow> scorer \<Rightarrow> int \<Rightarrow> int \<Rightarrow> ustr \<Rightarrow> ustr \<Rightarrow> real" where
  "context_delta opts source_scorer target_scorer source target source_word target_word =
     (let source_context = score_context source_scorer (word_before opts source) source_word;
          target_context = score_context target_scorer (word_before opts target) target_word;
          delta = CONTEXT_DELTA_MULTIPLIER * (target_context - source_context)
      in if context_group opts = Some target then delta + CONTEXT_TARGET_GROUP_BONUS
         else if context_group opts = Some source then delta - CONTEXT_SOURCE_GROUP_PENALTY
         else delta)"

record candidate =
  cd_delta :: real
  cd_group :: int
  cd_text :: ustr
  cd_score :: word_score
  cd_context :: real

definition scored_candidates ::
  "detector \<Rightarrow> decide_options \<Rightarrow> scorer \<Rightarrow> ustr \<Rightarrow> (int, ustr) odict \<Rightarrow> int \<Rightarrow> candidate list" where
  "scored_candidates det opts source_scorer original alternatives source =
     List.map_filter (\<lambda>(g, text).
         if g = source \<or> text = original then None
         else case det_models det g of None \<Rightarrow> None
           | Some target_scorer \<Rightarrow>
               let target_score = score_word target_scorer text;
                   cdelta = context_delta opts source_scorer target_scorer source g original text
               in Some \<lparr>cd_delta = sc_value target_score - sc_value (score_word source_scorer original) + cdelta,
                     cd_group = g, cd_text = text, cd_score = target_score, cd_context = cdelta\<rparr>)
       alternatives"

text \<open>\<open>normalize_token\<close> of the intent model: NFC leaves the characters modelled here alone.\<close>

definition normalize_token :: "ustr \<Rightarrow> ustr" where
  "normalize_token token = casefold (take INTENT_RAW_TOKEN_MAX_CHARACTERS token)"

definition intent_prediction ::
  "detector \<Rightarrow> decide_options \<Rightarrow> ustr \<Rightarrow> candidate \<Rightarrow> int \<Rightarrow> word_score \<Rightarrow> linear_prediction option" where
  "intent_prediction det opts original best source source_score =
     (case det_intent det of
        None \<Rightarrow> None
      | Some predict \<Rightarrow>
          if \<not> use_intent_model opts
             \<or> max (length (normalize_token original)) (length (normalize_token (cd_text best))) < INTENT_MIN_RUNTIME_TOKEN_CHARACTERS
          then None
          else Some (predict \<lparr>in_original = original, in_alternative = cd_text best, in_source = source,
            in_target = cd_group best, in_trigger = opt_trigger opts, in_source_score = source_score,
            in_target_score = cd_score best, in_context_delta = cd_context best, in_context_group = context_group opts\<rparr>))"

definition effective_length_of :: "ustr \<Rightarrow> ustr \<Rightarrow> (int, ustr) odict \<Rightarrow> nat" where
  "effective_length_of original replacement alternatives =
     Max (set ([length (normalize_word original), length (normalize_word replacement)]
        @ map (\<lambda>(_, text). length (normalize_word text)) alternatives))"

text \<open>The heuristic for a target a lexicon or the speller knows.\<close>

definition known_target_decision ::
  "decide_options \<Rightarrow> ustr \<Rightarrow> int \<Rightarrow> candidate \<Rightarrow> word_score \<Rightarrow> nat \<Rightarrow> decision" where
  "known_target_decision opts original source best source_score effective_length =
     (let relief = min 1 (real (effective_length - HEURISTIC_KNOWN_TARGET_RELIEF_START_CHARACTERS)
             * HEURISTIC_KNOWN_TARGET_RELIEF_PER_CHARACTER);
          margin = max HEURISTIC_KNOWN_TARGET_MIN_MARGIN (confidence_threshold opts - relief);
          required = (if sc_spell_known (cd_score best) \<and> \<not> sc_exact (cd_score best)
             then margin + HEURISTIC_SPELL_ONLY_TARGET_EXTRA_MARGIN else margin);
          morphology_is_plausible =
            (LANGUAGE_MODEL_KNOWN_WORD_NATURALNESS_FLOOR \<le> sc_ngram_score (cd_score best)
             \<or> context_group opts = Some (cd_group best));
          convert = (required \<le> cd_delta best \<and> morphology_is_plausible);
          why = (if sc_exact (cd_score best) then Target_In_Lexicon
                 else if convert then Target_Word_Form
                 else if \<not> morphology_is_plausible then Rare_Word_Form
                 else Weak_Word_Form)
      in plain_decision convert original (cd_text best) source (cd_group best) (cd_delta best) why source_score (cd_score best))"

text \<open>The target read after one deletion; \<open>None\<close> goes on to the character model.\<close>

definition one_slip_decision ::
  "decide_options \<Rightarrow> scorer \<Rightarrow> scorer \<Rightarrow> ustr \<Rightarrow> int \<Rightarrow> candidate \<Rightarrow> word_score \<Rightarrow> decision option" where
  "one_slip_decision opts source_scorer target_scorer original source best source_score =
     (let target_without_one = score_deletion target_scorer (cd_text best);
          source_without_one = score_deletion source_scorer original;
          typo_delta = sc_value target_without_one - max (sc_value source_score) (sc_value source_without_one)
      in if sc_known target_without_one \<and> \<not> sc_known source_without_one
            \<and> confidence_threshold opts + HEURISTIC_TYPO_DELETION_EXTRA_MARGIN \<le> typo_delta
         then Some (plain_decision True original (cd_text best) source (cd_group best) (max (cd_delta best) typo_delta)
                One_Slip_Away source_score (cd_score best))
         else None)"

definition ngram_decision ::
  "decide_options \<Rightarrow> ustr \<Rightarrow> int \<Rightarrow> candidate \<Rightarrow> word_score \<Rightarrow> nat \<Rightarrow> decision" where
  "ngram_decision opts original source best source_score effective_length =
     (let relief = min HEURISTIC_NGRAM_RELIEF_CAP
             (real (effective_length - HEURISTIC_NGRAM_RELIEF_START_CHARACTERS) * HEURISTIC_NGRAM_RELIEF_PER_CHARACTER);
          margin = confidence_threshold opts + HEURISTIC_NGRAM_EXTRA_MARGIN - relief;
          lowered = (if aggressive opts then margin - HEURISTIC_NGRAM_AGGRESSIVE_MARGIN_REDUCTION else margin);
          required = max (confidence_threshold opts + HEURISTIC_NGRAM_MIN_EXTRA_MARGIN) lowered;
          source_is_unlikely = (sc_ngram_score source_score
             \<le> (if aggressive opts then HEURISTIC_UNLIKELY_SOURCE_NGRAM_MAX_AGGRESSIVE else HEURISTIC_UNLIKELY_SOURCE_NGRAM_MAX));
          target_is_plausible =
            ((if aggressive opts then HEURISTIC_PLAUSIBLE_TARGET_NGRAM_MIN_AGGRESSIVE else HEURISTIC_PLAUSIBLE_TARGET_NGRAM_MIN)
             \<le> sc_ngram_score (cd_score best));
          convert =
            ((if aggressive opts then HEURISTIC_NGRAM_MIN_CHARACTERS_AGGRESSIVE else HEURISTIC_NGRAM_MIN_CHARACTERS) \<le> effective_length
             \<and> source_is_unlikely \<and> target_is_plausible \<and> required \<le> cd_delta best);
          why = (if convert then Ngram_Advantage else if \<not> source_is_unlikely then Source_Plausible
                 else if \<not> target_is_plausible then Target_Unusual else Ngram_Unsure)
      in plain_decision convert original (cd_text best) source (cd_group best) (cd_delta best) why source_score (cd_score best))"

text \<open>\<open>decide\<close>: \<open>KeyError\<close> for a source group without a model.\<close>

definition decide :: "detector \<Rightarrow> decide_options \<Rightarrow> ustr \<Rightarrow> (int, ustr) odict \<Rightarrow> int \<Rightarrow> py_error + decision" where
  "decide det opts original alternatives source =
     (case det_models det source of
        None \<Rightarrow> Inl KeyError
      | Some source_scorer \<Rightarrow> Inr
         (let source_score = score_word source_scorer original;
              rejected = (\<lambda>why. plain_decision False original original source source 0 why source_score source_score);
              scored = scored_candidates det opts source_scorer original alternatives source
          in case max_by cd_delta scored of
             None \<Rightarrow> rejected No_Other_Layout
           | Some best \<Rightarrow>
             let effective_length = effective_length_of original (cd_text best) alternatives;
                 forced = (case forced_target_group opts of None \<Rightarrow> None
                    | Some target \<Rightarrow> List.find (\<lambda>c. cd_group c = target) scored)
             in if effective_length < minimum_length opts then rejected Too_Short
                else if token_key original \<in> token_key ` set (ignored_words opts) then rejected User_Exclusion
                else if cd_group best \<in> set (rejected_targets opts) then rejected User_Rejection
                else case forced of
                  Some c \<Rightarrow> plain_decision True original (cd_text c) source (cd_group c)
                    (max CONFIRMED_RULE_MIN_CONFIDENCE (cd_delta c)) Confirmed_Rule source_score (cd_score c)
                | None \<Rightarrow>
                  if protect_code opts \<and> protected_token (det_protected det) original then rejected Code_Or_Address
                  else if sc_known source_score then rejected (if sc_known (cd_score best) then Both_Valid else Source_Valid)
                  else case intent_prediction det opts original best source source_score of
                    Some p \<Rightarrow> with_prediction (Some p) (plain_decision (pr_should_switch p) original (cd_text best) source
                      (cd_group best) (cd_delta best) (if pr_should_switch p then Model_Confident else Model_Unsure)
                      source_score (cd_score best))
                  | None \<Rightarrow>
                    if sc_known (cd_score best) then known_target_decision opts original source best source_score effective_length
                    else case (if HEURISTIC_TYPO_DELETION_MIN_CHARACTERS \<le> effective_length
                               then one_slip_decision opts source_scorer (the (det_models det (cd_group best))) original source best source_score
                               else None) of
                      Some d \<Rightarrow> d
                    | None \<Rightarrow> ngram_decision opts original source best source_score effective_length))"

subsection \<open>What a conversion guarantees\<close>

lemma scored_candidates_mem:
  "c \<in> set (scored_candidates det opts source_scorer original alternatives source) \<Longrightarrow>
     (cd_group c, cd_text c) \<in> set alternatives \<and> cd_group c \<noteq> source \<and> cd_text c \<noteq> original"
  unfolding scored_candidates_def in_set_map_filter
  by (cases c) (auto simp: Let_def split: if_splits option.splits)

lemma plain_decision_simps [simp]:
  "dc_convert (plain_decision b orig rep s t c w ss ts) = b" "dc_original (plain_decision b orig rep s t c w ss ts) = orig"
  "dc_replacement (plain_decision b orig rep s t c w ss ts) = rep" "dc_source (plain_decision b orig rep s t c w ss ts) = s"
  "dc_target (plain_decision b orig rep s t c w ss ts) = t" "dc_confidence (plain_decision b orig rep s t c w ss ts) = c"
  "dc_reason (plain_decision b orig rep s t c w ss ts) = w" "dc_source_score (plain_decision b orig rep s t c w ss ts) = ss"
  "dc_target_score (plain_decision b orig rep s t c w ss ts) = ts"
  by (simp_all add: plain_decision_def)

lemma with_prediction_simps [simp]:
  "dc_convert (with_prediction p d) = dc_convert d" "dc_original (with_prediction p d) = dc_original d"
  "dc_replacement (with_prediction p d) = dc_replacement d" "dc_source (with_prediction p d) = dc_source d"
  "dc_target (with_prediction p d) = dc_target d" "dc_confidence (with_prediction p d) = dc_confidence d"
  "dc_reason (with_prediction p d) = dc_reason d" "dc_source_score (with_prediction p d) = dc_source_score d"
  "dc_target_score (with_prediction p d) = dc_target_score d"
  by (simp_all add: with_prediction_def split: option.splits)

text \<open>The decisions of the statistical layers: about the best candidate, with a reason of their own.\<close>

definition about :: "decision \<Rightarrow> ustr \<Rightarrow> int \<Rightarrow> candidate \<Rightarrow> word_score \<Rightarrow> bool" where
  "about d original source best source_score \<longleftrightarrow>
     dc_original d = original \<and> dc_replacement d = cd_text best \<and> dc_source d = source \<and> dc_target d = cd_group best
     \<and> dc_source_score d = source_score \<and> dc_target_score d = cd_score best
     \<and> dc_reason d \<in> {Model_Confident, Model_Unsure, Target_In_Lexicon, Target_Word_Form, Rare_Word_Form, Weak_Word_Form,
          One_Slip_Away, Ngram_Advantage, Source_Plausible, Target_Unusual, Ngram_Unsure}"

lemma about_known: "about (known_target_decision opts original source best ss n) original source best ss"
  by (simp add: about_def known_target_decision_def Let_def)

lemma about_slip: "one_slip_decision opts s t original source best ss = Some d \<Longrightarrow> about d original source best ss"
  by (auto simp: about_def one_slip_decision_def Let_def split: if_splits)

lemma about_ngram: "about (ngram_decision opts original source best ss n) original source best ss"
  by (simp add: about_def ngram_decision_def Let_def)

lemma decide_cases:
  assumes "decide det opts original alternatives source = Inr d" and "dc_convert d"
  obtains (forced) scorer c where "det_models det source = Some scorer"
      "c \<in> set (scored_candidates det opts scorer original alternatives source)" "forced_target_group opts = Some (cd_group c)"
      "d = plain_decision True original (cd_text c) source (cd_group c) (max CONFIRMED_RULE_MIN_CONFIDENCE (cd_delta c))
         Confirmed_Rule (score_word scorer original) (cd_score c)"
      "token_key original \<notin> token_key ` set (ignored_words opts)"
  | (scored) scorer best where "det_models det source = Some scorer"
      "max_by cd_delta (scored_candidates det opts scorer original alternatives source) = Some best"
      "about d original source best (score_word scorer original)"
      "token_key original \<notin> token_key ` set (ignored_words opts)"
      "\<not> (protect_code opts \<and> protected_token (det_protected det) original)" "\<not> sc_known (score_word scorer original)"
      "cd_group best \<notin> set (rejected_targets opts)"
proof -
  obtain scorer where scorer: "det_models det source = Some scorer" using assms(1) by (auto simp: decide_def split: option.splits)
  let ?scored = "scored_candidates det opts scorer original alternatives source"
  obtain best where best: "max_by cd_delta ?scored = Some best"
    using assms scorer by (cases "max_by cd_delta ?scored") (auto simp: decide_def Let_def)
  have passed: "token_key original \<notin> token_key ` set (ignored_words opts)" "cd_group best \<notin> set (rejected_targets opts)"
    using assms scorer best by (auto simp: decide_def Let_def split: if_splits)
  show thesis
  proof (cases "case forced_target_group opts of None \<Rightarrow> None | Some target \<Rightarrow> List.find (\<lambda>c. cd_group c = target) ?scored")
    case (Some c)
    then have "c \<in> set ?scored" "forced_target_group opts = Some (cd_group c)"
      by (auto simp: find_Some_iff split: option.splits)
    moreover have "d = plain_decision True original (cd_text c) source (cd_group c) (max CONFIRMED_RULE_MIN_CONFIDENCE (cd_delta c))
        Confirmed_Rule (score_word scorer original) (cd_score c)"
      using assms scorer best Some by (auto simp: decide_def Let_def split: if_splits)
    ultimately show thesis using forced scorer passed(1) by blast
  next
    case None
    have guards: "\<not> (protect_code opts \<and> protected_token (det_protected det) original)" "\<not> sc_known (score_word scorer original)"
      using assms scorer best None by (auto simp: decide_def Let_def split: if_splits)
    have "about d original source best (score_word scorer original)"
      using assms(1) scorer best None guards passed assms(2)
      by (auto simp: decide_def Let_def about_known about_ngram split: if_splits option.splits dest: about_slip)
        (auto simp: about_def)
    then show thesis using scored scorer best passed guards by blast
  qed
qed

end
