(* ===== verification/Short_Words.thy ===== *)
theory Short_Words
  imports Detector
begin

text \<open>
  \<open>src/keyswitch/short_words.py\<close>: the curated one- and two-letter words of each language, the veto of a short
  dictionary-only conversion whose source reads naturally, and the override that converts a curated word.
\<close>

definition PAUSE_WORD_START_LETTERS :: nat where "PAUSE_WORD_START_LETTERS = 2"
definition PAUSE_WORD_START_MIN_WORDS :: int where "PAUSE_WORD_START_MIN_WORDS = 100"
definition TRUSTED_SHORT_WORD_MAX_LENGTH :: nat where "TRUSTED_SHORT_WORD_MAX_LENGTH = 2"
definition NATURAL_SOURCE_MAX_LENGTH :: nat where "NATURAL_SOURCE_MAX_LENGTH = 4"
definition TRUSTED_SHORT_WORD_MINIMUM_FREQUENCY :: int where "TRUSTED_SHORT_WORD_MINIMUM_FREQUENCY = 10000"
definition TRUSTED_SHORT_WORD_MINIMUM_RATIO :: real where "TRUSTED_SHORT_WORD_MINIMUM_RATIO = 100"
definition TRUSTED_SHORT_WORD_CONTEXT_RATIO :: real where "TRUSTED_SHORT_WORD_CONTEXT_RATIO = 1"
definition SINGLE_LETTER_CONFIDENCE :: real where "SINGLE_LETTER_CONFIDENCE = 1"

definition TRUSTED_SINGLE_LETTER_WORDS :: "ustr list" where
  "TRUSTED_SINGLE_LETTER_WORDS =
    [[0x430], [0x438], [0x441], [0x432], [0x43A], [0x443], [0x43E], [0x44F]]"

definition TRUSTED_SHORT_WORDS :: "int \<Rightarrow> ustr list" where
  "TRUSTED_SHORT_WORDS g =
    (if g = 0 then [asc ''if'']
     else if g = 1 then
      [[0x43D, 0x435], [0x43B, 0x438], [0x43D, 0x430], [0x43F, 0x43E], [0x442, 0x43E], [0x43C, 0x44B], [0x432, 0x44B],
       [0x442, 0x44B], [0x43E, 0x43D], [0x43D, 0x43E], [0x436, 0x435], [0x437, 0x430], [0x434, 0x43E], [0x438, 0x437],
       [0x43E, 0x442], [0x43E, 0x431], [0x43D, 0x443], [0x438, 0x445], [0x438, 0x43C], [0x434, 0x430], [0x43D, 0x438],
       [0x432, 0x43E], [0x43A, 0x43E], [0x441, 0x43E], [0x431, 0x44B], [0x443, 0x436], [0x435, 0x439], [0x435, 0x451]]
      @ TRUSTED_SINGLE_LETTER_WORDS
     else [])"

definition OPENING_WORDS :: "int \<Rightarrow> ustr list" where
  "OPENING_WORDS g =
    (if g = 1 then
      [[0x43D, 0x435], [0x43B, 0x438], [0x43D, 0x430], [0x43F, 0x43E], [0x442, 0x43E], [0x43C, 0x44B], [0x432, 0x44B],
       [0x442, 0x44B], [0x43E, 0x43D], [0x43D, 0x43E], [0x437, 0x430], [0x434, 0x43E], [0x438, 0x437], [0x43E, 0x442],
       [0x43E, 0x431], [0x43D, 0x443], [0x438, 0x445], [0x438, 0x43C], [0x434, 0x430], [0x43D, 0x438], [0x432, 0x43E],
       [0x43A, 0x43E], [0x441, 0x43E], [0x443, 0x436], [0x435, 0x439], [0x435, 0x451]]
      @ TRUSTED_SINGLE_LETTER_WORDS
     else [])"

definition opens_sentences :: "ustr \<Rightarrow> int \<Rightarrow> bool" where
  "opens_sentences text g \<longleftrightarrow> normalize_word text \<in> set (OPENING_WORDS g)"

definition DICTIONARY_ONLY_REASONS :: "reason list" where
  "DICTIONARY_ONLY_REASONS = [Target_In_Lexicon, Target_Word_Form]"

definition SHORT_WORD_REASONS :: "reason list" where
  "SHORT_WORD_REASONS = [Trusted_Short_Word, Short_Word_In_Context, Short_Word_At_Start]"

definition natural_short_source_veto :: "int option \<Rightarrow> decision \<Rightarrow> decision" where
  "natural_short_source_veto cgroup d =
     (if \<not> dc_convert d \<or> dc_reason d \<notin> set DICTIONARY_ONLY_REASONS then d
      else let len = max (length (normalize_word (dc_original d))) (length (normalize_word (dc_replacement d)))
           in if NATURAL_SOURCE_MAX_LENGTH < len
                 \<or> sc_ngram_score (dc_source_score d) \<le> HEURISTIC_UNLIKELY_SOURCE_NGRAM_MAX
                 \<or> cgroup = Some (dc_target d)
              then d
              else d\<lparr>dc_convert := False, dc_reason := Natural_Source\<rparr>)"

definition word_starts :: "language_model \<Rightarrow> (ustr, int) odict" where
  "word_starts m =
     fold (\<lambda>(word, _) counter. if PAUSE_WORD_START_LETTERS < length word
         then count_up (take PAUSE_WORD_START_LETTERS word) 1 counter else counter) (lm_frequencies m) []"

definition begins_words :: "language_model \<Rightarrow> ustr \<Rightarrow> bool" where
  "begins_words m token \<longleftrightarrow> isalpha token \<and> length token = PAUSE_WORD_START_LETTERS
     \<and> PAUSE_WORD_START_MIN_WORDS \<le> count_of (word_starts m) (casefold token)"

definition is_short_word_override :: "decision \<Rightarrow> bool" where
  "is_short_word_override d \<longleftrightarrow> dc_convert d \<and> dc_reason d \<in> set SHORT_WORD_REASONS"

text \<open>One turn of the loop over the alternatives.\<close>

definition short_word_candidate ::
  "detector \<Rightarrow> int list \<Rightarrow> int option \<Rightarrow> scorer \<Rightarrow> ustr \<Rightarrow> int \<Rightarrow> int \<times> ustr \<Rightarrow> decision option" where
  "short_word_candidate det rejected cgroup source_scorer original source alternative =
     (let (g, replacement) = alternative;
          source_score = score_word source_scorer original;
          normalized_original = normalize_word original;
          normalized_replacement = normalize_word replacement
      in case det_models det g of
        None \<Rightarrow> None
      | Some target_scorer \<Rightarrow>
          if g = source \<or> replacement = original \<or> g \<in> set rejected then None
          else if TRUSTED_SHORT_WORD_MAX_LENGTH < max (length normalized_original) (length normalized_replacement)
             \<or> normalized_replacement \<notin> set (TRUSTED_SHORT_WORDS g) then None
          else
            let supported = (cgroup = Some g); target_score = score_word target_scorer replacement;
                ratio = real_of_int (sc_frequency target_score + 1) / real_of_int (sc_frequency source_score + 1)
            in if normalized_replacement \<in> set TRUSTED_SINGLE_LETTER_WORDS
               then if supported
                    then Some (plain_decision True original replacement source g SINGLE_LETTER_CONFIDENCE Short_Word_In_Context
                           source_score target_score)
                    else None
               else if \<not> sc_exact target_score \<or> sc_frequency target_score < TRUSTED_SHORT_WORD_MINIMUM_FREQUENCY then None
               else if ratio < TRUSTED_SHORT_WORD_MINIMUM_RATIO \<and> \<not> (supported \<and> TRUSTED_SHORT_WORD_CONTEXT_RATIO \<le> ratio) then None
               else Some (plain_decision True original replacement source g (log 10 ratio)
                      (if TRUSTED_SHORT_WORD_MINIMUM_RATIO \<le> ratio then Trusted_Short_Word else Short_Word_In_Context)
                      source_score target_score))"

definition trusted_short_word_decision ::
  "detector \<Rightarrow> ustr list \<Rightarrow> int list \<Rightarrow> bool \<Rightarrow> int option \<Rightarrow> ustr \<Rightarrow> (int, ustr) odict \<Rightarrow> int \<Rightarrow> py_error + decision option" where
  "trusted_short_word_decision det ignored rejected protect cgroup original alternatives source =
     (if token_key original \<in> token_key ` set ignored then Inr None
      else if protect \<and> protected_token (det_protected det) original then Inr None
      else case det_models det source of
        None \<Rightarrow> Inl KeyError
      | Some source_scorer \<Rightarrow> Inr (max_by dc_confidence
          (List.map_filter (short_word_candidate det rejected cgroup source_scorer original source) alternatives)))"

lemma short_word_candidate_facts:
  assumes "short_word_candidate det rejected cgroup scorer original source (g, text) = Some d"
  shows "dc_convert d" and "dc_original d = original" and "dc_source d = source" and "dc_target d = g" and "dc_replacement d = text"
    and "g \<noteq> source" and "text \<noteq> original" and "g \<notin> set rejected" and "dc_source_score d = score_word scorer original"
    and "dc_reason d \<in> {Trusted_Short_Word, Short_Word_In_Context}"
    and "dc_reason d = Short_Word_In_Context \<Longrightarrow> cgroup = Some g"
    and "normalize_word text \<in> set (TRUSTED_SHORT_WORDS g)"
  using assms by (auto simp: short_word_candidate_def Let_def split: if_splits option.splits)

lemma trusted_short_word_facts:
  assumes "trusted_short_word_decision det ignored rejected protect cgroup original alternatives source = Inr (Some d)"
  obtains scorer g "text" where "det_models det source = Some scorer" "(g, text) \<in> set alternatives"
    "short_word_candidate det rejected cgroup scorer original source (g, text) = Some d"
    "token_key original \<notin> token_key ` set ignored" "\<not> (protect \<and> protected_token (det_protected det) original)"
proof -
  obtain scorer where scorer: "det_models det source = Some scorer"
    "max_by dc_confidence (List.map_filter (short_word_candidate det rejected cgroup scorer original source) alternatives) = Some d"
    and guards: "token_key original \<notin> token_key ` set ignored" "\<not> (protect \<and> protected_token (det_protected det) original)"
    using assms by (auto simp: trusted_short_word_decision_def split: if_splits option.splits)
  from max_by_in [OF scorer(2)] obtain alternative where "alternative \<in> set alternatives"
    "short_word_candidate det rejected cgroup scorer original source alternative = Some d"
    by (auto simp: in_set_map_filter)
  with that scorer(1) guards show thesis by (cases alternative) auto
qed

end
