(* ===== verification/Word_Decision.thy ===== *)
theory Word_Decision
  imports Short_Words
begin

text \<open>
  \<open>src/keyswitch/word_decision.py\<close>: the detector's verdict with the short-word rules around it, the decision
  the engine takes at a boundary. The property says what a conversion guarantees whatever the scorers, the
  classifier and the lexicons answer.
\<close>

definition OPENING_LETTER_FOLLOWING_SIGNS :: ustr where
  "OPENING_LETTER_FOLLOWING_SIGNS = [0x2C, 0x2E, 0x3F, 0x21, 0x3A, 0x3B, 0x29, 0x2D]"

definition word_shape_veto :: "decision \<Rightarrow> decision" where
  "word_shape_veto d =
     (if \<not> dc_convert d \<or> \<not> isalpha (dc_original d) then d
      else if isalpha (dc_replacement d) then d
      else d\<lparr>dc_convert := False, dc_reason := Not_A_Word\<rparr>)"

text \<open>The loop returns at the first alternative that passes.\<close>

definition opening_letter_decision ::
  "detector \<Rightarrow> ustr list \<Rightarrow> int list \<Rightarrow> bool \<Rightarrow> int option \<Rightarrow> (int \<Rightarrow> ustr option) \<Rightarrow> ustr \<Rightarrow> (int, ustr) odict \<Rightarrow> int
    \<Rightarrow> py_error + decision option" where
  "opening_letter_decision det ignored rejected protect cgroup following original alternatives source =
     (if cgroup \<noteq> None \<or> length (normalize_word original) \<noteq> 1 then Inr None
      else if token_key original \<in> token_key ` set ignored \<or> protect \<and> protected_token (det_protected det) original then Inr None
      else case det_models det source of
        None \<Rightarrow> Inl KeyError
      | Some source_scorer \<Rightarrow>
          Inr (map_option (\<lambda>(g, replacement). plain_decision True original replacement source g SINGLE_LETTER_CONFIDENCE
                 Short_Word_At_Start (score_word source_scorer original)
                 (score_word (the (det_models det g)) replacement))
            (List.find (\<lambda>(g, replacement).
                let following_sign = take 1 (case following g of None \<Rightarrow> [] | Some t \<Rightarrow> t)
                in g \<noteq> source \<and> det_models det g \<noteq> None \<and> replacement \<noteq> original \<and> g \<notin> set rejected
                   \<and> normalize_word replacement \<in> set TRUSTED_SINGLE_LETTER_WORDS
                   \<and> (following_sign = [] \<or> isspace following_sign \<or> set following_sign \<subseteq> set OPENING_LETTER_FOLLOWING_SIGNS))
              alternatives)))"

definition automatic_word_decision ::
  "detector \<Rightarrow> decide_options \<Rightarrow> bool \<Rightarrow> (int \<Rightarrow> ustr option) \<Rightarrow> ustr \<Rightarrow> (int, ustr) odict \<Rightarrow> int \<Rightarrow> py_error + decision" where
  "automatic_word_decision det opts context_tracked following original alternatives source =
     (case decide det opts original alternatives source of
        Inl e \<Rightarrow> Inl e
      | Inr verdict \<Rightarrow>
          let d = word_shape_veto (natural_short_source_veto (context_group opts) verdict)
          in if dc_convert d then Inr d
             else case trusted_short_word_decision det (ignored_words opts) (rejected_targets opts) (protect_code opts)
                 (context_group opts) original alternatives source of
               Inl e \<Rightarrow> Inl e
             | Inr (Some override) \<Rightarrow> Inr override
             | Inr None \<Rightarrow>
                 case (if context_tracked
                       then opening_letter_decision det (ignored_words opts) (rejected_targets opts) (protect_code opts)
                              (context_group opts) following original alternatives source
                       else Inr None) of
                   Inl e \<Rightarrow> Inl e
                 | Inr (Some opening) \<Rightarrow> Inr opening
                 | Inr None \<Rightarrow> Inr d)"

lemma vetoes_keep:
  assumes "dc_convert (word_shape_veto (natural_short_source_veto cgroup d))"
  shows "word_shape_veto (natural_short_source_veto cgroup d) = d" and "dc_convert d"
    and "isalpha (dc_original d) \<Longrightarrow> isalpha (dc_replacement d)"
  using assms by (auto simp: word_shape_veto_def natural_short_source_veto_def Let_def split: if_splits)

lemma opening_letter_facts:
  assumes "opening_letter_decision det ignored rejected protect cgroup following original alternatives source = Inr (Some d)"
  shows "dc_convert d" and "dc_original d = original" and "dc_source d = source"
    and "(dc_target d, dc_replacement d) \<in> set alternatives" and "dc_target d \<noteq> source" and "dc_replacement d \<noteq> original"
    and "dc_target d \<notin> set rejected" and "dc_reason d = Short_Word_At_Start" and "cgroup = None"
    and "length (normalize_word original) = 1" and "token_key original \<notin> token_key ` set ignored"
    and "\<not> (protect \<and> protected_token (det_protected det) original)"
    and "\<exists>scorer. det_models det source = Some scorer \<and> dc_source_score d = score_word scorer original"
proof -
  define passes where "passes = (\<lambda>(g, replacement).
    let following_sign = take 1 (case following g of None \<Rightarrow> [] | Some t \<Rightarrow> t)
    in g \<noteq> source \<and> det_models det g \<noteq> None \<and> replacement \<noteq> original \<and> g \<notin> set rejected
       \<and> normalize_word replacement \<in> set TRUSTED_SINGLE_LETTER_WORDS
       \<and> (following_sign = [] \<or> isspace following_sign \<or> set following_sign \<subseteq> set OPENING_LETTER_FOLLOWING_SIGNS))"
  have guards: "cgroup = None" "length (normalize_word original) = 1" "token_key original \<notin> token_key ` set ignored"
    "\<not> (protect \<and> protected_token (det_protected det) original)"
    using assms unfolding opening_letter_decision_def by (simp_all split: if_split_asm)
  then obtain scorer g replacement where scorer: "det_models det source = Some scorer"
    and found: "List.find passes alternatives = Some (g, replacement)"
    and d: "d = plain_decision True original replacement source g SINGLE_LETTER_CONFIDENCE Short_Word_At_Start
      (score_word scorer original) (score_word (the (det_models det g)) replacement)"
    using assms unfolding opening_letter_decision_def passes_def by (auto split: if_split_asm option.splits)
  from found have "(g, replacement) \<in> set alternatives" "passes (g, replacement)"
    by (auto simp: find_Some_iff)
  then show "dc_convert d" "dc_original d = original" "dc_source d = source"
    "(dc_target d, dc_replacement d) \<in> set alternatives" "dc_target d \<noteq> source" "dc_replacement d \<noteq> original"
    "dc_target d \<notin> set rejected" "dc_reason d = Short_Word_At_Start"
    "\<exists>scorer. det_models det source = Some scorer \<and> dc_source_score d = score_word scorer original"
    using scorer by (simp_all add: d passes_def Let_def)
qed (use assms in \<open>auto simp: opening_letter_decision_def split: if_split_asm\<close>)

text \<open>What every conversion guarantees; the shape of the word is the vetoes' part.\<close>

definition sound_conversion ::
  "detector \<Rightarrow> decide_options \<Rightarrow> ustr \<Rightarrow> (int, ustr) odict \<Rightarrow> int \<Rightarrow> decision \<Rightarrow> bool" where
  "sound_conversion det opts original alternatives source d \<longleftrightarrow>
     dc_original d = original \<and> dc_source d = source
     \<and> (dc_target d, dc_replacement d) \<in> set alternatives \<and> dc_target d \<noteq> source \<and> dc_replacement d \<noteq> original
     \<and> token_key original \<notin> token_key ` set (ignored_words opts)
     \<and> (if dc_reason d = Confirmed_Rule then forced_target_group opts = Some (dc_target d)
        else \<not> (protect_code opts \<and> protected_token (det_protected det) original)
          \<and> dc_target d \<notin> set (rejected_targets opts))
     \<and> (dc_reason d = Confirmed_Rule \<or> dc_reason d \<in> set SHORT_WORD_REASONS \<or> \<not> sc_known (dc_source_score d))
     \<and> (case det_models det source of None \<Rightarrow> False | Some scorer \<Rightarrow> dc_source_score d = score_word scorer original)"

lemma decide_sound:
  assumes "decide det opts original alternatives source = Inr d" and "dc_convert d"
  shows "sound_conversion det opts original alternatives source d \<and> dc_reason d \<notin> set SHORT_WORD_REASONS"
  using decide_cases [OF assms]
proof cases
  case (1 scorer c)
  then show ?thesis using scored_candidates_mem [OF 1(2)] by (simp add: sound_conversion_def SHORT_WORD_REASONS_def)
next
  case (2 scorer best)
  then show ?thesis
    using scored_candidates_mem [OF max_by_in [OF 2(2)]] by (auto simp: sound_conversion_def about_def SHORT_WORD_REASONS_def)
qed

lemma trusted_sound:
  assumes "trusted_short_word_decision det (ignored_words opts) (rejected_targets opts) (protect_code opts) (context_group opts)
      original alternatives source = Inr (Some d)"
  shows "sound_conversion det opts original alternatives source d \<and> dc_reason d \<in> set SHORT_WORD_REASONS"
  using trusted_short_word_facts [OF assms]
proof cases
  case (1 scorer g "text")
  note facts = short_word_candidate_facts [OF 1(3)]
  from facts 1 show ?thesis by (auto simp: sound_conversion_def SHORT_WORD_REASONS_def)
qed

lemma opening_sound:
  assumes "opening_letter_decision det (ignored_words opts) (rejected_targets opts) (protect_code opts) (context_group opts)
      following original alternatives source = Inr (Some d)"
  shows "sound_conversion det opts original alternatives source d \<and> dc_reason d \<in> set SHORT_WORD_REASONS"
  using opening_letter_facts [OF assms] by (auto simp: sound_conversion_def SHORT_WORD_REASONS_def)

lemma automatic_sound:
  assumes "automatic_word_decision det opts context_tracked following original alternatives source = Inr d" and "dc_convert d"
  shows "sound_conversion det opts original alternatives source d
    \<and> (dc_reason d \<in> set SHORT_WORD_REASONS \<or> \<not> isalpha original \<or> isalpha (dc_replacement d))"
proof -
  obtain verdict where verdict: "decide det opts original alternatives source = Inr verdict"
    using assms(1) by (auto simp: automatic_word_decision_def split: sum.splits)
  let ?d = "word_shape_veto (natural_short_source_veto (context_group opts) verdict)"
  show ?thesis
  proof (cases "dc_convert ?d")
    case True
    then have "d = verdict" using assms(1) verdict vetoes_keep(1) by (auto simp: automatic_word_decision_def)
    moreover note vetoes_keep(2,3) [OF True] decide_sound [OF verdict]
    ultimately show ?thesis by (auto simp: sound_conversion_def)
  next
    case False
    then have "trusted_short_word_decision det (ignored_words opts) (rejected_targets opts) (protect_code opts)
        (context_group opts) original alternatives source = Inr (Some d)
      \<or> opening_letter_decision det (ignored_words opts) (rejected_targets opts) (protect_code opts) (context_group opts)
        following original alternatives source = Inr (Some d)"
      using assms verdict by (auto simp: automatic_word_decision_def Let_def split: sum.splits option.splits if_splits)
    then show ?thesis using trusted_sound opening_sound by blast
  qed
qed


text \<open>A detector whose two languages know nothing but the Russian word.\<close>

definition sample_score :: "bool \<Rightarrow> word_score" where
  "sample_score known = empty_score\<lparr>sc_value := if known then 10 else -10, sc_known := known, sc_exact := known, sc_ngram_score := if known then 0 else -2\<rparr>"

definition sample_scorer :: "ustr list \<Rightarrow> scorer" where
  "sample_scorer words = \<lparr>score_word = (\<lambda>w. sample_score (w \<in> set words)), score_context = (\<lambda>_ _. 0),
     score_deletion = (\<lambda>w. sample_score False)\<rparr>"

definition sample_detector :: detector where
  "sample_detector = \<lparr>det_models = [0 \<mapsto> sample_scorer [], 1 \<mapsto> sample_scorer [[0x43F, 0x43E]]],
     det_intent = None, det_protected = []\<rparr>"

definition sample_options :: decide_options where
  "sample_options = \<lparr>minimum_length = 2, confidence_threshold = 2, ignored_words = [], aggressive = False, protect_code = True,
     previous_words = (\<lambda>_. None), context_group = None, forced_target_group = None, rejected_targets = [],
     opt_trigger = On_Space, use_intent_model = True\<rparr>"


end
