(* ===== verification/Early_Switch.thy ===== *)
theory Early_Switch
  imports Detector
begin

text \<open>
  \<open>src/keyswitch/early_switch.py\<close>: whether the first letters of a word already prove the wrong layout. A prefix
  index is a sorted list of words searched with \<open>bisect_left\<close>; \<open>completions_exact\<close> says the two searches count
  exactly the words that begin with the prefix, as long as no word has a character from the sentinel
  \<open>U+FFFF\<close> on. The file of Hunspell stems is a list of decoded lines.
\<close>

definition EARLY_SWITCH_MIN_TARGET_COMPLETIONS :: nat where "EARLY_SWITCH_MIN_TARGET_COMPLETIONS = 10"
definition EARLY_SWITCH_MIN_TARGET_FREQUENCY :: int where "EARLY_SWITCH_MIN_TARGET_FREQUENCY = 2000"
definition EARLY_SWITCH_DOMINANT_TARGET_FREQUENCY :: int where "EARLY_SWITCH_DOMINANT_TARGET_FREQUENCY = 100000"
definition PREFIX_INDEX_COMPLETION_SCAN_LIMIT :: nat where "PREFIX_INDEX_COMPLETION_SCAN_LIMIT = 4096"

record prefix_evidence =
  ev_completions :: nat
  ev_maximum_frequency :: int
  ev_known :: bool

record early_switch_policy =
  pol_minimum_length :: nat
  pol_minimum_completions :: nat
  pol_minimum_frequency :: int
  pol_dominant_frequency :: int

definition default_early_switch_policy :: early_switch_policy where
  "default_early_switch_policy =
     \<lparr>pol_minimum_length = 4, pol_minimum_completions = EARLY_SWITCH_MIN_TARGET_COMPLETIONS,
      pol_minimum_frequency = EARLY_SWITCH_MIN_TARGET_FREQUENCY, pol_dominant_frequency = EARLY_SWITCH_DOMINANT_TARGET_FREQUENCY\<rparr>"

text \<open>The reasons of the decision, in the order of its returns.\<close>

datatype early_reason =
    Early_No_Other_Layout | Early_Too_Short | Early_Not_Letters | Early_Abbreviation | Early_Source_Continues
  | Early_Source_Word | Early_Target_Rare | Early_Dominant | Early_Impossible_Source

record early_switch_decision =
  es_switch :: bool
  es_source :: int
  es_target :: int
  es_original :: ustr
  es_replacement :: ustr
  es_reason :: early_reason
  es_source_evidence :: "prefix_evidence option"
  es_target_evidence :: "prefix_evidence option"

record prefix_index =
  px_words :: "ustr list"
  px_frequencies :: "(ustr, int) odict"

definition new_prefix_index :: "ustr list \<Rightarrow> (ustr, int) odict \<Rightarrow> prefix_index" where
  "new_prefix_index words frequencies =
     \<lparr>px_words = sort (remdups (filter (\<lambda>w. w \<noteq> []) words)), px_frequencies = frequencies\<rparr>"

definition SENTINEL :: uchar where "SENTINEL = 0xFFFF"

definition prefix_completions :: "prefix_index \<Rightarrow> ustr \<Rightarrow> prefix_evidence" where
  "prefix_completions index prefix =
     (let normalized = casefold prefix;
          words = px_words index;
          start = bisect_left (<) words normalized;
          stop = bisect_left (<) words (normalized @ [SENTINEL]);
          matches = take (min stop (start + PREFIX_INDEX_COMPLETION_SCAN_LIMIT) - start) (drop start words);
          maximum = (if matches = [] then 0 else Max (count_of (px_frequencies index) ` set matches))
      in if normalized = [] then \<lparr>ev_completions = 0, ev_maximum_frequency = 0, ev_known = False\<rparr>
         else \<lparr>ev_completions = stop - start, ev_maximum_frequency = maximum,
                ev_known = (map_of (px_frequencies index) normalized \<noteq> None
                  \<or> start < length words \<and> words ! start = normalized)\<rparr>)"

text \<open>\<open>_dictionary_stems\<close> after the size check: the first line of a dictionary is its count.\<close>

definition dictionary_stems :: "ustr list option \<Rightarrow> ustr list" where
  "dictionary_stems file_lines =
     (case file_lines of None \<Rightarrow> []
      | Some ls \<Rightarrow> filter isalpha (map (\<lambda>line.
          casefold (strip (hd (split_on (\<lambda>c. c = 0x9) (hd (split_on (\<lambda>c. c = 0x2F) line)))))) (drop 1 ls)))"

definition model_prefix_index :: "language_model \<Rightarrow> ustr list option \<Rightarrow> prefix_index" where
  "model_prefix_index m dictionary =
     new_prefix_index (map fst (lm_frequencies m) @ dictionary_stems dictionary) (lm_frequencies m)"

definition looks_like_abbreviation :: "ustr \<Rightarrow> bool" where
  "looks_like_abbreviation token \<longleftrightarrow> list_ex isupper_ch (drop 1 token)"

definition early_switch_decision ::
  "(int \<Rightarrow> prefix_index option) \<Rightarrow> (int \<Rightarrow> scorer option) \<Rightarrow> early_switch_policy \<Rightarrow> ustr \<Rightarrow> (int, ustr) odict \<Rightarrow> int
    \<Rightarrow> early_switch_decision" where
  "early_switch_decision indexes scorers policy original alternatives source =
     (let candidates = filter (\<lambda>(g, _). g \<noteq> source \<and> indexes g \<noteq> None \<and> scorers g \<noteq> None) alternatives;
          decision = (\<lambda>switch target replacement why source_ev target_ev.
            \<lparr>es_switch = switch, es_source = source, es_target = target, es_original = original, es_replacement = replacement,
             es_reason = why, es_source_evidence = source_ev, es_target_evidence = target_ev\<rparr>)
      in case (indexes source, scorers source, candidates) of
        (Some source_index, Some source_scorer, (target, replacement) # _) \<Rightarrow>
          if length original < pol_minimum_length policy then decision False target replacement Early_Too_Short None None
          else if \<not> isalpha replacement then decision False target replacement Early_Not_Letters None None
          else if looks_like_abbreviation original \<or> looks_like_abbreviation replacement
          then decision False target replacement Early_Abbreviation None None
          else
            let source_ev = prefix_completions source_index original
            in if 0 < ev_completions source_ev then decision False target replacement Early_Source_Continues (Some source_ev) None
               else if ev_known source_ev \<or> sc_known (score_word source_scorer original)
               then decision False target replacement Early_Source_Word (Some source_ev) None
               else
                 let target_ev = prefix_completions (the (indexes target)) replacement;
                     strong = (pol_minimum_completions policy \<le> ev_completions target_ev
                       \<and> pol_minimum_frequency policy \<le> ev_maximum_frequency target_ev);
                     dominant = (pol_dominant_frequency policy \<le> ev_maximum_frequency target_ev)
                 in if \<not> strong \<and> \<not> dominant
                    then decision False target replacement Early_Target_Rare (Some source_ev) (Some target_ev)
                    else decision True target replacement (if dominant then Early_Dominant else Early_Impossible_Source)
                           (Some source_ev) (Some target_ev)
      | _ \<Rightarrow> decision False source original Early_No_Other_Layout None None)"

subsection \<open>The two searches\<close>

text \<open>Between a prefix and the prefix with a character above all others lie the words that begin with it.\<close>

lemma prefix_interval:
  fixes x :: nat
  assumes "list_all (\<lambda>c. c < x) w"
  shows "p \<le> w \<and> w < p @ [x] \<longleftrightarrow> starts_with w p"
  using assms
proof (induction p arbitrary: w)
  case Nil
  then show ?case by (cases w) (auto simp: starts_with_def)
next
  case (Cons a p)
  then show ?case
    by (cases w) (auto simp: starts_with_def)
qed

lemma bisect_left_count:
  fixes x :: "'a::linorder"
  assumes "sorted xs"
  shows "bisect_left (<) xs x = length (filter (\<lambda>a. a < x) xs)"
proof -
  define below where "below = (\<lambda>i. i < length xs \<and> xs ! i < x)"
  have mono: "xs ! i < x" if "i \<le> j" "j < length xs" "xs ! j < x" for i j
    using that sorted_nth_mono [OF assms] by (meson le_less_trans)
  have spec: "bisect_left (<) xs x \<le> length xs \<and> (\<forall>i < bisect_left (<) xs x. xs ! i < x)
      \<and> (\<forall>i < length xs. bisect_left (<) xs x \<le> i \<longrightarrow> \<not> xs ! i < x)"
    unfolding bisect_left_def by (rule bisect_from_spec) (use mono in auto)
  let ?b = "bisect_left (<) xs x"
  have "filter (\<lambda>a. a < x) (take ?b xs) = take ?b xs"
    using spec by (auto simp: filter_id_conv in_set_conv_nth)
  moreover have "filter (\<lambda>a. a < x) (drop ?b xs) = []"
    using spec by (auto simp: filter_empty_conv in_set_conv_nth)
  ultimately have "filter (\<lambda>a. a < x) xs = take ?b xs"
    by (metis append_Nil2 append_take_drop_id filter_append)
  then show ?thesis using spec by simp
qed

lemma filter_between:
  fixes x y :: "'a::linorder"
  assumes "x \<le> y"
  shows "length (filter (\<lambda>a. a < y) xs) - length (filter (\<lambda>a. a < x) xs) = length (filter (\<lambda>a. x \<le> a \<and> a < y) xs)"
proof -
  have "length (filter (\<lambda>a. a < y) xs) = length (filter (\<lambda>a. a < x) xs) + length (filter (\<lambda>a. x \<le> a \<and> a < y) xs)"
    using assms by (induction xs) auto
  then show ?thesis by simp
qed

definition plain_word :: "ustr \<Rightarrow> bool" where
  "plain_word w \<longleftrightarrow> list_all (\<lambda>c. c < SENTINEL) w"

lemma prefix_le_snoc: "(p :: nat list) \<le> p @ [x]"
  by (induction p) auto

lemma completions_exact:
  assumes "sorted (px_words index)" and "list_all plain_word (px_words index)" and "prefix \<noteq> []"
  shows "ev_completions (prefix_completions index prefix)
    = length (filter (\<lambda>w. starts_with w (casefold prefix)) (px_words index))"
proof -
  let ?p = "casefold prefix"
  have "ev_completions (prefix_completions index prefix)
      = length (filter (\<lambda>w. ?p \<le> w \<and> w < ?p @ [SENTINEL]) (px_words index))"
    using assms(3) by (simp add: prefix_completions_def Let_def bisect_left_count [OF assms(1)] filter_between [OF prefix_le_snoc])
  also have "filter (\<lambda>w. ?p \<le> w \<and> w < ?p @ [SENTINEL]) (px_words index) = filter (\<lambda>w. starts_with w ?p) (px_words index)"
    using assms(2) by (intro filter_cong) (auto simp: list_all_iff plain_word_def prefix_interval)
  finally show ?thesis .
qed

lemma sorted_new_index [simp]: "sorted (px_words (new_prefix_index words frequencies))"
  by (simp add: new_prefix_index_def)

lemma set_new_index [simp]: "set (px_words (new_prefix_index words frequencies)) = set words - {[]}"
  by (auto simp: new_prefix_index_def)



end
