(* ===== verification/Key_Event.thy ===== *)
theory Key_Event
  imports Py_Text
begin

unbundle bit_operations_syntax

text \<open>
  The key event of \<open>src/keyswitch/backend.py\<close>: what a platform backend reports for one key, with the character
  the key types in every layout group. The modifier bits are those of \<open>constants/keyboard.py\<close>.
\<close>

definition SHIFT_MASK :: int where "SHIFT_MASK = push_bit 0 1"
definition LOCK_MASK :: int where "LOCK_MASK = push_bit 1 1"
definition CONTROL_MASK :: int where "CONTROL_MASK = push_bit 2 1"
definition ALT_MASK :: int where "ALT_MASK = push_bit 3 1"
definition SUPER_MASK :: int where "SUPER_MASK = push_bit 6 1"

record key_event =
  ev_pressed :: bool
  ev_keycode :: int
  ev_key_name :: ustr
  ev_character :: ustr
  ev_characters :: "ustr list"
  ev_group :: int
  ev_state :: int
  ev_timestamp :: int
  ev_synthetic :: bool
  ev_deferred :: bool
  ev_foreign :: bool

definition ev_shift :: "key_event \<Rightarrow> bool" where "ev_shift e \<longleftrightarrow> ev_state e AND SHIFT_MASK \<noteq> 0"
definition ev_caps_lock :: "key_event \<Rightarrow> bool" where "ev_caps_lock e \<longleftrightarrow> ev_state e AND LOCK_MASK \<noteq> 0"
definition ev_control :: "key_event \<Rightarrow> bool" where "ev_control e \<longleftrightarrow> ev_state e AND CONTROL_MASK \<noteq> 0"
definition ev_alt :: "key_event \<Rightarrow> bool" where "ev_alt e \<longleftrightarrow> ev_state e AND ALT_MASK \<noteq> 0"
definition ev_super_key :: "key_event \<Rightarrow> bool" where "ev_super_key e \<longleftrightarrow> ev_state e AND SUPER_MASK \<noteq> 0"

definition character_for :: "key_event \<Rightarrow> int \<Rightarrow> ustr" where
  "character_for e g = (if 0 \<le> g \<and> g < int (length (ev_characters e)) then ev_characters e ! nat g else [])"

text \<open>\<open>KeySwitchEngine._text_for_group\<close>: the text some keys type in a group.\<close>

definition text_for_group :: "key_event list \<Rightarrow> int \<Rightarrow> ustr" where
  "text_for_group strokes g = concat (map (\<lambda>e. character_for e g) strokes)"

lemma text_for_group_Nil [simp]: "text_for_group [] g = []"
  by (simp add: text_for_group_def)

lemma text_for_group_Cons [simp]: "text_for_group (e # es) g = character_for e g @ text_for_group es g"
  by (simp add: text_for_group_def)

lemma text_for_group_append [simp]: "text_for_group (es @ fs) g = text_for_group es g @ text_for_group fs g"
  by (simp add: text_for_group_def)

end
