(* ===== verification/Identifier_Lexicon.thy ===== *)
theory Identifier_Lexicon
  imports Json "HOL-Library.List_Lexorder"
begin

text \<open>
  \<open>src/keyswitch/identifier_lexicon.py\<close>: the index of identifiers no correction touches, and the checks its
  file goes through. The file is read as in \<open>Json\<close>; the hash of its bytes that makes the version is a parameter.
  The loader returns the lexicon or the exception, and \<open>try_load\<close> turns some exceptions into an absent lexicon.
\<close>

definition IDENTIFIER_LEXICON_MAX_ENTRIES :: nat where "IDENTIFIER_LEXICON_MAX_ENTRIES = 200000"

record identifier_lexicon =
  il_identifiers :: "ustr list"
  il_name :: ustr
  il_version :: ustr

definition identifier_contains :: "identifier_lexicon \<Rightarrow> ustr \<Rightarrow> bool" where
  "identifier_contains lexicon token \<longleftrightarrow> casefold token \<in> set (il_identifiers lexicon)"

text \<open>The regular expression: a small Latin letter, then 2 to 63 small Latin letters or digits.\<close>

definition ascii_small :: "uchar \<Rightarrow> bool" where "ascii_small c \<longleftrightarrow> 0x61 \<le> c \<and> c \<le> 0x7A"

definition identifier_shape :: "ustr \<Rightarrow> bool" where
  "identifier_shape s \<longleftrightarrow>
     (case s of [] \<Rightarrow> False
      | c # t \<Rightarrow> ascii_small c \<and> 2 \<le> length t \<and> length t \<le> 63 \<and> list_all (\<lambda>d. ascii_small d \<or> isdecimal_ch d) t)"

definition str_of :: "json \<Rightarrow> ustr option" where
  "str_of v = (case v of JStr s \<Rightarrow> Some s | _ \<Rightarrow> None)"

text \<open>A dictionary or a list has no hash, so \<open>set(entries)\<close> raises.\<close>

definition hashable :: "json \<Rightarrow> bool" where
  "hashable v \<longleftrightarrow> (case v of JObj _ \<Rightarrow> False | JList _ \<Rightarrow> False | _ \<Rightarrow> True)"

definition load_identifiers :: "ustr \<Rightarrow> file_state \<Rightarrow> py_error + identifier_lexicon" where
  "load_identifiers version file =
     (case file of
        No_File \<Rightarrow> Inl OSError
      | Not_Json \<Rightarrow> Inl ValueError
      | Holds payload \<Rightarrow>
         (case payload of
            JObj d \<Rightarrow>
             (case (dict_get d (asc ''name''), dict_get d (asc ''identifiers'')) of
                (JStr name, JList entries) \<Rightarrow>
                  if \<not> py_eq (dict_get d (asc ''schema_version'')) (JInt 1) then Inl ValueError
                  else if entries = [] \<or> IDENTIFIER_LEXICON_MAX_ENTRIES < length entries then Inl ValueError
                  else if \<not> list_all hashable entries then Inl TypeError
                  else
                    let names = List.map_filter str_of entries
                    in if length names \<noteq> length entries \<or> \<not> sorted_wrt (<) names \<or> \<not> list_all identifier_shape names
                       then Inl ValueError
                       else Inr \<lparr>il_identifiers = names, il_name = name, il_version = version\<rparr>
              | _ \<Rightarrow> Inl ValueError)
          | _ \<Rightarrow> Inl ValueError))"

definition try_load_identifiers :: "ustr \<Rightarrow> file_state \<Rightarrow> py_error + identifier_lexicon option" where
  "try_load_identifiers version file =
     (case load_identifiers version file of
        Inr lexicon \<Rightarrow> Inr (Some lexicon)
      | Inl e \<Rightarrow> if e = OSError \<or> e = ValueError then Inr None else Inl e)"

lemma map_filter_all: "length (List.map_filter f xs) = length xs \<Longrightarrow> x \<in> set xs \<Longrightarrow> f x \<noteq> None"
proof (induction xs)
  case (Cons a xs)
  have "length (List.map_filter f xs) \<le> length xs" for xs by (induction xs) (auto simp: map_filter_simps split: option.splits)
  from this [of xs] Cons show ?case by (auto simp: map_filter_simps split: option.splits)
qed simp

text \<open>What a loaded lexicon answers: exactly the listed names, in any case, and every one of them has the shape.\<close>

lemma loaded_identifiers:
  assumes "try_load_identifiers version file = Inr (Some lexicon)"
  shows "list_all identifier_shape (il_identifiers lexicon)" and "sorted_wrt (<) (il_identifiers lexicon)"
  using assms
  by (auto simp: try_load_identifiers_def load_identifiers_def Let_def split: sum.splits if_splits file_state.splits json.splits)

lemma try_load_raises:
  "try_load_identifiers version (Holds (JObj [(asc ''schema_version'', JInt 1), (asc ''name'', JStr []),
     (asc ''identifiers'', JList [JList []])])) = Inl TypeError"
  by (simp add: try_load_identifiers_def load_identifiers_def dict_get_def asc_def num_value_def
      IDENTIFIER_LEXICON_MAX_ENTRIES_def hashable_def)

end
