(* ===== verification/Typo_Correction.thy ===== *)
theory Typo_Correction
  imports Packed_Grams Detector Key_Event Identifier_Lexicon
begin

text \<open>
  \<open>src/keyswitch/typo_correction.py\<close>: one keyboard slip undone at a word's boundary. The counted word list is
  searched by halving, its rarer forms by a Bloom filter whose SHA-256 is a parameter (\<open>sha\<close>, the digest of some
  bytes); the candidates are the words one slip away, scored as a noisy channel over the reals; the keys of the
  correction reuse the typed ones. Reading the resource file (decompression, its header) is not modelled.
\<close>

subsection \<open>Constants\<close>

definition TYPO_MIN_LETTERS :: nat where "TYPO_MIN_LETTERS = 5"
definition TYPO_CANDIDATE_MIN_COUNT :: nat where "TYPO_CANDIDATE_MIN_COUNT = 20"
definition TYPO_POSTERIOR_RATIO :: real where "TYPO_POSTERIOR_RATIO = 3"
definition TYPO_TRANSPOSITION_LOG_PROBABILITY :: real where "TYPO_TRANSPOSITION_LOG_PROBABILITY = - 14 / 10"
definition TYPO_INSERTION_LOG_PROBABILITY :: real where "TYPO_INSERTION_LOG_PROBABILITY = - 25 / 10"
definition TYPO_DELETION_LOG_PROBABILITY :: real where "TYPO_DELETION_LOG_PROBABILITY = -5"
definition TYPO_SUBSTITUTION_LOG_PROBABILITY :: real where "TYPO_SUBSTITUTION_LOG_PROBABILITY = -4"
definition TYPO_TRANSPOSED_LETTERS :: nat where "TYPO_TRANSPOSED_LETTERS = 2"
definition KEYBOARD_ROW_LENGTHS :: "nat list" where "KEYBOARD_ROW_LENGTHS = [1, 13, 11, 9]"
definition TYPO_OCCURRENCE_HASH_BYTES :: nat where "TYPO_OCCURRENCE_HASH_BYTES = 8"
definition TYPO_COUNT_LOG_SCALE :: real where "TYPO_COUNT_LOG_SCALE = 8"
definition YO :: uchar where "YO = 0x451"
definition YE :: uchar where "YE = 0x435"

datatype operation = Transposition | Deletion | Insertion | Substitution

record typo_policy =
  tp_candidate_min_count :: nat
  tp_posterior_ratio :: real
  tp_log_probability :: "operation \<Rightarrow> real"

definition shipped_typo_policy :: typo_policy where
  "shipped_typo_policy =
     \<lparr>tp_candidate_min_count = TYPO_CANDIDATE_MIN_COUNT, tp_posterior_ratio = TYPO_POSTERIOR_RATIO,
      tp_log_probability = (\<lambda>op. case op of Transposition \<Rightarrow> TYPO_TRANSPOSITION_LOG_PROBABILITY
        | Deletion \<Rightarrow> TYPO_DELETION_LOG_PROBABILITY | Insertion \<Rightarrow> TYPO_INSERTION_LOG_PROBABILITY
        | Substitution \<Rightarrow> TYPO_SUBSTITUTION_LOG_PROBABILITY)\<rparr>"

text \<open>No tie for \<open>round\<close>: the logarithm of an integer above one is irrational.\<close>

definition minimum_weight :: "typo_policy \<Rightarrow> int" where
  "minimum_weight p = round (ln (real (tp_candidate_min_count p)) * TYPO_COUNT_LOG_SCALE)"

subsection \<open>The keyboard\<close>

fun key_rows :: "nat list \<Rightarrow> ustr \<Rightarrow> ustr list" where
  "key_rows [] keys = []"
| "key_rows (n # ns) keys = take n keys # key_rows ns (drop n keys)"

definition near_keys :: "ustr list \<Rightarrow> nat \<Rightarrow> nat \<Rightarrow> ustr" where
  "near_keys rows r i =
     (let row = rows ! r
      in (if 0 < i then [row ! (i - 1)] else [])
         @ (if i + 1 < length row then [row ! (i + 1)] else [])
         @ (if 0 < r then map ((!) (rows ! (r - 1))) (filter (\<lambda>p. p < length (rows ! (r - 1))) [i, i + 1]) else [])
         @ (if r + 1 < length rows
            then map ((!) (rows ! (r + 1))) (filter (\<lambda>p. p < length (rows ! (r + 1))) ((if 0 < i then [i - 1] else []) @ [i]))
            else []))"

definition keyboard_neighbours :: "ustr \<Rightarrow> py_error + (uchar, ustr) odict" where
  "keyboard_neighbours keys =
     (let rows = drop 1 (key_rows KEYBOARD_ROW_LENGTHS keys)
      in if sum_list KEYBOARD_ROW_LENGTHS \<noteq> length keys then Inl ValueError
         else Inr (fold (\<lambda>r d. fold (\<lambda>i d'. let k = rows ! r ! i
                in if isalpha_ch k then AList.update k (sort (filter isalpha_ch (near_keys rows r i))) d' else d')
              [0..<length (rows ! r)] d) [0..<length rows] []))"

subsection \<open>The counted list\<close>

record typo_lexicon =
  tl_alphabet :: ustr
  tl_forms :: "nat list"
  tl_starts :: "nat list"
  tl_weights :: "nat list"
  tl_seen :: "nat list"
  tl_seen_bits :: nat
  tl_seen_hashes :: nat

definition coded_form :: "typo_lexicon \<Rightarrow> ustr \<Rightarrow> nat list option" where
  "coded_form lx form =
     (let bs = map (\<lambda>c. case code_from 1 (tl_alphabet lx) c of Some n \<Rightarrow> n | None \<Rightarrow> c) form
      in if list_ex (\<lambda>b. 255 < b) bs then None
         else if bs = [] \<or> list_ex (\<lambda>b. length (tl_alphabet lx) < b) bs then None
         else Some bs)"

definition stored_form :: "typo_lexicon \<Rightarrow> nat \<Rightarrow> nat list" where
  "stored_form lx i = drop (tl_starts lx ! i) (take (tl_starts lx ! (i + 1) - 1) (tl_forms lx))"

text \<open>The loop of \<open>weight\<close>; bytes compare lexicographically.\<close>

function weight_search :: "typo_lexicon \<Rightarrow> nat list \<Rightarrow> nat \<Rightarrow> nat \<Rightarrow> nat option" where
  "weight_search lx code low high =
     (if low < high
      then let middle = (low + high) div 2; stored = stored_form lx middle
           in if stored = code then Some (tl_weights lx ! middle)
              else if stored < code then weight_search lx code (middle + 1) high
              else weight_search lx code low middle
      else None)"
  by pat_completeness auto
termination
  by (relation "measure (\<lambda>(_, _, low, high). high - low)") (auto simp: Let_def)

declare weight_search.simps [simp del]

definition form_weight :: "typo_lexicon \<Rightarrow> ustr \<Rightarrow> nat option" where
  "form_weight lx form =
     (case coded_form lx form of None \<Rightarrow> None | Some code \<Rightarrow> weight_search lx code 0 (length (tl_weights lx)))"

definition occurrence_positions :: "(nat list \<Rightarrow> nat list) \<Rightarrow> ustr \<Rightarrow> nat \<Rightarrow> nat \<Rightarrow> nat list" where
  "occurrence_positions sha form bits hashes =
     (let digest = sha (utf8 form);
          first = little_endian (take TYPO_OCCURRENCE_HASH_BYTES digest);
          step = (little_endian (take TYPO_OCCURRENCE_HASH_BYTES (drop TYPO_OCCURRENCE_HASH_BYTES digest))) OR 1
      in map (\<lambda>i. (first + i * step) mod bits) [0..<hashes])"

definition form_occurs_as :: "(nat list \<Rightarrow> nat list) \<Rightarrow> typo_lexicon \<Rightarrow> ustr \<Rightarrow> bool" where
  "form_occurs_as sha lx form \<longleftrightarrow>
     form_weight lx form \<noteq> None
     \<or> coded_form lx form \<noteq> None
       \<and> list_all (\<lambda>p. bit (tl_seen lx ! (p div 8)) (p mod 8))
           (occurrence_positions sha form (tl_seen_bits lx) (tl_seen_hashes lx))"

definition form_occurs :: "(nat list \<Rightarrow> nat list) \<Rightarrow> typo_lexicon \<Rightarrow> ustr \<Rightarrow> bool" where
  "form_occurs sha lx form \<longleftrightarrow>
     list_ex (form_occurs_as sha lx) [form, map (\<lambda>c. if c = YO then YE else c) form]"

subsection \<open>Edits\<close>

record edit =
  ed_operation :: operation
  ed_position :: nat
  ed_letter :: ustr

definition apply_edit :: "edit \<Rightarrow> ustr \<Rightarrow> ustr" where
  "apply_edit e word =
     (let p = ed_position e
      in case ed_operation e of
        Transposition \<Rightarrow> take p word @ [word ! (p + 1)] @ [word ! p] @ drop (p + TYPO_TRANSPOSED_LETTERS) word
      | Deletion \<Rightarrow> take p word @ drop (p + 1) word
      | Insertion \<Rightarrow> take p word @ ed_letter e @ drop p word
      | Substitution \<Rightarrow> take p word @ ed_letter e @ drop (p + 1) word)"

definition edit_sources :: "edit \<Rightarrow> nat \<Rightarrow> nat option list" where
  "edit_sources e len =
     (let order = map Some [0..<len]; p = ed_position e
      in case ed_operation e of
        Transposition \<Rightarrow> order[p := order ! (p + 1), p + 1 := order ! p]
      | Deletion \<Rightarrow> take p order @ drop (p + 1) order
      | Insertion \<Rightarrow> take p order @ [None] @ drop p order
      | Substitution \<Rightarrow> order[p := None])"

definition near :: "(uchar \<Rightarrow> ustr) \<Rightarrow> uchar \<Rightarrow> uchar \<Rightarrow> bool" where
  "near neighbours letter extra \<longleftrightarrow> extra = letter \<or> extra \<in> set (neighbours letter)"

definition brushed :: "(uchar \<Rightarrow> ustr) \<Rightarrow> ustr \<Rightarrow> nat \<Rightarrow> bool" where
  "brushed neighbours word p \<longleftrightarrow>
     list_ex (\<lambda>letter. near neighbours letter (word ! p))
       ((if 0 < p then [word ! (p - 1)] else []) @ (if p + 1 < length word then [word ! (p + 1)] else []))"

definition edits :: "ustr \<Rightarrow> ustr \<Rightarrow> (uchar \<Rightarrow> ustr) \<Rightarrow> edit list" where
  "edits word alphabet neighbours =
     map (\<lambda>p. \<lparr>ed_operation = Transposition, ed_position = p, ed_letter = []\<rparr>)
       (filter (\<lambda>p. word ! p \<noteq> word ! (p + 1)) [0..<length word - 1])
     @ map (\<lambda>p. \<lparr>ed_operation = Deletion, ed_position = p, ed_letter = []\<rparr>)
       (filter (brushed neighbours word) [0..<length word])
     @ concat (map (\<lambda>p. map (\<lambda>letter. \<lparr>ed_operation = Insertion, ed_position = p, ed_letter = [letter]\<rparr>) alphabet)
         [0..<length word + 1])
     @ concat (map (\<lambda>p. map (\<lambda>letter. \<lparr>ed_operation = Substitution, ed_position = p, ed_letter = [letter]\<rparr>)
           (neighbours (word ! p))) [0..<length word])"

subsection \<open>The judgement\<close>

record typo_candidate =
  tc_word :: ustr
  tc_weight :: nat
  tc_edits :: "edit list"

datatype typo_reason = Bad_Shape | Bad_Capital | Occurs | Other_Reading | Known_Elsewhere | No_Candidate | Rare | Ambiguous | Corrected

text \<open>A margin without a competitor is infinite, \<open>None\<close> here.\<close>

record typo_choice =
  ch_word :: ustr
  ch_edit :: edit
  ch_weight :: nat
  ch_candidates :: nat
  ch_margin :: "real option"

record typo_judgement =
  tj_reason :: typo_reason
  tj_choice :: "typo_choice option"
  tj_candidates :: nat

definition plain_judgement :: "typo_reason \<Rightarrow> typo_judgement" where
  "plain_judgement why = \<lparr>tj_reason = why, tj_choice = None, tj_candidates = 0\<rparr>"

definition count_order :: "typo_judgement \<Rightarrow> int" where
  "count_order j = (case tj_choice j of None \<Rightarrow> -1
     | Some c \<Rightarrow> \<lfloor>log 10 (exp (real (ch_weight c) / TYPO_COUNT_LOG_SCALE))\<rfloor>)"

definition word_shape :: "ustr \<Rightarrow> ustr \<Rightarrow> bool" where
  "word_shape word alphabet \<longleftrightarrow>
     TYPO_MIN_LETTERS \<le> length word \<and> set (casefold word) \<subseteq> set alphabet
     \<and> drop 1 word = drop 1 (casefold word) \<and> length (casefold word) = length word"

definition log_sum :: "real list \<Rightarrow> real" where
  "log_sum vs = (let high = Max (set vs) in high + ln (sum_list (map (\<lambda>v. exp (v - high)) vs)))"

definition add_candidate ::
  "(ustr \<Rightarrow> nat option) \<Rightarrow> ustr \<Rightarrow> edit \<Rightarrow> (ustr, nat option) odict \<times> (ustr, edit list) odict
    \<Rightarrow> (ustr, nat option) odict \<times> (ustr, edit list) odict" where
  "add_candidate weight_of lowered e state =
     (let (looked, found) = state; word = apply_edit e lowered;
          looked' = (if map_of looked word = None then AList.update word (weight_of word) looked else looked)
      in (looked', case map_of looked' word of
            Some (Some _) \<Rightarrow> AList.update word ((case map_of found word of None \<Rightarrow> [] | Some es \<Rightarrow> es) @ [e]) found
          | _ \<Rightarrow> found))"

definition typo_candidates :: "typo_lexicon \<Rightarrow> (uchar \<Rightarrow> ustr) \<Rightarrow> ustr \<Rightarrow> typo_candidate list" where
  "typo_candidates lx neighbours lowered =
     (let (looked, found) = fold (add_candidate (form_weight lx) lowered) (edits lowered (tl_alphabet lx) neighbours) ([], [])
      in List.map_filter (\<lambda>(word, w). map_option (\<lambda>n. \<lparr>tc_word = word, tc_weight = n,
           tc_edits = (case map_of found word of None \<Rightarrow> [] | Some es \<Rightarrow> es)\<rparr>) w) looked)"

definition candidate_total :: "typo_policy \<Rightarrow> typo_candidate \<Rightarrow> real" where
  "candidate_total p c = real (tc_weight c) / TYPO_COUNT_LOG_SCALE + log_sum (map (\<lambda>e. tp_log_probability p (ed_operation e)) (tc_edits c))"

definition typo_decide :: "typo_policy \<Rightarrow> typo_candidate list \<Rightarrow> bool \<Rightarrow> typo_judgement" where
  "typo_decide p candidates capital =
     (let totals = map (candidate_total p) candidates
      in case max_by (\<lambda>i. (totals ! i, tc_word (candidates ! i))) [0..<length candidates] of
        None \<Rightarrow> plain_judgement No_Candidate
      | Some best \<Rightarrow>
         let others = take best totals @ drop (best + 1) totals;
             margin = (if others = [] then None else Some (totals ! best - log_sum others));
             chosen = candidates ! best;
             chosen_edit = the (max_by (\<lambda>e. tp_log_probability p (ed_operation e)) (tc_edits chosen));
             cased = (if capital then upper (take 1 (tc_word chosen)) @ drop 1 (tc_word chosen) else tc_word chosen);
             choice = \<lparr>ch_word = cased, ch_edit = chosen_edit, ch_weight = tc_weight chosen,
                ch_candidates = length candidates, ch_margin = margin\<rparr>;
             judgement = (\<lambda>why. \<lparr>tj_reason = why, tj_choice = Some choice, tj_candidates = length candidates\<rparr>)
         in if int (tc_weight chosen) < minimum_weight p then judgement Rare
            else if (case margin of None \<Rightarrow> False | Some m \<Rightarrow> m < ln (tp_posterior_ratio p)) then judgement Ambiguous
            else judgement Corrected)"

record typo_corrector =
  co_lexicons :: "string \<Rightarrow> typo_lexicon option"
  co_policy :: typo_policy
  co_neighbours :: "string \<Rightarrow> uchar \<Rightarrow> ustr"

definition typo_judge ::
  "(nat list \<Rightarrow> nat list) \<Rightarrow> typo_corrector \<Rightarrow> ustr \<Rightarrow> string \<Rightarrow> (string, ustr) odict \<Rightarrow> bool \<Rightarrow> (ustr \<Rightarrow> bool)
    \<Rightarrow> typo_judgement" where
  "typo_judge sha co word locale_name readings capital_allowed known =
     (case co_lexicons co locale_name of
        None \<Rightarrow> plain_judgement Bad_Shape
      | Some lx \<Rightarrow>
         if \<not> word_shape word (tl_alphabet lx) then plain_judgement Bad_Shape
         else
           let lowered = casefold word; capital = (lowered \<noteq> word)
           in if capital \<and> \<not> capital_allowed then plain_judgement Bad_Capital
              else if form_occurs sha lx lowered then plain_judgement Occurs
              else if list_ex (\<lambda>(other, reading). case co_lexicons co other of None \<Rightarrow> False
                     | Some other_lex \<Rightarrow> form_occurs sha other_lex (casefold reading)) readings
              then plain_judgement Other_Reading
              else if known word \<or> list_ex (\<lambda>(_, reading). known reading) readings then plain_judgement Known_Elsewhere
              else typo_decide (co_policy co) (typo_candidates lx (co_neighbours co locale_name) lowered) capital)"

text \<open>\<open>known_elsewhere\<close>; the lexicons are their word lists, the term tables too.\<close>

definition known_elsewhere ::
  "ustr list list \<Rightarrow> ustr list list \<Rightarrow> identifier_lexicon option \<Rightarrow> ustr list \<Rightarrow> ustr list \<Rightarrow> ustr \<Rightarrow> bool" where
  "known_elsewhere lexicons terms identifiers protected excluded text \<longleftrightarrow>
     (let lowered = casefold text;
          spellings = [normalize_word text, normalize_word (map (\<lambda>c. if c = YO then YE else c) text)]
      in list_ex (\<lambda>lexicon. list_ex (\<lambda>s. s \<in> set lexicon) spellings) lexicons
         \<or> list_ex (\<lambda>table. lowered \<in> set table) terms
         \<or> (case identifiers of None \<Rightarrow> False | Some lx \<Rightarrow> identifier_contains lx text)
         \<or> protected_token protected text
         \<or> lowered \<in> set excluded)"

subsection \<open>The keys of a correction\<close>

type_synonym key_templates = "(int \<times> ustr) \<Rightarrow> key_event option"

definition learn_key :: "key_event \<Rightarrow> nat \<times> ustr \<Rightarrow> key_templates \<Rightarrow> key_templates" where
  "learn_key e entry templates =
     (let (g, c) = entry in if length c = 1 \<and> isalpha c then templates((int g, c) \<mapsto> e) else templates)"

definition observe_template :: "key_event \<Rightarrow> key_templates \<Rightarrow> key_templates" where
  "observe_template e templates =
     (if \<not> ev_pressed e \<or> ev_synthetic e \<or> ev_control e \<or> ev_alt e \<or> ev_super_key e then templates
      else fold (learn_key e) (zip [0..<length (ev_characters e)] (ev_characters e)) templates)"

definition template_key :: "key_templates \<Rightarrow> int \<Rightarrow> ustr \<Rightarrow> int \<Rightarrow> key_event option" where
  "template_key templates g character typed_group =
     (case templates (g, character) of None \<Rightarrow> None
      | Some t \<Rightarrow> Some (t\<lparr>ev_pressed := True, ev_group := typed_group, ev_character := character_for t typed_group,
          ev_synthetic := False, ev_deferred := False, ev_foreign := False\<rparr>))"

text \<open>The loop over the letters of the corrected word and their sources; \<open>zip\<close> is strict.\<close>

fun keys_for :: "key_event list \<Rightarrow> int \<Rightarrow> int \<Rightarrow> key_templates \<Rightarrow> ustr \<Rightarrow> nat option list \<Rightarrow> key_event list option" where
  "keys_for typed g typed_group templates (wanted # word) (source # sources) =
     (case (case source of Some i \<Rightarrow> if character_for (typed ! i) g = [wanted] then Some (typed ! i)
                else template_key templates g [wanted] typed_group
            | None \<Rightarrow> template_key templates g [wanted] typed_group) of
        None \<Rightarrow> None
      | Some k \<Rightarrow> map_option ((#) k) (keys_for typed g typed_group templates word sources))"
| "keys_for typed g typed_group templates _ _ = Some []"

definition corrected_keys ::
  "key_event list \<Rightarrow> int \<Rightarrow> typo_choice \<Rightarrow> key_templates \<Rightarrow> py_error + key_event list option" where
  "corrected_keys typed g choice templates =
     (let sources = edit_sources (ch_edit choice) (length typed);
          typed_group = (case typed of [] \<Rightarrow> g | k # _ \<Rightarrow> ev_group k);
          result = keys_for typed g typed_group templates (ch_word choice) sources
      in if length sources \<noteq> length (ch_word choice) \<and> result \<noteq> None then Inl ValueError else Inr result)"

subsection \<open>The edits are the slips undone\<close>

text \<open>How a word \<open>w\<close> comes out as \<open>t\<close> by one slip of the fingers.\<close>

inductive slip :: "ustr \<Rightarrow> (uchar \<Rightarrow> ustr) \<Rightarrow> ustr \<Rightarrow> ustr \<Rightarrow> bool" for alphabet neighbours where
  swapped: "a \<noteq> b \<Longrightarrow> slip alphabet neighbours (u @ [b, a] @ v) (u @ [a, b] @ v)"
| excess: "u \<noteq> [] \<and> near neighbours (last u) x \<or> v \<noteq> [] \<and> near neighbours (hd v) x \<Longrightarrow>
    slip alphabet neighbours (u @ v) (u @ [x] @ v)"
| omitted: "x \<in> set alphabet \<Longrightarrow> slip alphabet neighbours (u @ [x] @ v) (u @ v)"
| mistyped: "x \<in> set (neighbours y) \<Longrightarrow> slip alphabet neighbours (u @ [x] @ v) (u @ [y] @ v)"

inductive_cases slipE: "slip alphabet neighbours w t"

lemma take_nth_drop: "p < length t \<Longrightarrow> t = take p t @ [t ! p] @ drop (p + 1) t"
  by (simp add: id_take_nth_drop)

lemma take_two_drop: "p + 1 < length t \<Longrightarrow> t = take p t @ [t ! p, t ! (p + 1)] @ drop (p + 2) t"
proof -
  assume "p + 1 < length t"
  then have "drop p t = [t ! p, t ! (p + 1)] @ drop (p + 2) t" by (simp add: Cons_nth_drop_Suc)
  then show ?thesis by (metis append_take_drop_id)
qed

lemma last_of_take: "0 < p \<Longrightarrow> p < length t \<Longrightarrow> last (take p t) = t ! (p - 1)"
  by (subst last_conv_nth) auto

lemma edits_slip:
  assumes "e \<in> set (edits t alphabet neighbours)"
  shows "slip alphabet neighbours (apply_edit e t) t"
proof -
  consider (swap) p where "p < length t - 1" "t ! p \<noteq> t ! (p + 1)" "e = \<lparr>ed_operation = Transposition, ed_position = p, ed_letter = []\<rparr>"
    | (delete) p where "p < length t" "brushed neighbours t p"
        "e = \<lparr>ed_operation = Deletion, ed_position = p, ed_letter = []\<rparr>"
    | (insert) p x where "p \<le> length t" "x \<in> set alphabet" "e = \<lparr>ed_operation = Insertion, ed_position = p, ed_letter = [x]\<rparr>"
    | (replace) p x where "p < length t" "x \<in> set (neighbours (t ! p))" "e = \<lparr>ed_operation = Substitution, ed_position = p, ed_letter = [x]\<rparr>"
    using assms by (auto simp: edits_def)
  then show ?thesis
  proof cases
    case swap
    then have "slip alphabet neighbours (take p t @ [t ! (p + 1), t ! p] @ drop (p + 2) t) (take p t @ [t ! p, t ! (p + 1)] @ drop (p + 2) t)"
      by (intro swapped)
    with swap take_two_drop [of p t] show ?thesis by (simp add: apply_edit_def TYPO_TRANSPOSED_LETTERS_def)
  next
    case delete
    have "take p t \<noteq> [] \<and> near neighbours (last (take p t)) (t ! p) \<or> drop (p + 1) t \<noteq> [] \<and> near neighbours (hd (drop (p + 1) t)) (t ! p)"
      using delete(1,2) by (auto simp: brushed_def last_of_take hd_drop_conv_nth split: if_splits)
    from excess [OF this, of alphabet] delete take_nth_drop [of p t] show ?thesis by (simp add: apply_edit_def)
  next
    case insert
    from omitted [OF insert(2), of neighbours "take p t" "drop p t"] insert show ?thesis by (simp add: apply_edit_def)
  next
    case replace
    from mistyped [where y = "t ! p" and neighbours = neighbours, OF replace(2), of alphabet "take p t" "drop (p + 1) t"] replace take_nth_drop [of p t] show ?thesis
      by (simp add: apply_edit_def)
  qed
qed

lemma edits_intros:
  "p + 1 < length t \<Longrightarrow> t ! p \<noteq> t ! (p + 1) \<Longrightarrow>
     \<lparr>ed_operation = Transposition, ed_position = p, ed_letter = []\<rparr> \<in> set (edits t alphabet neighbours)"
  "p < length t \<Longrightarrow> brushed neighbours t p \<Longrightarrow>
     \<lparr>ed_operation = Deletion, ed_position = p, ed_letter = []\<rparr> \<in> set (edits t alphabet neighbours)"
  "p \<le> length t \<Longrightarrow> x \<in> set alphabet \<Longrightarrow>
     \<lparr>ed_operation = Insertion, ed_position = p, ed_letter = [x]\<rparr> \<in> set (edits t alphabet neighbours)"
  "p < length t \<Longrightarrow> x \<in> set (neighbours (t ! p)) \<Longrightarrow>
     \<lparr>ed_operation = Substitution, ed_position = p, ed_letter = [x]\<rparr> \<in> set (edits t alphabet neighbours)"
  by (auto simp: edits_def simp del: upt_Suc)

lemma slip_edits:
  assumes "slip alphabet neighbours w t"
  shows "\<exists>e\<in>set (edits t alphabet neighbours). apply_edit e t = w"
  using assms
proof cases
  case (swapped a b u v)
  then have "\<lparr>ed_operation = Transposition, ed_position = length u, ed_letter = []\<rparr> \<in> set (edits t alphabet neighbours)"
    by (intro edits_intros) (auto simp: nth_append)
  moreover have "apply_edit \<lparr>ed_operation = Transposition, ed_position = length u, ed_letter = []\<rparr> t = w"
    using swapped by (simp add: apply_edit_def TYPO_TRANSPOSED_LETTERS_def nth_append)
  ultimately show ?thesis by blast
next
  case (excess u x v)
  have "brushed neighbours t (length u)"
  proof (cases "u = []")
    case True
    with excess show ?thesis by (cases v) (auto simp: brushed_def)
  next
    case False
    then have "t ! (length u - 1) = last u" using excess by (simp add: nth_append last_conv_nth)
    with excess False show ?thesis by (cases v) (auto simp: brushed_def nth_append)
  qed
  then have "\<lparr>ed_operation = Deletion, ed_position = length u, ed_letter = []\<rparr> \<in> set (edits t alphabet neighbours)"
    using excess by (intro edits_intros) auto
  moreover have "apply_edit \<lparr>ed_operation = Deletion, ed_position = length u, ed_letter = []\<rparr> t = w"
    using excess by (simp add: apply_edit_def)
  ultimately show ?thesis by blast
next
  case (omitted x u v)
  then have "\<lparr>ed_operation = Insertion, ed_position = length u, ed_letter = [x]\<rparr> \<in> set (edits t alphabet neighbours)"
    by (intro edits_intros) auto
  moreover have "apply_edit \<lparr>ed_operation = Insertion, ed_position = length u, ed_letter = [x]\<rparr> t = w"
    using omitted by (simp add: apply_edit_def)
  ultimately show ?thesis by blast
next
  case (mistyped x y u v)
  then have "\<lparr>ed_operation = Substitution, ed_position = length u, ed_letter = [x]\<rparr> \<in> set (edits t alphabet neighbours)"
    by (intro edits_intros) (auto simp: nth_append)
  moreover have "apply_edit \<lparr>ed_operation = Substitution, ed_position = length u, ed_letter = [x]\<rparr> t = w"
    using mistyped by (simp add: apply_edit_def)
  ultimately show ?thesis by blast
qed

lemma edits_exact: "(\<lambda>e. apply_edit e t) ` set (edits t alphabet neighbours) = {w. slip alphabet neighbours w t}"
  using edits_slip slip_edits by blast

subsection \<open>The candidates\<close>

lemma add_candidate_looked:
  "fst (add_candidate weight_of t e state) =
     (if map_of (fst state) (apply_edit e t) = None then AList.update (apply_edit e t) (weight_of (apply_edit e t)) (fst state) else fst state)"
  by (cases state) (simp add: add_candidate_def Let_def)

lemma fold_looked:
  assumes "\<forall>w n. map_of (fst state) w = Some n \<longrightarrow> n = weight_of w" and "dict_ok (fst state)"
  shows "map_of (fst (fold (add_candidate weight_of t) es state)) w =
      (if w \<in> (\<lambda>e. apply_edit e t) ` set es \<or> map_of (fst state) w \<noteq> None then Some (weight_of w) else None)
    \<and> dict_ok (fst (fold (add_candidate weight_of t) es state))"
  using assms
proof (induction es arbitrary: state)
  case Nil
  then show ?case by auto
next
  case (Cons e es)
  let ?state = "add_candidate weight_of t e state"
  have "\<forall>w n. map_of (fst ?state) w = Some n \<longrightarrow> n = weight_of w" "dict_ok (fst ?state)"
    using Cons.prems by (auto simp: add_candidate_looked update_conv')
  note IH = Cons.IH [OF this]
  have "map_of (fst ?state) w = None \<longleftrightarrow> map_of (fst state) w = None \<and> w \<noteq> apply_edit e t"
    by (auto simp: add_candidate_looked update_conv')
  with IH show ?case by auto
qed

lemma candidate_pairs:
  "(\<lambda>c. (tc_word c, tc_weight c)) ` set (List.map_filter (\<lambda>x. map_option (\<lambda>n. \<lparr>tc_word = fst x, tc_weight = n, tc_edits = f (fst x)\<rparr>)
     (snd x)) looked) = {(w, n). (w, Some n) \<in> set looked}"
  by (induction looked) (auto simp: map_filter_simps split: option.splits)

lemma typo_candidates_exact:
  "(\<lambda>c. (tc_word c, tc_weight c)) ` set (typo_candidates lx neighbours t) =
     {(w, n). slip (tl_alphabet lx) neighbours w t \<and> form_weight lx w = Some n}"
proof -
  define result where "result = fold (add_candidate (form_weight lx) t) (edits t (tl_alphabet lx) neighbours) ([], [])"
  have looked: "map_of (fst result) w = (if slip (tl_alphabet lx) neighbours w t then Some (form_weight lx w) else None)" for w
    using fold_looked [of "([], [])" "form_weight lx" t "edits t (tl_alphabet lx) neighbours" w]
    by (simp add: result_def edits_exact)
  have ok: "dict_ok (fst result)"
    using fold_looked [of "([], [])" "form_weight lx" t "edits t (tl_alphabet lx) neighbours"] by (simp add: result_def)
  have "(w, Some n) \<in> set (fst result) \<longleftrightarrow> slip (tl_alphabet lx) neighbours w t \<and> form_weight lx w = Some n" for w n
  proof -
    have "(w, Some n) \<in> set (fst result) \<longleftrightarrow> map_of (fst result) w = Some (Some n)"
      using ok by (simp add: dict_ok_def)
    then show ?thesis by (simp add: looked)
  qed
  then show ?thesis
    unfolding typo_candidates_def result_def [symmetric] split_beta Let_def
    using candidate_pairs [of "\<lambda>w. case map_of (snd result) w of None \<Rightarrow> [] | Some es \<Rightarrow> es" "fst result"]
    by (simp add: split_beta) auto
qed

subsection \<open>The noisy channel\<close>

lemma log_sum_ln: "vs \<noteq> [] \<Longrightarrow> log_sum vs = ln (sum_list (map exp vs)) \<and> 0 < sum_list (map exp vs)"
proof -
  assume "vs \<noteq> []"
  define h where "h = Max (set vs)"
  have scaled: "sum_list (map (\<lambda>v. exp (v - h)) xs) = sum_list (map exp xs) / exp h" for xs
    by (induction xs) (simp_all add: exp_diff add_divide_distrib)
  have pos: "0 < sum_list (map exp xs)" if "xs \<noteq> []" for xs :: "real list"
    using that by (cases xs) (auto intro!: add_pos_nonneg sum_list_nonneg)
  then have "0 < sum_list (map exp vs)" using \<open>vs \<noteq> []\<close> by blast
  then show ?thesis by (simp add: log_sum_def Let_def h_def [symmetric] scaled ln_div)
qed

lemma sum_list_without: "i < length xs \<Longrightarrow> sum_list (map f (take i xs @ drop (i + 1) xs)) = sum_list (map f xs) - (f (xs ! i) :: real)"
proof (induction xs arbitrary: i)
  case (Cons x xs)
  then show ?case by (cases i) auto
qed simp

text \<open>The posterior of a candidate, up to the factor all share.\<close>

definition posterior :: "typo_policy \<Rightarrow> typo_candidate \<Rightarrow> real" where
  "posterior p c = exp (candidate_total p c)"

lemma typo_decide_corrected:
  assumes "tj_reason (typo_decide p cs capital) = Corrected" and "0 < tp_posterior_ratio p"
  obtains c choice where "c \<in> set cs" "tj_choice (typo_decide p cs capital) = Some choice"
    "ch_word choice = (if capital then upper (take 1 (tc_word c)) @ drop 1 (tc_word c) else tc_word c)"
    "minimum_weight p \<le> int (tc_weight c)"
    "tp_posterior_ratio p * (sum_list (map (posterior p) cs) - posterior p c) \<le> posterior p c"
proof -
  let ?totals = "map (candidate_total p) cs"
  obtain i where i: "max_by (\<lambda>i. (?totals ! i, tc_word (cs ! i))) [0..<length cs] = Some i"
    using assms(1) by (cases "max_by (\<lambda>i. (?totals ! i, tc_word (cs ! i))) [0..<length cs]")
      (auto simp: typo_decide_def plain_judgement_def)
  from max_by_in [OF i] have len: "i < length cs" by simp
  let ?others = "take i ?totals @ drop (i + 1) ?totals"
  obtain choice where choice: "tj_choice (typo_decide p cs capital) = Some choice"
    "ch_word choice = (if capital then upper (take 1 (tc_word (cs ! i))) @ drop 1 (tc_word (cs ! i)) else tc_word (cs ! i))"
    unfolding typo_decide_def Let_def i by (simp split: if_splits)
  have min: "minimum_weight p \<le> int (tc_weight (cs ! i))"
    using assms(1) unfolding typo_decide_def Let_def i by (simp split: if_splits)
  have margin: "?others \<noteq> [] \<Longrightarrow> ln (tp_posterior_ratio p) \<le> ?totals ! i - log_sum ?others"
    using assms(1) unfolding typo_decide_def Let_def i by (simp split: if_splits)
  have sum: "sum_list (map exp ?others) = sum_list (map (posterior p) cs) - posterior p (cs ! i)"
    using sum_list_without [of i ?totals exp] len by (simp add: posterior_def [abs_def] comp_def)
  have "tp_posterior_ratio p * sum_list (map exp ?others) \<le> posterior p (cs ! i)"
  proof (cases "?others = []")
    case False
    from log_sum_ln [OF this] have S: "log_sum ?others = ln (sum_list (map exp ?others))" "0 < sum_list (map exp ?others)" by auto
    define S where "S = sum_list (map exp ?others)"
    have "ln (tp_posterior_ratio p * S) \<le> candidate_total p (cs ! i)" and "0 < tp_posterior_ratio p * S"
      using S margin [OF False] assms(2) len by (simp_all add: ln_mult S_def)
    then have "tp_posterior_ratio p * S \<le> exp (candidate_total p (cs ! i))" by (metis exp_le_cancel_iff exp_ln)
    then show ?thesis by (simp add: posterior_def S_def)
  next
    case True
    show ?thesis unfolding True by (simp add: posterior_def)
  qed
  with that [of "cs ! i" choice] len choice min sum show thesis by simp
qed


text \<open>A list of one form, five times the only letter of its alphabet, and the letter typed six times.\<close>

definition sample_lexicon :: typo_lexicon where
  "sample_lexicon = \<lparr>tl_alphabet = [7], tl_forms = [1, 1, 1, 1, 1, 0], tl_starts = [0, 6], tl_weights = [9], tl_seen = [0],
     tl_seen_bits = 8, tl_seen_hashes = 1\<rparr>"

definition sample_corrector :: typo_corrector where
  "sample_corrector = \<lparr>co_lexicons = [''x'' \<mapsto> sample_lexicon], co_policy = shipped_typo_policy\<lparr>tp_candidate_min_count := 1\<rparr>,
     co_neighbours = (\<lambda>_ _. [])\<rparr>"

lemma sample_weight: "form_weight sample_lexicon (replicate n 7) = (if n = 5 then Some 9 else None)"
proof -
  have code: "coded_form sample_lexicon (replicate n 7) = (if n = 0 then None else Some (replicate n 1))"
    by (simp add: coded_form_def sample_lexicon_def Let_def list_ex_iff)
  have "stored_form sample_lexicon 0 = replicate 5 1" by (simp add: stored_form_def sample_lexicon_def numeral_eq_Suc)
  then have "weight_search sample_lexicon (replicate n 1) 0 1 = (if n = 5 then Some 9 else None)"
    by (subst weight_search.simps)
      (auto simp: Let_def weight_search.simps [of _ _ "Suc 0"] weight_search.simps [of _ _ 0 0] sample_lexicon_def replicate_eq_replicate)
  moreover have "length (tl_weights sample_lexicon) = 1" by (simp add: sample_lexicon_def)
  ultimately show ?thesis using code by (cases "n = 0") (simp_all add: form_weight_def)
qed

lemma sample_candidates: "\<exists>c. typo_candidates sample_lexicon (\<lambda>_. []) (replicate 6 7) = [c] \<and> tc_weight c = 9"
proof -
  have alphabet: "tl_alphabet sample_lexicon = [7]" by (simp add: sample_lexicon_def)
  have edits: "edits (replicate 6 7) [7] (\<lambda>_. []) =
      map (\<lambda>p. \<lparr>ed_operation = Deletion, ed_position = p, ed_letter = []\<rparr>) [0, 1, 2, 3, 4, 5]
      @ map (\<lambda>p. \<lparr>ed_operation = Insertion, ed_position = p, ed_letter = [7]\<rparr>) [0, 1, 2, 3, 4, 5, 6]"
    by (simp add: edits_def brushed_def near_def upt_rec numeral_eq_Suc)
  have applied: "apply_edit \<lparr>ed_operation = Deletion, ed_position = p, ed_letter = []\<rparr> (replicate 6 7) = replicate 5 7" if "p < 6" for p
    using that by (simp add: apply_edit_def flip: replicate_add)
  have applied': "apply_edit \<lparr>ed_operation = Insertion, ed_position = p, ed_letter = [7]\<rparr> (replicate 6 7) = replicate 7 7" if "p \<le> 6" for p
  proof -
    have "take p (replicate 6 7) @ [7] @ drop p (replicate 6 7) = replicate p 7 @ replicate 1 7 @ replicate (6 - p) (7::nat)"
      using that by simp
    also have "\<dots> = replicate 7 7" using that by (simp only: replicate_add [symmetric]) simp
    finally show ?thesis by (simp add: apply_edit_def)
  qed
  show ?thesis
    unfolding typo_candidates_def alphabet edits
    by (simp add: add_candidate_def applied applied' sample_weight map_filter_simps Let_def replicate_eq_replicate)
qed

lemma sample_judgement:
  shows "tj_reason (typo_judge (\<lambda>_. []) sample_corrector (replicate 6 7) ''x'' [] False (\<lambda>_. False)) = Corrected"
    and "casefold (replicate 6 7) = replicate 6 7"
proof -
  have "casefold_ch 7 = [7]" by (simp add: casefold_ch_def lower_ch_def letter_class_def)
  then have fold: "casefold (replicate n 7) = replicate n 7" for n
    by (induction n) (simp_all add: casefold_Cons)
  have shape: "word_shape (replicate 6 7) (tl_alphabet sample_lexicon)"
    by (simp add: word_shape_def fold TYPO_MIN_LETTERS_def sample_lexicon_def)
  have unseen: "\<not> form_occurs (\<lambda>_. []) sample_lexicon (replicate 6 7)"
    by (simp add: form_occurs_def form_occurs_as_def sample_weight YO_def)
      (simp add: occurrence_positions_def Let_def sample_lexicon_def)
  obtain c where c: "typo_candidates sample_lexicon (\<lambda>_. []) (replicate 6 7) = [c]" "tc_weight c = 9" using sample_candidates by blast
  show "tj_reason (typo_judge (\<lambda>_. []) sample_corrector (replicate 6 7) ''x'' [] False (\<lambda>_. False)) = Corrected"
    using shape unseen
    by (simp add: typo_judge_def sample_corrector_def fold c typo_decide_def minimum_weight_def Let_def)
  show "casefold (replicate 6 7) = replicate 6 7" by (rule fold)
qed


subsection \<open>The keys type the correction\<close>

definition templates_ok :: "key_templates \<Rightarrow> bool" where
  "templates_ok templates \<longleftrightarrow> (\<forall>g c e. templates (g, c) = Some e \<longrightarrow> character_for e g = c)"

lemma fold_templates:
  assumes "\<forall>(g, c)\<in>set pairs. character_for e (int g) = c" and "templates_ok templates"
  shows "templates_ok (fold (learn_key e) pairs templates)"
  using assms
proof (induction pairs arbitrary: templates)
  case (Cons p pairs)
  obtain g c where p: "p = (g, c)" by fastforce
  have "templates_ok (learn_key e p templates)"
    using Cons.prems by (auto simp: templates_ok_def learn_key_def p)
  with Cons.IH [OF _ this] Cons.prems(1) show ?case by (simp add: p)
qed simp

lemma templates_ok_observed: "templates_ok (fold observe_template es (\<lambda>_. None))"
proof -
  have step: "templates_ok (observe_template e t)" if "templates_ok t" for e t
  proof -
    have "\<forall>(g, c)\<in>set (zip [0..<length (ev_characters e)] (ev_characters e)). character_for e (int g) = c"
      by (auto simp: in_set_zip character_for_def)
    from fold_templates [OF this that] that show ?thesis
      unfolding observe_template_def by simp
  qed
  have "templates_ok (\<lambda>_. None)" by (simp add: templates_ok_def)
  then show ?thesis
    by (rule fold_invariant [where Q = "\<lambda>_. True" and P = templates_ok, OF TrueI]) (rule step)
qed

lemma keys_for_text:
  assumes "templates_ok templates"
  shows "keys_for typed g typed_group templates word sources = Some ks \<Longrightarrow> length sources = length word \<Longrightarrow>
    text_for_group ks g = word \<and> length ks = length word
    \<and> (\<forall>i<length word. \<forall>j. sources ! i = Some j \<and> character_for (typed ! j) g = [word ! i] \<longrightarrow> ks ! i = typed ! j)"
proof (induction word arbitrary: sources ks)
  case (Cons wanted word)
  obtain s rest where sources: "sources = s # rest" using Cons.prems(2) by (cases sources) auto
  have template: "character_for k g = [wanted]" if found: "template_key templates g [wanted] typed_group = Some k" for k
  proof -
    obtain t where t: "templates (g, [wanted]) = Some t" "ev_characters k = ev_characters t"
      using found by (auto simp: template_key_def split: option.splits)
    then have "character_for k g = character_for t g" by (simp add: character_for_def)
    with t assms show ?thesis by (simp add: templates_ok_def)
  qed
  let ?chosen = "case s of Some i \<Rightarrow> if character_for (typed ! i) g = [wanted] then Some (typed ! i)
      else template_key templates g [wanted] typed_group | None \<Rightarrow> template_key templates g [wanted] typed_group"
  obtain k more_keys where k: "ks = k # more_keys" "keys_for typed g typed_group templates word rest = Some more_keys" "?chosen = Some k"
    using Cons.prems(1) unfolding sources keys_for.simps by (cases ?chosen) auto
  have "character_for k g = [wanted]" "\<forall>j. s = Some j \<and> character_for (typed ! j) g = [wanted] \<longrightarrow> k = typed ! j"
    using k(3) template by (cases s; auto split: if_split_asm)+
  note k = k(1,2) this
  from Cons.IH [OF k(2)] Cons.prems(2) k show ?case
    by (auto simp: sources nth_Cons split: nat.splits)
qed simp

text \<open>C23: The keys of a correction type the corrected word in its layout, one key a letter, when the templates were
  learnt from key presses; a letter the user typed keeps the very key pressed for it.\<close>

theorem corrected_keys_type_word:
  assumes "corrected_keys typed g choice (fold observe_template es (\<lambda>_. None)) = Inr (Some ks)"
  shows "text_for_group ks g = ch_word choice \<and> length ks = length (ch_word choice)
    \<and> (\<forall>i<length ks. \<forall>j. edit_sources (ch_edit choice) (length typed) ! i = Some j
         \<and> character_for (typed ! j) g = [ch_word choice ! i] \<longrightarrow> ks ! i = typed ! j)"
proof -
  have "keys_for typed g (case typed of [] \<Rightarrow> g | k # _ \<Rightarrow> ev_group k) (fold observe_template es (\<lambda>_. None)) (ch_word choice)
      (edit_sources (ch_edit choice) (length typed)) = Some ks"
    and "length (edit_sources (ch_edit choice) (length typed)) = length (ch_word choice)"
    using assms by (auto simp: corrected_keys_def Let_def split: if_splits)
  from keys_for_text [OF templates_ok_observed this] show ?thesis by auto
qed

definition sample_key :: key_event where
  "sample_key = \<lparr>ev_pressed = True, ev_keycode = 38, ev_key_name = asc ''a'', ev_character = asc ''a'', ev_characters = [asc ''a''],
     ev_group = 0, ev_state = 0, ev_timestamp = 0, ev_synthetic = False, ev_deferred = False, ev_foreign = False\<rparr>"

theorem corrected_keys_type_word_witness:
  "\<exists>ks. corrected_keys [sample_key, sample_key] 0 \<lparr>ch_word = asc ''a'',
      ch_edit = \<lparr>ed_operation = Deletion, ed_position = 0, ed_letter = []\<rparr>, ch_weight = 0, ch_candidates = 1, ch_margin = None\<rparr>
      (fold observe_template [] (\<lambda>_. None)) = Inr (Some ks) \<and> text_for_group ks 0 = asc ''a''"
proof -
  let ?choice = "\<lparr>ch_word = asc ''a'', ch_edit = \<lparr>ed_operation = Deletion, ed_position = 0, ed_letter = []\<rparr>, ch_weight = 0,
    ch_candidates = 1, ch_margin = None\<rparr>"
  have run: "corrected_keys [sample_key, sample_key] 0 ?choice (fold observe_template [] (\<lambda>_. None)) = Inr (Some [sample_key])"
    by (simp add: corrected_keys_def edit_sources_def sample_key_def character_for_def asc_def)
  from corrected_keys_type_word [OF this] run show ?thesis by auto
qed

end
