(* ===== verification/Conventions.thy ===== *)
theory Conventions
  imports Py_Text
begin

text \<open>
  Two small modules. \<open>src/keyswitch/app_quirks.py\<close>: the applications in which a quote at the start of a word is
  a mention. \<open>src/keyswitch/russian_text.py\<close>: the noun form that agrees with a number; a number's printed form is
  written out for integers, and the \<open>repr\<close> of a fraction is a parameter.
\<close>

record mention_head =
  mh_setting :: ustr
  mh_applications :: "ustr list"
  mh_typed :: ustr
  mh_meant :: ustr

definition TELEGRAM_QUOTE_MENTION :: mention_head where
  "TELEGRAM_QUOTE_MENTION =
     \<lparr>mh_setting = asc ''applications.telegram_quote_mention'',
      mh_applications = map asc [''telegram'', ''kotatogram'', ''ayugram'', ''unigram'', ''forkgram''],
      mh_typed = [0x22], mh_meant = [0x40]\<rparr>"

definition MENTION_HEADS :: "mention_head list" where "MENTION_HEADS = [TELEGRAM_QUOTE_MENTION]"

definition mention_applies :: "mention_head \<Rightarrow> ustr \<Rightarrow> ustr \<Rightarrow> ustr \<Rightarrow> bool" where
  "mention_applies head application typed meant \<longleftrightarrow>
     typed = mh_typed head \<and> meant = mh_meant head
     \<and> list_ex (\<lambda>candidate. occurs_in candidate (casefold application)) (mh_applications head)"

definition find_mention_head :: "(ustr \<Rightarrow> bool) \<Rightarrow> ustr \<Rightarrow> ustr \<Rightarrow> ustr \<Rightarrow> mention_head option" where
  "find_mention_head enabled application typed meant =
     List.find (\<lambda>head. mention_applies head application typed meant \<and> enabled (mh_setting head)) MENTION_HEADS"

text \<open>\<open>str\<close> of a natural number.\<close>

fun digits_of :: "nat \<Rightarrow> ustr" where
  "digits_of n = (if n < 10 then [0x30 + n] else digits_of (n div 10) @ [0x30 + n mod 10])"

declare digits_of.simps [simp del]

definition russian_number :: "(real \<Rightarrow> ustr) \<Rightarrow> real \<Rightarrow> ustr" where
  "russian_number float_repr v =
     (if v \<in> \<int> then (if v < 0 then [0x2D] else []) @ digits_of (nat \<bar>\<lfloor>v\<rfloor>\<bar>)
      else map (\<lambda>c. if c = 0x2E then 0x2C else c) (float_repr v))"

definition quantity :: "(real \<Rightarrow> ustr) \<Rightarrow> real \<Rightarrow> ustr \<times> ustr \<times> ustr \<Rightarrow> ustr" where
  "quantity float_repr v forms =
     (let (one, few, many) = forms; written = russian_number float_repr v; count = nat \<bar>\<lfloor>v\<rfloor>\<bar>
      in if v \<notin> \<int> then written @ [0x20] @ few
         else if count mod 10 = 1 \<and> count mod 100 \<noteq> 11 then written @ [0x20] @ one
         else if count mod 10 \<in> {2, 3, 4} \<and> count mod 100 \<notin> {12, 13, 14} then written @ [0x20] @ few
         else written @ [0x20] @ many)"

lemma digits_of_int: "py_int (digits_of n) = Some (int n)"
proof -
  have step: "digits_value (digits_of n @ s) m b = digits_value s (m * 10 ^ length (digits_of n) + int n) True" for s m b
  proof (induction n arbitrary: s m b rule: digits_of.induct)
    case (1 n)
    show ?case
    proof (cases "n < 10")
      case True
      then show ?thesis by (simp add: digits_of.simps [of n] isdecimal_ch_def algebra_simps)
    next
      case False
      define q where "q = n div 10"
      define r where "r = n mod 10"
      have "n = 10 * q + r" and r: "r \<le> 9" by (simp_all add: q_def r_def)
      then have n: "int n = 10 * int q + int r" by presburger
      have printed: "digits_of n = digits_of q @ [0x30 + r]" using False by (simp add: digits_of.simps [of n] q_def r_def)
      have "digits_value (digits_of q @ [0x30 + r] @ s) m b
          = digits_value s (10 * (m * 10 ^ length (digits_of q) + int q) + int r) True"
        using 1 [OF False, of "[0x30 + r] @ s" m b] r by (simp add: q_def [symmetric] isdecimal_ch_def)
      then show ?thesis unfolding printed n by (simp add: algebra_simps)
    qed
  qed
  have dec: "list_all isdecimal_ch (digits_of n)"
  proof (induction n rule: digits_of.induct)
    case (1 n)
    then show ?case by (cases "n < 10") (simp_all add: digits_of.simps [of n] isdecimal_ch_def [abs_def])
  qed
  have nonempty: "digits_of n \<noteq> []" by (subst digits_of.simps) simp
  have "\<not> isspace_ch c" if "isdecimal_ch c" for c using that by (auto simp: isspace_ch_def isdecimal_ch_def)
  then have "strip (digits_of n) = digits_of n" using dec by (intro strip_no_space) (auto simp: list_all_iff)
  with dec nonempty step [of "[]" 0 False] show ?thesis
    by (cases "digits_of n") (auto simp: py_int_def isdecimal_ch_def)
qed

end
