(* ===== verification/X11_Injection.thy ===== *)
theory X11_Injection
  imports Key_Event Complex_Main
begin

text \<open>
  \<open>src/keyswitch/x11_backend.py\<close>: how an event of the X server becomes a key event, and how a correction is typed
  with XTest. The keyboard map (\<open>XkbKeycodeToKeysym\<close>, \<open>XkbLookupKeySym\<close>, \<open>xkb_keysym_to_utf32\<close>) is a parameter, and so is
  what the server answers to each request. The abstract specification at the end is a text field in front of such a
  keyboard: a press types the character of the locked group under Shift and Caps Lock, BackSpace erases one character.
\<close>

definition XKB_GROUP_STATE_SHIFT :: nat where "XKB_GROUP_STATE_SHIFT = 13"
definition XKB_GROUP_STATE_MASK :: int where "XKB_GROUP_STATE_MASK = 3"
definition MAX_UNICODE_CODEPOINT :: nat where "MAX_UNICODE_CODEPOINT = 0x10FFFF"
definition XRECORD_EVENT_TYPE_MASK :: int where "XRECORD_EVENT_TYPE_MASK = 0x7F"
definition X11_KEY_PRESS :: int where "X11_KEY_PRESS = 2"
definition X11_KEY_RELEASE :: int where "X11_KEY_RELEASE = 3"
definition X11_BUTTON_PRESS :: int where "X11_BUTTON_PRESS = 4"
definition X11_WHEEL_BUTTONS :: "int list" where "X11_WHEEL_BUTTONS = [4, 5, 6, 7]"
definition MIN_INJECTION_DEADLINE_SECONDS :: real where "MIN_INJECTION_DEADLINE_SECONDS = 1"
definition INJECTION_SECONDS_PER_EVENT :: real where "INJECTION_SECONDS_PER_EVENT = 2 / 100"

section \<open>What a key types\<close>

record x_keymap =
  km_keysym :: "int \<Rightarrow> int \<Rightarrow> nat \<Rightarrow> nat"
  km_lookup :: "int \<Rightarrow> int \<Rightarrow> nat option"
  km_utf32 :: "nat \<Rightarrow> nat"
  km_name :: "int \<Rightarrow> ustr"

definition key_codepoint :: "x_keymap \<Rightarrow> int \<Rightarrow> int \<Rightarrow> int \<Rightarrow> nat" where
  "key_codepoint m keycode g state =
     (let keysym = km_keysym m keycode g (if state AND SHIFT_MASK \<noteq> 0 then 1 else 0)
      in if keysym \<noteq> 0 then km_utf32 m keysym
         else case km_lookup m keycode
                     ((state AND NOT (push_bit XKB_GROUP_STATE_SHIFT XKB_GROUP_STATE_MASK))
                        OR push_bit XKB_GROUP_STATE_SHIFT (g AND XKB_GROUP_STATE_MASK)) of
                None \<Rightarrow> 0
              | Some resolved \<Rightarrow> km_utf32 m resolved)"

definition shown_character :: "nat \<Rightarrow> bool \<Rightarrow> bool \<Rightarrow> ustr" where
  "shown_character codepoint shift caps =
     (if codepoint = 0 \<or> MAX_UNICODE_CODEPOINT < codepoint then []
      else let character = (if caps \<and> isalpha [codepoint] then if shift then lower [codepoint] else upper [codepoint]
                            else [codepoint])
           in if isprintable character \<or> occurs_in character [0x9, 0xA] then character else [])"

definition character_for_keycode :: "x_keymap \<Rightarrow> int \<Rightarrow> int \<Rightarrow> int \<Rightarrow> ustr" where
  "character_for_keycode m keycode g state =
     shown_character (key_codepoint m keycode g state) (state AND SHIFT_MASK \<noteq> 0) (state AND LOCK_MASK \<noteq> 0)"

section \<open>Events\<close>

type_synonym key_step = "bool \<times> int"

record expectation =
  ex_steps :: "key_step list"
  ex_deadline :: real

definition consume_expected :: "real \<Rightarrow> key_step \<Rightarrow> expectation \<Rightarrow> bool \<times> expectation" where
  "consume_expected now step ex0 =
     (let ex = (if ex_steps ex0 \<noteq> [] \<and> ex_deadline ex0 < now then ex0\<lparr>ex_steps := []\<rparr> else ex0)
      in case ex_steps ex of
           [] \<Rightarrow> (False, ex)
         | s # rest \<Rightarrow> if s = step then (True, ex\<lparr>ex_steps := rest\<rparr>) else (False, ex))"

record x_payload =
  xp_type :: int
  xp_detail :: int
  xp_time :: int
  xp_state :: int

definition POINTER_EVENT :: "int \<Rightarrow> key_event" where
  "POINTER_EVENT timestamp =
     \<lparr>ev_pressed = True, ev_keycode = 0, ev_key_name = asc ''Pointer'', ev_character = [], ev_characters = [[], []],
      ev_group = -1, ev_state = 0, ev_timestamp = timestamp, ev_synthetic = False, ev_deferred = False,
      ev_foreign = False\<rparr>"

definition decode_event ::
    "x_keymap \<Rightarrow> nat \<Rightarrow> real \<Rightarrow> x_payload \<Rightarrow> expectation \<Rightarrow> key_event option \<times> expectation" where
  "decode_event m group_count now p ex =
     (let event_type = xp_type p AND XRECORD_EVENT_TYPE_MASK; keycode = xp_detail p; state = xp_state p
      in if event_type = X11_BUTTON_PRESS then
           (if keycode \<in> set X11_WHEEL_BUTTONS then None else Some (POINTER_EVENT (xp_time p)), ex)
         else if event_type \<noteq> X11_KEY_PRESS \<and> event_type \<noteq> X11_KEY_RELEASE then (None, ex)
         else let pressed = (event_type = X11_KEY_PRESS);
                  g = drop_bit XKB_GROUP_STATE_SHIFT state AND XKB_GROUP_STATE_MASK;
                  characters = map (\<lambda>c. character_for_keycode m keycode (int c) state) [0..<group_count];
                  typed = (if g < int (length characters) then characters ! nat g else []);
                  name = km_name m keycode;
                  character = (if name = asc ''Return'' then [0xA]
                               else if name = asc ''Tab'' \<or> name = asc ''ISO_Left_Tab'' then [0x9] else typed);
                  (synthetic, ex') = consume_expected now (pressed, keycode) ex
              in (Some \<lparr>ev_pressed = pressed, ev_keycode = keycode, ev_key_name = name, ev_character = character,
                    ev_characters = characters, ev_group = g, ev_state = state, ev_timestamp = xp_time p,
                    ev_synthetic = synthetic, ev_deferred = False, ev_foreign = False\<rparr>, ex'))"

section \<open>The keys of a correction\<close>

datatype x11_error =
    Not_Started
  | Bad_Kept_Tail
  | No_Keyboard_State
  | No_Keycodes
  | Bad_Literal_Group
  | Group_Not_Locked int
  | Key_Rejected int

record x_server =
  xs_control :: bool
  xs_locked_mods :: "int option"
  xs_backspace :: int
  xs_shift :: int

text \<open>The local functions \<open>tap\<close> and \<open>shifted\<close>.\<close>

definition tap :: "int \<Rightarrow> int \<Rightarrow> bool \<Rightarrow> key_step list" where
  "tap shift_keycode keycode is_shifted =
     (if is_shifted then [(True, shift_keycode)] else []) @ [(True, keycode), (False, keycode)]
     @ (if is_shifted then [(False, shift_keycode)] else [])"

definition shifted :: "bool \<Rightarrow> key_event \<Rightarrow> int \<Rightarrow> bool" where
  "shifted caps_lock stroke g \<longleftrightarrow>
     ev_shift stroke \<noteq> (isalpha (character_for stroke g) \<and> ev_caps_lock stroke \<noteq> caps_lock)"

definition tapped :: "int \<Rightarrow> bool \<Rightarrow> int \<Rightarrow> key_event list \<Rightarrow> key_step list" where
  "tapped shift_keycode caps_lock g strokes =
     concat (map (\<lambda>stroke. tap shift_keycode (ev_keycode stroke) (shifted caps_lock stroke g)) strokes)"

record injection =
  in_sequence :: "key_step list"
  in_target_literal :: "key_step list"
  in_source_literal :: "key_step list"
  in_kept :: "key_step list"
  in_kept_literal :: "key_step list"
  in_late :: "key_step list"
  in_literal_group :: int
  in_final_group :: int

text \<open>The signs and the boundary after the word.\<close>

definition literal_keys :: "key_event list \<Rightarrow> key_event option \<Rightarrow> key_event list" where
  "literal_keys trailing boundary = trailing @ (case boundary of None \<Rightarrow> [] | Some b \<Rightarrow> [b])"

text \<open>The sequences of keys, in the order the method builds them.\<close>

definition injection_keys ::
    "x_server \<Rightarrow> bool \<Rightarrow> key_event list \<Rightarrow> int \<Rightarrow> key_event list \<Rightarrow> int \<Rightarrow> int \<Rightarrow> key_event list \<Rightarrow> int \<Rightarrow> int option
      \<Rightarrow> injection" where
  "injection_keys srv caps_lock strokes target literal literal_group rendered_source late kept_tail erased =
     (let sk = xs_shift srv;
          delete_count = (case erased of None \<Rightarrow> int (length strokes) | Some n \<Rightarrow> n)
                           + int (length literal) + int (length late);
          final = (if kept_tail \<noteq> 0 then rendered_source else target);
          converted = take (length strokes - nat kept_tail) strokes;
          kept = drop (length strokes - nat kept_tail) strokes;
          preserve = list_ex (\<lambda>stroke. character_for stroke target \<noteq> ev_character stroke) literal;
          typed_literal = tapped sk caps_lock literal_group literal
      in \<lparr>in_sequence = concat (replicate (nat delete_count) (tap sk (xs_backspace srv) False))
                          @ tapped sk caps_lock target converted,
          in_target_literal = (if preserve \<or> kept_tail \<noteq> 0 then [] else typed_literal),
          in_source_literal = (if preserve \<and> kept_tail = 0 then typed_literal else []),
          in_kept = tapped sk caps_lock final kept,
          in_kept_literal = (if kept_tail \<noteq> 0 then typed_literal else []),
          in_late = tapped sk caps_lock final late,
          in_literal_group = literal_group,
          in_final_group = final\<rparr>)"

definition plan_injection ::
    "x_server \<Rightarrow> nat \<Rightarrow> key_event list \<Rightarrow> int \<Rightarrow> key_event option \<Rightarrow> int option \<Rightarrow> key_event list \<Rightarrow> key_event list
      \<Rightarrow> int \<Rightarrow> int option \<Rightarrow> x11_error + injection" where
  "plan_injection srv group_count strokes target boundary source late trailing kept_tail erased =
     (if \<not> xs_control srv then Inl Not_Started
      else if kept_tail < 0 \<or> kept_tail \<noteq> 0 \<and> (int (length strokes) \<le> kept_tail \<or> source = None) then Inl Bad_Kept_Tail
      else case xs_locked_mods srv of None \<Rightarrow> Inl No_Keyboard_State | Some mods \<Rightarrow>
        if xs_backspace srv = 0 \<or> xs_shift srv = 0 then Inl No_Keycodes
        else let literal = literal_keys trailing boundary;
                 rendered_source = (case source of Some g \<Rightarrow> g
                                    | None \<Rightarrow> (case strokes of [] \<Rightarrow> target | s # _ \<Rightarrow> ev_group s));
                 literal_group = (case literal of [] \<Rightarrow> rendered_source | s # _ \<Rightarrow> ev_group s)
             in if \<not> (0 \<le> literal_group \<and> literal_group < int group_count)
                   \<or> list_ex (\<lambda>stroke. ev_group stroke \<noteq> literal_group) literal then Inl Bad_Literal_Group
                else Inr (injection_keys srv (mods AND LOCK_MASK \<noteq> 0) strokes target literal literal_group
                            rendered_source late kept_tail erased))"

text \<open>The steps the hook must take for its own, in the order they are appended.\<close>

definition expected_steps :: "injection \<Rightarrow> key_step list" where
  "expected_steps p =
     in_sequence p @ in_target_literal p @ in_source_literal p @ in_kept p @ in_kept_literal p"

datatype x_request = Lock_Group int | Fake_Key bool int

definition fake_keys :: "key_step list \<Rightarrow> x_request list" where
  "fake_keys steps = map (\<lambda>(pressed, keycode). Fake_Key pressed keycode) steps"

definition injection_requests :: "int \<Rightarrow> bool \<Rightarrow> injection \<Rightarrow> x_request list" where
  "injection_requests target has_kept p =
     [Lock_Group target] @ fake_keys (in_sequence p) @ fake_keys (in_target_literal p)
     @ (if in_source_literal p \<noteq> []
        then [Lock_Group (in_literal_group p)] @ fake_keys (in_source_literal p) @ [Lock_Group target] else [])
     @ (if has_kept
        then [Lock_Group (in_final_group p)] @ fake_keys (in_kept p) @ fake_keys (in_kept_literal p) else [])
     @ fake_keys (in_late p)"

text \<open>The server is asked request by request until it refuses one.\<close>

fun request_error :: "x_request \<Rightarrow> x11_error" where
  "request_error (Lock_Group g) = Group_Not_Locked g"
| "request_error (Fake_Key _ keycode) = Key_Rejected keycode"

fun perform_requests :: "(x_request list \<Rightarrow> x_request \<Rightarrow> bool) \<Rightarrow> x_request list \<Rightarrow> x_request list \<Rightarrow> x_request list \<times> x11_error option" where
  "perform_requests accepts done_before [] = (done_before, None)"
| "perform_requests accepts done_before (r # rs) =
     (if accepts done_before r then perform_requests accepts (done_before @ [r]) rs
      else (done_before, Some (request_error r)))"

definition inject_correction ::
    "x_server \<Rightarrow> nat \<Rightarrow> (x_request list \<Rightarrow> x_request \<Rightarrow> bool) \<Rightarrow> real \<Rightarrow> key_event list \<Rightarrow> int \<Rightarrow> key_event option
      \<Rightarrow> int option \<Rightarrow> key_event list \<Rightarrow> key_event list \<Rightarrow> int \<Rightarrow> int option \<Rightarrow> expectation
      \<Rightarrow> expectation \<times> x_request list \<times> (x11_error + int)" where
  "inject_correction srv group_count accepts now strokes target boundary source late trailing kept_tail erased ex =
     (case plan_injection srv group_count strokes target boundary source late trailing kept_tail erased of
        Inl e \<Rightarrow> (ex, [], Inl e)
      | Inr p \<Rightarrow>
          let steps = expected_steps p;
              waiting = \<lparr>ex_steps = ex_steps ex @ steps,
                         ex_deadline = now + max MIN_INJECTION_DEADLINE_SECONDS
                                                 (real (length steps) * INJECTION_SECONDS_PER_EVENT)\<rparr>
          in case perform_requests accepts [] (injection_requests target (kept_tail \<noteq> 0) p) of
               (performed, None) \<Rightarrow> (waiting, performed, Inr 0)
             | (performed, Some e) \<Rightarrow> (waiting\<lparr>ex_steps := []\<rparr>, performed, Inl e))"


section \<open>A text field in front of the keyboard\<close>

record screen =
  sc_group :: int
  sc_shift :: bool
  sc_text :: ustr

definition key_state :: "bool \<Rightarrow> bool \<Rightarrow> int" where
  "key_state shift caps = (if shift then SHIFT_MASK else 0) OR (if caps then LOCK_MASK else 0)"

fun screen_step :: "x_keymap \<Rightarrow> x_server \<Rightarrow> bool \<Rightarrow> x_request \<Rightarrow> screen \<Rightarrow> screen" where
  "screen_step m srv caps (Lock_Group g) s = s\<lparr>sc_group := g\<rparr>"
| "screen_step m srv caps (Fake_Key pressed k) s =
     (if k = xs_shift srv then s\<lparr>sc_shift := pressed\<rparr>
      else if \<not> pressed then s
      else if k = xs_backspace srv then s\<lparr>sc_text := butlast (sc_text s)\<rparr>
      else s\<lparr>sc_text := sc_text s @ character_for_keycode m k (sc_group s) (key_state (sc_shift s) caps)\<rparr>)"

definition screen_run :: "x_keymap \<Rightarrow> x_server \<Rightarrow> bool \<Rightarrow> x_request list \<Rightarrow> screen \<Rightarrow> screen" where
  "screen_run m srv caps rs s = fold (screen_step m srv caps) rs s"

text \<open>
  A key whose character depends on the group and Shift alone, and whose letters come in pairs: the level with Shift is
  the capital of the level without. Every letter key of the two layouts is such a key.
\<close>

definition regular_key :: "x_keymap \<Rightarrow> int \<Rightarrow> bool" where
  "regular_key m k \<longleftrightarrow>
     (\<forall>g st. key_codepoint m k g st = key_codepoint m k g (st AND SHIFT_MASK))
     \<and> (\<forall>g. (isalpha [key_codepoint m k g 0] \<or> isalpha [key_codepoint m k g SHIFT_MASK])
             \<longrightarrow> upper [key_codepoint m k g 0] = [key_codepoint m k g SHIFT_MASK]
                 \<and> lower [key_codepoint m k g SHIFT_MASK] = [key_codepoint m k g 0]
                 \<and> isalpha [key_codepoint m k g 0] \<and> isalpha [key_codepoint m k g SHIFT_MASK])"

definition reported_key :: "x_keymap \<Rightarrow> nat \<Rightarrow> x_server \<Rightarrow> key_event \<Rightarrow> bool" where
  "reported_key m n srv e \<longleftrightarrow>
     ev_characters e = map (\<lambda>c. character_for_keycode m (ev_keycode e) (int c) (ev_state e)) [0..<n]
     \<and> ev_keycode e \<noteq> xs_shift srv \<and> ev_keycode e \<noteq> xs_backspace srv \<and> regular_key m (ev_keycode e)"

lemma masks: "SHIFT_MASK = 1" "LOCK_MASK = 2"
  by (simp_all add: SHIFT_MASK_def LOCK_MASK_def)

lemma and_shift: "st AND SHIFT_MASK = (if st AND SHIFT_MASK \<noteq> 0 then SHIFT_MASK else 0)"
  by (auto simp: masks and_one_eq)

lemma key_state_shift: "(key_state s c AND SHIFT_MASK \<noteq> 0) = s"
  by (auto simp: key_state_def masks)

lemma key_state_caps: "(key_state s c AND LOCK_MASK \<noteq> 0) = c"
  by (auto simp: key_state_def masks)

lemma screen_run_Nil [simp]: "screen_run m srv caps [] s = s"
  by (simp add: screen_run_def)

lemma screen_run_Cons [simp]: "screen_run m srv caps (r # rs) s = screen_run m srv caps rs (screen_step m srv caps r s)"
  by (simp add: screen_run_def)

lemma screen_run_append [simp]:
  "screen_run m srv caps (rs @ qs) s = screen_run m srv caps qs (screen_run m srv caps rs s)"
  by (simp add: screen_run_def)

lemma fake_keys_Nil [simp]: "fake_keys [] = []" by (simp add: fake_keys_def)

lemma fake_keys_Cons [simp]: "fake_keys (x # xs) = Fake_Key (fst x) (snd x) # fake_keys xs"
  by (simp add: fake_keys_def split_beta)

lemma fake_keys_append [simp]: "fake_keys (xs @ ys) = fake_keys xs @ fake_keys ys"
  by (simp add: fake_keys_def)

lemma alpha_printable: "isalpha_ch c \<Longrightarrow> isprintable_ch c"
proof -
  assume a: "isalpha_ch c"
  have "c \<le> 0x52F" "0x41 \<le> c" using alpha_le alpha_ge a by auto
  moreover have "\<not> isspace_ch c" by (rule alpha_not_space[OF a])
  moreover have "\<not> (0x7F \<le> c \<and> c \<le> 0x9F) \<and> c \<noteq> 0xAD"
    using a by (auto simp: isalpha_ch_def letter_class_def split: if_splits)
  ultimately show ?thesis by (simp add: isprintable_ch_def)
qed

text \<open>A letter key shows its capital exactly when one of Shift and Caps Lock is on.\<close>

lemma shown_letter:
  assumes "upper [lo] = [hi]" "lower [hi] = [lo]" "isalpha [lo]" "isalpha [hi]"
  shows "shown_character (if s then hi else lo) s c = (if s \<noteq> c then [hi] else [lo])"
proof -
  have a: "isalpha_ch lo" "isalpha_ch hi" using assms by (simp_all add: isalpha_def)
  have "lo \<noteq> 0" "hi \<noteq> 0" "lo \<le> 0x10FFFF" "hi \<le> 0x10FFFF" using a alpha_ge alpha_le by fastforce+
  then show ?thesis using assms a
    by (auto simp: shown_character_def MAX_UNICODE_CODEPOINT_def isprintable_def alpha_printable Let_def)
qed

lemma shown_sign: "\<not> isalpha [x] \<Longrightarrow> shown_character x s c = shown_character x False False"
  by (simp add: shown_character_def)

lemma shown_sign_not_alpha: "\<not> isalpha [x] \<Longrightarrow> \<not> isalpha (shown_character x False False)"
  by (simp add: shown_character_def isalpha_def Let_def)

lemma character_regular:
  assumes "regular_key m k"
  shows "character_for_keycode m k g st =
           shown_character (if st AND SHIFT_MASK \<noteq> 0 then key_codepoint m k g SHIFT_MASK else key_codepoint m k g 0)
             (st AND SHIFT_MASK \<noteq> 0) (st AND LOCK_MASK \<noteq> 0)"
proof -
  have "key_codepoint m k g st = key_codepoint m k g (st AND SHIFT_MASK)" using assms by (simp add: regular_key_def)
  then show ?thesis by (subst (asm) and_shift) (auto simp: character_for_keycode_def split: if_splits)
qed

lemma reported_character:
  assumes "reported_key m n srv e" "0 \<le> g" "g < int n"
  shows "character_for e g = character_for_keycode m (ev_keycode e) g (ev_state e)"
  using assms by (simp add: reported_key_def character_for_def nat_less_iff)

text \<open>Typed again with the Shift that \<open>shifted\<close> chooses, a key shows what it would have shown in that group.\<close>

lemma retyped_character:
  assumes e: "reported_key m n srv e" and g: "0 \<le> g" "g < int n"
  shows "character_for_keycode m (ev_keycode e) g (key_state (shifted caps e g) caps) = character_for e g"
proof -
  let ?k = "ev_keycode e"
  let ?lo = "key_codepoint m ?k g 0" and ?hi = "key_codepoint m ?k g SHIFT_MASK"
  have r: "regular_key m ?k" using e by (simp add: reported_key_def)
  have now: "character_for_keycode m ?k g (key_state s caps) = shown_character (if s then ?hi else ?lo) s caps" for s
    by (simp add: character_regular[OF r] key_state_shift key_state_caps)
  have was: "character_for e g = shown_character (if ev_shift e then ?hi else ?lo) (ev_shift e) (ev_caps_lock e)"
    by (simp add: reported_character[OF e g] character_regular[OF r] ev_shift_def ev_caps_lock_def)
  define x where "x = (if ev_shift e then ?hi else ?lo)"
  show ?thesis
  proof (cases "isalpha [?lo] \<or> isalpha [?hi]")
    case True
    then have p: "upper [?lo] = [?hi]" "lower [?hi] = [?lo]" "isalpha [?lo]" "isalpha [?hi]"
      using r True unfolding regular_key_def by blast+
    have "isalpha (character_for e g)" using p by (simp add: was shown_letter[OF p])
    then have sh: "shifted caps e g = (ev_shift e \<noteq> (ev_caps_lock e \<noteq> caps))" by (simp add: shifted_def)
    show ?thesis unfolding now was shown_letter[OF p] sh by auto
  next
    case False
    then have "\<not> isalpha [x]" by (simp add: x_def)
    note sign = shown_sign[OF this] shown_sign_not_alpha[OF this]
    have "\<not> isalpha (character_for e g)" unfolding was x_def[symmetric] sign(1)[of "ev_shift e"] by (rule sign(2))
    then have "shifted caps e g = ev_shift e" by (simp add: shifted_def)
    then show ?thesis unfolding now was by (simp only: x_def[symmetric] sign(1)[of "ev_shift e"])
  qed
qed

lemma run_backspaces:
  assumes "xs_backspace srv \<noteq> xs_shift srv" "\<not> sc_shift s"
  shows "screen_run m srv caps (fake_keys (concat (replicate n (tap sk (xs_backspace srv) False)))) s =
           s\<lparr>sc_text := take (length (sc_text s) - n) (sc_text s)\<rparr>"
  using assms
proof (induction n arbitrary: s)
  case (Suc n)
  have step: "screen_run m srv caps (fake_keys (tap sk (xs_backspace srv) False)) s = s\<lparr>sc_text := butlast (sc_text s)\<rparr>"
    using Suc.prems by (simp add: tap_def)
  show ?case using Suc.prems by (simp add: step Suc.IH butlast_conv_take take_take min_def)
qed simp

lemma run_tap:
  assumes "k \<noteq> xs_shift srv" "k \<noteq> xs_backspace srv" "\<not> sc_shift s"
  shows "screen_run m srv caps (fake_keys (tap (xs_shift srv) k sh)) s =
           s\<lparr>sc_text := sc_text s @ character_for_keycode m k (sc_group s) (key_state sh caps)\<rparr>"
  using assms by (cases sh) (simp_all add: tap_def)

lemma run_tapped:
  assumes "\<forall>e\<in>set es. reported_key m n srv e" "0 \<le> sc_group s" "sc_group s < int n" "\<not> sc_shift s"
  shows "screen_run m srv caps (fake_keys (tapped (xs_shift srv) caps (sc_group s) es)) s =
           s\<lparr>sc_text := sc_text s @ text_for_group es (sc_group s)\<rparr>"
  using assms
proof (induction es arbitrary: s)
  case (Cons e es)
  have "ev_keycode e \<noteq> xs_shift srv" "ev_keycode e \<noteq> xs_backspace srv" using Cons.prems(1) by (simp_all add: reported_key_def)
  moreover have "character_for_keycode m (ev_keycode e) (sc_group s) (key_state (shifted caps e (sc_group s)) caps)
      = character_for e (sc_group s)"
    using Cons.prems by (intro retyped_character) auto
  ultimately show ?case
    using Cons.prems by (simp add: tapped_def run_tap Cons.IH[unfolded tapped_def, of "s\<lparr>sc_text := _\<rparr>", simplified])
qed (simp add: tapped_def)

lemma tapped_same_characters:
  assumes "\<forall>e\<in>set es. character_for e g = character_for e h"
  shows "tapped sk caps g es = tapped sk caps h es"
  using assms by (induction es) (simp_all add: tapped_def shifted_def)


lemma perform_all: "perform_requests accepts before rs = (done, None) \<Longrightarrow> done = before @ rs"
  by (induction rs arbitrary: before) (simp, fastforce split: if_splits)

lemma list_ex_not: "\<not> list_ex (\<lambda>x. f x \<noteq> y x) xs \<longleftrightarrow> (\<forall>x\<in>set xs. f x = y x)"
  by (simp add: list_ex_iff)

lemma tapped_Nil_iff: "tapped sk caps g es = [] \<longleftrightarrow> es = []"
  by (cases es) (simp_all add: tapped_def tap_def)

text \<open>The signs and the boundary are typed as they were, in the layout they were typed in or in one that types them alike.\<close>

lemma run_literal:
  assumes keys: "\<forall>e\<in>set es. reported_key m n srv e" and groups: "\<forall>e\<in>set es. ev_group e = lg"
    and own: "\<forall>e\<in>set es. ev_character e = character_for e (ev_group e)"
    and same: "\<forall>e\<in>set es. character_for e (sc_group s) = ev_character e"
    and s: "0 \<le> sc_group s" "sc_group s < int n" "\<not> sc_shift s"
  shows "screen_run m srv caps (fake_keys (tapped (xs_shift srv) caps lg es)) s =
           s\<lparr>sc_text := sc_text s @ concat (map ev_character es)\<rparr>"
proof -
  have "tapped (xs_shift srv) caps lg es = tapped (xs_shift srv) caps (sc_group s) es"
    using groups own same by (intro tapped_same_characters) auto
  moreover have "text_for_group es (sc_group s) = concat (map ev_character es)"
    using same by (induction es) simp_all
  ultimately show ?thesis using run_tapped[OF keys s] by simp
qed

lemma plan_injectionD:
  assumes "plan_injection srv n strokes target boundary source late trailing kept_tail erased = Inr p"
    and "xs_locked_mods srv = Some mods" "caps = (mods AND LOCK_MASK \<noteq> 0)"
  shows "\<exists>lg src. 0 \<le> lg \<and> lg < int n \<and> (\<forall>e\<in>set (literal_keys trailing boundary). ev_group e = lg)
    \<and> (kept_tail \<noteq> 0 \<longrightarrow> src = the source)
    \<and> p = injection_keys srv caps strokes target (literal_keys trailing boundary) lg src late kept_tail erased"
proof -
  let ?src = "case source of Some g \<Rightarrow> g | None \<Rightarrow> (case strokes of [] \<Rightarrow> target | s # _ \<Rightarrow> ev_group s)"
  let ?lg = "case literal_keys trailing boundary of [] \<Rightarrow> ?src | s # _ \<Rightarrow> ev_group s"
  have "0 \<le> ?lg \<and> ?lg < int n \<and> (\<forall>e\<in>set (literal_keys trailing boundary). ev_group e = ?lg)"
    and "p = injection_keys srv caps strokes target (literal_keys trailing boundary) ?lg ?src late kept_tail erased"
    using assms by (simp_all add: plan_injection_def Let_def list_ex_iff split: if_splits)
  moreover have "kept_tail \<noteq> 0 \<longrightarrow> ?src = the source"
    using assms by (auto simp: plan_injection_def split: if_splits)
  ultimately show ?thesis by blast
qed

lemma inject_correctionD:
  assumes "inject_correction srv n accepts now strokes target boundary source late trailing kept_tail erased ex
             = (ex', performed, Inr held)"
    and "xs_locked_mods srv = Some mods" "caps = (mods AND LOCK_MASK \<noteq> 0)"
  obtains lg src where "0 \<le> lg" "lg < int n" "\<forall>e\<in>set (literal_keys trailing boundary). ev_group e = lg"
    and "kept_tail \<noteq> 0 \<Longrightarrow> src = the source"
    and "performed = injection_requests target (kept_tail \<noteq> 0)
           (injection_keys srv caps strokes target (literal_keys trailing boundary) lg src late kept_tail erased)"
proof -
  obtain p where p: "plan_injection srv n strokes target boundary source late trailing kept_tail erased = Inr p"
    and "performed = injection_requests target (kept_tail \<noteq> 0) p"
    using assms(1) by (auto simp: inject_correction_def Let_def dest!: perform_all split: sum.splits prod.splits option.splits)
  then show ?thesis using plan_injectionD[OF p assms(2,3)] that by blast
qed

text \<open>The keys, typed into the field.\<close>

lemma keys_type_replacement:
  assumes keys: "\<forall>e\<in>set (strokes @ literal @ late). reported_key m n srv e"
    and own: "\<forall>e\<in>set literal. ev_character e = character_for e (ev_group e)"
    and lg: "0 \<le> lg" "lg < int n" "\<forall>e\<in>set literal. ev_group e = lg"
    and srv: "xs_backspace srv \<noteq> xs_shift srv"
    and target: "0 \<le> target" "target < int n"
    and kept: "kept_tail \<noteq> 0 \<Longrightarrow> 0 \<le> src \<and> src < int n \<and> (\<forall>e\<in>set literal. ev_group e = src)"
    and field: "sc_text s = before @ old" "\<not> sc_shift s"
    and old: "int (length old) = (case erased of None \<Rightarrow> int (length strokes) | Some k \<Rightarrow> k)
                + int (length literal) + int (length late)"
    and final: "final = (if kept_tail \<noteq> 0 then src else target)"
  shows "screen_run m srv caps (injection_requests target (kept_tail \<noteq> 0)
             (injection_keys srv caps strokes target literal lg src late kept_tail erased)) s =
     s\<lparr>sc_group := final,
       sc_text := before @ text_for_group (take (length strokes - nat kept_tail) strokes) target
         @ text_for_group (drop (length strokes - nat kept_tail) strokes) final
         @ concat (map ev_character literal) @ text_for_group late final\<rparr>"
proof -
  let ?conv = "take (length strokes - nat kept_tail) strokes" and ?kept = "drop (length strokes - nat kept_tail) strokes"
  define lit where "lit = tapped (xs_shift srv) caps lg literal"
  have n_old: "nat ((case erased of None \<Rightarrow> int (length strokes) | Some k \<Rightarrow> k) + int (length literal) + int (length late)) = length old"
    using old by simp
  have typed: "screen_run m srv caps (fake_keys (tapped (xs_shift srv) caps g es)) x = x\<lparr>sc_text := sc_text x @ text_for_group es g\<rparr>"
    if "sc_group x = g" "set es \<subseteq> set (strokes @ late)" "0 \<le> g" "g < int n" "\<not> sc_shift x" for es g x
    using run_tapped[where s=x and es=es and m=m and n=n and srv=srv] that keys by auto
  have signs: "screen_run m srv caps (fake_keys lit) x = x\<lparr>sc_text := sc_text x @ concat (map ev_character literal)\<rparr>"
    if "sc_group x = g" "\<forall>e\<in>set literal. character_for e g = ev_character e" "0 \<le> g" "g < int n" "\<not> sc_shift x" for g x
    unfolding lit_def using that keys lg own by (intro run_literal) auto
  have sub: "set ?conv \<subseteq> set strokes \<union> set late" "set ?kept \<subseteq> set strokes \<union> set late"
    by (auto dest: in_set_takeD in_set_dropD)
  have no_lit: "lit = [] \<longleftrightarrow> literal = []" by (simp add: lit_def tapped_Nil_iff)
  show ?thesis
  proof (cases "kept_tail = 0")
    case True
    then show ?thesis
      using typed signs target lg own final field srv no_lit
      by (auto simp: injection_keys_def Let_def injection_requests_def n_old run_backspaces
          lit_def[symmetric] list_ex_iff)
  next
    case False
    then show ?thesis
      using typed signs target kept own final field srv sub
      by (auto simp: injection_keys_def Let_def injection_requests_def n_old run_backspaces
          lit_def[symmetric])
  qed
qed


text \<open>C7: A correction the X server performs whole replaces the text it was made for: of a field that ends with as many
  characters as there are keys to delete, the text before them stays, and after it stand the word in its new layout, the
  word kept in its own, the signs and the boundary as they were typed, and the keys typed meanwhile; Shift is up and the
  keyboard is left in the group the engine counts on, whatever Caps Lock was when the keys were typed and is now.
\<close>

theorem injection_replaces_word:
  fixes strokes late trailing :: "key_event list"
  assumes run: "inject_correction srv n accepts now strokes target boundary source late trailing kept_tail erased ex
                  = (ex', performed, Inr held)"
    and caps: "xs_locked_mods srv = Some mods" "caps = (mods AND LOCK_MASK \<noteq> 0)"
    and keys: "\<forall>e\<in>set (strokes @ literal_keys trailing boundary @ late). reported_key m n srv e"
    and own: "\<forall>e\<in>set (literal_keys trailing boundary). ev_character e = character_for e (ev_group e)"
    and srv: "xs_backspace srv \<noteq> xs_shift srv"
    and target: "0 \<le> target" "target < int n"
    and kept: "kept_tail \<noteq> 0 \<Longrightarrow> 0 \<le> the source \<and> the source < int n
                \<and> (\<forall>e\<in>set (literal_keys trailing boundary). ev_group e = the source)"
    and field: "sc_text s = before @ old" "\<not> sc_shift s"
    and old: "int (length old) = (case erased of None \<Rightarrow> int (length strokes) | Some k \<Rightarrow> k)
                + int (length (literal_keys trailing boundary)) + int (length late)"
  shows "screen_run m srv caps performed s =
     s\<lparr>sc_group := (if kept_tail \<noteq> 0 then the source else target),
       sc_text := before @ text_for_group (take (length strokes - nat kept_tail) strokes) target
         @ text_for_group (drop (length strokes - nat kept_tail) strokes) (if kept_tail \<noteq> 0 then the source else target)
         @ concat (map ev_character (literal_keys trailing boundary))
         @ text_for_group late (if kept_tail \<noteq> 0 then the source else target)\<rparr>"
proof -
  obtain lg src where "0 \<le> lg" "lg < int n" "\<forall>e\<in>set (literal_keys trailing boundary). ev_group e = lg"
    and "kept_tail \<noteq> 0 \<Longrightarrow> src = the source"
    and "performed = injection_requests target (kept_tail \<noteq> 0)
           (injection_keys srv caps strokes target (literal_keys trailing boundary) lg src late kept_tail erased)"
    using inject_correctionD[OF run caps] by blast
  then show ?thesis using keys_type_replacement[OF keys own _ _ _ srv target _ field old] kept by simp
qed

section \<open>Its own keys\<close>

text \<open>The hook, asked about some steps in a row before the deadline.\<close>

fun consume_all :: "real \<Rightarrow> key_step list \<Rightarrow> expectation \<Rightarrow> bool list \<times> expectation" where
  "consume_all now [] ex = ([], ex)"
| "consume_all now (s # steps) ex =
     (let (own, ex') = consume_expected now s ex; (rest, ex'') = consume_all now steps ex' in (own # rest, ex''))"

lemma consume_all_expected:
  "now \<le> ex_deadline ex \<Longrightarrow> ex_steps ex = steps @ later \<Longrightarrow>
     consume_all now steps ex = (replicate (length steps) True, ex\<lparr>ex_steps := later\<rparr>)"
  by (induction steps arbitrary: ex) (auto simp: consume_expected_def Let_def)

lemma consume_all_unexpected:
  "ex_steps ex = [] \<Longrightarrow> consume_all now steps ex = (replicate (length steps) False, ex)"
  by (induction steps arbitrary: ex) (auto simp: consume_expected_def Let_def)

lemma consume_all_append:
  "consume_all now (xs @ ys) ex =
     (let (own, ex') = consume_all now xs ex; (rest, ex'') = consume_all now ys ex' in (own @ rest, ex''))"
  by (induction xs arbitrary: ex) (auto simp: Let_def split: prod.splits)

definition key_steps :: "x_request list \<Rightarrow> key_step list" where
  "key_steps rs = List.map_filter (\<lambda>r. case r of Fake_Key p k \<Rightarrow> Some (p, k) | Lock_Group _ \<Rightarrow> None) rs"

lemma key_steps_append [simp]: "key_steps (rs @ qs) = key_steps rs @ key_steps qs"
  by (simp add: key_steps_def List.map_filter_def)

lemma key_steps_fake [simp]: "key_steps (fake_keys xs) = xs"
  by (induction xs) (simp_all add: key_steps_def List.map_filter_def)

lemma key_steps_lock [simp]: "key_steps [Lock_Group g] = []" "key_steps (Lock_Group g # rs) = key_steps rs" "key_steps [] = []"
  by (simp_all add: key_steps_def List.map_filter_def)

lemma injection_parts_empty:
  "plan_injection srv n strokes target boundary source late trailing kept_tail erased = Inr p \<Longrightarrow>
     kept_tail = 0 \<Longrightarrow> in_kept p = [] \<and> in_kept_literal p = []"
  by (auto simp: plan_injection_def injection_keys_def Let_def tapped_def split: if_splits option.splits)

lemma requests_expected:
  assumes "plan_injection srv n strokes target boundary source late trailing kept_tail erased = Inr p"
  shows "key_steps (injection_requests target (kept_tail \<noteq> 0) p) = expected_steps p @ in_late p"
  using injection_parts_empty[OF assms] by (auto simp: injection_requests_def expected_steps_def)

text \<open>C12: The keys a correction sends are told from the user's: when the server reports all of them in order before the
  deadline, every deletion, every key of the word and of its signs is taken for the program's own, and every one of the
  late keys, typed again last, is reported as the user's input; nothing is left to be taken for the program's afterwards.
\<close>

theorem injection_recognised:
  assumes "inject_correction srv n accepts now strokes target boundary source late trailing kept_tail erased
             \<lparr>ex_steps = [], ex_deadline = d\<rparr> = (ex', performed, Inr held)"
    and "t \<le> ex_deadline ex'"
  shows "\<exists>own. key_steps performed = own @ tapped (xs_shift srv) (the (xs_locked_mods srv) AND LOCK_MASK \<noteq> 0)
                                       (if kept_tail \<noteq> 0 then the source else target) late
    \<and> consume_all t (key_steps performed) ex'
        = (replicate (length own) True @ replicate (length (key_steps performed) - length own) False, ex'\<lparr>ex_steps := []\<rparr>)"
proof -
  obtain p where p: "plan_injection srv n strokes target boundary source late trailing kept_tail erased = Inr p"
    and performed: "performed = injection_requests target (kept_tail \<noteq> 0) p" and ex': "ex_steps ex' = expected_steps p"
    using assms(1) by (auto simp: inject_correction_def Let_def dest!: perform_all split: sum.splits prod.splits option.splits)
  have late: "in_late p = tapped (xs_shift srv) (the (xs_locked_mods srv) AND LOCK_MASK \<noteq> 0)
      (if kept_tail \<noteq> 0 then the source else target) late"
    using p by (auto simp: plan_injection_def injection_keys_def Let_def split: if_splits option.splits)
  show ?thesis
    using assms(2) ex' late requests_expected[OF p]
    by (intro exI[of _ "expected_steps p"])
       (simp add: performed consume_all_append consume_all_expected[where later="[]"] consume_all_unexpected)
qed


section \<open>A concrete correction\<close>

text \<open>One letter key (\<open>f\<close>, in Russian \<open>a\<close>) and the space bar.\<close>

definition small_keymap :: x_keymap where
  "small_keymap =
     \<lparr>km_keysym = (\<lambda>k g level. if k = 41 then if g = 0 then if level = 0 then 0x66 else 0x46
                                               else if level = 0 then 0x430 else 0x410
                               else if k = 65 then 0x20 else 0),
      km_lookup = (\<lambda>_ _. None), km_utf32 = (\<lambda>x. x), km_name = (\<lambda>_. [])\<rparr>"

definition small_server :: x_server where
  "small_server = \<lparr>xs_control = True, xs_locked_mods = Some 0, xs_backspace = 22, xs_shift = 50\<rparr>"

definition key_f :: key_event where
  "key_f = \<lparr>ev_pressed = True, ev_keycode = 41, ev_key_name = asc ''f'', ev_character = [0x46],
     ev_characters = [[0x46], [0x410]], ev_group = 0, ev_state = 2, ev_timestamp = 0, ev_synthetic = False,
     ev_deferred = False, ev_foreign = False\<rparr>"

definition key_space :: key_event where
  "key_space = \<lparr>ev_pressed = True, ev_keycode = 65, ev_key_name = asc ''space'', ev_character = [0x20],
     ev_characters = [[0x20], [0x20]], ev_group = 0, ev_state = 0, ev_timestamp = 0, ev_synthetic = False,
     ev_deferred = False, ev_foreign = False\<rparr>"

lemma letters_of_keymap:
  "isalpha [0x66]" "isalpha [0x46]" "isalpha [0x430]" "isalpha [0x410]" "\<not> isalpha [0x20]"
  "upper [0x66] = [0x46]" "lower [0x46] = [0x66]" "upper [0x430] = [0x410]" "lower [0x410] = [0x430]"
  "isprintable [0x46]" "isprintable [0x410]" "isprintable [0x20]"
  by (simp_all add: isalpha_def isalpha_ch_def letter_class_def upper_def lower_def upper_ch_def lower_ch_def
      isprintable_def isprintable_ch_def isspace_ch_def)

lemma small_codepoint:
  "key_codepoint small_keymap 41 g st = (if g = 0 then if st AND SHIFT_MASK = 0 then 0x66 else 0x46
                                         else if st AND SHIFT_MASK = 0 then 0x430 else 0x410)"
  "key_codepoint small_keymap 65 g st = 0x20"
  by (simp_all add: key_codepoint_def small_keymap_def)

lemma small_regular: "regular_key small_keymap 41" "regular_key small_keymap 65"
  using letters_of_keymap by (auto simp: regular_key_def small_codepoint masks)

lemma small_reported: "reported_key small_keymap 2 small_server key_f" "reported_key small_keymap 2 small_server key_space"
  using letters_of_keymap
  by (simp_all add: reported_key_def small_regular key_f_def key_space_def small_server_def character_for_keycode_def
      small_codepoint shown_character_def masks MAX_UNICODE_CODEPOINT_def numeral_2_eq_2 Let_def)

lemma perform_accepting: "perform_requests (\<lambda>_ _. True) before rs = (before @ rs, None)"
  by (induction rs arbitrary: before) auto

lemma small_injection:
  "\<exists>ex' performed. inject_correction small_server 2 (\<lambda>_ _. True) 0 [key_f] 1 (Some key_space) (Some 0) late [] 0 None
     \<lparr>ex_steps = [], ex_deadline = 0\<rparr> = (ex', performed, Inr 0) \<and> 1 \<le> ex_deadline ex'"
  by (simp add: inject_correction_def plan_injection_def literal_keys_def small_server_def key_space_def
      perform_accepting Let_def MIN_INJECTION_DEADLINE_SECONDS_def)

theorem injection_replaces_word_witness:
  "\<exists>ex' performed. inject_correction small_server 2 (\<lambda>_ _. True) 0 [key_f] 1 (Some key_space) (Some 0) [] [] 0 None
       \<lparr>ex_steps = [], ex_deadline = 0\<rparr> = (ex', performed, Inr 0)
     \<and> sc_text (screen_run small_keymap small_server False performed
                 \<lparr>sc_group = 0, sc_shift = False, sc_text = [0x46, 0x20]\<rparr>) = [0x410, 0x20]"
proof -
  obtain ex' performed where run: "inject_correction small_server 2 (\<lambda>_ _. True) 0 [key_f] 1 (Some key_space) (Some 0) [] [] 0 None
      \<lparr>ex_steps = [], ex_deadline = 0\<rparr> = (ex', performed, Inr 0)"
    using small_injection[of "[]"] by blast
  have "screen_run small_keymap small_server False performed \<lparr>sc_group = 0, sc_shift = False, sc_text = [0x46, 0x20]\<rparr>
      = \<lparr>sc_group = 1, sc_shift = False, sc_text = [0x410, 0x20]\<rparr>"
    using injection_replaces_word[OF run, of 0 False small_keymap "\<lparr>sc_group = 0, sc_shift = False, sc_text = [0x46, 0x20]\<rparr>" "[]" "[0x46, 0x20]"]
      small_reported
    by (simp add: literal_keys_def small_server_def key_f_def key_space_def character_for_def)
  then show ?thesis using run by auto
qed

theorem injection_recognised_witness:
  "\<exists>ex' performed own. inject_correction small_server 2 (\<lambda>_ _. True) 0 [key_f] 1 (Some key_space) (Some 0) [key_f] [] 0 None
       \<lparr>ex_steps = [], ex_deadline = 0\<rparr> = (ex', performed, Inr 0)
     \<and> key_steps performed = own @ tapped (xs_shift small_server) False 1 [key_f]
     \<and> fst (consume_all 1 (key_steps performed) ex') = replicate (length own) True @ [False, False, False, False]"
proof -
  obtain ex' performed where run: "inject_correction small_server 2 (\<lambda>_ _. True) 0 [key_f] 1 (Some key_space) (Some 0) [key_f] [] 0 None
      \<lparr>ex_steps = [], ex_deadline = 0\<rparr> = (ex', performed, Inr 0)" and d: "1 \<le> ex_deadline ex'"
    using small_injection[of "[key_f]"] by blast
  have four: "length (tapped (xs_shift small_server) False 1 [key_f]) = 4"
    using letters_of_keymap
    by (simp add: tapped_def tap_def shifted_def key_f_def character_for_def ev_shift_def ev_caps_lock_def masks)
  obtain own where own: "key_steps performed = own @ tapped (xs_shift small_server) False 1 [key_f]"
    "consume_all 1 (key_steps performed) ex'
        = (replicate (length own) True @ replicate (length (key_steps performed) - length own) False, ex'\<lparr>ex_steps := []\<rparr>)"
    using injection_recognised[OF run d] by (auto simp: small_server_def)
  have "fst (consume_all 1 (key_steps performed) ex') = replicate (length own) True @ replicate 4 False"
    using own(2) four by (simp add: own(1))
  then show ?thesis using run own(1) by (auto simp: numeral_eq_Suc)
qed

end
