(* ===== verification/Input_Context.thy ===== *)
theory Input_Context
  imports Key_Event Complex_Main
begin

text \<open>
  \<open>src/keyswitch/input_context.py\<close>: the text the engine has seen typed in one field (\<open>InputContext\<close>), and a snapshot of
  a field (\<open>FieldContext\<close>). \<open>time.monotonic\<close> is an argument. The abstract specification is an editor: what a key does to
  the text before its caret when nothing but the keyboard and the program's own corrections changes it, and anything at
  all after a shortcut, a caret key, a key that may leave the field, or a change of window.
\<close>

definition CONTEXT_LIMIT :: nat where "CONTEXT_LIMIT = 512"
definition CONTEXT_TTL :: real where "CONTEXT_TTL = 45"
definition FIELD_CONTEXT_APPLICATION_MAX_CHARACTERS :: nat where "FIELD_CONTEXT_APPLICATION_MAX_CHARACTERS = 128"
definition FIELD_CONTEXT_FIELD_ID_MAX_CHARACTERS :: nat where "FIELD_CONTEXT_FIELD_ID_MAX_CHARACTERS = 128"
definition FIELD_CONTEXT_SOURCE_MAX_CHARACTERS :: nat where "FIELD_CONTEXT_SOURCE_MAX_CHARACTERS = 32"
definition FIELD_INPUT_BUFFER_MAX_CHARACTERS :: nat where "FIELD_INPUT_BUFFER_MAX_CHARACTERS = 1"

section \<open>A snapshot of a field\<close>

datatype field_role = Unknown_Role | Text_Role | Code_Role | Search_Role | Terminal_Role | Password_Role

record field_context =
  fc_application :: ustr
  fc_field_id :: ustr
  fc_before :: ustr
  fc_after :: ustr
  fc_role :: field_role
  fc_selection :: bool
  fc_sensitive :: bool
  fc_source :: ustr

definition bounded_field :: "field_context \<Rightarrow> field_context" where
  "bounded_field f =
     (let private = (fc_sensitive f \<or> fc_role f = Password_Role)
      in \<lparr>fc_application = take FIELD_CONTEXT_APPLICATION_MAX_CHARACTERS (fc_application f),
          fc_field_id = take FIELD_CONTEXT_FIELD_ID_MAX_CHARACTERS (fc_field_id f),
          fc_before = (if private then [] else last_n CONTEXT_LIMIT (fc_before f)),
          fc_after = (if private then [] else take CONTEXT_LIMIT (fc_after f)),
          fc_role = fc_role f, fc_selection = fc_selection f, fc_sensitive = private,
          fc_source = take FIELD_CONTEXT_SOURCE_MAX_CHARACTERS (fc_source f)\<rparr>)"

definition input_buffer_only :: "field_context \<Rightarrow> ustr \<Rightarrow> bool" where
  "input_buffer_only f typed \<longleftrightarrow>
     (let shown = fc_before f @ fc_after f
      in length shown \<le> FIELD_INPUT_BUFFER_MAX_CHARACTERS \<and> \<not> occurs_in typed shown)"

section \<open>The observed text\<close>

record input_context =
  ic_application :: ustr
  ic_window :: int
  ic_text :: ustr
  ic_updated_at :: real
  ic_revision :: nat

definition initial_context :: input_context where
  "initial_context = \<lparr>ic_application = [], ic_window = 0, ic_text = [], ic_updated_at = 0, ic_revision = 0\<rparr>"

definition clear_context :: "input_context \<Rightarrow> input_context" where
  "clear_context c = c\<lparr>ic_text := [], ic_updated_at := 0, ic_revision := ic_revision c + 1\<rparr>"

definition focus_context :: "ustr \<Rightarrow> int \<Rightarrow> input_context \<Rightarrow> input_context" where
  "focus_context application window c =
     (if (application, window) \<noteq> (ic_application c, ic_window c)
      then (clear_context c)\<lparr>ic_application := application, ic_window := window\<rparr> else c)"

definition LEAVING_KEYS :: "ustr list" where
  "LEAVING_KEYS = map asc [''Return'', ''KP_Enter'', ''Tab'', ''ISO_Left_Tab'']"

definition CARET_KEYS :: "ustr list" where
  "CARET_KEYS = map asc [''Left'', ''Right'', ''Up'', ''Down'', ''Home'', ''End'', ''Page_Up'', ''Page_Down'',
     ''Delete'', ''Insert'', ''Escape'', ''Pointer'']"

definition typed_text :: "key_event \<Rightarrow> bool" where
  "typed_text e \<longleftrightarrow> ev_character e \<noteq> [] \<and> (isprintable (ev_character e) \<or> isspace (ev_character e))"

text \<open>What is left of \<open>observe\<close> once the keys that end the text are dealt with.\<close>

definition observe_text :: "real \<Rightarrow> key_event \<Rightarrow> input_context \<Rightarrow> input_context" where
  "observe_text now e c0 =
     (let c = (if CONTEXT_TTL < now - ic_updated_at c0 then c0\<lparr>ic_text := []\<rparr> else c0)
      in if ev_key_name e = asc ''BackSpace''
         then c\<lparr>ic_text := butlast (ic_text c), ic_updated_at := now, ic_revision := ic_revision c + 1\<rparr>
         else if typed_text e
         then c\<lparr>ic_text := last_n CONTEXT_LIMIT (ic_text c @ ev_character e), ic_updated_at := now,
                ic_revision := ic_revision c + 1\<rparr>
         else c)"

definition observe_event :: "real \<Rightarrow> key_event \<Rightarrow> input_context \<Rightarrow> input_context" where
  "observe_event now e c =
     (if \<not> ev_pressed e \<or> ev_synthetic e then c
      else if ev_control e \<or> ev_alt e \<or> ev_super_key e then clear_context c
      else if ev_key_name e \<in> set LEAVING_KEYS then (if \<not> ev_deferred e then clear_context c else c)
      else if ev_key_name e \<in> set CARET_KEYS then clear_context c
      else observe_text now e c)"

definition before_word :: "real \<Rightarrow> ustr \<Rightarrow> input_context \<Rightarrow> ustr" where
  "before_word now original c =
     (if CONTEXT_TTL < now - ic_updated_at c then []
      else if original \<noteq> [] \<and> ends_with (ic_text c) original then take (length (ic_text c) - length original) (ic_text c)
      else if original \<noteq> [] \<and> ends_with (butlast (ic_text c)) original
      then take (length (ic_text c) - length original - 1) (ic_text c)
      else [])"

definition withdraw_typed :: "ustr \<Rightarrow> input_context \<Rightarrow> bool \<times> input_context" where
  "withdraw_typed typed c =
     (if \<not> ends_with (ic_text c) typed then (False, c)
      else (True, c\<lparr>ic_text := take (length (ic_text c) - length typed) (ic_text c), ic_revision := ic_revision c + 1\<rparr>))"

definition replace_suffix :: "real \<Rightarrow> ustr \<Rightarrow> ustr \<Rightarrow> ustr \<Rightarrow> input_context \<Rightarrow> input_context" where
  "replace_suffix now original replacement boundary c =
     (let old = original @ boundary
      in if old \<noteq> [] \<and> ends_with (ic_text c) old
         then c\<lparr>ic_text := last_n CONTEXT_LIMIT (take (length (ic_text c) - length old) (ic_text c) @ replacement @ boundary),
                ic_updated_at := now, ic_revision := ic_revision c + 1\<rparr>
         else clear_context c)"

text \<open>\<open>str(int)\<close> of the window identity is a parameter.\<close>

definition context_snapshot :: "(int \<Rightarrow> ustr) \<Rightarrow> real \<Rightarrow> ustr \<Rightarrow> input_context \<Rightarrow> field_context" where
  "context_snapshot int_text now original c =
     \<lparr>fc_application = ic_application c, fc_field_id = int_text (ic_window c), fc_before = before_word now original c,
      fc_after = [], fc_role = Unknown_Role, fc_selection = False, fc_sensitive = False, fc_source = asc ''observed''\<rparr>"

lemmas context_ops = clear_context_def focus_context_def observe_event_def withdraw_typed_def replace_suffix_def

lemma bounded_field_private: "fc_sensitive (bounded_field f) \<Longrightarrow> fc_before (bounded_field f) = [] \<and> fc_after (bounded_field f) = []"
  by (auto simp: bounded_field_def Let_def)

lemma bounded_field_idem: "bounded_field (bounded_field f) = bounded_field f"
  by (auto simp: bounded_field_def Let_def)

section \<open>An editor\<close>

record editor =
  ed_application :: ustr
  ed_window :: int
  ed_text :: ustr

text \<open>
  One step of the engine's stream beside one step of the editor. A key that is the program's own, or one held back from
  the window, leaves the text; the correction of a word changes it exactly as the plan says (what
  \<open>X11_Injection\<close> shows of the injection), with the keys typed meanwhile taken back first.
\<close>

inductive context_step :: "input_context \<times> editor \<Rightarrow> input_context \<times> editor \<Rightarrow> bool" where
  elsewhere: "context_step (c, d) (focus_context a w c, d')"
    if "d' = (if (a, w) = (ic_application c, ic_window c) then d else \<lparr>ed_application = a, ed_window = w, ed_text = x\<rparr>)"
| forget: "context_step (c, d) (clear_context c, d\<lparr>ed_text := x\<rparr>)"
| ignored: "context_step (c, d) (observe_event now e c, d)" if "\<not> ev_pressed e \<or> ev_synthetic e"
| moved: "context_step (c, d) (observe_event now e c, d\<lparr>ed_text := x\<rparr>)"
    if "ev_pressed e" "\<not> ev_synthetic e"
      "ev_control e \<or> ev_alt e \<or> ev_super_key e \<or> ev_key_name e \<in> set CARET_KEYS
       \<or> ev_key_name e \<in> set LEAVING_KEYS \<and> \<not> ev_deferred e"
| held: "context_step (c, d) (observe_event now e c, d)" if "ev_key_name e \<in> set LEAVING_KEYS" "ev_deferred e"
| erased: "context_step (c, d) (observe_event now e c, d\<lparr>ed_text := butlast (ed_text d)\<rparr>)"
    if "ev_key_name e = asc ''BackSpace''" "ev_pressed e" "\<not> ev_synthetic e"
| typed: "context_step (c, d) (observe_event now e c, d\<lparr>ed_text := ed_text d @ (if typed_text e then ev_character e else [])\<rparr>)"
    if "ev_key_name e \<noteq> asc ''BackSpace''" "ev_key_name e \<notin> set CARET_KEYS" "ev_key_name e \<notin> set LEAVING_KEYS"
      "ev_pressed e" "\<not> ev_synthetic e"
| taken_back: "context_step (c, d) (if fst (withdraw_typed t c) then snd (withdraw_typed t c) else clear_context c, d\<lparr>ed_text := x\<rparr>)"
    if "ed_text d = x @ t"
| corrected: "context_step (c, d) (replace_suffix now original replacement boundary c, d\<lparr>ed_text := x @ replacement @ boundary\<rparr>)"
    if "ed_text d = x @ original @ boundary"

inductive context_reach :: "input_context \<times> editor \<Rightarrow> bool" where
  start: "context_reach (initial_context, \<lparr>ed_application = [], ed_window = 0, ed_text = x\<rparr>)"
| step: "context_reach s \<Longrightarrow> context_step s s' \<Longrightarrow> context_reach s'"

definition context_ok :: "input_context \<times> editor \<Rightarrow> bool" where
  "context_ok s \<longleftrightarrow>
     ends_with (ed_text (snd s)) (ic_text (fst s)) \<and> length (ic_text (fst s)) \<le> CONTEXT_LIMIT"

lemma ends_with_last_n: "ends_with s t \<Longrightarrow> ends_with s (last_n k t)"
  by (metis append.assoc ends_with_iff last_n_suffix)

lemma ends_with_Nil [simp]: "ends_with s []"
  by (simp add: ends_with_iff)

lemma ends_with_snoc: "ends_with s t \<Longrightarrow> ends_with (s @ u) (t @ u)"
  by (auto simp: ends_with_iff)

lemma ends_with_butlast: "ends_with s t \<Longrightarrow> ends_with (butlast s) (butlast t)"
  by (auto simp: ends_with_iff butlast_append)

lemma context_ok_clear: "context_ok (clear_context c, d)"
  by (simp add: context_ok_def clear_context_def)

lemma context_ok_text:
  assumes "context_ok (c, d)"
  shows "context_ok (observe_text now e c,
     d\<lparr>ed_text := if ev_key_name e = asc ''BackSpace'' then butlast (ed_text d)
                    else ed_text d @ (if typed_text e then ev_character e else [])\<rparr>)"
proof -
  define t where "t = (if CONTEXT_TTL < now - ic_updated_at c then [] else ic_text c)"
  have t: "ends_with (ed_text d) t" "length t \<le> CONTEXT_LIMIT" using assms by (simp_all add: context_ok_def t_def)
  have "ic_text (observe_text now e c) = (if ev_key_name e = asc ''BackSpace'' then butlast t
      else if typed_text e then last_n CONTEXT_LIMIT (t @ ev_character e) else t)"
    by (simp add: observe_text_def Let_def t_def)
  then show ?thesis using t by (auto simp: context_ok_def intro: ends_with_last_n ends_with_snoc ends_with_butlast)
qed

lemma observe_plain:
  assumes "ev_key_name e \<notin> set CARET_KEYS" "ev_key_name e \<notin> set LEAVING_KEYS" "ev_pressed e" "\<not> ev_synthetic e"
  shows "observe_event now e c = clear_context c \<or> observe_event now e c = observe_text now e c"
  using assms by (simp add: observe_event_def)

lemma backspace_plain: "asc ''BackSpace'' \<notin> set CARET_KEYS" "asc ''BackSpace'' \<notin> set LEAVING_KEYS"
  by (simp_all add: CARET_KEYS_def LEAVING_KEYS_def asc_def)

lemma leaving_not_caret: "k \<in> set CARET_KEYS \<Longrightarrow> k \<notin> set LEAVING_KEYS"
  by (auto simp: CARET_KEYS_def LEAVING_KEYS_def asc_def)

lemma context_step_ok: "context_step s s' \<Longrightarrow> context_ok s \<Longrightarrow> context_ok s'"
proof (induction rule: context_step.induct)
  case (elsewhere d' a w c d x)
  then show ?case by (auto simp: context_ok_def focus_context_def clear_context_def)
next
  case (forget c d x)
  show ?case by (rule context_ok_clear)
next
  case (ignored e c d now)
  then show ?case by (auto simp: observe_event_def)
next
  case (moved e c d now x)
  have "observe_event now e c = clear_context c" using moved(1-3) leaving_not_caret by (auto simp: observe_event_def)
  then show ?case by (simp add: context_ok_clear)
next
  case (held e c d now)
  then have "observe_event now e c = c \<or> observe_event now e c = clear_context c" by (simp add: observe_event_def)
  then show ?case using held(3) context_ok_clear by auto
next
  case (erased e c d now)
  then have "observe_event now e c = clear_context c \<or> observe_event now e c = observe_text now e c"
    using observe_plain[of e now c] erased(1-3) backspace_plain by simp
  then show ?case using context_ok_text[OF erased(4), of now e] erased(1) context_ok_clear by auto
next
  case (typed e c d now)
  then have "observe_event now e c = clear_context c \<or> observe_event now e c = observe_text now e c"
    using observe_plain[of e now c] typed(1-5) by simp
  then show ?case using context_ok_text[OF typed(6), of now e] typed(1) context_ok_clear by auto
next
  case (taken_back d x t c)
  then show ?case by (auto simp: withdraw_typed_def context_ok_clear context_ok_def ends_with_iff clear_context_def)
next
  case (corrected d x original boundary c now replacement)
  show ?case
  proof (cases "original @ boundary \<noteq> [] \<and> ends_with (ic_text c) (original @ boundary)")
    case True
    then obtain t where t: "ic_text c = t @ original @ boundary" by (auto simp: ends_with_iff)
    have "ends_with x t" using corrected t by (auto simp: context_ok_def ends_with_iff)
    then have "ends_with (x @ replacement @ boundary) (t @ replacement @ boundary)" by (rule ends_with_snoc)
    then have "ends_with (x @ replacement @ boundary) (last_n CONTEXT_LIMIT (t @ replacement @ boundary))" by (rule ends_with_last_n)
    moreover have "ic_text (replace_suffix now original replacement boundary c) = last_n CONTEXT_LIMIT (t @ replacement @ boundary)"
      using True t by (simp add: replace_suffix_def)
    ultimately show ?thesis by (simp add: context_ok_def)
  next
    case False
    then have "replace_suffix now original replacement boundary c = clear_context c"
      unfolding replace_suffix_def Let_def by (simp only: if_False)
    then show ?thesis by (simp add: context_ok_clear)
  qed
qed

text \<open>C19: However keys, corrections and changes of window follow one another, the text the stream holds is always the end of
  what stands before the caret, at most 512 characters of it; and the text it gives as standing before a word does stand
  there, with the word and at most one boundary character after it.
\<close>

theorem observed_text_is_real:
  assumes "context_reach (c, d)"
  shows "ends_with (ed_text d) (ic_text c) \<and> length (ic_text c) \<le> CONTEXT_LIMIT
    \<and> (before_word now original c = []
        \<or> (\<exists>b. length b \<le> 1 \<and> ends_with (ed_text d) (before_word now original c @ original @ b)))"
proof -
  have ok: "context_ok s" if "context_reach s" for s
    using that
  proof induction
    case (start x)
    show ?case by (simp add: context_ok_def initial_context_def)
  qed (rule context_step_ok)
  have here: "ends_with (ed_text d) (ic_text c)" "length (ic_text c) \<le> CONTEXT_LIMIT"
    using ok[OF assms] by (simp_all add: context_ok_def)
  then obtain x where x: "ed_text d = x @ ic_text c" by (auto simp: ends_with_iff)
  have "\<exists>b. length b \<le> 1 \<and> ic_text c = before_word now original c @ original @ b" if "before_word now original c \<noteq> []"
  proof (cases "original \<noteq> [] \<and> ends_with (ic_text c) original")
    case True
    then obtain t where "ic_text c = t @ original" by (auto simp: ends_with_iff)
    then show ?thesis using that True by (intro exI[of _ "[]"]) (auto simp: before_word_def split: if_splits)
  next
    case False
    then have "original \<noteq> [] \<and> ends_with (butlast (ic_text c)) original"
      using that by (auto simp: before_word_def split: if_splits)
    then obtain t where t: "butlast (ic_text c) = t @ original" "original \<noteq> []" by (auto simp: ends_with_iff)
    then have "ic_text c \<noteq> []" by auto
    then have "ic_text c = t @ original @ [last (ic_text c)]" using t(1) by (metis append.assoc append_butlast_last_id)
    then obtain y where "ic_text c = t @ original @ [y]" by blast
    then show ?thesis using that False by (intro exI[of _ "[y]"]) (auto simp: before_word_def split: if_splits)
  qed
  then show ?thesis using here x by (metis append.assoc ends_with_iff)
qed

text \<open>The Latin \<open>g\<close> and a space, typed into an empty field.\<close>

definition plain_key :: "ustr \<Rightarrow> ustr \<Rightarrow> key_event" where
  "plain_key name character = \<lparr>ev_pressed = True, ev_keycode = 0, ev_key_name = name, ev_character = character,
     ev_characters = [character, character], ev_group = 0, ev_state = 0, ev_timestamp = 0, ev_synthetic = False,
     ev_deferred = False, ev_foreign = False\<rparr>"

theorem observed_text_is_real_witness:
  "\<exists>c. context_reach (c, \<lparr>ed_application = [], ed_window = 0, ed_text = [0x67, 0x20]\<rparr>)
     \<and> ic_text c = [0x67, 0x20] \<and> ends_with [0x67, 0x20] (ic_text c)"
proof -
  let ?d = "\<lambda>t. \<lparr>ed_application = [], ed_window = 0, ed_text = t\<rparr>"
  let ?g = "plain_key [0x67] [0x67]" and ?sp = "plain_key (asc ''space'') [0x20]"
  let ?c1 = "observe_event 1 ?g initial_context"
  let ?c2 = "observe_event 2 ?sp ?c1"
  have keys: "typed_text ?g" "typed_text ?sp"
    by (simp_all add: typed_text_def plain_key_def isprintable_def isprintable_ch_def isspace_ch_def)
  have names: "ev_key_name k \<noteq> asc ''BackSpace''" "ev_key_name k \<notin> set CARET_KEYS" "ev_key_name k \<notin> set LEAVING_KEYS"
    "ev_pressed k" "\<not> ev_synthetic k" "\<not> ev_control k" "\<not> ev_alt k" "\<not> ev_super_key k"
    if "k = ?g \<or> k = ?sp" for k
    using that by (auto simp: plain_key_def CARET_KEYS_def LEAVING_KEYS_def asc_def ev_control_def ev_alt_def ev_super_key_def)
  have "context_reach (?c1, ?d [0x67])"
    using context_reach.step[OF context_reach.start[of "[]"] context_step.typed[of ?g initial_context "?d []" 1]] names[of ?g] keys
    by (simp add: plain_key_def)
  then have r: "context_reach (?c2, ?d [0x67, 0x20])"
    using context_reach.step[OF _ context_step.typed[of ?sp ?c1 "?d [0x67]" 2]] names[of ?sp] keys
    by (simp add: plain_key_def)
  have "ic_text ?c2 = [0x67, 0x20]"
    using names[of ?g] names[of ?sp] keys
    by (simp add: observe_event_def observe_text_def Let_def initial_context_def CONTEXT_TTL_def CONTEXT_LIMIT_def plain_key_def)
  then show ?thesis using r observed_text_is_real[OF r, of 0 "[]"] by auto
qed

end
