(* ===== verification/Engine_Keys.thy ===== *)
theory Engine_Keys
  imports Key_Event Config
begin

text \<open>
  The parts of \<open>src/keyswitch/engine.py\<close> that classify a key on their own: the sets of key names, the hotkeys, the
  boundaries and their settings, the keys that can be erased and typed again, and the settings read within their ranges.
  \<open>self.settings.get\<close> is a parameter of type \<open>settings_reader\<close>, instantiated with \<open>get_setting\<close> of \<open>Config\<close>. The conversions
  \<open>float(str)\<close> and \<open>str(value)\<close> of the standard library are parameters where a setting holds something unexpected.
\<close>

section \<open>Key names\<close>

definition MODIFIER_KEYS :: "ustr list" where
  "MODIFIER_KEYS = map asc [''Shift_L'', ''Shift_R'', ''Control_L'', ''Control_R'', ''Alt_L'', ''Alt_R'', ''Meta_L'',
     ''Meta_R'', ''Super_L'', ''Super_R'', ''ISO_Level3_Shift'', ''Caps_Lock'']"

definition NAVIGATION_KEYS :: "ustr list" where
  "NAVIGATION_KEYS = map asc [''Left'', ''Right'', ''Up'', ''Down'', ''Home'', ''End'', ''Page_Up'', ''Page_Down'',
     ''Escape'', ''Delete'', ''Insert'', ''Pointer'']"

definition PUNCTUATION :: ustr where
  "PUNCTUATION = asc ''.,!?;:()[]{}'' @ [0x2014, 0x2013, 0x2D, 0x2026, 0x22, 0xAB, 0xBB]"

definition PROMPT_KEYS :: "ustr list" where "PROMPT_KEYS = map asc [''Return'', ''KP_Enter'', ''Escape'']"
definition WORD_BOUNDARY_KEYS :: "ustr list" where
  "WORD_BOUNDARY_KEYS = map asc [''space'', ''Return'', ''Tab'', ''ISO_Left_Tab'']"
definition ACTION_BOUNDARY_KEYS :: "ustr list" where
  "ACTION_BOUNDARY_KEYS = map asc [''Return'', ''KP_Enter'', ''Tab'', ''ISO_Left_Tab'']"
definition WORD_JOINERS :: "ustr list" where "WORD_JOINERS = [[0x27], [0x2019], [0x2D], [0x2010], [0x2011]]"
definition UNICODE_PACKET_KEY_NAME :: ustr where "UNICODE_PACKET_KEY_NAME = asc ''Packet''"
definition BASIC_MULTILINGUAL_PLANE_MAX_CODEPOINT :: nat where "BASIC_MULTILINGUAL_PLANE_MAX_CODEPOINT = 0xFFFF"

text \<open>
  The first letter of \<open>unicodedata.category\<close> on the repertoire of \<open>Py_Text\<close>, with the General Punctuation block and the
  surrogates and private-use characters, which the tests below ask about.
\<close>

datatype category = Letter_Cat | Mark_Cat | Number_Cat | Punctuation_Cat | Symbol_Cat | Separator_Cat | Other_Cat

definition category_of :: "uchar \<Rightarrow> category" where
  "category_of c =
     (if isalpha_ch c then Letter_Cat
      else if isalnum_ch c then Number_Cat
      else if c < 0x20 \<or> 0x7F \<le> c \<and> c \<le> 0x9F \<or> c = 0xAD \<or> 0x200B \<le> c \<and> c \<le> 0x200F \<or> 0x202A \<le> c \<and> c \<le> 0x202E
           \<or> 0x2060 \<le> c \<and> c \<le> 0x206F \<or> 0xD800 \<le> c \<and> c \<le> 0xF8FF then Other_Cat
      else if 0x483 \<le> c \<and> c \<le> 0x489 then Mark_Cat
      else if c = 0x20 \<or> c = 0xA0 \<or> 0x2000 \<le> c \<and> c \<le> 0x200A \<or> c = 0x2028 \<or> c = 0x2029 \<or> c = 0x202F \<or> c = 0x205F
      then Separator_Cat
      else if c \<in> set (asc ''!#%&()*,-./:;?@[]_{}'' @ [0x22, 0x27, 0x5C, 0xA1, 0xA7, 0xAB, 0xB6, 0xB7, 0xBB, 0xBF])
           \<or> 0x2010 \<le> c \<and> c \<le> 0x205E \<and> c \<noteq> 0x2044 \<and> c \<noteq> 0x2052 then Punctuation_Cat
      else Symbol_Cat)"

section \<open>Settings\<close>

type_synonym settings_reader = "ustr \<Rightarrow> json \<Rightarrow> json"

fun py_truth :: "json \<Rightarrow> bool" where
  "py_truth JNull = False"
| "py_truth (JBool b) = b"
| "py_truth (JInt i) = (i \<noteq> 0)"
| "py_truth (JFloat r) = (r \<noteq> 0)"
| "py_truth (JInf _) = True"
| "py_truth JNan = True"
| "py_truth (JStr s) = (s \<noteq> [])"
| "py_truth (JList xs) = (xs \<noteq> [])"
| "py_truth (JObj d) = (d \<noteq> [])"

text \<open>\<open>bool(self.settings.get(path, default))\<close>.\<close>

definition flag :: "settings_reader \<Rightarrow> string \<Rightarrow> bool \<Rightarrow> bool" where
  "flag get path fallback = py_truth (get (asc path) (JBool fallback))"

text \<open>
  \<open>float(value)\<close>: an integer whose nearest double is past the largest one raises \<open>OverflowError\<close>. Doubles are reals here,
  and the infinities and NaN are values of their own.
\<close>

datatype py_float = Finite real | Infinite bool | Not_A_Number

definition to_float :: "(ustr \<Rightarrow> py_float option) \<Rightarrow> json \<Rightarrow> py_error + py_float" where
  "to_float parse v =
     (case v of
        JBool b \<Rightarrow> Inr (Finite (if b then 1 else 0))
      | JInt i \<Rightarrow> if \<bar>i\<bar> < 2 ^ 1024 - 2 ^ 970 then Inr (Finite (of_int i)) else Inl OverflowError
      | JFloat r \<Rightarrow> Inr (Finite r)
      | JInf positive \<Rightarrow> Inr (Infinite positive)
      | JNan \<Rightarrow> Inr Not_A_Number
      | JStr s \<Rightarrow> (case parse s of None \<Rightarrow> Inl ValueError | Some f \<Rightarrow> Inr f)
      | _ \<Rightarrow> Inl TypeError)"

text \<open>Python's \<open>max(a, b)\<close> and \<open>min(a, b)\<close> return the first argument unless the second is strictly on the other side.\<close>

fun float_less :: "py_float \<Rightarrow> py_float \<Rightarrow> bool" where
  "float_less (Finite a) (Finite b) = (a < b)"
| "float_less (Finite a) (Infinite positive) = positive"
| "float_less (Infinite positive) (Finite b) = (\<not> positive)"
| "float_less (Infinite p) (Infinite q) = (\<not> p \<and> q)"
| "float_less _ _ = False"

definition py_max :: "py_float \<Rightarrow> py_float \<Rightarrow> py_float" where "py_max a b = (if float_less a b then b else a)"
definition py_min :: "py_float \<Rightarrow> py_float \<Rightarrow> py_float" where "py_min a b = (if float_less b a then b else a)"

definition bounded_setting ::
    "settings_reader \<Rightarrow> (ustr \<Rightarrow> py_float option) \<Rightarrow> ustr \<Rightarrow> json \<Rightarrow> real \<Rightarrow> real \<Rightarrow> real \<Rightarrow> py_error + py_float" where
  "bounded_setting get parse path fallback fallback_value minimum maximum =
     (case to_float parse (get path fallback) of
        Inl TypeError \<Rightarrow> Inr (py_min (Finite maximum) (py_max (Finite minimum) (Finite fallback_value)))
      | Inl ValueError \<Rightarrow> Inr (py_min (Finite maximum) (py_max (Finite minimum) (Finite fallback_value)))
      | Inl e \<Rightarrow> Inl e
      | Inr v \<Rightarrow> Inr (py_min (Finite maximum) (py_max (Finite minimum) v)))"

definition PAUSE_DELAY_SETTING_MIN_SECONDS :: real where "PAUSE_DELAY_SETTING_MIN_SECONDS = 3 / 10"
definition PAUSE_DELAY_SETTING_MAX_SECONDS :: real where "PAUSE_DELAY_SETTING_MAX_SECONDS = 5"
definition CONFIDENCE_SETTING_MIN :: real where "CONFIDENCE_SETTING_MIN = 1 / 2"
definition CONFIDENCE_SETTING_MAX :: real where "CONFIDENCE_SETTING_MAX = 10"
definition MINIMUM_WORD_LENGTH_SETTING_MIN :: int where "MINIMUM_WORD_LENGTH_SETTING_MIN = 2"
definition MINIMUM_WORD_LENGTH_SETTING_MAX :: int where "MINIMUM_WORD_LENGTH_SETTING_MAX = 12"
definition EARLY_SWITCH_MIN_LENGTH_SETTING_MIN :: int where "EARLY_SWITCH_MIN_LENGTH_SETTING_MIN = 3"
definition EARLY_SWITCH_MIN_LENGTH_SETTING_MAX :: int where "EARLY_SWITCH_MIN_LENGTH_SETTING_MAX = 8"
definition ENGINE_LOOP_MAX_WAKE_SECONDS :: real where "ENGINE_LOOP_MAX_WAKE_SECONDS = 1 / 2"
definition ENGINE_LOOP_MIN_WAKE_SECONDS :: real where "ENGINE_LOOP_MIN_WAKE_SECONDS = 1 / 100"
definition FIELD_CATCH_UP_RETRY_SECONDS :: real where "FIELD_CATCH_UP_RETRY_SECONDS = 25 / 1000"
definition FIELD_CATCH_UP_CHOICES :: "ustr list" where
  "FIELD_CATCH_UP_CHOICES = map asc [''off'', ''100'', ''300'', ''500'', ''1000'']"

definition pause_delay :: "settings_reader \<Rightarrow> (ustr \<Rightarrow> py_float option) \<Rightarrow> py_error + py_float" where
  "pause_delay get parse =
     bounded_setting get parse (asc ''detection.pause_delay_seconds'') (JFloat DEFAULT_PAUSE_DELAY_SECONDS)
       DEFAULT_PAUSE_DELAY_SECONDS PAUSE_DELAY_SETTING_MIN_SECONDS PAUSE_DELAY_SETTING_MAX_SECONDS"

definition confidence_threshold :: "settings_reader \<Rightarrow> (ustr \<Rightarrow> py_float option) \<Rightarrow> py_error + py_float" where
  "confidence_threshold get parse =
     bounded_setting get parse (asc ''detection.confidence'') (JFloat DEFAULT_CONFIDENCE_THRESHOLD)
       DEFAULT_CONFIDENCE_THRESHOLD CONFIDENCE_SETTING_MIN CONFIDENCE_SETTING_MAX"

text \<open>\<open>int(float)\<close>: truncation; the infinities and NaN do not come this far (\<open>bounded_setting_bounds\<close>).\<close>

definition float_to_int :: "py_float \<Rightarrow> py_error + int" where
  "float_to_int f = (case f of Finite r \<Rightarrow> Inr (if 0 \<le> r then \<lfloor>r\<rfloor> else \<lceil>r\<rceil>) | Infinite _ \<Rightarrow> Inl OverflowError | Not_A_Number \<Rightarrow> Inl ValueError)"

definition minimum_word_length :: "settings_reader \<Rightarrow> (ustr \<Rightarrow> py_float option) \<Rightarrow> py_error + int" where
  "minimum_word_length get parse =
     (case bounded_setting get parse (asc ''detection.minimum_length'') (JInt DEFAULT_MINIMUM_WORD_LENGTH)
             (of_int DEFAULT_MINIMUM_WORD_LENGTH) (of_int MINIMUM_WORD_LENGTH_SETTING_MIN)
             (of_int MINIMUM_WORD_LENGTH_SETTING_MAX) of
        Inl e \<Rightarrow> Inl e | Inr f \<Rightarrow> float_to_int f)"

definition early_minimum_length :: "settings_reader \<Rightarrow> (ustr \<Rightarrow> py_float option) \<Rightarrow> py_error + int" where
  "early_minimum_length get parse =
     (case bounded_setting get parse (asc ''detection.early_switch_min_length'') (JInt DEFAULT_EARLY_SWITCH_MIN_LENGTH)
             (of_int DEFAULT_EARLY_SWITCH_MIN_LENGTH) (of_int EARLY_SWITCH_MIN_LENGTH_SETTING_MIN)
             (of_int EARLY_SWITCH_MIN_LENGTH_SETTING_MAX) of
        Inl e \<Rightarrow> Inl e | Inr f \<Rightarrow> float_to_int f)"

text \<open>\<open>str(value)\<close>: a string is itself, anything else is printed by a parameter.\<close>

definition json_text :: "(json \<Rightarrow> ustr) \<Rightarrow> json \<Rightarrow> ustr" where
  "json_text repr v = (case v of JStr s \<Rightarrow> s | _ \<Rightarrow> repr v)"

definition field_catch_up_seconds :: "settings_reader \<Rightarrow> (json \<Rightarrow> ustr) \<Rightarrow> real" where
  "field_catch_up_seconds get repr =
     (let v0 = json_text repr (get (asc ''detection.field_catch_up'') (JStr DEFAULT_FIELD_CATCH_UP));
          v = (if v0 \<notin> set FIELD_CATCH_UP_CHOICES then DEFAULT_FIELD_CATCH_UP else v0)
      in if v = asc ''off'' then 0 else of_int (the (py_int v)) / 1000)"

text \<open>\<open>_loop_timeout\<close>, with the pause delay as it was read.\<close>

definition loop_timeout :: "bool \<Rightarrow> bool \<Rightarrow> real option \<Rightarrow> real \<Rightarrow> real \<Rightarrow> real" where
  "loop_timeout field_waits pause_pending last_input delay now =
     (if field_waits then FIELD_CATCH_UP_RETRY_SECONDS
      else case last_input of
             None \<Rightarrow> ENGINE_LOOP_MAX_WAKE_SECONDS
           | Some t \<Rightarrow> if \<not> pause_pending then ENGINE_LOOP_MAX_WAKE_SECONDS
                       else max ENGINE_LOOP_MIN_WAKE_SECONDS (min ENGINE_LOOP_MAX_WAKE_SECONDS (t + delay - now)))"

definition configured_action_keys :: "settings_reader \<Rightarrow> ustr list" where
  "configured_action_keys get =
     (if \<not> flag get ''enabled'' True then []
      else (if flag get ''detection.correct_on_enter'' True then [asc ''Return'', asc ''KP_Enter''] else [])
           @ (if flag get ''detection.correct_on_tab'' True then [asc ''Tab''] else []))"

section \<open>Hotkeys\<close>

definition HOTKEY_MODIFIERS :: "ustr list" where
  "HOTKEY_MODIFIERS = map asc [''ctrl'', ''control'', ''alt'', ''shift'', ''super'', ''meta'']"

record hotkey =
  hk_modifiers :: "ustr list"
  hk_key :: ustr

definition hotkey_pieces :: "ustr \<Rightarrow> ustr list" where
  "hotkey_pieces v =
     map (\<lambda>piece. casefold (strip piece))
       (filter (\<lambda>piece. strip piece \<noteq> [])
          (split_on (\<lambda>c. c = 0x2B) (map (\<lambda>c. if c = 0x3E then 0x2B else c) (filter (\<lambda>c. c \<noteq> 0x3C) v))))"

definition parse_hotkey :: "ustr \<Rightarrow> hotkey" where
  "parse_hotkey v =
     (let pieces = hotkey_pieces v; keys = filter (\<lambda>piece. piece \<notin> set HOTKEY_MODIFIERS) pieces
      in \<lparr>hk_modifiers = filter (\<lambda>piece. piece \<in> set HOTKEY_MODIFIERS) pieces,
          hk_key = (if keys \<noteq> [] then last keys else [])\<rparr>)"

definition pressed_modifiers :: "key_event \<Rightarrow> ustr list" where
  "pressed_modifiers e =
     (if ev_control e then [asc ''ctrl''] else []) @ (if ev_alt e then [asc ''alt''] else [])
     @ (if ev_shift e then [asc ''shift''] else []) @ (if ev_super_key e then [asc ''super''] else [])"

definition plain_modifier :: "ustr \<Rightarrow> ustr" where
  "plain_modifier item = (if item = asc ''control'' then asc ''ctrl'' else if item = asc ''meta'' then asc ''super'' else item)"

definition key_aliases :: "ustr \<Rightarrow> ustr list" where
  "key_aliases key = (if key = asc ''pause'' then [asc ''pause'', asc ''break''] else [key])"

definition hotkey_matches :: "hotkey \<Rightarrow> key_event \<Rightarrow> bool" where
  "hotkey_matches h e \<longleftrightarrow>
     ev_pressed e \<and> hk_key h \<noteq> []
     \<and> casefold (ev_key_name e) \<in> set (key_aliases (hk_key h))
     \<and> set (pressed_modifiers e) = plain_modifier ` set (hk_modifiers h)"

definition matches_hotkey :: "settings_reader \<Rightarrow> (json \<Rightarrow> ustr) \<Rightarrow> ustr \<Rightarrow> key_event \<Rightarrow> bool" where
  "matches_hotkey get repr name e =
     hotkey_matches (parse_hotkey (json_text repr (get (asc ''hotkeys.'' @ name) (JStr [])))) e"

definition selection_hotkey :: "settings_reader \<Rightarrow> (json \<Rightarrow> ustr) \<Rightarrow> key_event \<Rightarrow> ustr option" where
  "selection_hotkey get repr e = List.find (\<lambda>name. matches_hotkey get repr name e) SELECTION_HOTKEYS"

definition configured_hotkeys :: "settings_reader \<Rightarrow> (json \<Rightarrow> ustr) \<Rightarrow> hotkey list" where
  "configured_hotkeys get repr =
     (case get (asc ''hotkeys'') JNull of JObj d \<Rightarrow> map (\<lambda>(_, v). parse_hotkey (json_text repr v)) d | _ \<Rightarrow> [])"

section \<open>Boundaries and text keys\<close>

definition is_boundary :: "key_event \<Rightarrow> bool" where
  "is_boundary e \<longleftrightarrow>
     ev_key_name e \<in> set WORD_BOUNDARY_KEYS \<union> set ACTION_BOUNDARY_KEYS
     \<or> ev_character e \<noteq> [] \<and> isspace (ev_character e)
     \<or> ev_character e \<in> set (map (\<lambda>c. [c]) PUNCTUATION)
     \<or> ev_character e \<noteq> [] \<and> ev_character e \<notin> {[0x5F], [0x2F], [0x5C], [0x40]}
        \<and> category_of (hd (ev_character e)) = Punctuation_Cat"

definition spaces_word :: "key_event \<Rightarrow> bool" where
  "spaces_word e \<longleftrightarrow>
     ev_key_name e = asc ''space'' \<or> isspace (ev_character e) \<and> ev_key_name e \<notin> set ACTION_BOUNDARY_KEYS"

definition boundary_enabled :: "settings_reader \<Rightarrow> key_event \<Rightarrow> bool" where
  "boundary_enabled get e =
     (if spaces_word e then flag get ''detection.correct_on_space'' True
      else if ev_key_name e \<in> {asc ''Return'', asc ''KP_Enter''} then flag get ''detection.correct_on_enter'' True
      else if ev_key_name e \<in> {asc ''Tab'', asc ''ISO_Left_Tab''} then flag get ''detection.correct_on_tab'' True
      else flag get ''detection.correct_on_punctuation'' True)"

datatype boundary_trigger = Trigger_Space | Trigger_Enter | Trigger_Tab | Trigger_Punctuation

definition trigger_for_boundary :: "key_event \<Rightarrow> boundary_trigger" where
  "trigger_for_boundary e =
     (if spaces_word e then Trigger_Space
      else if ev_key_name e \<in> {asc ''Return'', asc ''KP_Enter''} then Trigger_Enter
      else if ev_key_name e \<in> {asc ''Tab'', asc ''ISO_Left_Tab''} then Trigger_Tab
      else Trigger_Punctuation)"

definition safe_text_stroke :: "key_event \<Rightarrow> bool" where
  "safe_text_stroke e \<longleftrightarrow>
     list_all (\<lambda>s. length s = 1 \<and> hd s \<le> BASIC_MULTILINGUAL_PLANE_MAX_CODEPOINT
                   \<and> category_of (hd s) \<noteq> Mark_Cat \<and> category_of (hd s) \<noteq> Other_Cat) (ev_characters e)"

definition layout_dependent :: "key_event \<Rightarrow> bool" where
  "layout_dependent e \<longleftrightarrow>
     ev_character e \<noteq> [] \<and> 1 < card (set (filter (\<lambda>s. s \<noteq> []) (ev_characters e)))"

definition is_layout_letter :: "key_event \<Rightarrow> bool" where
  "is_layout_letter e \<longleftrightarrow> list_ex isalpha (ev_characters e)"

definition isalnum :: "ustr \<Rightarrow> bool" where
  "isalnum s \<longleftrightarrow> s \<noteq> [] \<and> list_all isalnum_ch s"

definition joins_parts :: "key_event \<Rightarrow> bool" where
  "joins_parts e \<longleftrightarrow>
     card (set (ev_characters e)) = 1 \<and> ev_character e \<in> set (ev_characters e)
     \<and> \<not> list_ex (\<lambda>s. isalnum s \<or> isspace s) (ev_characters e)"

datatype late_kind = Late_Modifier | Late_Shortcut | Late_Backspace | Late_Navigation | Late_Space | Late_Composed | Late_Other

definition shortcut :: "key_event \<Rightarrow> bool" where
  "shortcut e \<longleftrightarrow> ev_control e \<or> ev_alt e \<or> ev_super_key e"

definition late_key_kind :: "key_event \<Rightarrow> late_kind" where
  "late_key_kind e =
     (if ev_key_name e \<in> set MODIFIER_KEYS then Late_Modifier
      else if shortcut e then Late_Shortcut
      else if ev_key_name e = asc ''BackSpace'' then Late_Backspace
      else if ev_key_name e \<in> set NAVIGATION_KEYS then Late_Navigation
      else if ev_character e = [0x20] then Late_Space
      else if ev_character e \<noteq> [] \<and> isprintable (ev_character e) then Late_Composed
      else Late_Other)"

definition late_text_key :: "key_event \<Rightarrow> bool" where
  "late_text_key e \<longleftrightarrow>
     ev_pressed e \<and> ev_character e \<noteq> [] \<and> isprintable (ev_character e) \<and> ev_character e \<noteq> [0x20]
     \<and> ev_key_name e \<notin> set MODIFIER_KEYS \<and> ev_key_name e \<notin> set NAVIGATION_KEYS
     \<and> ev_key_name e \<noteq> asc ''BackSpace'' \<and> \<not> shortcut e"

section \<open>Excluded programs\<close>

text \<open>
  The items a \<open>for\<close> loop gets from a value (None: \<open>TypeError\<close>), and the lazy \<open>any\<close> over them: an item that is no
  string raises \<open>AttributeError\<close> when it is reached.
\<close>

definition iter_items :: "json \<Rightarrow> json list option" where
  "iter_items v = (case v of JList xs \<Rightarrow> Some xs | JStr s \<Rightarrow> Some (map (\<lambda>c. JStr [c]) s) | JObj d \<Rightarrow> Some (map (JStr \<circ> fst) d) | _ \<Rightarrow> None)"

fun excluded_by :: "ustr \<Rightarrow> json list \<Rightarrow> py_error + bool" where
  "excluded_by application [] = Inr False"
| "excluded_by application (JStr s # items) =
     (if strip s \<noteq> [] \<and> occurs_in (casefold s) application then Inr True else excluded_by application items)"
| "excluded_by application (_ # items) = Inl AttributeError"

definition application_excluded :: "settings_reader \<Rightarrow> int option \<Rightarrow> int option \<Rightarrow> ustr \<Rightarrow> py_error + bool" where
  "application_excluded get sensitive_window focus_window application =
     (if sensitive_window \<noteq> None \<and> sensitive_window = focus_window then Inr True
      else case iter_items (get (asc ''exclusions.applications'') (JList [])) of
             None \<Rightarrow> Inl TypeError
           | Some items \<Rightarrow> excluded_by (casefold application) items)"


section \<open>The settings stay in their ranges\<close>

lemma clamped:
  assumes "minimum \<le> maximum"
  shows "\<exists>r. py_min (Finite maximum) (py_max (Finite minimum) v) = Finite r \<and> minimum \<le> r \<and> r \<le> maximum
    \<and> (\<forall>x. v = Finite x \<and> minimum \<le> x \<and> x \<le> maximum \<longrightarrow> r = x)"
  using assms by (cases v) (auto simp: py_min_def py_max_def)

text \<open>C32: A numeric setting is always used within the range the settings windows offer: whatever the settings file holds
  there, an infinity, a NaN or a value of another kind included, the engine reads a finite number of that range, the very
  number stored when it lies in the range; the only exception is an integer too large for a double, which raises.
\<close>

theorem bounded_setting_bounds:
  assumes "minimum \<le> maximum"
  shows "case bounded_setting get parse path fallback fallback_value minimum maximum of
      Inl e \<Rightarrow> to_float parse (get path fallback) = Inl e \<and> e \<noteq> TypeError \<and> e \<noteq> ValueError
               \<and> (\<exists>i. get path fallback = JInt i \<and> 2 ^ 1024 - 2 ^ 970 \<le> \<bar>i\<bar>)
    | Inr v \<Rightarrow> (\<exists>r. v = Finite r \<and> minimum \<le> r \<and> r \<le> maximum
               \<and> (\<forall>x. to_float parse (get path fallback) = Inr (Finite x) \<and> minimum \<le> x \<and> x \<le> maximum \<longrightarrow> r = x))"
proof (cases "to_float parse (get path fallback)")
  case (Inr v)
  then show ?thesis using clamped[OF assms, of v] by (auto simp: bounded_setting_def)
next
  case (Inl e)
  show ?thesis
  proof (cases "e = TypeError \<or> e = ValueError")
    case True
    then show ?thesis using clamped[OF assms, of "Finite fallback_value"] Inl by (auto simp: bounded_setting_def)
  next
    case False
    have "\<exists>i. get path fallback = JInt i \<and> 2 ^ 1024 - 2 ^ 970 \<le> \<bar>i\<bar>"
      using Inl False by (cases "get path fallback") (auto simp: to_float_def not_less split: if_splits option.splits)
    then show ?thesis using Inl False by (cases e) (auto simp: bounded_setting_def)
  qed
qed

theorem bounded_setting_bounds_witness:
  "bounded_setting (\<lambda>_ _. JInf True) (\<lambda>_. None) (asc ''detection.confidence'') (JFloat 2) 2 (1/2) 10 = Inr (Finite 10)
   \<and> (case bounded_setting (\<lambda>_ _. JInt (2 ^ 1024)) (\<lambda>_. None) (asc ''detection.confidence'') (JFloat 2) 2 (1/2) 10 of
        Inl e \<Rightarrow> e = OverflowError | Inr v \<Rightarrow> False)"
proof -
  have "(case bounded_setting (\<lambda>_ _. JInf True) (\<lambda>_. None) (asc ''detection.confidence'') (JFloat 2) 2 (1/2) 10 of
        Inl e \<Rightarrow> False | Inr v \<Rightarrow> (\<exists>r. v = Finite r \<and> 1/2 \<le> r \<and> r \<le> 10))"
    using bounded_setting_bounds[where minimum="1/2" and maximum=10 and get="\<lambda>_ _. JInf True" and parse="\<lambda>_. None"
        and path="asc ''detection.confidence''" and fallback="JFloat 2" and fallback_value=2]
    by (auto split: sum.splits)
  moreover have "bounded_setting (\<lambda>_ _. JInt (2 ^ 1024)) (\<lambda>_. None) (asc ''detection.confidence'') (JFloat 2) 2 (1/2) 10 = Inl OverflowError"
    by (simp add: bounded_setting_def to_float_def)
  ultimately show ?thesis by (simp add: bounded_setting_def to_float_def py_min_def py_max_def)
qed

lemma loop_timeout_bounds:
  "0 < loop_timeout w p t d now \<and> loop_timeout w p t d now \<le> ENGINE_LOOP_MAX_WAKE_SECONDS"
  by (auto simp: loop_timeout_def ENGINE_LOOP_MAX_WAKE_SECONDS_def ENGINE_LOOP_MIN_WAKE_SECONDS_def
      FIELD_CATCH_UP_RETRY_SECONDS_def max_def min_def split: option.splits)

section \<open>The shipped hotkeys\<close>

definition shipped_hotkeys :: "string \<Rightarrow> hotkey list" where
  "shipped_hotkeys platform =
     configured_hotkeys (\<lambda>path fallback. case map_of (default_settings platform) path of None \<Rightarrow> fallback | Some v \<Rightarrow> v) (\<lambda>_. [])"

definition clashing :: "hotkey \<Rightarrow> hotkey \<Rightarrow> bool" where
  "clashing h k \<longleftrightarrow>
     plain_modifier ` set (hk_modifiers h) = plain_modifier ` set (hk_modifiers k)
     \<and> set (key_aliases (hk_key h)) \<inter> set (key_aliases (hk_key k)) \<noteq> {}"

lemma matches_clash: "hotkey_matches h e \<Longrightarrow> hotkey_matches k e \<Longrightarrow> clashing h k"
  unfolding hotkey_matches_def clashing_def by blast

fun apart_hotkeys :: "hotkey list \<Rightarrow> bool" where
  "apart_hotkeys [] = True"
| "apart_hotkeys (h # hs) = (list_all (\<lambda>k. \<not> clashing h k) hs \<and> apart_hotkeys hs)"

lemma apart_nth: "apart_hotkeys hs \<Longrightarrow> i < j \<Longrightarrow> j < length hs \<Longrightarrow> \<not> clashing (hs ! i) (hs ! j)"
  by (induction hs arbitrary: i j) (auto simp: list_all_iff nth_Cons split: nat.splits)

lemma shipped_hotkeys_other:
  "shipped_hotkeys ''linux'' = map (parse_hotkey \<circ> asc)
     [''Ctrl+Alt+P'', ''Pause'', ''Ctrl+Alt+Z'', ''Shift+Pause'', ''Alt+Pause'', ''Alt+Scroll_Lock'']"
  by (simp add: shipped_hotkeys_def configured_hotkeys_def default_settings_def dict_get_def DEFAULT_SETTINGS_def asc_def
      json_text_def DEFAULT_SELECTION_LAYOUT_HOTKEY_def DEFAULT_SELECTION_CASE_HOTKEY_def
      DEFAULT_SELECTION_TRANSLITERATE_HOTKEY_def)

lemma parsed_hotkeys:
  "parse_hotkey (asc ''Ctrl+Alt+P'') = \<lparr>hk_modifiers = [asc ''ctrl'', asc ''alt''], hk_key = asc ''p''\<rparr>"
  "parse_hotkey (asc ''Ctrl+Alt+Z'') = \<lparr>hk_modifiers = [asc ''ctrl'', asc ''alt''], hk_key = asc ''z''\<rparr>"
  "parse_hotkey (asc ''Pause'') = \<lparr>hk_modifiers = [], hk_key = asc ''pause''\<rparr>"
  "parse_hotkey (asc ''Shift+Pause'') = \<lparr>hk_modifiers = [asc ''shift''], hk_key = asc ''pause''\<rparr>"
  "parse_hotkey (asc ''Alt+Pause'') = \<lparr>hk_modifiers = [asc ''alt''], hk_key = asc ''pause''\<rparr>"
  "parse_hotkey (asc ''Alt+Scroll_Lock'') = \<lparr>hk_modifiers = [asc ''alt''], hk_key = asc ''scroll_lock''\<rparr>"
  "parse_hotkey (asc ''Ctrl+Alt+L'') = \<lparr>hk_modifiers = [asc ''ctrl'', asc ''alt''], hk_key = asc ''l''\<rparr>"
  "parse_hotkey (asc ''Ctrl+Alt+U'') = \<lparr>hk_modifiers = [asc ''ctrl'', asc ''alt''], hk_key = asc ''u''\<rparr>"
  "parse_hotkey (asc ''Ctrl+Alt+T'') = \<lparr>hk_modifiers = [asc ''ctrl'', asc ''alt''], hk_key = asc ''t''\<rparr>"
  by (simp_all add: parse_hotkey_def hotkey_pieces_def asc_def strip_def lstrip_chars_def rstrip_chars_def isspace_ch_def
      casefold_def casefold_ch_def lower_ch_def letter_class_def HOTKEY_MODIFIERS_def)


lemma shipped_hotkeys_mac:
  "shipped_hotkeys ''darwin'' = map (parse_hotkey \<circ> asc)
     [''Ctrl+Alt+P'', ''Pause'', ''Ctrl+Alt+Z'', ''Ctrl+Alt+L'', ''Ctrl+Alt+U'', ''Ctrl+Alt+T'']"
  by (simp add: shipped_hotkeys_def configured_hotkeys_def default_settings_def dict_get_def DEFAULT_SETTINGS_def asc_def
      json_text_def DEFAULT_SELECTION_LAYOUT_HOTKEY_def DEFAULT_SELECTION_CASE_HOTKEY_def
      DEFAULT_SELECTION_TRANSLITERATE_HOTKEY_def dict_update_def MACOS_SELECTION_HOTKEY_DEFAULTS_def
      HOTKEY_SELECTION_LAYOUT_def HOTKEY_SELECTION_CASE_def HOTKEY_SELECTION_TRANSLITERATE_def)

declare asc_eq [simp] asc_eq_Nil [simp]

lemma clashing_iff:
  "clashing \<lparr>hk_modifiers = ms, hk_key = a\<rparr> \<lparr>hk_modifiers = ns, hk_key = b\<rparr> \<longleftrightarrow>
     set (map plain_modifier ms) = set (map plain_modifier ns) \<and> list_ex (\<lambda>x. x \<in> set (key_aliases b)) (key_aliases a)"
  by (auto simp: clashing_def list_ex_iff)

lemma shipped_apart:
  "apart_hotkeys (shipped_hotkeys ''darwin'')" "apart_hotkeys (shipped_hotkeys ''linux'')"
  unfolding shipped_hotkeys_mac shipped_hotkeys_other
  by (simp_all add: parsed_hotkeys clashing_iff key_aliases_def plain_modifier_def insert_eq_iff)

text \<open>No key event is two hotkeys at once with the shipped settings, on macOS and elsewhere: the hotkeys that two events
  could confuse differ in a modifier or in the key, \<open>Break\<close> counted as \<open>Pause\<close>.
\<close>

theorem shipped_hotkeys_distinct:
  assumes "platform = ''darwin'' \<or> platform = ''linux''"
    and "i < length (shipped_hotkeys platform)" "j < length (shipped_hotkeys platform)"
    and "hotkey_matches (shipped_hotkeys platform ! i) e" "hotkey_matches (shipped_hotkeys platform ! j) e"
  shows "i = j"
proof (rule ccontr)
  assume "i \<noteq> j"
  then consider "i < j" | "j < i" by linarith
  moreover have "apart_hotkeys (shipped_hotkeys platform)" using assms(1) shipped_apart by auto
  ultimately show False
  proof cases
    case 1
    then show ?thesis
      using apart_nth[OF \<open>apart_hotkeys (shipped_hotkeys platform)\<close>] assms matches_clash by blast
  next
    case 2
    then show ?thesis
      using apart_nth[OF \<open>apart_hotkeys (shipped_hotkeys platform)\<close>] assms matches_clash by blast
  qed
qed


definition pause_key :: key_event where
  "pause_key = \<lparr>ev_pressed = True, ev_keycode = 127, ev_key_name = asc ''Pause'', ev_character = [],
     ev_characters = [[], []], ev_group = 0, ev_state = 0, ev_timestamp = 0, ev_synthetic = False, ev_deferred = False,
     ev_foreign = False\<rparr>"

theorem shipped_hotkeys_distinct_witness:
  "hotkey_matches (shipped_hotkeys ''linux'' ! 1) pause_key \<and> \<not> hotkey_matches (shipped_hotkeys ''linux'' ! 3) pause_key"
proof -
  have name: "casefold (asc ''Pause'') = asc ''pause''"
    by (simp add: asc_def casefold_def casefold_ch_def lower_ch_def letter_class_def)
  have one: "hotkey_matches (shipped_hotkeys ''linux'' ! 1) pause_key"
    by (simp add: shipped_hotkeys_other parsed_hotkeys hotkey_matches_def pause_key_def key_aliases_def pressed_modifiers_def name
        ev_control_def ev_alt_def ev_shift_def ev_super_key_def)
  have "length (shipped_hotkeys ''linux'') = 6" by (simp add: shipped_hotkeys_other)
  then show ?thesis using shipped_hotkeys_distinct[of "''linux''" 1 3 pause_key] one by auto
qed

end
