(* ===== verification/Corrections.thy ===== *)
theory Corrections
  imports Detector Engine_Keys Input_Context X11_Injection
begin

text \<open>
  The corrections of \<open>src/keyswitch/engine.py\<close>: the plan of one correction, the plans that undo it or replace its signs with
  it, the chain of corrections over the same keys, and what the backend is asked for a plan. The last section composes a
  plan and its undo with the X server of \<open>X11_Injection\<close>.
\<close>

definition UNSCORED_CORRECTION_CONFIDENCE :: real where "UNSCORED_CORRECTION_CONFIDENCE = 99"
definition EARLY_SWITCH_CONFIDENCE :: real where "EARLY_SWITCH_CONFIDENCE = 15"
definition PAUSE_TRAILING_MAX_KEYS :: nat where "PAUSE_TRAILING_MAX_KEYS = 8"
definition UNDO_AVAILABLE_WINDOW_SECONDS :: real where "UNDO_AVAILABLE_WINDOW_SECONDS = 10"
definition PAUSE_CORRECTION_AGREEMENT_SECONDS :: real where "PAUSE_CORRECTION_AGREEMENT_SECONDS = 3 / 2"
definition DOUBLE_CONVERT_PRESS_WINDOW_SECONDS :: real where "DOUBLE_CONVERT_PRESS_WINDOW_SECONDS = 1 / 2"

section \<open>Plans\<close>

datatype plan_mode =
    Mode_Boundary | Mode_Before_Action | Mode_Pause | Mode_Manual | Mode_Undo | Mode_Early | Mode_Early_Undo | Mode_Symbols
  | Mode_Late_Stroke | Mode_Mention_Shown | Mode_Mention_Hidden | Mode_Context_Phrase | Mode_Context_Word | Mode_Sign
  | Mode_Case | Mode_Typo

record correction_plan =
  cp_strokes :: "key_event list"
  cp_boundary :: "key_event option"
  cp_source :: int
  cp_target :: int
  cp_original :: ustr
  cp_replacement :: ustr
  cp_confidence :: real
  cp_application :: ustr
  cp_automatic :: bool
  cp_mode :: plan_mode
  cp_context_field :: ustr
  cp_trailing :: "key_event list"
  cp_head :: "key_event list"
  cp_revisit :: "(decision \<times> field_context option) option"
  cp_sign_replayed :: bool
  cp_typed :: ustr
  cp_kept_tail :: int
  cp_replaced_strokes :: "key_event list"
  cp_replaced :: "key_event list"

text \<open>\<open>CorrectionPlan(...)\<close> with its defaults after the application.\<close>

definition plain_plan ::
    "key_event list \<Rightarrow> key_event option \<Rightarrow> int \<Rightarrow> int \<Rightarrow> ustr \<Rightarrow> ustr \<Rightarrow> real \<Rightarrow> ustr \<Rightarrow> bool \<Rightarrow> plan_mode \<Rightarrow> correction_plan" where
  "plain_plan strokes boundary source target original replacement confidence application automatic mode =
     \<lparr>cp_strokes = strokes, cp_boundary = boundary, cp_source = source, cp_target = target, cp_original = original,
      cp_replacement = replacement, cp_confidence = confidence, cp_application = application, cp_automatic = automatic,
      cp_mode = mode, cp_context_field = [], cp_trailing = [], cp_head = [], cp_revisit = None, cp_sign_replayed = False,
      cp_typed = [], cp_kept_tail = 0, cp_replaced_strokes = [], cp_replaced = []\<rparr>"

definition case_fix :: "correction_plan \<Rightarrow> bool" where "case_fix p \<longleftrightarrow> cp_replaced p \<noteq> []"

definition boundary_keys :: "correction_plan \<Rightarrow> key_event list" where
  "boundary_keys p = (case cp_boundary p of None \<Rightarrow> [] | Some b \<Rightarrow> [b])"

text \<open>\<open>_undo_of\<close>.\<close>

definition undo_of :: "correction_plan \<Rightarrow> key_event option \<Rightarrow> key_event list \<Rightarrow> correction_plan" where
  "undo_of previous boundary trailing =
     (let (strokes, replaced_strokes, replaced) =
            (if cp_replaced_strokes previous \<noteq> [] then (cp_replaced_strokes previous, cp_strokes previous, [])
             else if cp_replaced previous \<noteq> [] then (cp_replaced previous, [], cp_strokes previous)
             else (cp_strokes previous, [], []))
      in (plain_plan strokes boundary (cp_target previous) (cp_source previous) (cp_replacement previous)
            (cp_original previous) UNSCORED_CORRECTION_CONFIDENCE (cp_application previous) False Mode_Undo)
          \<lparr>cp_trailing := trailing, cp_replaced := replaced, cp_replaced_strokes := replaced_strokes\<rparr>)"

text \<open>\<open>_with_signs\<close> and \<open>_replay_sign_with_word\<close>: signs typed after the word go out in the layout the word was meant in.\<close>

definition with_signs :: "correction_plan \<Rightarrow> key_event list \<Rightarrow> correction_plan" where
  "with_signs p signs =
     (if signs = [] then p
      else p\<lparr>cp_strokes := cp_strokes p @ signs, cp_original := cp_original p @ text_for_group signs (cp_source p),
             cp_replacement := cp_replacement p @ text_for_group signs (cp_target p)\<rparr>)"

definition replay_sign_with_word :: "correction_plan \<Rightarrow> key_event list \<Rightarrow> correction_plan" where
  "replay_sign_with_word p opened =
     (case cp_boundary p of
        None \<Rightarrow> p
      | Some b \<Rightarrow>
          if ev_deferred b \<or> cp_trailing p \<noteq> [] \<or> cp_head p \<noteq> [] \<or> isspace (ev_character b)
             \<or> ev_character b = [0x22] \<and> list_ex (\<lambda>stroke. ev_character stroke = [0x22]) opened then p
          else let meant = character_for b (cp_target p)
               in if meant = [] \<or> meant = ev_character b \<or> isalpha meant \<or> isspace meant then p
                  else p\<lparr>cp_strokes := cp_strokes p @ [b], cp_boundary := None, cp_sign_replayed := True,
                         cp_original := cp_original p @ ev_character b, cp_replacement := cp_replacement p @ meant\<rparr>)"

text \<open>\<open>_quotation_closed\<close>.\<close>

definition quotation_closed :: "key_event \<Rightarrow> key_event list \<Rightarrow> key_event option \<Rightarrow> bool" where
  "quotation_closed head trailing boundary \<longleftrightarrow>
     list_ex (\<lambda>stroke. ev_keycode stroke = ev_keycode head) (literal_keys trailing boundary)"

text \<open>\<open>_mention_write_back\<close>, with the group the at sign was shown in; the plans of a late stroke and of an early undo.\<close>

definition other_group :: "int list \<Rightarrow> int \<Rightarrow> int option" where
  "other_group models g = List.find (\<lambda>h. h \<noteq> g) models"

definition mention_write_back ::
    "int \<Rightarrow> key_event \<Rightarrow> key_event list \<Rightarrow> key_event list \<Rightarrow> key_event option \<Rightarrow> ustr \<Rightarrow> correction_plan" where
  "mention_write_back shown_group head strokes trailing boundary application =
     (plain_plan (head # strokes) boundary shown_group (ev_group head)
        (text_for_group [head] shown_group @ text_for_group strokes (ev_group head))
        (text_for_group (head # strokes) (ev_group head)) UNSCORED_CORRECTION_CONFIDENCE application True Mode_Mention_Hidden)
      \<lparr>cp_trailing := trailing\<rparr>"

definition convert_late_stroke :: "key_event list \<Rightarrow> int \<Rightarrow> ustr \<Rightarrow> key_event \<Rightarrow> key_event \<times> correction_plan" where
  "convert_late_stroke strokes target application e =
     (let converted = e\<lparr>ev_character := character_for e target, ev_group := target\<rparr>; all = strokes @ [converted]
      in (converted, plain_plan all None target target (text_for_group strokes target @ ev_character e)
            (text_for_group all target) EARLY_SWITCH_CONFIDENCE application True Mode_Late_Stroke))"

definition early_undo_plan :: "key_event list \<Rightarrow> int \<Rightarrow> int \<Rightarrow> ustr \<Rightarrow> correction_plan" where
  "early_undo_plan strokes current origin application =
     plain_plan strokes None current origin (text_for_group strokes current) (text_for_group strokes origin)
       UNSCORED_CORRECTION_CONFIDENCE application False Mode_Early_Undo"

text \<open>The two plans \<open>_finish_early_switch\<close> records: the correction made, and the word Pause would convert back.\<close>

definition finished_early_plans ::
    "key_event list \<Rightarrow> key_event option \<Rightarrow> int \<Rightarrow> int \<Rightarrow> real \<Rightarrow> ustr \<Rightarrow> key_event list \<Rightarrow> correction_plan \<times> correction_plan" where
  "finished_early_plans strokes boundary origin final confidence application trailing =
     (let original = text_for_group strokes origin; replacement = text_for_group strokes final
      in ((plain_plan strokes boundary origin final original replacement confidence application True Mode_Early)
            \<lparr>cp_trailing := trailing\<rparr>,
          (plain_plan strokes boundary final origin replacement original confidence application False Mode_Boundary)
            \<lparr>cp_trailing := trailing\<rparr>))"

text \<open>The word Pause converts back after a correction (\<open>_execute_correction\<close>).\<close>

definition committed_after :: "correction_plan \<Rightarrow> correction_plan" where
  "committed_after p =
     (plain_plan (cp_strokes p) (cp_boundary p) (cp_target p) (cp_source p) (cp_replacement p)
        (if cp_typed p \<noteq> [] then cp_typed p else cp_original p) (cp_confidence p) (cp_application p) False Mode_Boundary)
      \<lparr>cp_trailing := cp_trailing p\<rparr>"

section \<open>How far Pause and undo reach\<close>

definition pause_reaches_past :: "correction_plan option \<Rightarrow> bool \<Rightarrow> key_event list \<Rightarrow> bool" where
  "pause_reaches_past committed stale keys \<longleftrightarrow>
     (case committed of None \<Rightarrow> False | Some p \<Rightarrow>
        \<not> stale
        \<and> (case cp_boundary p of None \<Rightarrow> False | Some b \<Rightarrow> ev_key_name b \<notin> set ACTION_BOUNDARY_KEYS)
        \<and> list_ex isalpha_ch (cp_original p)
        \<and> length (cp_trailing p) + 1 + length keys \<le> PAUSE_TRAILING_MAX_KEYS
        \<and> list_all (\<lambda>k. ev_key_name k \<notin> set ACTION_BOUNDARY_KEYS
              \<and> (set (ev_characters k) = {[0x20]} \<and> ev_character k = [0x20] \<or> joins_parts k)) keys)"

text \<open>\<open>_extend_last_committed\<close>: the assertion failure is None, and so is an empty sequence of keys.\<close>

definition extend_committed :: "correction_plan \<Rightarrow> key_event list \<Rightarrow> correction_plan option" where
  "extend_committed p keys =
     (case cp_boundary p of None \<Rightarrow> None | Some b \<Rightarrow>
        let extra = map (\<lambda>k. k\<lparr>ev_group := ev_group b\<rparr>) keys
        in if extra = [] then None
           else Some (p\<lparr>cp_trailing := cp_trailing p @ [b] @ butlast extra, cp_boundary := Some (last extra)\<rparr>))"

definition reopenable_word ::
    "correction_plan option \<Rightarrow> bool \<Rightarrow> key_event list \<Rightarrow> key_event list \<Rightarrow> correction_plan option" where
  "reopenable_word committed stale strokes symbols =
     (case committed of None \<Rightarrow> None | Some p \<Rightarrow>
        (case cp_boundary p of None \<Rightarrow> None | Some b \<Rightarrow>
           if stale \<or> strokes \<noteq> [] \<or> symbols \<noteq> [] \<or> cp_trailing p \<noteq> [] \<or> cp_strokes p = []
              \<or> ev_key_name b \<in> set ACTION_BOUNDARY_KEYS \<or> length (ev_character b) \<noteq> 1 then None
           else Some p))"

definition space_follows_pending_sign :: "correction_plan option \<Rightarrow> key_event \<Rightarrow> bool" where
  "space_follows_pending_sign pending e \<longleftrightarrow>
     (case pending of None \<Rightarrow> False | Some p \<Rightarrow>
        cp_mode p = Mode_Boundary \<and> cp_automatic p \<and> cp_kept_tail p = 0 \<and> cp_head p = []
        \<and> (case cp_boundary p of None \<Rightarrow> cp_sign_replayed p
             | Some b \<Rightarrow> \<not> isspace (ev_character b) \<and> \<not> ev_deferred b)
        \<and> ev_pressed e \<and> ev_character e = [0x20] \<and> \<not> shortcut e)"

definition undo_past_spaces ::
    "correction_plan option \<Rightarrow> correction_plan option \<Rightarrow> correction_plan option \<Rightarrow> bool \<Rightarrow> key_event list \<Rightarrow> key_event list
      \<Rightarrow> real \<Rightarrow> real \<Rightarrow> (correction_plan \<times> nat) option" where
  "undo_past_spaces last_correction committed pending stale strokes symbols corrected_at now =
     (case (last_correction, committed) of
        (Some previous, Some c) \<Rightarrow>
          if pending \<noteq> None \<or> stale \<or> strokes \<noteq> [] \<or> symbols \<noteq> [] \<or> cp_strokes c \<noteq> cp_strokes previous
             \<or> UNDO_AVAILABLE_WINDOW_SECONDS < now - corrected_at then None
          else let corrected = cp_trailing previous @ boundary_keys previous; typed = cp_trailing c @ boundary_keys c;
                   after = drop (length corrected) typed
               in if take (length corrected) typed \<noteq> corrected \<or> after = []
                     \<or> \<not> list_all (\<lambda>k. ev_character k = [0x20] \<and> set (ev_characters k) = {[0x20]}) after then None
                  else Some (undo_of previous (cp_boundary c) (cp_trailing c), length after)
      | _ \<Rightarrow> None)"

text \<open>The refusal of \<open>_schedule_undo\<close>, and \<open>_typo_correction_reversible\<close>.\<close>

definition undo_available ::
    "correction_plan option \<Rightarrow> correction_plan option \<Rightarrow> bool \<Rightarrow> key_event list \<Rightarrow> key_event list \<Rightarrow> real \<Rightarrow> real \<Rightarrow> bool" where
  "undo_available last_correction committed stale strokes symbols corrected_at now \<longleftrightarrow>
     (case (last_correction, committed) of
        (Some previous, Some c) \<Rightarrow>
          \<not> stale \<and> \<not> (strokes \<noteq> [] \<and> strokes \<noteq> cp_strokes previous) \<and> cp_strokes c = cp_strokes previous
          \<and> cp_trailing c = cp_trailing previous \<and> cp_boundary c = cp_boundary previous \<and> symbols = []
          \<and> now - corrected_at \<le> UNDO_AVAILABLE_WINDOW_SECONDS
      | _ \<Rightarrow> False)"

definition typo_correction_reversible ::
    "correction_plan option \<Rightarrow> correction_plan option \<Rightarrow> bool \<Rightarrow> key_event list \<Rightarrow> key_event list \<Rightarrow> real \<Rightarrow> real \<Rightarrow> bool" where
  "typo_correction_reversible last_correction committed stale strokes symbols corrected_at now \<longleftrightarrow>
     (case last_correction of None \<Rightarrow> False | Some previous \<Rightarrow>
        cp_mode previous = Mode_Typo \<and> strokes = [] \<and> symbols = [] \<and> \<not> stale
        \<and> (case committed of None \<Rightarrow> False | Some c \<Rightarrow>
             cp_strokes c = cp_strokes previous \<and> cp_trailing c = cp_trailing previous
             \<and> cp_boundary c = cp_boundary previous)
        \<and> now - corrected_at \<le> UNDO_AVAILABLE_WINDOW_SECONDS)"

section \<open>The chain of corrections\<close>

record correction_log =
  cl_origin :: "correction_plan option"
  cl_last :: "correction_plan option"
  cl_time :: real
  cl_agreement_open :: bool

definition no_corrections :: correction_log where
  "no_corrections = \<lparr>cl_origin = None, cl_last = None, cl_time = 0, cl_agreement_open = False\<rparr>"

definition reversal_of :: "correction_plan option \<Rightarrow> correction_plan \<Rightarrow> correction_plan option" where
  "reversal_of last_correction p =
     (case last_correction of None \<Rightarrow> None | Some previous \<Rightarrow>
        if cp_strokes p \<noteq> cp_strokes previous \<or> cp_trailing p \<noteq> cp_trailing previous
           \<or> cp_source p \<noteq> cp_target previous \<or> cp_target p \<noteq> cp_source previous then None
        else Some previous)"

definition remember_correction :: "real \<Rightarrow> correction_plan \<Rightarrow> correction_log \<Rightarrow> correction_log" where
  "remember_correction now p l =
     \<lparr>cl_origin = (if cl_origin l = None \<or> cp_mode p \<noteq> Mode_Undo \<and> reversal_of (cl_last l) p = None then Some p else cl_origin l),
      cl_last = Some p, cl_time = now,
      cl_agreement_open = (cp_automatic p \<and> cp_boundary p = None \<and> cp_mode p \<in> {Mode_Pause, Mode_Context_Phrase})\<rparr>"

definition agrees_with_pause :: "real \<Rightarrow> correction_plan \<Rightarrow> correction_log \<Rightarrow> bool" where
  "agrees_with_pause now p l \<longleftrightarrow>
     cl_agreement_open l \<and> cp_boundary p = None \<and> now - cl_time l \<le> PAUSE_CORRECTION_AGREEMENT_SECONDS"

definition chain_origin :: "correction_log \<Rightarrow> correction_plan \<Rightarrow> correction_plan" where
  "chain_origin l p =
     (case cl_origin l of Some origin \<Rightarrow> if reversal_of (cl_last l) p \<noteq> None then origin else p | None \<Rightarrow> p)"

definition wanted_group :: "correction_plan \<Rightarrow> int" where
  "wanted_group origin = (if cp_automatic origin then cp_source origin else cp_target origin)"


lemma undo_of_simps [simp]:
  "cp_source (undo_of p b t) = cp_target p" "cp_target (undo_of p b t) = cp_source p"
  "cp_original (undo_of p b t) = cp_replacement p" "cp_replacement (undo_of p b t) = cp_original p"
  "cp_boundary (undo_of p b t) = b" "cp_trailing (undo_of p b t) = t" "cp_mode (undo_of p b t) = Mode_Undo"
  "cp_kept_tail (undo_of p b t) = 0" "cp_head (undo_of p b t) = []" "\<not> cp_automatic (undo_of p b t)"
  "cp_application (undo_of p b t) = cp_application p"
  by (simp_all add: undo_of_def plain_plan_def)

text \<open>The keys whose text a plan replaces.\<close>

definition keys_on_screen :: "correction_plan \<Rightarrow> key_event list" where
  "keys_on_screen p =
     (if cp_replaced_strokes p \<noteq> [] then cp_replaced_strokes p
      else if cp_replaced p \<noteq> [] then cp_replaced p else cp_strokes p)"

lemma undo_of_strokes [simp]: "cp_strokes (undo_of p b t) = keys_on_screen p"
  by (simp add: undo_of_def plain_plan_def keys_on_screen_def)

lemma undo_of_screen: "cp_strokes p \<noteq> [] \<Longrightarrow> keys_on_screen (undo_of p b t) = cp_strokes p"
  by (auto simp: undo_of_def plain_plan_def keys_on_screen_def)

text \<open>Undoing an undo types the correction again: the same keys, layouts and texts.\<close>

lemma undo_of_undo:
  assumes "cp_strokes p \<noteq> []"
  shows "cp_strokes (undo_of (undo_of p b t) c u) = cp_strokes p \<and> cp_source (undo_of (undo_of p b t) c u) = cp_source p
    \<and> cp_target (undo_of (undo_of p b t) c u) = cp_target p \<and> cp_original (undo_of (undo_of p b t) c u) = cp_original p
    \<and> cp_replacement (undo_of (undo_of p b t) c u) = cp_replacement p"
  using undo_of_screen[OF assms] by simp

text \<open>Corrections as the engine makes them: a new one, or the undo of the last.\<close>

datatype correction_event = Made correction_plan | Undone "key_event option" "key_event list"

definition log_event :: "real \<times> correction_event \<Rightarrow> correction_log \<Rightarrow> correction_log" where
  "log_event te l =
     (case snd te of
        Made p \<Rightarrow> remember_correction (fst te) p l
      | Undone b t \<Rightarrow> (case cl_last l of None \<Rightarrow> l | Some q \<Rightarrow> remember_correction (fst te) (undo_of q b t) l))"

definition logged :: "(real \<times> correction_event) list \<Rightarrow> correction_log" where
  "logged es = fold log_event es no_corrections"

definition layouts_of :: "correction_plan \<Rightarrow> int set" where "layouts_of p = {cp_source p, cp_target p}"

definition chain_ok :: "correction_log \<Rightarrow> bool" where
  "chain_ok l \<longleftrightarrow>
     (cl_last l = None \<longleftrightarrow> cl_origin l = None)
     \<and> (\<forall>q. cl_last l = Some q \<longrightarrow> layouts_of q = layouts_of (the (cl_origin l)))"

lemma reversal_layouts: "reversal_of (Some q) p = Some q' \<Longrightarrow> layouts_of p = layouts_of q"
  by (auto simp: reversal_of_def layouts_of_def split: if_splits)

lemma layouts_undo [simp]: "layouts_of (undo_of p b t) = layouts_of p"
  by (auto simp: layouts_of_def)

lemma chain_ok_remember:
  assumes "chain_ok l" "cp_mode p = Mode_Undo \<Longrightarrow> cl_last l \<noteq> None \<Longrightarrow> layouts_of p = layouts_of (the (cl_last l))"
  shows "chain_ok (remember_correction now p l)"
proof (cases "cl_origin l = None \<or> cp_mode p \<noteq> Mode_Undo \<and> reversal_of (cl_last l) p = None")
  case True
  then show ?thesis by (simp add: chain_ok_def remember_correction_def)
next
  case False
  then obtain og q where o: "cl_origin l = Some og" "cl_last l = Some q" using assms(1) by (auto simp: chain_ok_def)
  have "layouts_of p = layouts_of q"
    using False assms(2) o reversal_layouts[of q p] by (cases "reversal_of (Some q) p") simp_all
  moreover have "layouts_of q = layouts_of og" using assms(1) o by (simp add: chain_ok_def)
  ultimately show ?thesis using False o(1) by (simp add: chain_ok_def remember_correction_def)
qed

lemma chain_ok_event:
  assumes "chain_ok l" "\<And>p. snd te = Made p \<Longrightarrow> cp_mode p \<noteq> Mode_Undo"
  shows "chain_ok (log_event te l)"
proof (cases "snd te")
  case (Made p)
  then show ?thesis using assms(2) chain_ok_remember[OF assms(1), of p] by (simp add: log_event_def)
next
  case (Undone b t)
  show ?thesis
  proof (cases "cl_last l")
    case None
    then show ?thesis using Undone assms(1) by (simp add: log_event_def)
  next
    case (Some q)
    then show ?thesis using Undone chain_ok_remember[OF assms(1), of "undo_of q b t" "fst te"] by (simp add: log_event_def)
  qed
qed

lemma chain_ok_logged:
  assumes "\<forall>te\<in>set es. \<forall>p. snd te = Made p \<longrightarrow> cp_mode p \<noteq> Mode_Undo"
  shows "chain_ok (logged es)"
proof -
  have "\<forall>te\<in>set es. \<forall>p. snd te = Made p \<longrightarrow> cp_mode p \<noteq> Mode_Undo \<Longrightarrow> chain_ok l \<Longrightarrow> chain_ok (fold log_event es l)"
    for es l
  proof (induction es arbitrary: l)
    case (Cons te es)
    have "chain_ok (log_event te l)" using Cons.prems by (intro chain_ok_event) simp_all
    then show ?case using Cons by simp
  qed simp
  moreover have "chain_ok no_corrections" by (simp add: chain_ok_def no_corrections_def)
  ultimately show ?thesis using assms by (simp add: logged_def)
qed

section \<open>The rule offer of a double press\<close>

datatype convert_outcome = Converted correction_plan | Switched_Layout

text \<open>What \<open>_request_rule_after_double_press\<close> does, with the plan the offer starts from.\<close>

datatype rule_request =
    Drop_Pending correction_plan
  | Run_Pending correction_plan
  | Offer_Now correction_plan
  | Convert_Back correction_plan
  | Switch_Back
  | Offer_Empty

definition request_rule ::
    "correction_plan option \<Rightarrow> correction_plan option \<Rightarrow> correction_log \<Rightarrow> convert_outcome option \<Rightarrow> rule_request" where
  "request_rule pending last_requested l outcome =
     (case outcome of
        Some (Converted p) \<Rightarrow>
          if cp_mode p = Mode_Symbols then Offer_Empty
          else if pending = Some p then
            (let origin = chain_origin l p in if wanted_group origin = cp_source p then Drop_Pending origin else Run_Pending origin)
          else if last_requested = Some p then
            (let origin = (case cl_origin l of None \<Rightarrow> p | Some og \<Rightarrow> og)
             in if wanted_group origin = cp_target p then Offer_Now origin else Convert_Back origin)
          else Offer_Empty
      | Some Switched_Layout \<Rightarrow> Switch_Back
      | None \<Rightarrow> Offer_Empty)"

text \<open>The layout the word is left in: a pending plan that is dropped leaves it in its source, one that runs in its target.\<close>

fun settled_group :: "rule_request \<Rightarrow> correction_plan \<Rightarrow> int option" where
  "settled_group (Drop_Pending _) p = Some (cp_source p)"
| "settled_group (Run_Pending _) p = Some (cp_target p)"
| "settled_group (Offer_Now _) p = Some (cp_target p)"
| "settled_group (Convert_Back _) p = Some (cp_source p)"
| "settled_group _ p = None"

fun request_origin :: "rule_request \<Rightarrow> correction_plan option" where
  "request_origin (Drop_Pending q) = Some q"
| "request_origin (Run_Pending q) = Some q"
| "request_origin (Offer_Now q) = Some q"
| "request_origin (Convert_Back q) = Some q"
| "request_origin _ = None"




section \<open>What the backend is asked\<close>

record injection_call =
  ia_strokes :: "key_event list"
  ia_target :: int
  ia_boundary :: "key_event option"
  ia_source :: int
  ia_late :: "key_event list"
  ia_trailing :: "key_event list"
  ia_kept_tail :: int
  ia_erased :: "int option"

text \<open>
  The calls of \<open>_execute_correction\<close>; None is the error of a backend that cannot erase another number of characters, or of
  a program with a single layout.
\<close>

definition in_group :: "int \<Rightarrow> key_event \<Rightarrow> key_event" where
  "in_group g e = e\<lparr>ev_character := character_for e g, ev_group := g\<rparr>"

definition plan_call :: "int list \<Rightarrow> bool \<Rightarrow> correction_plan \<Rightarrow> key_event list \<Rightarrow> injection_call option" where
  "plan_call models erasing p late =
     (let plain = \<lparr>ia_strokes = cp_strokes p, ia_target = cp_target p, ia_boundary = cp_boundary p, ia_source = cp_source p,
                   ia_late = late, ia_trailing = cp_trailing p, ia_kept_tail = 0, ia_erased = None\<rparr>
      in if cp_mode p = Mode_Sign then
           map_option (\<lambda>meant. \<lparr>ia_strokes = [], ia_target = cp_source p, ia_boundary = None, ia_source = cp_source p,
               ia_late = late, ia_trailing = map (in_group meant) (cp_strokes p @ cp_trailing p @ boundary_keys p),
               ia_kept_tail = 0, ia_erased = None\<rparr>) (other_group models (cp_source p))
         else if cp_replaced_strokes p \<noteq> [] \<and> length (cp_replaced_strokes p) \<noteq> length (cp_strokes p) then
           if \<not> erasing then None else Some (plain\<lparr>ia_erased := Some (int (length (cp_replaced_strokes p)))\<rparr>)
         else if cp_kept_tail p \<noteq> 0 then Some (plain\<lparr>ia_kept_tail := cp_kept_tail p\<rparr>)
         else Some plain)"

definition run_call ::
    "x_server \<Rightarrow> nat \<Rightarrow> (x_request list \<Rightarrow> x_request \<Rightarrow> bool) \<Rightarrow> real \<Rightarrow> injection_call \<Rightarrow> expectation
      \<Rightarrow> expectation \<times> x_request list \<times> (x11_error + int)" where
  "run_call srv n accepts now c ex =
     inject_correction srv n accepts now (ia_strokes c) (ia_target c) (ia_boundary c) (Some (ia_source c)) (ia_late c)
       (ia_trailing c) (ia_kept_tail c) (ia_erased c) ex"

text \<open>A plan whose texts are those of its keys: every plan of a word, its case fix or its typo correction.\<close>

definition plan_ok :: "correction_plan \<Rightarrow> bool" where
  "plan_ok p \<longleftrightarrow>
     cp_mode p \<noteq> Mode_Sign \<and> cp_kept_tail p = 0 \<and> cp_strokes p \<noteq> []
     \<and> cp_original p = text_for_group (keys_on_screen p) (cp_source p)
     \<and> cp_replacement p = text_for_group (cp_strokes p) (cp_target p)
     \<and> (cp_replaced_strokes p = [] \<longrightarrow> length (keys_on_screen p) = length (cp_strokes p))"

lemma plan_ok_undo: "plan_ok p \<Longrightarrow> plan_ok (undo_of p b t)"
proof -
  assume ok: "plan_ok p"
  have strokes: "cp_strokes p \<noteq> []" using ok by (simp add: plan_ok_def)
  have "keys_on_screen p \<noteq> []" using strokes by (auto simp: keys_on_screen_def)
  moreover have "cp_replaced_strokes (undo_of p b t) = [] \<longrightarrow> cp_replaced_strokes p = []"
    using strokes by (auto simp: undo_of_def plain_plan_def)
  ultimately show ?thesis using ok undo_of_screen[OF strokes] by (simp add: plan_ok_def)
qed

lemma length_text_for_group:
  assumes "\<forall>e\<in>set es. safe_text_stroke e \<and> int (length (ev_characters e)) = n" "0 \<le> g" "g < n"
  shows "length (text_for_group es g) = length es"
  using assms
proof (induction es)
  case (Cons e es)
  have "int (length (ev_characters e)) = n" using Cons.prems by simp
  then have "nat g < length (ev_characters e)" using Cons.prems(2,3) by linarith
  then have "length (ev_characters e ! nat g) = 1"
    using Cons.prems by (simp add: safe_text_stroke_def list_all_length)
  then show ?case using Cons by (simp add: character_for_def)
qed simp

lemma reported_length: "reported_key m n srv e \<Longrightarrow> length (ev_characters e) = n"
  by (simp add: reported_key_def)

text \<open>The keys of a plan as the X server reported them, each of them one character in every layout.\<close>

definition reported_plan :: "x_keymap \<Rightarrow> nat \<Rightarrow> x_server \<Rightarrow> correction_plan \<Rightarrow> bool" where
  "reported_plan m n srv p \<longleftrightarrow>
     (\<forall>e\<in>set (cp_strokes p @ keys_on_screen p). reported_key m n srv e \<and> safe_text_stroke e)
     \<and> (\<forall>e\<in>set (literal_keys (cp_trailing p) (cp_boundary p)).
           reported_key m n srv e \<and> ev_character e = character_for e (ev_group e) \<and> length (ev_character e) = 1)
     \<and> 0 \<le> cp_source p \<and> cp_source p < int n \<and> 0 \<le> cp_target p \<and> cp_target p < int n
     \<and> xs_backspace srv \<noteq> xs_shift srv \<and> xs_locked_mods srv \<noteq> None"

definition literal_text :: "correction_plan \<Rightarrow> ustr" where
  "literal_text p = concat (map ev_character (literal_keys (cp_trailing p) (cp_boundary p)))"

lemma length_concat_ones: "\<forall>e\<in>set es. length (f e) = 1 \<Longrightarrow> length (concat (map f es)) = length es"
  by (induction es) simp_all

lemma plan_typed:
  assumes ok: "plan_ok p" and keys: "reported_plan m n srv p"
    and call: "plan_call models True p [] = Some c" "run_call srv n accepts now c ex = (ex', performed, Inr held)"
    and field: "sc_text s = before @ cp_original p @ literal_text p" "\<not> sc_shift s"
  shows "screen_run m srv (the (xs_locked_mods srv) AND LOCK_MASK \<noteq> 0) performed s =
     s\<lparr>sc_group := cp_target p, sc_text := before @ cp_replacement p @ literal_text p\<rparr>"
proof -
  let ?erased = "if cp_replaced_strokes p \<noteq> [] \<and> length (cp_replaced_strokes p) \<noteq> length (cp_strokes p)
                 then Some (int (length (cp_replaced_strokes p))) else None"
  have c: "c = \<lparr>ia_strokes = cp_strokes p, ia_target = cp_target p, ia_boundary = cp_boundary p, ia_source = cp_source p,
      ia_late = [], ia_trailing = cp_trailing p, ia_kept_tail = 0, ia_erased = ?erased\<rparr>"
    using call(1) ok by (auto simp: plan_call_def plan_ok_def Let_def split: if_splits)
  have run: "inject_correction srv n accepts now (cp_strokes p) (cp_target p) (cp_boundary p) (Some (cp_source p)) []
      (cp_trailing p) 0 ?erased ex = (ex', performed, Inr held)"
    using call(2) by (simp add: c run_call_def)
  have chars: "safe_text_stroke e \<and> int (length (ev_characters e)) = int n" if "e \<in> set (keys_on_screen p)" for e
    using keys that reported_length by (simp add: reported_plan_def) blast
  have len: "length (cp_original p) = length (keys_on_screen p)"
    using ok keys chars length_text_for_group[of "keys_on_screen p" "int n" "cp_source p"]
    by (simp add: plan_ok_def reported_plan_def)
  have lit: "length (literal_text p) = length (literal_keys (cp_trailing p) (cp_boundary p))"
  proof -
    have "\<forall>e\<in>set (literal_keys (cp_trailing p) (cp_boundary p)). length (ev_character e) = 1"
      using keys unfolding reported_plan_def by blast
    from length_concat_ones[OF this] show ?thesis by (simp only: literal_text_def)
  qed
  have erased: "(case ?erased of None \<Rightarrow> int (length (cp_strokes p)) | Some k \<Rightarrow> k) = int (length (keys_on_screen p))"
    using ok by (auto simp: plan_ok_def keys_on_screen_def)
  obtain lg src where "0 \<le> lg" "lg < int n" "\<forall>e\<in>set (literal_keys (cp_trailing p) (cp_boundary p)). ev_group e = lg"
    and performed: "performed = injection_requests (cp_target p) False (injection_keys srv
      (the (xs_locked_mods srv) AND LOCK_MASK \<noteq> 0) (cp_strokes p) (cp_target p)
      (literal_keys (cp_trailing p) (cp_boundary p)) lg src [] 0 ?erased)"
    using inject_correctionD[OF run, of "the (xs_locked_mods srv)"] keys by (auto simp: reported_plan_def)
  then show ?thesis
    using keys_type_replacement[where kept_tail=0 and late="[]" and strokes="cp_strokes p" and m=m and n=n and srv=srv
        and literal="literal_keys (cp_trailing p) (cp_boundary p)" and lg=lg and src=src and target="cp_target p"
        and final="cp_target p" and s=s and before=before and old="cp_original p @ literal_text p" and erased="?erased"
        and caps="the (xs_locked_mods srv) AND LOCK_MASK \<noteq> 0"]
      keys field len lit erased ok
    by (simp add: reported_plan_def literal_text_def plan_ok_def ball_Un)
qed

text \<open>C6: Undo puts the field back: after a correction the X server performed whole, and whatever the server's Caps Lock became
  since, the undo of that correction leaves exactly the text that was there, and the layout it was typed in; this holds for
  a converted word, for a case fix and for a typo correction of another length alike.\<close>

theorem correction_then_undo:
  assumes ok: "plan_ok p" and keys: "reported_plan m n srv p" "reported_plan m n srv2 p"
    and same: "xs_shift srv2 = xs_shift srv" "xs_backspace srv2 = xs_backspace srv"
    and made: "plan_call models True p [] = Some c" "run_call srv n accepts now c ex = (ex', performed, Inr held)"
    and undone: "plan_call models True (undo_of p (cp_boundary p) (cp_trailing p)) [] = Some c2"
      "run_call srv2 n accepts2 later c2 ex2 = (ex2', performed2, Inr held2)"
    and field: "sc_text s = before @ cp_original p @ literal_text p" "\<not> sc_shift s"
  shows "sc_text (screen_run m srv (the (xs_locked_mods srv) AND LOCK_MASK \<noteq> 0) performed s)
      = before @ cp_replacement p @ literal_text p
    \<and> screen_run m srv2 (the (xs_locked_mods srv2) AND LOCK_MASK \<noteq> 0) performed2
        (screen_run m srv (the (xs_locked_mods srv) AND LOCK_MASK \<noteq> 0) performed s) = s\<lparr>sc_group := cp_source p\<rparr>"
proof -
  let ?u = "undo_of p (cp_boundary p) (cp_trailing p)"
  have strokes: "cp_strokes p \<noteq> []" using ok by (simp add: plan_ok_def)
  have lit: "literal_text ?u = literal_text p" by (simp add: literal_text_def)
  have u: "reported_plan m n srv2 ?u"
    using keys(2) undo_of_screen[OF strokes, of "cp_boundary p" "cp_trailing p"] by (auto simp: reported_plan_def)
  have first: "screen_run m srv (the (xs_locked_mods srv) AND LOCK_MASK \<noteq> 0) performed s =
      s\<lparr>sc_group := cp_target p, sc_text := before @ cp_replacement p @ literal_text p\<rparr>"
    by (rule plan_typed[OF ok keys(1) made field])
  show ?thesis
    using plan_typed[OF plan_ok_undo[OF ok] u undone, of "s\<lparr>sc_group := cp_target p, sc_text := before @ cp_replacement p @ literal_text p\<rparr>" before]
      field by (simp add: first lit)
qed


text \<open>The correction of one letter and its undo, with Caps Lock pressed in between.\<close>

definition caps_server :: x_server where "caps_server = small_server\<lparr>xs_locked_mods := Some 2\<rparr>"

definition small_plan :: correction_plan where
  "small_plan = plain_plan [key_f] (Some key_space) 0 1 [0x46] [0x410] 5 [] True Mode_Boundary"

lemma small_call:
  assumes "srv = small_server \<or> srv = caps_server" "0 \<le> g" "g < 2" "0 \<le> h" "h < 2"
  shows "\<exists>ex' performed. run_call srv 2 (\<lambda>_ _. True) 0 \<lparr>ia_strokes = [key_f], ia_target = g, ia_boundary = Some key_space,
      ia_source = h, ia_late = [], ia_trailing = [], ia_kept_tail = 0, ia_erased = None\<rparr>
      \<lparr>ex_steps = [], ex_deadline = 0\<rparr> = (ex', performed, Inr 0)"
  using assms
  by (auto simp: run_call_def inject_correction_def plan_injection_def literal_keys_def small_server_def caps_server_def
      key_space_def perform_accepting Let_def)

lemma small_plan_reported:
  assumes "srv = small_server \<or> srv = caps_server"
  shows "reported_plan small_keymap 2 srv small_plan"
proof -
  have "reported_key small_keymap 2 srv e = reported_key small_keymap 2 small_server e" for e
    using assms by (auto simp: reported_key_def caps_server_def)
  moreover have "safe_text_stroke key_f" "character_for key_space 0 = [0x20]" "character_for key_f 0 = [0x46]"
    by (simp_all add: safe_text_stroke_def key_f_def key_space_def character_for_def category_of_def isalpha_ch_def
        letter_class_def BASIC_MULTILINGUAL_PLANE_MAX_CODEPOINT_def)
  moreover have "ev_group key_space = 0" "ev_character key_space = [0x20]" by (simp_all add: key_space_def)
  ultimately show ?thesis
    using assms small_reported
    by (auto simp: reported_plan_def small_plan_def plain_plan_def keys_on_screen_def literal_keys_def small_server_def
        caps_server_def)
qed

theorem correction_then_undo_witness:
  "\<exists>performed performed2.
     sc_text (screen_run small_keymap small_server False performed
       \<lparr>sc_group = 0, sc_shift = False, sc_text = [0x46, 0x20]\<rparr>) = [0x410, 0x20]
     \<and> sc_text (screen_run small_keymap caps_server True performed2 (screen_run small_keymap small_server False performed
       \<lparr>sc_group = 0, sc_shift = False, sc_text = [0x46, 0x20]\<rparr>)) = [0x46, 0x20]"
proof -
  let ?p = small_plan
  let ?u = "undo_of ?p (cp_boundary ?p) (cp_trailing ?p)"
  let ?s = "\<lparr>sc_group = 0, sc_shift = False, sc_text = [0x46, 0x20]\<rparr>"
  have keys: "character_for key_f 0 = [0x46]" "character_for key_f 1 = [0x410]" "ev_character key_space = [0x20]"
    by (simp_all add: key_f_def key_space_def character_for_def)
  have ok: "plan_ok ?p" by (simp add: plan_ok_def small_plan_def plain_plan_def keys_on_screen_def keys)
  have call: "plan_call [0, 1] True ?p [] = Some \<lparr>ia_strokes = [key_f], ia_target = 1, ia_boundary = Some key_space,
      ia_source = 0, ia_late = [], ia_trailing = [], ia_kept_tail = 0, ia_erased = None\<rparr>"
    by (simp add: plan_call_def small_plan_def plain_plan_def)
  have undo: "plan_call [0, 1] True ?u [] = Some \<lparr>ia_strokes = [key_f], ia_target = 0, ia_boundary = Some key_space,
      ia_source = 1, ia_late = [], ia_trailing = [], ia_kept_tail = 0, ia_erased = None\<rparr>"
    by (simp add: plan_call_def small_plan_def plain_plan_def undo_of_def)
  obtain ex' performed where run: "run_call small_server 2 (\<lambda>_ _. True) 0 \<lparr>ia_strokes = [key_f], ia_target = 1,
      ia_boundary = Some key_space, ia_source = 0, ia_late = [], ia_trailing = [], ia_kept_tail = 0, ia_erased = None\<rparr>
      \<lparr>ex_steps = [], ex_deadline = 0\<rparr> = (ex', performed, Inr 0)"
    using small_call[of small_server 1 0] by auto
  obtain ex2 performed2 where run2: "run_call caps_server 2 (\<lambda>_ _. True) 0 \<lparr>ia_strokes = [key_f], ia_target = 0,
      ia_boundary = Some key_space, ia_source = 1, ia_late = [], ia_trailing = [], ia_kept_tail = 0, ia_erased = None\<rparr>
      \<lparr>ex_steps = [], ex_deadline = 0\<rparr> = (ex2, performed2, Inr 0)"
    using small_call[of caps_server 0 1] by auto
  have locks: "(the (xs_locked_mods small_server) AND LOCK_MASK \<noteq> 0) = False" "(the (xs_locked_mods caps_server) AND LOCK_MASK \<noteq> 0) = True"
    by (simp_all add: small_server_def caps_server_def masks)
  have "sc_text (screen_run small_keymap small_server False performed ?s) = [0x410, 0x20]
      \<and> sc_text (screen_run small_keymap caps_server True performed2
           (screen_run small_keymap small_server False performed ?s)) = [0x46, 0x20]"
    using correction_then_undo[OF ok small_plan_reported small_plan_reported _ _ call run undo run2, of ?s "[]"]
    unfolding locks
    by (simp add: caps_server_def small_plan_def plain_plan_def literal_text_def literal_keys_def keys)
  then show ?thesis by blast
qed

end
