(* ===== verification/Updates.thy ===== *)
theory Updates
  imports Json Conventions
begin

text \<open>
  The program's own updates (\<open>src/keyswitch/updates.py\<close>): versions, the release GitHub answers with, the download of its
  installer and the launch of it. Outside: the server (a response with its address and what each read returns), SHA-256, the
  JSON parser, and whether each operation of the file system succeeds. A directory is a map from file names to bytes.
\<close>

section \<open>Results\<close>

datatype update_error =
    Bad_Version ustr | Bad_Field ustr | Bad_String ustr | No_Size | Bad_Size int | Response_Too_Long | Api_Redirected
  | Download_Redirected | Read_Failed py_error | Unfinished_Release | Bad_Tag ustr | Foreign_Page | No_Asset_List
  | Not_One_Asset ustr | Not_Uploaded | Foreign_Asset | No_Digest | Too_Much_Data | Wrong_Length | Wrong_Digest
  | Download_Failed py_error | Installer_Missing | Installer_Name | Unsupported_Target | No_Install_Request

datatype update_fault = Update_Error update_error | Python_Error py_error

definition and_then :: "'e + 'a \<Rightarrow> ('a \<Rightarrow> 'e + 'b) \<Rightarrow> 'e + 'b" where
  "and_then r f = (case r of Inl e \<Rightarrow> Inl e | Inr x \<Rightarrow> f x)"

definition require :: "bool \<Rightarrow> update_error \<Rightarrow> update_fault + unit" where
  "require b e = (if b then Inr () else Inl (Update_Error e))"

lemma and_then_Inr [simp]: "and_then r f = Inr y \<longleftrightarrow> (\<exists>x. r = Inr x \<and> f x = Inr y)"
  by (auto simp: and_then_def split: sum.splits)

lemma require_Inr [simp]: "require b e = Inr u \<longleftrightarrow> b"
  by (simp add: require_def)

section \<open>Versions\<close>

datatype semantic_version = Semantic_Version (major: nat) (minor: nat) (patch: nat)

text \<open>The order of the dataclass, \<open>order=True\<close>: the fields compared as a tuple.\<close>

definition version_at_most :: "semantic_version \<Rightarrow> semantic_version \<Rightarrow> bool" where
  "version_at_most v w \<longleftrightarrow>
     major v < major w \<or> major v = major w \<and> (minor v < minor w \<or> minor v = minor w \<and> patch v \<le> patch w)"

instantiation semantic_version :: linorder
begin

definition less_eq_semantic_version :: "semantic_version \<Rightarrow> semantic_version \<Rightarrow> bool" where
  "less_eq_semantic_version = version_at_most"

definition less_semantic_version :: "semantic_version \<Rightarrow> semantic_version \<Rightarrow> bool" where
  "less_semantic_version v w \<longleftrightarrow> version_at_most v w \<and> \<not> version_at_most w v"

instance
  by standard (auto simp: less_eq_semantic_version_def less_semantic_version_def version_at_most_def intro: semantic_version.expand)

end

text \<open>A number of the pattern, the three numbers of a version, and \<open>str(version)\<close>.\<close>

definition number_text :: "ustr \<Rightarrow> bool" where
  "number_text s \<longleftrightarrow> s = [0x30] \<or> (s \<noteq> [] \<and> 0x31 \<le> hd s \<and> hd s \<le> 0x39 \<and> list_all isdecimal_ch (tl s))"

definition version_body :: "ustr \<Rightarrow> bool" where
  "version_body s \<longleftrightarrow> (let parts = split_on (\<lambda>c. c = 0x2E) s in length parts = 3 \<and> list_all number_text parts)"

definition number_value :: "ustr \<Rightarrow> nat" where
  "number_value s = foldl (\<lambda>n d. 10 * n + (d - 0x30)) 0 s"

text \<open>Python refuses to read an integer of more digits with \<open>ValueError\<close>.\<close>

definition INT_MAX_STR_DIGITS :: nat where "INT_MAX_STR_DIGITS = 4300"

definition version_parse :: "ustr \<Rightarrow> update_fault + semantic_version" where
  "version_parse s =
     (let body = (if starts_with s [0x76] then tl s else s); parts = split_on (\<lambda>c. c = 0x2E) body
      in if \<not> version_body body then Inl (Update_Error (Bad_Version s))
         else if list_ex (\<lambda>p. INT_MAX_STR_DIGITS < length p) parts then Inl (Python_Error ValueError)
         else Inr (Semantic_Version (number_value (parts ! 0)) (number_value (parts ! 1)) (number_value (parts ! 2))))"

definition version_text :: "semantic_version \<Rightarrow> ustr" where
  "version_text v = digits_of (major v) @ [0x2E] @ digits_of (minor v) @ [0x2E] @ digits_of (patch v)"

definition printable_version :: "semantic_version \<Rightarrow> bool" where
  "printable_version v \<longleftrightarrow> (\<forall>n\<in>{major v, minor v, patch v}. length (digits_of n) \<le> INT_MAX_STR_DIGITS)"

lemma digits_of_nonempty [simp]: "digits_of n \<noteq> []"
  by (subst digits_of.simps) simp

lemma digits_of_decimal: "list_all isdecimal_ch (digits_of n)"
proof (induction n rule: digits_of.induct)
  case (1 n)
  then show ?case by (cases "n < 10") (simp_all add: digits_of.simps [of n] isdecimal_ch_def [abs_def])
qed

lemma number_value_snoc: "number_value (s @ [d]) = 10 * number_value s + (d - 0x30)"
  by (simp add: number_value_def)

lemma number_value_digits [simp]: "number_value (digits_of n) = n"
proof (induction n rule: digits_of.induct)
  case (1 n)
  show ?case
  proof (cases "n < 10")
    case True
    then show ?thesis by (simp add: digits_of.simps [of n] number_value_def)
  next
    case False
    then show ?thesis using 1 by (simp add: digits_of.simps [of n] number_value_snoc)
  qed
qed

lemma digits_of_head: "0 < n \<Longrightarrow> 0x31 \<le> hd (digits_of n) \<and> hd (digits_of n) \<le> 0x39"
proof (induction n rule: digits_of.induct)
  case (1 n)
  show ?case
  proof (cases "n < 10")
    case True
    then show ?thesis using 1 by (simp add: digits_of.simps [of n])
  next
    case False
    then show ?thesis using 1 by (simp add: digits_of.simps [of n])
  qed
qed

lemma number_text_digits [simp]: "number_text (digits_of n)"
proof (cases "n = 0")
  case True
  then show ?thesis by (simp add: number_text_def digits_of.simps [of 0])
next
  case False
  have "list_all isdecimal_ch (tl (digits_of n))"
    using digits_of_decimal [of n] by (cases "digits_of n") simp_all
  then show ?thesis using digits_of_head [of n] False by (simp add: number_text_def)
qed

lemma digits_of_value:
  assumes "list_all isdecimal_ch s" "s \<noteq> []" "hd s \<noteq> 0x30"
  shows "digits_of (number_value s) = s \<and> 0 < number_value s"
  using assms
proof (induction s rule: rev_induct)
  case (snoc d s)
  have d: "0x30 \<le> d" "d \<le> 0x39" using snoc.prems by (simp_all add: isdecimal_ch_def)
  show ?case
  proof (cases "s = []")
    case True
    then show ?thesis using snoc.prems d by (simp add: number_value_def digits_of.simps [of "d - 0x30"])
  next
    case False
    then have ih: "digits_of (number_value s) = s" "0 < number_value s" using snoc by simp_all
    define q where "q = number_value s"
    define e where "e = d - 0x30"
    have e: "e < 10" "d = 0x30 + e" using d by (simp_all add: e_def)
    have "\<not> 10 * q + e < 10" "(10 * q + e) div 10 = q" "(10 * q + e) mod 10 = e"
      using e ih(2) by (simp_all add: q_def)
    then show ?thesis
      using e(2) ih by (simp add: number_value_snoc digits_of.simps [of "10 * q + e"] flip: q_def e_def)
  qed
qed simp

lemma digits_of_number: "number_text s \<Longrightarrow> digits_of (number_value s) = s"
proof (cases "s = [0x30]")
  case True
  then show ?thesis by (simp add: number_value_def digits_of.simps [of 0])
next
  case False
  moreover assume "number_text s"
  ultimately have s: "s \<noteq> []" "0x31 \<le> hd s" "hd s \<le> 0x39" "list_all isdecimal_ch (tl s)" by (simp_all add: number_text_def)
  then have "list_all isdecimal_ch s" by (cases s) (simp_all add: isdecimal_ch_def)
  then show ?thesis using digits_of_value [of s] s by auto
qed

lemma number_text_plain: "number_text s \<Longrightarrow> list_all isdecimal_ch s"
  by (cases s) (auto simp: number_text_def isdecimal_ch_def)

lemma number_no_dot: "number_text s \<Longrightarrow> list_all (\<lambda>c. c \<noteq> 0x2E) s"
  using number_text_plain [of s] by (auto simp: list_all_iff isdecimal_ch_def)

lemma split_version [simp]:
  "split_on (\<lambda>c. c = 0x2E) (version_text v) = [digits_of (major v), digits_of (minor v), digits_of (patch v)]"
  using number_no_dot [OF number_text_digits] by (simp add: version_text_def split_on_append_sep split_on_free)

lemma version_text_body [simp]: "version_body (version_text v)"
  by (simp add: version_body_def Let_def)

lemma split_on_join: "split_on p s = [a, b, c] \<Longrightarrow> \<exists>d e. p d \<and> p e \<and> s = a @ d # b @ e # c"
proof -
  have one: "split_on p s = [a] \<Longrightarrow> s = a" for s a
    by (induction s arbitrary: a) (auto split: if_splits list.splits)
  have two: "split_on p s = [a, b] \<Longrightarrow> \<exists>d. p d \<and> s = a @ d # b" for s a b
  proof (induction s arbitrary: a)
    case (Cons x s)
    then show ?case using one [of s b] by (auto split: if_splits list.splits)
  qed simp
  show "split_on p s = [a, b, c] \<Longrightarrow> \<exists>d e. p d \<and> p e \<and> s = a @ d # b @ e # c"
  proof (induction s arbitrary: a)
    case (Cons x s)
    show ?case
    proof (cases "p x")
      case True
      then show ?thesis using Cons.prems two [of s b c] by auto
    next
      case False
      then obtain w where "split_on p s = w # [b, c]" "a = x # w" using Cons.prems by (auto split: list.splits)
      then show ?thesis using Cons.IH [of w] by auto
    qed
  qed simp
qed

lemma version_bodyE:
  assumes "version_body s"
  obtains a b c where "split_on (\<lambda>c. c = 0x2E) s = [a, b, c]" "number_text a" "number_text b" "number_text c"
    "s = a @ [0x2E] @ b @ [0x2E] @ c"
proof -
  have "length (split_on (\<lambda>c. c = 0x2E) s) = 3" using assms by (simp add: version_body_def Let_def)
  then obtain a b c where parts: "split_on (\<lambda>c. c = 0x2E) s = [a, b, c]"
    by (auto simp: numeral_3_eq_3 length_Suc_conv)
  show thesis
    by (rule that [OF parts]) (use assms parts split_on_join [OF parts] in \<open>auto simp: version_body_def\<close>)
qed

lemma version_parse_Inr:
  assumes "version_parse s = Inr v"
  shows "printable_version v \<and> (s = version_text v \<or> s = [0x76] @ version_text v)"
proof -
  let ?body = "if starts_with s [0x76] then tl s else s"
  have body: "version_body ?body" using assms by (auto simp: version_parse_def Let_def split: if_splits)
  obtain a b c where parts: "split_on (\<lambda>c. c = 0x2E) ?body = [a, b, c]" "number_text a" "number_text b" "number_text c"
    "?body = a @ [0x2E] @ b @ [0x2E] @ c"
    by (rule version_bodyE [OF body])
  have v: "v = Semantic_Version (number_value a) (number_value b) (number_value c)"
    and short: "\<forall>p\<in>{a, b, c}. length p \<le> INT_MAX_STR_DIGITS"
    using assms body parts(1) unfolding version_parse_def Let_def by (simp_all split: if_splits)
  have printed: "version_text v = ?body" using parts by (simp add: v version_text_def digits_of_number)
  have "printable_version v" using parts short by (simp add: v printable_version_def digits_of_number)
  then show ?thesis using printed by (auto simp: starts_with_iff split: if_splits)
qed

text \<open>A version is read back from its text, with the letter of a tag or without it, and only from these two texts:
  no other text names a version, and no two versions have the same text.\<close>

theorem version_round_trip:
  "(version_parse s = Inr v) = (printable_version v \<and> (s = version_text v \<or> s = [0x76] @ version_text v))"
proof
  assume ok: "printable_version v \<and> (s = version_text v \<or> s = [0x76] @ version_text v)"
  have "hd (version_text v) \<noteq> 0x76" "version_text v \<noteq> []"
    using digits_of_decimal [of "major v"] by (cases "digits_of (major v)"; simp add: version_text_def isdecimal_ch_def)+
  then have body: "(if starts_with s [0x76] then tl s else s) = version_text v"
    using ok by (auto simp: starts_with_iff)
  show "version_parse s = Inr v"
    using ok unfolding version_parse_def body Let_def by (simp add: printable_version_def)
qed (rule version_parse_Inr)

section \<open>The release\<close>

datatype update_target = Windows_X64 | Windows_Arm64 | Windows_X86 | Ubuntu_Amd64

definition windows_installer :: "update_target \<Rightarrow> bool" where "windows_installer t \<longleftrightarrow> t \<noteq> Ubuntu_Amd64"

definition windows_architecture :: "update_target \<Rightarrow> string" where
  "windows_architecture t =
     (case t of Windows_X64 \<Rightarrow> ''x64'' | Windows_Arm64 \<Rightarrow> ''arm64'' | Windows_X86 \<Rightarrow> ''x86'' | Ubuntu_Amd64 \<Rightarrow> '''')"

definition asset_name :: "update_target \<Rightarrow> semantic_version \<Rightarrow> ustr" where
  "asset_name t v =
     (if t = Ubuntu_Amd64 then asc ''keyswitch_'' @ version_text v @ asc ''_amd64.deb''
      else asc ''KeySwitch-Setup-'' @ version_text v @ asc ''-'' @ asc (windows_architecture t) @ asc ''.exe'')"

text \<open>The names of the system, of the machine and of the Python platform are those the standard library reports.\<close>

definition detect_update_target :: "ustr \<Rightarrow> ustr \<Rightarrow> ustr \<Rightarrow> update_target option" where
  "detect_update_target system machine build_platform =
     (if casefold system = asc ''windows'' then
        map_of [(asc ''win-amd64'', Windows_X64), (asc ''win-arm64'', Windows_Arm64), (asc ''win32'', Windows_X86)] build_platform
      else if casefold system = asc ''linux'' \<and> casefold machine \<in> {asc ''amd64'', asc ''x86_64''} then Some Ubuntu_Amd64
      else None)"

record release_asset =
  ra_name :: ustr
  ra_url :: ustr
  ra_size :: nat
  ra_sha256 :: ustr

record update_release =
  re_version :: semantic_version
  re_tag :: ustr
  re_page_url :: ustr
  re_notes :: ustr
  re_asset :: release_asset

definition MAX_RELEASE_JSON_BYTES :: nat where "MAX_RELEASE_JSON_BYTES = 1000000"
definition MAX_ASSET_BYTES :: nat where "MAX_ASSET_BYTES = 300 * (1024 * 1024)"
definition MAX_RELEASE_NOTES_CHARACTERS :: nat where "MAX_RELEASE_NOTES_CHARACTERS = 4000"

definition REPOSITORY :: ustr where "REPOSITORY = asc ''olegius88/keyswitch''"

definition LATEST_RELEASE_URL :: ustr where
  "LATEST_RELEASE_URL = asc ''https://api.github.com/repos/'' @ REPOSITORY @ asc ''/releases/latest''"

definition RELEASE_PAGE_PREFIX :: ustr where
  "RELEASE_PAGE_PREFIX = asc ''https://github.com/'' @ REPOSITORY @ asc ''/releases/tag/''"

definition RELEASE_DOWNLOAD_PREFIX :: ustr where
  "RELEASE_DOWNLOAD_PREFIX = asc ''https://github.com/'' @ REPOSITORY @ asc ''/releases/download/''"

text \<open>\<open>urllib.parse.quote(s, safe="")\<close>.\<close>

definition unreserved :: "nat \<Rightarrow> bool" where
  "unreserved b \<longleftrightarrow>
     0x41 \<le> b \<and> b \<le> 0x5A \<or> 0x61 \<le> b \<and> b \<le> 0x7A \<or> 0x30 \<le> b \<and> b \<le> 0x39 \<or> b \<in> set (asc ''_.-~'')"

definition hex_digit :: "nat \<Rightarrow> uchar" where
  "hex_digit n = (if n < 10 then 0x30 + n else 0x37 + n)"

definition quote :: "ustr \<Rightarrow> ustr" where
  "quote s = concat (map (\<lambda>b. if unreserved b then [b] else [0x25, hex_digit (b div 16), hex_digit (b mod 16)]) (utf8 s))"

definition object_mapping :: "json \<Rightarrow> ustr \<Rightarrow> update_fault + (ustr \<times> json) list" where
  "object_mapping v label = (case v of JObj d \<Rightarrow> Inr d | _ \<Rightarrow> Inl (Update_Error (Bad_Field label)))"

definition required_string :: "(ustr \<times> json) list \<Rightarrow> ustr \<Rightarrow> update_fault + ustr" where
  "required_string d key =
     (case dict_get d key of JStr s \<Rightarrow> if s = [] then Inl (Update_Error (Bad_String key)) else Inr s
      | _ \<Rightarrow> Inl (Update_Error (Bad_String key)))"

definition required_size :: "(ustr \<times> json) list \<Rightarrow> update_fault + nat" where
  "required_size d =
     (case dict_get d (asc ''size'') of
        JInt n \<Rightarrow> if n \<le> 0 \<or> int MAX_ASSET_BYTES < n then Inl (Update_Error (Bad_Size n)) else Inr (nat n)
      | _ \<Rightarrow> Inl (Update_Error No_Size))"

text \<open>A response: the address it came from, and what a read of so many bytes gives.\<close>

type_synonym response = "ustr \<times> (nat \<Rightarrow> py_error + nat list)"

definition read_limited :: "(nat \<Rightarrow> py_error + nat list) \<Rightarrow> nat \<Rightarrow> update_fault + nat list" where
  "read_limited read maximum =
     (case read (maximum + 1) of Inl e \<Rightarrow> Inl (Python_Error e)
      | Inr payload \<Rightarrow> if maximum < length payload then Inl (Update_Error Response_Too_Long) else Inr payload)"

definition validate_api_response_url :: "ustr \<Rightarrow> update_fault + unit" where
  "validate_api_response_url url = require (url = LATEST_RELEASE_URL) Api_Redirected"

definition lift_error :: "py_error + 'a \<Rightarrow> update_fault + 'a" where
  "lift_error r = (case r of Inl e \<Rightarrow> Inl (Python_Error e) | Inr x \<Rightarrow> Inr x)"

lemma lift_error_Inr [simp]: "lift_error r = Inr x \<longleftrightarrow> r = Inr x"
  by (simp add: lift_error_def split: sum.splits)

definition fetch_release :: "py_error + response \<Rightarrow> (nat list \<Rightarrow> py_error + json) \<Rightarrow> update_fault + json" where
  "fetch_release answer loads =
     (let decoded =
        and_then (lift_error answer) (\<lambda>(url, read).
        and_then (validate_api_response_url url) (\<lambda>_.
        and_then (read_limited read MAX_RELEASE_JSON_BYTES) (\<lambda>raw. lift_error (loads raw))))
      in case decoded of
           Inl (Python_Error e) \<Rightarrow> if e = OSError \<or> e = ValueError then Inl (Update_Error (Read_Failed e)) else decoded
         | _ \<Rightarrow> decoded)"

fun matching_assets :: "ustr \<Rightarrow> json list \<Rightarrow> update_fault + (ustr \<times> json) list list" where
  "matching_assets name [] = Inr []"
| "matching_assets name (v # vs) =
     and_then (object_mapping v (asc ''asset'')) (\<lambda>asset.
     and_then (matching_assets name vs) (\<lambda>rest.
     Inr (if dict_get asset (asc ''name'') = JStr name then asset # rest else rest)))"

definition digest_value :: "ustr \<Rightarrow> ustr option" where
  "digest_value s =
     (let hex = drop 7 s
      in if starts_with s (asc ''sha256:'') \<and> length hex = 64
            \<and> list_all (\<lambda>c. isdecimal_ch c \<or> 0x61 \<le> c \<and> c \<le> 0x66) hex then Some hex else None)"

text \<open>\<open>GitHubReleaseClient.latest_release\<close>.\<close>

definition latest_release ::
    "update_target \<Rightarrow> py_error + response \<Rightarrow> (nat list \<Rightarrow> py_error + json) \<Rightarrow> update_fault + update_release" where
  "latest_release target answer loads =
     and_then (fetch_release answer loads) (\<lambda>decoded.
     and_then (object_mapping decoded (asc ''release'')) (\<lambda>payload.
     and_then (require (dict_get payload (asc ''draft'') = JBool False
                \<and> dict_get payload (asc ''prerelease'') = JBool False) Unfinished_Release) (\<lambda>_.
     and_then (required_string payload (asc ''tag_name'')) (\<lambda>tag.
     and_then (version_parse tag) (\<lambda>version.
     and_then (require (tag = [0x76] @ version_text version) (Bad_Tag tag)) (\<lambda>_.
     and_then (required_string payload (asc ''html_url'')) (\<lambda>page_url.
     and_then (require (page_url = RELEASE_PAGE_PREFIX @ quote tag) Foreign_Page) (\<lambda>_.
     let expected_name = asset_name target version in
     and_then (case dict_get payload (asc ''assets'') of JList vs \<Rightarrow> Inr vs | _ \<Rightarrow> Inl (Update_Error No_Asset_List)) (\<lambda>assets.
     and_then (matching_assets expected_name assets) (\<lambda>matching.
     and_then (require (length matching = 1) (Not_One_Asset expected_name)) (\<lambda>_.
     let asset = hd matching in
     and_then (require (dict_get asset (asc ''state'') = JStr (asc ''uploaded'')) Not_Uploaded) (\<lambda>_.
     and_then (required_string asset (asc ''browser_download_url'')) (\<lambda>asset_url.
     and_then (require (asset_url = RELEASE_DOWNLOAD_PREFIX @ quote tag @ asc ''/'' @ quote expected_name) Foreign_Asset) (\<lambda>_.
     and_then (required_string asset (asc ''digest'')) (\<lambda>digest.
     and_then (case digest_value digest of None \<Rightarrow> Inl (Update_Error No_Digest) | Some hex \<Rightarrow> Inr hex) (\<lambda>hex.
     and_then (required_size asset) (\<lambda>size.
     Inr \<lparr>re_version = version, re_tag = tag, re_page_url = page_url,
          re_notes = (case dict_get payload (asc ''body'') of JStr s \<Rightarrow> take MAX_RELEASE_NOTES_CHARACTERS s | _ \<Rightarrow> []),
          re_asset = \<lparr>ra_name = expected_name, ra_url = asset_url, ra_size = size, ra_sha256 = hex\<rparr>\<rparr>)))))))))))))))))"

text \<open>The pattern of an installer's name.\<close>

definition windows_installer_name :: "ustr \<Rightarrow> bool" where
  "windows_installer_name s \<longleftrightarrow>
     list_ex (\<lambda>architecture.
        let front = asc ''KeySwitch-Setup-''; back = asc ''-'' @ asc architecture @ asc ''.exe'';
            middle = take (length s - length front - length back) (drop (length front) s)
        in version_body middle \<and> s = front @ middle @ back) [''x64'', ''arm64'', ''x86'']"

lemma utf8_ascii: "list_all (\<lambda>c. c < 0x80) s \<Longrightarrow> utf8 s = s"
  by (induction s) (simp_all add: utf8_def utf8_ch_def)

lemma quote_plain:
  assumes "list_all unreserved s"
  shows "quote s = s"
proof -
  have "unreserved c \<Longrightarrow> c < 0x80" for c by (auto simp: unreserved_def asc_def)
  then have "utf8 s = s" using assms by (intro utf8_ascii) (auto simp: list_all_iff)
  moreover have "list_all unreserved t \<Longrightarrow>
      concat (map (\<lambda>b. if unreserved b then [b] else [0x25, hex_digit (b div 16), hex_digit (b mod 16)]) t) = t" for t
    by (induction t) simp_all
  ultimately show ?thesis using assms by (simp add: quote_def)
qed

lemma version_text_unreserved: "list_all unreserved (version_text v)"
  using digits_of_decimal [of "major v"] digits_of_decimal [of "minor v"] digits_of_decimal [of "patch v"]
  by (auto simp: version_text_def list_all_iff unreserved_def isdecimal_ch_def asc_def)

lemma asset_name_quoted [simp]: "quote (asset_name t v) = asset_name t v"
  using version_text_unreserved [of v]
  by (intro quote_plain) (cases t; simp add: asset_name_def windows_architecture_def unreserved_def asc_def)

lemma tag_quoted [simp]: "quote (0x76 # version_text v) = 0x76 # version_text v"
  using version_text_unreserved [of v] by (intro quote_plain) (simp add: unreserved_def)

lemma asset_name_installer: "windows_installer t \<Longrightarrow> windows_installer_name (asset_name t v)"
  by (cases t) (simp_all add: windows_installer_def windows_installer_name_def asset_name_def windows_architecture_def Let_def asc_def)

lemma required_size_Inr: "required_size d = Inr n \<Longrightarrow> 0 < n \<and> n \<le> MAX_ASSET_BYTES"
  by (auto simp: required_size_def split: json.splits if_splits)

lemma read_limited_Inr: "read_limited read n = Inr p \<longleftrightarrow> read (n + 1) = Inr p \<and> length p \<le> n"
  by (simp add: read_limited_def split: sum.splits) auto

lemma fetch_release_Inr:
  assumes "fetch_release answer loads = Inr v"
  shows "\<exists>read raw. answer = Inr (LATEST_RELEASE_URL, read) \<and> read (MAX_RELEASE_JSON_BYTES + 1) = Inr raw
    \<and> length raw \<le> MAX_RELEASE_JSON_BYTES \<and> loads raw = Inr v"
proof -
  have "and_then (lift_error answer) (\<lambda>(url, read). and_then (validate_api_response_url url) (\<lambda>_.
      and_then (read_limited read MAX_RELEASE_JSON_BYTES) (\<lambda>raw. lift_error (loads raw)))) = Inr v"
    using assms by (auto simp: fetch_release_def Let_def split: sum.splits update_fault.splits if_splits)
  then show ?thesis
    by (auto simp: validate_api_response_url_def read_limited_Inr)
qed

lemma digest_value_Some: "digest_value s = Some h \<Longrightarrow> length h = 64 \<and> list_all (\<lambda>c. isdecimal_ch c \<or> 0x61 \<le> c \<and> c \<le> 0x66) h"
  by (auto simp: digest_value_def Let_def split: if_splits)

lemma latest_releaseE:
  assumes "latest_release target answer loads = Inr r"
  obtains decoded payload tag version page_url asset_url digest hex bytes asset where
      "fetch_release answer loads = Inr decoded" "object_mapping decoded (asc ''release'') = Inr payload"
      "dict_get payload (asc ''draft'') = JBool False" "dict_get payload (asc ''prerelease'') = JBool False"
      "tag = [0x76] @ version_text version" "page_url = RELEASE_PAGE_PREFIX @ quote tag"
      "asset_url = RELEASE_DOWNLOAD_PREFIX @ quote tag @ asc ''/'' @ quote (asset_name target version)"
      "digest_value digest = Some hex" "required_size asset = Inr bytes"
      "r = \<lparr>re_version = version, re_tag = tag, re_page_url = page_url,
         re_notes = (case dict_get payload (asc ''body'') of JStr s \<Rightarrow> take MAX_RELEASE_NOTES_CHARACTERS s | _ \<Rightarrow> []),
         re_asset = \<lparr>ra_name = asset_name target version, ra_url = asset_url, ra_size = bytes, ra_sha256 = hex\<rparr>\<rparr>"
  using assms unfolding latest_release_def Let_def and_then_Inr require_Inr
  by (auto split: option.splits)

lemma latest_release_asset:
  assumes "latest_release target answer loads = Inr r"
  shows "ra_name (re_asset r) = asset_name target (re_version r)" "0 < ra_size (re_asset r)" "ra_size (re_asset r) \<le> MAX_ASSET_BYTES"
  by (rule latest_releaseE [OF assms]; use required_size_Inr in fastforce)+

text \<open>C22: A release is offered only as the repository publishes it: read from GitHub's address in one answer of bounded size, a
  finished release, its tag the text of its version, its page and its file at the addresses the tag and the target spell, the
  file's size within the limit and its SHA-256 written out; and an installer of Windows carries a name the launch accepts.\<close>

theorem latest_release_as_published:
  assumes "latest_release target answer loads = Inr r"
  shows "(\<exists>read raw payload. answer = Inr (LATEST_RELEASE_URL, read) \<and> read (MAX_RELEASE_JSON_BYTES + 1) = Inr raw
      \<and> length raw \<le> MAX_RELEASE_JSON_BYTES \<and> loads raw = Inr (JObj payload)
      \<and> dict_get payload (asc ''draft'') = JBool False \<and> dict_get payload (asc ''prerelease'') = JBool False)
    \<and> re_tag r = [0x76] @ version_text (re_version r)
    \<and> re_page_url r = RELEASE_PAGE_PREFIX @ re_tag r
    \<and> ra_name (re_asset r) = asset_name target (re_version r)
    \<and> ra_url (re_asset r) = RELEASE_DOWNLOAD_PREFIX @ re_tag r @ asc ''/'' @ ra_name (re_asset r)
    \<and> 0 < ra_size (re_asset r) \<and> ra_size (re_asset r) \<le> MAX_ASSET_BYTES
    \<and> length (ra_sha256 (re_asset r)) = 64 \<and> list_all (\<lambda>c. isdecimal_ch c \<or> 0x61 \<le> c \<and> c \<le> 0x66) (ra_sha256 (re_asset r))
    \<and> length (re_notes r) \<le> MAX_RELEASE_NOTES_CHARACTERS
    \<and> (windows_installer target \<longrightarrow> windows_installer_name (ra_name (re_asset r)))"
proof -
  obtain decoded payload tag version page_url asset_url digest hex bytes asset where
      fetched: "fetch_release answer loads = Inr decoded" and payload: "object_mapping decoded (asc ''release'') = Inr payload"
    and finished: "dict_get payload (asc ''draft'') = JBool False" "dict_get payload (asc ''prerelease'') = JBool False"
    and tag: "tag = [0x76] @ version_text version" and page: "page_url = RELEASE_PAGE_PREFIX @ quote tag"
    and url: "asset_url = RELEASE_DOWNLOAD_PREFIX @ quote tag @ asc ''/'' @ quote (asset_name target version)"
    and hex: "digest_value digest = Some hex" and limit: "required_size asset = Inr bytes"
    and r: "r = \<lparr>re_version = version, re_tag = tag, re_page_url = page_url,
         re_notes = (case dict_get payload (asc ''body'') of JStr s \<Rightarrow> take MAX_RELEASE_NOTES_CHARACTERS s | _ \<Rightarrow> []),
         re_asset = \<lparr>ra_name = asset_name target version, ra_url = asset_url, ra_size = bytes, ra_sha256 = hex\<rparr>\<rparr>"
    by (rule latest_releaseE [OF assms])
  obtain read raw where raw: "answer = Inr (LATEST_RELEASE_URL, read)" "read (MAX_RELEASE_JSON_BYTES + 1) = Inr raw"
    "length raw \<le> MAX_RELEASE_JSON_BYTES" "loads raw = Inr decoded"
    using fetch_release_Inr [OF fetched] by blast
  moreover have "decoded = JObj payload" using payload by (cases decoded) (simp_all add: object_mapping_def)
  moreover have "length (re_notes r) \<le> MAX_RELEASE_NOTES_CHARACTERS"
    by (cases "dict_get payload (asc ''body'')") (simp_all add: r)
  ultimately show ?thesis
    using finished tag page url digest_value_Some [OF hex] required_size_Inr [OF limit] asset_name_installer
    by (simp add: r)
qed

text \<open>The answer for a release with one installer.\<close>

definition example_digest :: ustr where "example_digest = replicate 64 0x61"

definition example_payload :: json where
  "example_payload = JObj [(asc ''draft'', JBool False), (asc ''prerelease'', JBool False), (asc ''tag_name'', JStr (asc ''v1.2.3'')),
     (asc ''html_url'', JStr (asc ''https://github.com/olegius88/keyswitch/releases/tag/v1.2.3'')),
     (asc ''assets'', JList [JObj [(asc ''name'', JStr (asc ''KeySwitch-Setup-1.2.3-x64.exe'')), (asc ''state'', JStr (asc ''uploaded'')),
        (asc ''browser_download_url'',
           JStr (asc ''https://github.com/olegius88/keyswitch/releases/download/v1.2.3/KeySwitch-Setup-1.2.3-x64.exe'')),
        (asc ''digest'', JStr (asc ''sha256:'' @ example_digest)), (asc ''size'', JInt 7)]])]"

definition example_release :: update_release where
  "example_release =
     \<lparr>re_version = Semantic_Version 1 2 3, re_tag = asc ''v1.2.3'',
      re_page_url = asc ''https://github.com/olegius88/keyswitch/releases/tag/v1.2.3'', re_notes = [],
      re_asset = \<lparr>ra_name = asc ''KeySwitch-Setup-1.2.3-x64.exe'',
        ra_url = asc ''https://github.com/olegius88/keyswitch/releases/download/v1.2.3/KeySwitch-Setup-1.2.3-x64.exe'',
        ra_size = 7, ra_sha256 = example_digest\<rparr>\<rparr>"

lemma example_version: "version_text (Semantic_Version 1 2 3) = asc ''1.2.3''"
  by (simp add: version_text_def digits_of.simps asc_def)

lemma example_parsed: "version_parse (asc ''v1.2.3'') = Inr (Semantic_Version 1 2 3)"
  by (simp add: version_parse_def version_body_def number_text_def number_value_def isdecimal_ch_def INT_MAX_STR_DIGITS_def
      asc_def starts_with_def)

lemma example_latest: "latest_release Windows_X64 (Inr (LATEST_RELEASE_URL, \<lambda>_. Inr [])) (\<lambda>_. Inr example_payload) = Inr example_release"
proof -
  have tag: "asc ''v1.2.3'' = 0x76 # version_text (Semantic_Version 1 2 3)"
    unfolding example_version by (simp add: asc_def)
  have name: "asset_name Windows_X64 (Semantic_Version 1 2 3) = asc ''KeySwitch-Setup-1.2.3-x64.exe''"
    unfolding asset_name_def example_version by (simp add: windows_architecture_def) (simp add: asc_def)
  have hex: "digest_value (asc ''sha256:'' @ example_digest) = Some example_digest"
    by (simp add: digest_value_def example_digest_def starts_with_def asc_def isdecimal_ch_def list_all_iff)
  have quoted: "quote (asc ''v1.2.3'') = asc ''v1.2.3''" by (simp add: tag)
  have named: "quote (asc ''KeySwitch-Setup-1.2.3-x64.exe'') = asc ''KeySwitch-Setup-1.2.3-x64.exe''"
    using asset_name_quoted [of Windows_X64 "Semantic_Version 1 2 3"] unfolding name .
  have page: "asc ''https://github.com/olegius88/keyswitch/releases/tag/v1.2.3'' = RELEASE_PAGE_PREFIX @ asc ''v1.2.3''"
    and asset_at: "asc ''https://github.com/olegius88/keyswitch/releases/download/v1.2.3/KeySwitch-Setup-1.2.3-x64.exe''
      = RELEASE_DOWNLOAD_PREFIX @ asc ''v1.2.3'' @ asc ''/'' @ asc ''KeySwitch-Setup-1.2.3-x64.exe''"
    by (simp_all add: RELEASE_PAGE_PREFIX_def RELEASE_DOWNLOAD_PREFIX_def REPOSITORY_def asc_def)
  show ?thesis
    unfolding latest_release_def example_payload_def example_release_def Let_def page asset_at
    by (simp add: and_then_def fetch_release_def validate_api_response_url_def read_limited_def lift_error_def object_mapping_def
        require_def dict_get_def required_string_def asc_eq asc_eq_Nil example_parsed quoted name [unfolded One_nat_def] named hex required_size_def
        MAX_ASSET_BYTES_def RELEASE_PAGE_PREFIX_def RELEASE_DOWNLOAD_PREFIX_def REPOSITORY_def flip: tag [unfolded One_nat_def])
qed

theorem latest_release_as_published_witness:
  "latest_release Windows_X64 (Inr (LATEST_RELEASE_URL, \<lambda>_. Inr [])) (\<lambda>_. Inr example_payload) = Inr example_release
    \<and> windows_installer_name (ra_name (re_asset example_release))"
  using latest_release_as_published [OF example_latest] example_latest unfolding windows_installer_def by blast

section \<open>The download\<close>

text \<open>
  \<open>urlsplit(url)\<close>: the scheme, the host and the path. A bracketed host is refused here at once: Python accepts an IP address
  in brackets only, which is not the host asked for either.
\<close>

definition url_scheme :: "ustr \<Rightarrow> ustr \<times> ustr" where
  "url_scheme url =
     (let (head, found, rest) = partition_at 0x3A url
      in if found \<and> head \<noteq> [] \<and> hd head < 0x80 \<and> isalpha_ch (hd head)
            \<and> list_all (\<lambda>c. c < 0x80 \<and> (isalnum_ch c \<or> c \<in> set (asc ''+-.''))) head
         then (lower head, rest) else ([], url))"

definition url_host :: "ustr \<Rightarrow> ustr" where
  "url_host netloc =
     (let info = rev (takeWhile (\<lambda>c. c \<noteq> 0x40) (rev netloc)); name = takeWhile (\<lambda>c. c \<noteq> 0x3A) info;
          (plain, zoned, zone) = partition_at 0x25 name
      in lower plain @ (if zoned then 0x25 # zone else []))"

definition url_parts :: "ustr \<Rightarrow> py_error + (ustr \<times> ustr \<times> ustr)" where
  "url_parts url =
     (let clean = List.filter (\<lambda>c. c \<notin> {0x9, 0xA, 0xD}) (dropWhile (\<lambda>c. c \<le> 0x20) url); (scheme, rest) = url_scheme clean;
          slashes = starts_with rest (asc ''//''); after = (if slashes then drop 2 rest else rest);
          netloc = (if slashes then takeWhile (\<lambda>c. c \<notin> set (asc ''/?#'')) after else []);
          path = takeWhile (\<lambda>c. c \<noteq> 0x3F) (takeWhile (\<lambda>c. c \<noteq> 0x23) (drop (length netloc) after))
      in if list_ex (\<lambda>c. c = 0x5B \<or> c = 0x5D) netloc then Inl ValueError else Inr (scheme, url_host netloc, path))"

definition validate_download_response_url :: "ustr \<Rightarrow> update_fault + unit" where
  "validate_download_response_url url =
     and_then (lift_error (url_parts url)) (\<lambda>(scheme, host, path).
     require (scheme = asc ''https'' \<and> host = asc ''release-assets.githubusercontent.com''
              \<and> starts_with path (asc ''/github-production-release-asset/'')) Download_Redirected)"

text \<open>
  The loop over the body. What the read of each turn gives is a parameter, and so is whether each write succeeds. The result is the
  exception, if there was one, what has been written, and the progress reported.
\<close>

partial_function (option) download_loop ::
    "(nat \<Rightarrow> py_error + nat list) \<Rightarrow> (nat \<Rightarrow> bool) \<Rightarrow> nat \<Rightarrow> nat \<Rightarrow> nat list \<Rightarrow> (nat \<times> nat) list
      \<Rightarrow> (update_fault option \<times> nat list \<times> (nat \<times> nat) list) option" where
  "download_loop read write_ok declared k written progress =
     (case read k of
        Inl e \<Rightarrow> Some (Some (Python_Error e), written, progress)
      | Inr chunk \<Rightarrow>
          if chunk = [] then Some (None, written, progress)
          else if declared < length written + length chunk then Some (Some (Update_Error Too_Much_Data), written, progress)
          else if \<not> write_ok k then Some (Some (Python_Error OSError), written, progress)
          else download_loop read write_ok declared (Suc k) (written @ chunk)
                 (progress @ [(length written + length chunk, declared)]))"

type_synonym directory = "ustr \<Rightarrow> nat list option"

definition part_name :: "release_asset \<Rightarrow> ustr" where "part_name asset = ra_name asset @ asc ''.part''"

text \<open>The environment of one download: what the file system and the server do; the answer gives the bytes of each read in turn.\<close>

record download_env =
  de_mkdir_ok :: bool
  de_unlink_ok :: "ustr \<Rightarrow> bool"
  de_list_ok :: bool
  de_answer :: "py_error + response"
  de_open_ok :: bool
  de_write_ok :: "nat \<Rightarrow> bool"
  de_replace_ok :: bool
  de_cleanup_ok :: bool

definition remove_previous_installers :: "(ustr \<Rightarrow> bool) \<Rightarrow> ustr \<Rightarrow> directory \<Rightarrow> directory" where
  "remove_previous_installers unlink_ok kept files =
     (\<lambda>name. if name \<noteq> kept \<and> windows_installer_name name \<and> unlink_ok name then None else files name)"

definition unlink_if_exists :: "bool \<Rightarrow> ustr \<Rightarrow> directory \<Rightarrow> (py_error + unit) \<times> directory" where
  "unlink_if_exists unlink_ok name files =
     (if files name = None then (Inr (), files)
      else if unlink_ok then (Inr (), files(name := None)) else (Inl OSError, files))"

text \<open>The body of the try: the exception or the name of the file, the directory and the progress.\<close>

definition download_body ::
    "(nat list \<Rightarrow> ustr) \<Rightarrow> download_env \<Rightarrow> release_asset \<Rightarrow> directory
      \<Rightarrow> ((update_fault + ustr) \<times> directory \<times> (nat \<times> nat) list) option" where
  "download_body sha256 env asset files =
     (case de_answer env of
        Inl e \<Rightarrow> Some (Inl (Python_Error e), files, [])
      | Inr (url, read) \<Rightarrow>
          (case validate_download_response_url url of
             Inl e \<Rightarrow> Some (Inl e, files, [])
           | Inr _ \<Rightarrow>
               if \<not> de_open_ok env then Some (Inl (Python_Error OSError), files, [])
               else (case download_loop read (de_write_ok env) (ra_size asset) 0 [] [] of
                       None \<Rightarrow> None
                     | Some (stopped, written, progress) \<Rightarrow>
                         let part = files(part_name asset \<mapsto> written)
                         in Some (case stopped of
                                    Some e \<Rightarrow> (Inl e, part, progress)
                                  | None \<Rightarrow>
                                      if length written \<noteq> ra_size asset then (Inl (Update_Error Wrong_Length), part, progress)
                                      else if sha256 written \<noteq> ra_sha256 asset then (Inl (Update_Error Wrong_Digest), part, progress)
                                      else if \<not> de_replace_ok env then (Inl (Python_Error OSError), part, progress)
                                      else (Inr (ra_name asset),
                                            part(ra_name asset \<mapsto> written, part_name asset := None), progress)))))"

text \<open>\<open>GitHubReleaseClient.download\<close>; None is a download that never returns.\<close>

definition download ::
    "(nat list \<Rightarrow> ustr) \<Rightarrow> download_env \<Rightarrow> release_asset \<Rightarrow> directory
      \<Rightarrow> ((update_fault + ustr) \<times> directory \<times> (nat \<times> nat) list) option" where
  "download sha256 env asset files =
     (if \<not> de_mkdir_ok env then Some (Inl (Python_Error OSError), files, [])
      else case unlink_if_exists (de_unlink_ok env (part_name asset)) (part_name asset) files of
        (Inl e, files) \<Rightarrow> Some (Inl (Python_Error e), files, [])
      | (Inr _, files) \<Rightarrow>
          if \<not> de_list_ok env then Some (Inl (Python_Error OSError), files, [])
          else (case download_body sha256 env asset (remove_previous_installers (de_unlink_ok env) (ra_name asset) files) of
                  None \<Rightarrow> None
                | Some (Inr name, files, progress) \<Rightarrow> Some (Inr name, files, progress)
                | Some (Inl fault, files, progress) \<Rightarrow>
                    Some (case fault of
                       Python_Error e \<Rightarrow>
                         if e \<noteq> OSError then (Inl fault, files, progress)
                         else (case unlink_if_exists (de_cleanup_ok env) (part_name asset) files of
                                 (Inl failed, files) \<Rightarrow> (Inl (Python_Error failed), files, progress)
                               | (Inr _, files) \<Rightarrow> (Inl (Update_Error (Download_Failed e)), files, progress))
                     | Update_Error _ \<Rightarrow>
                         (case unlink_if_exists (de_cleanup_ok env) (part_name asset) files of
                            (Inl failed, files) \<Rightarrow> (Inl (Python_Error failed), files, progress)
                          | (Inr _, files) \<Rightarrow> (Inl fault, files, progress)))))"

text \<open>\<open>launch_windows_installer\<close>: the arguments of the process it starts.\<close>

definition launch_windows_installer :: "bool \<Rightarrow> ustr \<Rightarrow> ustr \<Rightarrow> update_fault + ustr list" where
  "launch_windows_installer is_file path name =
     and_then (require is_file Installer_Missing) (\<lambda>_.
     and_then (require (windows_installer_name name) Installer_Name) (\<lambda>_.
     Inr (path # map asc [''/SP-'', ''/VERYSILENT'', ''/SUPPRESSMSGBOXES'', ''/NORESTART'', ''/CLOSEAPPLICATIONS'',
                          ''/NORESTARTAPPLICATIONS'', ''/KEYSWITCHUPDATE=1''])))"

lemma download_loop_returns:
  assumes "length written \<le> declared"
  shows "\<exists>stopped body more. download_loop read write_ok declared k written progress = Some (stopped, body, progress @ more)
    \<and> length body \<le> declared \<and> length more + length written \<le> length body \<and> (\<forall>(d, t)\<in>set more. t = declared \<and> d \<le> declared)"
  using assms
proof (induction "declared - length written" arbitrary: k written progress rule: less_induct)
  case less
  show ?case
  proof (cases "\<exists>chunk. read k = Inr chunk \<and> chunk \<noteq> [] \<and> length written + length chunk \<le> declared \<and> write_ok k")
    case True
    then obtain chunk where chunk: "read k = Inr chunk" "chunk \<noteq> []" "length written + length chunk \<le> declared" "write_ok k" by blast
    let ?progress = "progress @ [(length written + length chunk, declared)]"
    have smaller: "declared - length (written @ chunk) < declared - length written"
      using chunk(2,3) by (cases chunk) simp_all
    obtain stopped body more where rest: "download_loop read write_ok declared (Suc k) (written @ chunk) ?progress
        = Some (stopped, body, ?progress @ more)" "length body \<le> declared" "length more + length (written @ chunk) \<le> length body"
      "\<forall>(d, t)\<in>set more. t = declared \<and> d \<le> declared"
      using less.hyps [OF smaller, of "Suc k" ?progress] chunk(3) by auto
    have "Suc (length more + length written) \<le> length body" using chunk(2) rest(3) by (cases chunk) simp_all
    then show ?thesis
      using chunk rest
      by (intro exI [of _ stopped] exI [of _ body] exI [of _ "(length written + length chunk, declared) # more"])
        (auto simp: download_loop.simps [of read write_ok declared k])
  next
    case False
    show ?thesis
    proof (cases "read k")
      case (Inl e)
      then show ?thesis using less.prems by (simp add: download_loop.simps)
    next
      case (Inr chunk)
      then show ?thesis using less.prems False by (cases "chunk = []") (auto simp: download_loop.simps)
    qed
  qed
qed

text \<open>The file under the installer's name is what the release announces, from the host of GitHub's files.\<close>

definition verified_file :: "(nat list \<Rightarrow> ustr) \<Rightarrow> download_env \<Rightarrow> release_asset \<Rightarrow> directory \<Rightarrow> bool" where
  "verified_file sha256 env asset files \<longleftrightarrow>
     (\<exists>url read bytes. de_answer env = Inr (url, read) \<and> validate_download_response_url url = Inr ()
        \<and> files (ra_name asset) = Some bytes \<and> length bytes = ra_size asset \<and> sha256 bytes = ra_sha256 asset)"

lemma part_name_neq [simp]: "part_name asset \<noteq> ra_name asset" "ra_name asset \<noteq> part_name asset"
  by (simp_all add: part_name_def asc_def)

lemma unlink_if_exists_iff:
  "unlink_if_exists ok name files = (r, files') \<longleftrightarrow>
     (if files name = None \<or> ok then r = Inr () \<and> files' = files(name := None) else r = Inl OSError \<and> files' = files)"
  by (auto simp: unlink_if_exists_def fun_upd_idem)

lemma download_body_returns:
  "\<exists>result files' progress. download_body sha256 env asset files = Some (result, files', progress)
     \<and> length progress \<le> ra_size asset \<and> set progress \<subseteq> {0..ra_size asset} \<times> {ra_size asset}
     \<and> (\<forall>n. n \<notin> {ra_name asset, part_name asset} \<longrightarrow> files' n = files n)
     \<and> (case result of
          Inl _ \<Rightarrow> files' (ra_name asset) = files (ra_name asset)
        | Inr name \<Rightarrow> name = ra_name asset \<and> files' (part_name asset) = None \<and> verified_file sha256 env asset files')"
proof (cases "de_answer env")
  case (Inl e)
  then show ?thesis by (simp add: download_body_def)
next
  case (Inr answer)
  obtain url read where answer: "de_answer env = Inr (url, read)" using Inr by (cases answer) simp
  show ?thesis
  proof (cases "validate_download_response_url url = Inr () \<and> de_open_ok env")
    case False
    then show ?thesis by (cases "validate_download_response_url url") (simp_all add: download_body_def answer)
  next
    case True
    obtain stopped body more where loop: "download_loop read (de_write_ok env) (ra_size asset) 0 [] [] = Some (stopped, body, more)"
      "length body \<le> ra_size asset" "length more \<le> length body" "\<forall>(d, t)\<in>set more. t = ra_size asset \<and> d \<le> ra_size asset"
      using download_loop_returns [of "[]" "ra_size asset" read "de_write_ok env" 0 "[]"] by auto
    have "set more \<subseteq> {0..ra_size asset} \<times> {ra_size asset}" using loop(4) by auto
    then show ?thesis
      using loop(2,3) True answer
      by (cases stopped) (simp_all add: download_body_def loop(1) Let_def verified_file_def)
  qed
qed

lemma download_cases:
  obtains (result) result files' progress where "download sha256 env asset files = Some (result, files', progress)"
    "length progress \<le> ra_size asset" "set progress \<subseteq> {0..ra_size asset} \<times> {ra_size asset}"
    "\<And>n. n \<notin> {ra_name asset, part_name asset} \<Longrightarrow> files' n = files n \<or> files' n = None \<and> windows_installer_name n"
    "case result of
       Inl (Update_Error _) \<Rightarrow> files' (ra_name asset) = files (ra_name asset) \<and> files' (part_name asset) = None
     | Inl (Python_Error _) \<Rightarrow> files' (ra_name asset) = files (ra_name asset)
     | Inr name \<Rightarrow> name = ra_name asset \<and> files' (part_name asset) = None \<and> verified_file sha256 env asset files'"
proof -
  obtain r1 files1 where first: "unlink_if_exists (de_unlink_ok env (part_name asset)) (part_name asset) files = (r1, files1)"
    by fastforce
  show thesis
  proof (cases "de_mkdir_ok env \<and> r1 = Inr () \<and> de_list_ok env")
    case False
    have same: "files1 n = files n" if "n \<noteq> part_name asset" for n
      using first that by (auto simp: unlink_if_exists_iff split: if_splits)
    have run: "download sha256 env asset files = Some (Inl (Python_Error OSError), if de_mkdir_ok env then files1 else files, [])"
    proof (cases r1)
      case (Inl e)
      then have "e = OSError" using first by (simp add: unlink_if_exists_iff split: if_splits)
      then show ?thesis using Inl by (simp add: download_def first)
    next
      case (Inr u)
      then show ?thesis using False by (simp add: download_def first)
    qed
    show thesis by (rule that [OF run]) (simp_all add: same)
  next
    case True
    let ?before = "remove_previous_installers (de_unlink_ok env) (ra_name asset) files1"
    have files1: "files1 = files(part_name asset := None)"
      using first True by (simp add: unlink_if_exists_iff split: if_splits)
    obtain result files2 progress where body: "download_body sha256 env asset ?before = Some (result, files2, progress)"
      "length progress \<le> ra_size asset" "set progress \<subseteq> {0..ra_size asset} \<times> {ra_size asset}"
      "\<forall>n. n \<notin> {ra_name asset, part_name asset} \<longrightarrow> files2 n = ?before n"
      "case result of
          Inl _ \<Rightarrow> files2 (ra_name asset) = ?before (ra_name asset)
        | Inr name \<Rightarrow> name = ra_name asset \<and> files2 (part_name asset) = None \<and> verified_file sha256 env asset files2"
      using download_body_returns [of sha256 env asset ?before] by blast
    have others: "files2 n = files n \<or> files2 n = None \<and> windows_installer_name n"
      if "n \<notin> {ra_name asset, part_name asset}" for n
      using body(4) that by (auto simp: remove_previous_installers_def files1)
    have kept: "?before (ra_name asset) = files (ra_name asset)" by (simp add: remove_previous_installers_def files1)
    obtain r3 files3 where last: "unlink_if_exists (de_cleanup_ok env) (part_name asset) files2 = (r3, files3)" by fastforce
    have files3: "files3 n = files2 n" if "n \<noteq> part_name asset" for n
      using last that by (auto simp: unlink_if_exists_iff split: if_splits)
    have run: "download sha256 env asset files = Some (case result of
        Inr name \<Rightarrow> (Inr name, files2, progress)
      | Inl (Python_Error e) \<Rightarrow> if e \<noteq> OSError then (Inl (Python_Error e), files2, progress)
          else (case r3 of Inl x \<Rightarrow> Inl (Python_Error x) | Inr _ \<Rightarrow> Inl (Update_Error (Download_Failed e)), files3, progress)
      | Inl (Update_Error e) \<Rightarrow> (case r3 of Inl x \<Rightarrow> Inl (Python_Error x) | Inr _ \<Rightarrow> Inl (Update_Error e), files3, progress))"
      using True by (simp add: download_def first body(1) last split: sum.split update_fault.split)
    have gone: "r3 = Inr () \<Longrightarrow> files3 (part_name asset) = None"
      using last by (auto simp: unlink_if_exists_iff split: if_splits)
    show thesis
    proof (cases result)
      case (Inr name)
      then show thesis using run body(2,3,5) others by (intro that [of result files2 progress]) simp_all
    next
      case (Inl fault)
      have old: "files3 (ra_name asset) = files (ra_name asset)" "files2 (ra_name asset) = files (ra_name asset)"
        using files3 body(5) kept Inl by simp_all
      have others3: "n \<notin> {ra_name asset, part_name asset} \<Longrightarrow> files3 n = files n \<or> files3 n = None \<and> windows_installer_name n" for n
        using others [of n] files3 [of n] by simp
      show thesis
      proof (cases "\<exists>e. fault = Python_Error e \<and> e \<noteq> OSError")
        case True
        then show thesis using run body(2,3) others old Inl by (intro that [of "Inl fault" files2 progress]) auto
      next
        case False
        then show thesis
          using run body(2,3) others3 old gone Inl
          by (intro that [of "fst (the (download sha256 env asset files))" files3 progress])
            (auto split: sum.splits update_fault.splits)
      qed
    qed
  qed
qed

text \<open>C18: A download returns, whatever the server sends and for however long: after at most as many reports of progress as the
  announced size has bytes, each within that size.\<close>

theorem download_returns:
  "\<exists>result files' progress. download sha256 env asset files = Some (result, files', progress)
     \<and> length progress \<le> ra_size asset \<and> set progress \<subseteq> {0..ra_size asset} \<times> {ra_size asset}"
  by (rule download_cases [of sha256 env asset files]) blast

text \<open>C17: The installer left behind is the one announced: after a download that succeeds the file under its name came from the
  host of GitHub's files and has the announced length and SHA-256, with no partial file beside it; after one that fails the file
  under that name is what it was, and a failure of the update itself leaves no partial file. Nothing else in the folder changes
  but that installers of other versions may be gone.\<close>

theorem download_verified:
  assumes "download sha256 env asset files = Some (result, files', progress)"
  shows "(case result of
       Inl (Update_Error _) \<Rightarrow> files' (ra_name asset) = files (ra_name asset) \<and> files' (part_name asset) = None
     | Inl (Python_Error _) \<Rightarrow> files' (ra_name asset) = files (ra_name asset)
     | Inr name \<Rightarrow> name = ra_name asset \<and> files' (part_name asset) = None \<and> verified_file sha256 env asset files')
   \<and> (n \<notin> {ra_name asset, part_name asset} \<longrightarrow> files' n = files n \<or> files' n = None \<and> windows_installer_name n)"
  using assms by (cases rule: download_cases [of sha256 env asset files]) auto

text \<open>Seven bytes in two reads; a stale partial file and an older installer stand in the folder.\<close>

definition example_env :: download_env where
  "example_env =
     \<lparr>de_mkdir_ok = True, de_unlink_ok = \<lambda>_. True, de_list_ok = True,
      de_answer = Inr (asc ''https://release-assets.githubusercontent.com/github-production-release-asset/1'',
        \<lambda>k. Inr (if k = 0 then [1, 2, 3] else if k = 1 then [4, 5, 6, 7] else [])),
      de_open_ok = True, de_write_ok = \<lambda>_. True, de_replace_ok = True, de_cleanup_ok = True\<rparr>"

lemma example_url: "validate_download_response_url
    (asc ''https://release-assets.githubusercontent.com/github-production-release-asset/1'') = Inr ()"
  by (simp add: validate_download_response_url_def url_parts_def url_scheme_def url_host_def partition_at_def Let_def and_then_def
      lift_error_def require_def asc_def starts_with_def isalpha_ch_def isalnum_ch_def letter_class_def lower_def lower_ch_def)

lemma example_download:
  "download (\<lambda>_. example_digest) example_env (re_asset example_release) (\<lambda>_. None)
     = Some (Inr (ra_name (re_asset example_release)),
         [ra_name (re_asset example_release) \<mapsto> [1, 2, 3, 4, 5, 6, 7]], [(3, 7), (7, 7)])"
  by (simp add: download_def unlink_if_exists_def download_body_def example_env_def example_url download_loop.simps
      example_release_def remove_previous_installers_def part_name_def asc_eq_Nil fun_eq_iff)

theorem download_verified_witness:
  "verified_file (\<lambda>_. example_digest) example_env (re_asset example_release)
     [ra_name (re_asset example_release) \<mapsto> [1, 2, 3, 4, 5, 6, 7]]"
  using download_verified [OF example_download, of "[]"] by simp

end
