(* ===== verification/Update_Manager.thy ===== *)
theory Update_Manager
  imports Updates
begin

text \<open>
  The state machine of \<open>UpdateManager\<close> (\<open>src/keyswitch/updates.py\<close>): checks and downloads run on threads of their own, one
  step of a thread is what it does between two releases of the lock, and any thread may take the next step. A download is one
  step but for its reports of progress; an observer is told at the moment of the change, and what it raises is logged there.
\<close>

section \<open>The state\<close>

datatype update_phase = Idle | Checking | Current | Available | Downloading | Installing | Update_Failed

text \<open>The message of a snapshot, one constructor for each text of the source, with what is printed in it.\<close>

datatype update_message =
    Never_Checked | Checking_Releases | Up_To_Date semantic_version | New_Version semantic_version
  | Loading_Version semantic_version int | Starting_Install semantic_version | Not_Updated update_fault

record update_snapshot =
  us_phase :: update_phase
  us_message :: update_message
  us_current :: semantic_version
  us_available :: "semantic_version option"
  us_release_url :: ustr
  us_progress :: int

record update_manager =
  um_current :: semantic_version
  um_target :: "update_target option"
  um_install_request :: bool
  um_observers :: "nat list"
  um_release :: "update_release option"
  um_busy :: bool
  um_closed :: bool
  um_snapshot :: update_snapshot
  um_told :: "(nat \<times> update_snapshot) list"

definition plain_snapshot :: "update_manager \<Rightarrow> update_phase \<Rightarrow> update_message \<Rightarrow> update_snapshot" where
  "plain_snapshot m phase message =
     \<lparr>us_phase = phase, us_message = message, us_current = um_current m, us_available = None, us_release_url = [], us_progress = 0\<rparr>"

definition new_manager :: "semantic_version \<Rightarrow> update_target option \<Rightarrow> bool \<Rightarrow> update_manager" where
  "new_manager current target install_request =
     \<lparr>um_current = current, um_target = target, um_install_request = install_request, um_observers = [], um_release = None,
      um_busy = False, um_closed = False,
      um_snapshot = \<lparr>us_phase = Idle, us_message = Never_Checked, us_current = current, us_available = None, us_release_url = [],
        us_progress = 0\<rparr>,
      um_told = []\<rparr>"

definition notify :: "update_manager \<Rightarrow> update_manager" where
  "notify m = m\<lparr>um_told := um_told m @ map (\<lambda>callback. (callback, um_snapshot m)) (um_observers m)\<rparr>"

definition subscribe :: "nat \<Rightarrow> update_manager \<Rightarrow> update_manager" where
  "subscribe callback m =
     (if um_closed m then m
      else m\<lparr>um_observers := um_observers m @ [callback], um_told := um_told m @ [(callback, um_snapshot m)]\<rparr>)"

text \<open>\<open>_transition\<close>: whether the state changed, and the state.\<close>

definition transition :: "update_snapshot \<Rightarrow> bool option \<Rightarrow> update_manager \<Rightarrow> bool \<times> update_manager" where
  "transition snapshot busy m =
     (if um_closed m then (False, m)
      else (True, notify (m\<lparr>um_busy := (case busy of None \<Rightarrow> um_busy m | Some b \<Rightarrow> b), um_snapshot := snapshot\<rparr>)))"

definition release_snapshot :: "update_manager \<Rightarrow> update_phase \<Rightarrow> update_message \<Rightarrow> update_release \<Rightarrow> int \<Rightarrow> update_snapshot" where
  "release_snapshot m phase message r progress =
     \<lparr>us_phase = phase, us_message = message, us_current = um_current m, us_available = Some (re_version r),
      us_release_url = re_page_url r, us_progress = progress\<rparr>"

definition fail :: "update_fault \<Rightarrow> update_manager \<Rightarrow> update_manager" where
  "fail e m = snd (transition (plain_snapshot m Update_Failed (Not_Updated e)) (Some False) m)"

definition set_busy :: "bool \<Rightarrow> update_manager \<Rightarrow> update_manager" where
  "set_busy value m = (if um_closed m then m else m\<lparr>um_busy := value\<rparr>)"

definition close :: "update_manager \<Rightarrow> update_manager" where
  "close m = m\<lparr>um_closed := True, um_busy := False, um_observers := []\<rparr>"

text \<open>The locked part of \<open>check\<close> and of \<open>install_available\<close>: what the thread goes on with, if anything.\<close>

definition begin_check :: "update_manager \<Rightarrow> bool \<times> update_manager" where
  "begin_check m =
     (if um_closed m \<or> um_busy m then (False, m)
      else (True, notify (m\<lparr>um_busy := True, um_snapshot := plain_snapshot m Checking Checking_Releases\<rparr>)))"

definition begin_install :: "update_manager \<Rightarrow> update_release option \<times> update_manager" where
  "begin_install m =
     (if um_closed m \<or> um_busy m \<or> (case um_target m of None \<Rightarrow> True | Some t \<Rightarrow> \<not> windows_installer t) then (None, m)
      else case um_release m of None \<Rightarrow> (None, m) | Some r \<Rightarrow> (Some r, m\<lparr>um_busy := True\<rparr>))"

section \<open>The threads\<close>

text \<open>Where a thread stands: before which of its locked steps.\<close>

datatype worker =
    Asking bool bool
  | Outdated
  | Found update_release bool bool
  | Releasing
  | Scheduling update_release
  | Starting update_release
  | Fetching update_release
  | Fetched update_release ustr directory
  | Requesting update_release ustr directory

text \<open>What the world does at a step: the server's answer, a report of progress, the end of a download, a call that may raise.\<close>

datatype outcome =
    Answered "py_error + response" "nat list \<Rightarrow> py_error + json"
  | Progressed nat nat
  | Download_Ended download_env directory
  | Called "py_error option"

definition DOWNLOAD_COMPLETE :: int where "DOWNLOAD_COMPLETE = 100"

text \<open>\<open>int(downloaded * 100 / max(1, total))\<close>, at most 100.\<close>

definition percentage :: "nat \<Rightarrow> nat \<Rightarrow> int" where
  "percentage downloaded whole = min DOWNLOAD_COMPLETE (int (downloaded * 100 div max 1 whole))"

definition loading :: "update_manager \<Rightarrow> update_release \<Rightarrow> int \<Rightarrow> update_snapshot" where
  "loading m r progress = release_snapshot m Downloading (Loading_Version (re_version r) progress) r progress"

text \<open>
  The steps of a thread: the state, where the thread stands then, and the installer handed over. \<open>_check_worker\<close> runs up to
  the start of a download.
\<close>

type_synonym step_result = "update_manager \<times> worker option \<times> (update_release \<times> ustr \<times> directory) list"

definition check_worker :: "outcome \<Rightarrow> worker \<Rightarrow> update_manager \<Rightarrow> step_result" where
  "check_worker out w m =
     (case w of
        Asking automatic install \<Rightarrow>
          (case um_target m of
             None \<Rightarrow> (fail (Update_Error Unsupported_Target) m, None, [])
           | Some target \<Rightarrow>
               (case out of
                  Answered answer loads \<Rightarrow>
                    (case latest_release target answer loads of
                       Inl e \<Rightarrow> (fail e m, None, [])
                     | Inr r \<Rightarrow>
                         if re_version r \<le> um_current m then (m\<lparr>um_release := None\<rparr>, Some Outdated, [])
                         else (m\<lparr>um_release := Some r\<rparr>, Some (Found r automatic install), []))
                | _ \<Rightarrow> (m, Some w, [])))
      | Outdated \<Rightarrow> (snd (transition (plain_snapshot m Current (Up_To_Date (um_current m))) (Some False) m), None, [])
      | Found r automatic install \<Rightarrow>
          (let (changed, m') = transition (release_snapshot m Available (New_Version (re_version r)) r 0) None m
           in if \<not> changed then (m', None, [])
              else if automatic \<and> install \<and> (case um_target m of None \<Rightarrow> False | Some t \<Rightarrow> windows_installer t)
                   then (m', Some (Starting r), [])
              else (m', Some Releasing, []))
      | Releasing \<Rightarrow> (set_busy False m, None, [])
      | _ \<Rightarrow> (m, Some w, []))"

definition download_worker :: "(nat list \<Rightarrow> ustr) \<Rightarrow> outcome \<Rightarrow> worker \<Rightarrow> update_manager \<Rightarrow> step_result" where
  "download_worker sha256 out w m =
     (case w of
        Starting r \<Rightarrow> (snd (transition (loading m r 0) None m), Some (Fetching r), [])
      | Fetching r \<Rightarrow>
          (case out of
             Progressed downloaded whole \<Rightarrow>
               (snd (transition (loading m r (percentage downloaded whole)) None m), Some (Fetching r), [])
           | Download_Ended env files \<Rightarrow>
               (case download sha256 env (re_asset r) files of
                  None \<Rightarrow> (m, Some w, [])
                | Some (Inl e, _, _) \<Rightarrow> (fail e m, None, [])
                | Some (Inr path, files', _) \<Rightarrow> (m, Some (Fetched r path files'), []))
           | _ \<Rightarrow> (m, Some w, []))
      | Fetched r path files \<Rightarrow>
          (let (changed, m') = transition
                 (release_snapshot m Installing (Starting_Install (re_version r)) r DOWNLOAD_COMPLETE) (Some False) m
           in if \<not> changed then (m', None, [])
              else if \<not> um_install_request m then (fail (Update_Error No_Install_Request) m', None, [])
              else (m', Some (Requesting r path files), []))
      | Requesting r path files \<Rightarrow>
          (case out of
             Called None \<Rightarrow> (m, None, [(r, path, files)])
           | Called (Some e) \<Rightarrow> (fail (Python_Error e) m, None, [(r, path, files)])
           | _ \<Rightarrow> (m, Some w, []))
      | _ \<Rightarrow> (m, Some w, []))"

text \<open>The part of \<open>install_available\<close> after the lock: the transition, and the start of the thread, which may raise.\<close>

definition schedule_download :: "outcome \<Rightarrow> worker \<Rightarrow> update_release \<Rightarrow> update_manager \<Rightarrow> step_result" where
  "schedule_download out w r m =
     (let m' = snd (transition (loading m r 0) None m)
      in case out of
           Called None \<Rightarrow> (m', Some (Starting r), [])
         | Called (Some e) \<Rightarrow> (fail (Python_Error e) m', None, [])
         | _ \<Rightarrow> (m, Some w, []))"

definition worker_step :: "(nat list \<Rightarrow> ustr) \<Rightarrow> outcome \<Rightarrow> worker \<Rightarrow> update_manager \<Rightarrow> step_result" where
  "worker_step sha256 out w m =
     (case w of
        Asking _ _ \<Rightarrow> check_worker out w m
      | Outdated \<Rightarrow> check_worker out w m
      | Found _ _ _ \<Rightarrow> check_worker out w m
      | Releasing \<Rightarrow> check_worker out w m
      | Scheduling r \<Rightarrow> schedule_download out w r m
      | _ \<Rightarrow> download_worker sha256 out w m)"

lemmas worker_step_defs = worker_step_def check_worker_def download_worker_def schedule_download_def

record update_system =
  sy_manager :: update_manager
  sy_workers :: "worker list"
  sy_handed :: "(update_release \<times> ustr \<times> directory) list"

text \<open>
  The calls from outside and the steps of the threads. A check names whether starting its thread raises; the call of
  \<open>install_available\<close> goes on outside the lock, as a thread that stands before its transition.
\<close>

datatype update_event =
    Subscribe nat
  | Check bool bool "py_error option"
  | Install_Available
  | Installation_Failed update_fault
  | Close
  | Work nat outcome

definition system_step :: "(nat list \<Rightarrow> ustr) \<Rightarrow> update_event \<Rightarrow> update_system \<Rightarrow> update_system" where
  "system_step sha256 event s =
     (let m = sy_manager s in
      case event of
        Subscribe callback \<Rightarrow> s\<lparr>sy_manager := subscribe callback m\<rparr>
      | Check automatic install failed \<Rightarrow>
          (let (started, m') = begin_check m
           in if \<not> started then s
              else case failed of
                None \<Rightarrow> s\<lparr>sy_manager := m', sy_workers := sy_workers s @ [Asking automatic install]\<rparr>
              | Some e \<Rightarrow> s\<lparr>sy_manager := fail (Python_Error e) m'\<rparr>)
      | Install_Available \<Rightarrow>
          (case begin_install m of
             (None, _) \<Rightarrow> s
           | (Some r, m') \<Rightarrow> s\<lparr>sy_manager := m', sy_workers := sy_workers s @ [Scheduling r]\<rparr>)
      | Installation_Failed e \<Rightarrow> s\<lparr>sy_manager := fail e m\<rparr>
      | Close \<Rightarrow> s\<lparr>sy_manager := close m\<rparr>
      | Work i out \<Rightarrow>
          if i < length (sy_workers s) then
            (let (m', w, handed) = worker_step sha256 out (sy_workers s ! i) m
             in s\<lparr>sy_manager := m',
                  sy_workers := take i (sy_workers s) @ (case w of None \<Rightarrow> [] | Some w \<Rightarrow> [w]) @ drop (Suc i) (sy_workers s),
                  sy_handed := sy_handed s @ handed\<rparr>)
          else s)"

definition new_system :: "semantic_version \<Rightarrow> update_target option \<Rightarrow> bool \<Rightarrow> update_system" where
  "new_system current target install_request =
     \<lparr>sy_manager = new_manager current target install_request, sy_workers = [], sy_handed = []\<rparr>"

text \<open>The systems that events of the given kind lead to.\<close>

inductive update_reach :: "(nat list \<Rightarrow> ustr) \<Rightarrow> (update_event \<Rightarrow> bool) \<Rightarrow> update_system \<Rightarrow> update_system \<Rightarrow> bool"
  for sha256 possible start where
  here: "update_reach sha256 possible start start"
| step: "update_reach sha256 possible start s \<Longrightarrow> possible e \<Longrightarrow> update_reach sha256 possible start (system_step sha256 e s)"

section \<open>What is handed over\<close>

lemma transition_fields [simp]:
  "um_current (snd (transition snap b m)) = um_current m" "um_target (snd (transition snap b m)) = um_target m"
  "um_release (snd (transition snap b m)) = um_release m" "um_closed (snd (transition snap b m)) = um_closed m"
  "um_install_request (snd (transition snap b m)) = um_install_request m"
  "fst (transition snap b m) \<longleftrightarrow> \<not> um_closed m"
  "um_busy (snd (transition snap b m)) = (if um_closed m \<or> b = None then um_busy m else the b)"
  by (auto simp: transition_def notify_def)

lemma fail_fields [simp]:
  "um_current (fail e m) = um_current m" "um_target (fail e m) = um_target m" "um_release (fail e m) = um_release m"
  "um_closed (fail e m) = um_closed m" "um_busy (fail e m) = (um_closed m \<and> um_busy m)"
  by (simp_all add: fail_def)

lemma other_fields [simp]:
  "um_current (notify m) = um_current m" "um_target (notify m) = um_target m" "um_release (notify m) = um_release m"
  "um_closed (notify m) = um_closed m" "um_busy (notify m) = um_busy m"
  "um_current (set_busy b m) = um_current m" "um_target (set_busy b m) = um_target m" "um_release (set_busy b m) = um_release m"
  "um_closed (set_busy b m) = um_closed m" "um_busy (set_busy b m) = (if um_closed m then um_busy m else b)"
  "um_current (close m) = um_current m" "um_target (close m) = um_target m" "um_release (close m) = um_release m"
  "um_closed (close m)" "\<not> um_busy (close m)"
  "um_current (subscribe k m) = um_current m" "um_target (subscribe k m) = um_target m" "um_release (subscribe k m) = um_release m"
  "um_closed (subscribe k m) = um_closed m" "um_busy (subscribe k m) = um_busy m"
  by (simp_all add: notify_def set_busy_def close_def subscribe_def)

lemma begin_check_cases:
  "begin_check m = (started, m') \<Longrightarrow>
     (if um_closed m \<or> um_busy m then \<not> started \<and> m' = m
      else started \<and> um_busy m' \<and> um_closed m' = um_closed m \<and> um_current m' = um_current m \<and> um_target m' = um_target m
        \<and> um_release m' = um_release m)"
  by (auto simp: begin_check_def)

lemma begin_install_cases:
  "begin_install m = (found, m') \<Longrightarrow>
     (case found of
        None \<Rightarrow> m' = m
      | Some r \<Rightarrow> \<not> um_closed m \<and> \<not> um_busy m \<and> um_release m = Some r \<and> m' = m\<lparr>um_busy := True\<rparr>
          \<and> (\<exists>t. um_target m = Some t \<and> windows_installer t))"
  by (auto simp: begin_install_def split: if_splits option.splits)

text \<open>A release worth offering: newer, and read from the repository for the program's target.\<close>

definition published :: "update_target \<Rightarrow> update_release \<Rightarrow> bool" where
  "published t r \<longleftrightarrow> (\<exists>answer loads. latest_release t answer loads = Inr r)"

lemma publishedI: "latest_release t answer loads = Inr r \<Longrightarrow> published t r"
  by (auto simp: published_def)

definition offered :: "update_manager \<Rightarrow> update_release \<Rightarrow> bool" where
  "offered m r \<longleftrightarrow>
     um_current m < re_version r \<and> (\<exists>t. um_target m = Some t \<and> published t r)"

definition installable :: "update_manager \<Rightarrow> update_release \<Rightarrow> bool" where
  "installable m r \<longleftrightarrow> offered m r \<and> (\<exists>t. um_target m = Some t \<and> windows_installer t)"

definition delivered :: "(nat list \<Rightarrow> ustr) \<Rightarrow> update_release \<Rightarrow> ustr \<Rightarrow> directory \<Rightarrow> bool" where
  "delivered sha256 r path files \<longleftrightarrow>
     (\<exists>env before progress. download sha256 env (re_asset r) before = Some (Inr path, files, progress))"

lemma deliveredI: "download sha256 env (re_asset r) before = Some (Inr path, files, progress) \<Longrightarrow> delivered sha256 r path files"
  by (auto simp: delivered_def)

definition worker_ok :: "(nat list \<Rightarrow> ustr) \<Rightarrow> update_manager \<Rightarrow> worker \<Rightarrow> bool" where
  "worker_ok sha256 m w =
     (case w of
        Found r _ _ \<Rightarrow> offered m r
      | Scheduling r \<Rightarrow> installable m r
      | Starting r \<Rightarrow> installable m r
      | Fetching r \<Rightarrow> installable m r
      | Fetched r path files \<Rightarrow> installable m r \<and> delivered sha256 r path files
      | Requesting r path files \<Rightarrow> installable m r \<and> delivered sha256 r path files
      | _ \<Rightarrow> True)"

definition handed_ok :: "(nat list \<Rightarrow> ustr) \<Rightarrow> update_manager \<Rightarrow> update_release \<times> ustr \<times> directory \<Rightarrow> bool" where
  "handed_ok sha256 m h = (case h of (r, path, files) \<Rightarrow> installable m r \<and> delivered sha256 r path files)"

definition system_ok :: "(nat list \<Rightarrow> ustr) \<Rightarrow> update_system \<Rightarrow> bool" where
  "system_ok sha256 s \<longleftrightarrow>
     (case um_release (sy_manager s) of None \<Rightarrow> True | Some r \<Rightarrow> offered (sy_manager s) r)
     \<and> list_all (worker_ok sha256 (sy_manager s)) (sy_workers s) \<and> list_all (handed_ok sha256 (sy_manager s)) (sy_handed s)"

definition same_program :: "update_manager \<Rightarrow> update_manager \<Rightarrow> bool" where
  "same_program m m' \<longleftrightarrow> um_current m' = um_current m \<and> um_target m' = um_target m"

lemma same_program_ok:
  assumes "same_program m m'"
  shows "offered m' r = offered m r" "installable m' r = installable m r" "worker_ok sha256 m' w = worker_ok sha256 m w"
    "handed_ok sha256 m' h = handed_ok sha256 m h"
  using assms by (auto simp: same_program_def offered_def installable_def worker_ok_def handed_ok_def split: worker.splits prod.splits)

lemma worker_step_ok:
  assumes "worker_step sha256 out w m = (m', w', handed)" "worker_ok sha256 m w"
    "case um_release m of None \<Rightarrow> True | Some r \<Rightarrow> offered m r"
  shows "same_program m m' \<and> (case um_release m' of None \<Rightarrow> True | Some r \<Rightarrow> offered m r)
    \<and> (case w' of None \<Rightarrow> True | Some w \<Rightarrow> worker_ok sha256 m w) \<and> list_all (handed_ok sha256 m) handed"
proof (cases w)
  case (Asking automatic install)
  then show ?thesis
    using assms by (auto simp: worker_step_defs same_program_def worker_ok_def offered_def not_le publishedI
        split: option.splits outcome.splits sum.splits if_splits)
next
  case Outdated
  then show ?thesis using assms by (auto simp: worker_step_defs same_program_def)
next
  case (Found r automatic install)
  then show ?thesis
    using assms by (auto simp: worker_step_defs same_program_def worker_ok_def installable_def split_beta Let_def split: if_splits option.splits)
next
  case Releasing
  then show ?thesis using assms by (auto simp: worker_step_defs same_program_def)
next
  case (Scheduling r)
  then show ?thesis
    using assms by (auto simp: worker_step_defs same_program_def worker_ok_def Let_def split: outcome.splits option.splits)
next
  case (Starting r)
  then show ?thesis using assms by (auto simp: worker_step_defs same_program_def worker_ok_def)
next
  case (Fetching r)
  then show ?thesis
    using assms by (auto simp: worker_step_defs same_program_def worker_ok_def deliveredI
        split: outcome.splits option.splits sum.splits prod.splits)
next
  case (Fetched r path files)
  then show ?thesis
    using assms by (auto simp: worker_step_defs same_program_def worker_ok_def split_beta Let_def split: if_splits)
next
  case (Requesting r path files)
  then show ?thesis
    using assms by (auto simp: worker_step_defs same_program_def worker_ok_def handed_ok_def split: outcome.splits option.splits)
qed

lemma system_ok_new: "system_ok sha256 (new_system current target install_request)"
  by (simp add: system_ok_def new_system_def new_manager_def)

lemma system_okI:
  assumes "system_ok sha256 s" "same_program (sy_manager s) (sy_manager s')"
    "case um_release (sy_manager s') of None \<Rightarrow> True | Some r \<Rightarrow> offered (sy_manager s) r"
    "list_all (worker_ok sha256 (sy_manager s)) (sy_workers s')" "list_all (handed_ok sha256 (sy_manager s)) (sy_handed s')"
  shows "system_ok sha256 s'"
  using assms same_program_ok [OF assms(2)] by (simp add: system_ok_def list_all_iff cong: option.case_cong)

lemma system_ok_step:
  assumes ok: "system_ok sha256 s"
  shows "system_ok sha256 (system_step sha256 e s) \<and> same_program (sy_manager s) (sy_manager (system_step sha256 e s))"
proof -
  let ?m = "sy_manager s"
  have kept: "case um_release ?m of None \<Rightarrow> True | Some r \<Rightarrow> offered ?m r"
    and workers: "list_all (worker_ok sha256 ?m) (sy_workers s)" and handed: "list_all (handed_ok sha256 ?m) (sy_handed s)"
    using ok by (simp_all add: system_ok_def)
  have same: "system_ok sha256 s'"
    if "same_program ?m (sy_manager s')" "um_release (sy_manager s') = um_release ?m" "sy_handed s' = sy_handed s"
      "list_all (worker_ok sha256 ?m) (sy_workers s')" for s'
    using system_okI [OF ok that(1), of] that kept handed by simp
  show ?thesis
  proof (cases e)
    case (Work i out)
    show ?thesis
    proof (cases "i < length (sy_workers s)")
      case True
      obtain m' w' h where run: "worker_step sha256 out (sy_workers s ! i) ?m = (m', w', h)" by (metis prod_cases3)
      have "worker_ok sha256 ?m (sy_workers s ! i)" using workers True by (simp add: list_all_length)
      note after = worker_step_ok [OF run this kept]
      let ?s = "s\<lparr>sy_manager := m', sy_workers := take i (sy_workers s) @ (case w' of None \<Rightarrow> [] | Some w \<Rightarrow> [w])
          @ drop (Suc i) (sy_workers s), sy_handed := sy_handed s @ h\<rparr>"
      have "list_all (worker_ok sha256 ?m) (sy_workers ?s)"
        using workers after by (auto simp: list_all_iff split: option.splits dest: in_set_takeD in_set_dropD)
      then have "system_ok sha256 ?s" using ok after handed by (intro system_okI [OF ok]) simp_all
      moreover have "system_step sha256 e s = ?s" using True run by (simp add: Work system_step_def)
      ultimately show ?thesis using after by simp
    next
      case False
      then show ?thesis using ok by (simp add: Work system_step_def same_program_def)
    qed
  next
    case (Check automatic install failed)
    obtain started m' where begun: "begin_check ?m = (started, m')" by fastforce
    show ?thesis
      using begin_check_cases [OF begun] workers ok
      by (auto simp: Check system_step_def begun same_program_def worker_ok_def split: if_splits option.splits intro!: same)
  next
    case Install_Available
    obtain found m' where begun: "begin_install ?m = (found, m')" by fastforce
    show ?thesis
      using begin_install_cases [OF begun] workers ok kept
      by (auto simp: Install_Available system_step_def begun same_program_def worker_ok_def installable_def
          split: option.splits intro!: same)
  qed (auto simp: system_step_def same_program_def workers intro!: same)
qed

lemma system_ok_reach:
  assumes "update_reach sha256 possible s0 s" "system_ok sha256 s0"
  shows "system_ok sha256 s \<and> same_program (sy_manager s0) (sy_manager s)"
  using assms
proof (induction rule: update_reach.induct)
  case (step s e)
  then show ?case using system_ok_step [of sha256 s e] by (simp add: same_program_def)
qed (simp add: same_program_def)


section \<open>One thread at a time\<close>

text \<open>A thread holds the update until it hands the installer over.\<close>

definition holds :: "worker \<Rightarrow> bool" where "holds w = (case w of Requesting _ _ _ \<Rightarrow> False | _ \<Rightarrow> True)"

definition held :: "update_system \<Rightarrow> nat" where "held s = length (List.filter holds (sy_workers s))"

definition one_holder :: "update_system \<Rightarrow> bool" where
  "one_holder s \<longleftrightarrow>
     held s \<le> 1 \<and> (um_closed (sy_manager s) \<or> um_busy (sy_manager s) = (held s = 1))"

text \<open>Events in which no launch of an installer and no start of a thread reports a failure.\<close>

definition no_launch_failure :: "update_event \<Rightarrow> bool" where
  "no_launch_failure e = (case e of Installation_Failed _ \<Rightarrow> False | Work _ (Called (Some _)) \<Rightarrow> False | _ \<Rightarrow> True)"

lemma worker_step_holds:
  assumes "worker_step sha256 out w m = (m', w', handed)" "\<forall>e. out \<noteq> Called (Some e)"
  shows "um_closed m' = um_closed m
    \<and> (if holds w \<and> \<not> um_closed m then um_busy m' = ((case w' of None \<Rightarrow> False | Some v \<Rightarrow> holds v) \<and> um_busy m)
       else (\<not> holds w \<longrightarrow> (case w' of None \<Rightarrow> True | Some v \<Rightarrow> \<not> holds v) \<and> um_busy m' = um_busy m))"
  using assms
  by (cases w) (auto simp: worker_step_defs holds_def Let_def split_beta split: option.splits outcome.splits sum.splits if_splits prod.splits)

lemma held_split:
  assumes "i < length ws"
  shows "length (List.filter holds ws) = length (List.filter holds (take i ws)) + (if holds (ws ! i) then 1 else 0)
    + length (List.filter holds (drop (Suc i) ws))"
proof -
  have "ws = take i ws @ ws ! i # drop (Suc i) ws" using assms by (rule id_take_nth_drop)
  then have "length (List.filter holds ws) = length (List.filter holds (take i ws @ ws ! i # drop (Suc i) ws))" by simp
  then show ?thesis by simp
qed

lemma one_holder_step:
  assumes one: "one_holder s" and event: "no_launch_failure e"
  shows "one_holder (system_step sha256 e s)"
proof -
  let ?m = "sy_manager s"
  have free: "List.filter holds (sy_workers s) = []" if "\<not> um_closed ?m" "\<not> um_busy ?m"
  proof -
    have "held s = 0" using one that by (auto simp: one_holder_def)
    then show ?thesis by (simp add: held_def)
  qed
  show ?thesis
  proof (cases e)
    case (Work i out)
    have quiet: "\<forall>x. out \<noteq> Called (Some x)" using event by (auto simp: Work no_launch_failure_def)
    show ?thesis
    proof (cases "i < length (sy_workers s)")
      case True
      obtain m' w' h where run: "worker_step sha256 out (sy_workers s ! i) ?m = (m', w', h)" by (metis prod_cases3)
      note after = worker_step_holds [OF run quiet]
      let ?others = "length (List.filter holds (take i (sy_workers s))) + length (List.filter holds (drop (Suc i) (sy_workers s)))"
      have before: "held s = ?others + (if holds (sy_workers s ! i) then 1 else 0)"
        using held_split [OF True] by (simp add: held_def)
      have now: "held (system_step sha256 e s) = ?others + (case w' of None \<Rightarrow> 0 | Some v \<Rightarrow> if holds v then 1 else 0)"
        using True run by (auto simp: Work system_step_def held_def split: option.split)
      have m': "sy_manager (system_step sha256 e s) = m'" using True run by (simp add: Work system_step_def)
      show ?thesis
        using one before now after by (auto simp: one_holder_def m' split: option.splits if_splits)
    next
      case False
      then show ?thesis using one by (simp add: Work system_step_def)
    qed
  next
    case (Check automatic install failed)
    obtain started m' where begun: "begin_check ?m = (started, m')" by fastforce
    show ?thesis
      using begin_check_cases [OF begun] one free
      by (auto simp: Check system_step_def begun one_holder_def held_def holds_def split: if_splits option.splits)
  next
    case Install_Available
    obtain found m' where begun: "begin_install ?m = (found, m')" by fastforce
    show ?thesis
      using begin_install_cases [OF begun] one free
      by (auto simp: Install_Available system_step_def begun one_holder_def held_def holds_def split: option.splits)
  next
    case (Installation_Failed x)
    then show ?thesis using event by (simp add: no_launch_failure_def)
  qed (use one in \<open>auto simp: system_step_def one_holder_def held_def\<close>)
qed

lemma one_holder_reach:
  assumes "update_reach sha256 no_launch_failure s0 s" "one_holder s0"
  shows "one_holder s"
  using assms by (induction rule: update_reach.induct) (auto intro: one_holder_step)

lemma one_holder_new: "one_holder (new_system current target install_request)"
  by (simp add: one_holder_def held_def new_system_def new_manager_def)

text \<open>A launch that fails after the next check has begun: its report frees the update under the thread that holds it.\<close>

lemma update_reach_fold:
  assumes "list_all possible es"
  shows "update_reach sha256 possible s0 (fold (system_step sha256) es s0)"
  using assms
proof (induction es rule: rev_induct)
  case (snoc e es)
  then show ?case by (auto intro: update_reach.step)
qed (simp add: update_reach.here)

definition late_failure :: "update_event list" where
  "late_failure =
     (let answer = Work 0 (Answered (Inr (LATEST_RELEASE_URL, \<lambda>_. Inr [])) (\<lambda>_. Inr example_payload)); tick = Work 0 (Called None);
          again = Work 1 (Answered (Inr (LATEST_RELEASE_URL, \<lambda>_. Inr [])) (\<lambda>_. Inr example_payload)); tock = Work 1 (Called None)
      in [Check True True None, answer, tick, tick, Work 0 (Download_Ended example_env (\<lambda>_. None)), tick,
          Check True True None, tick, Installation_Failed (Update_Error Installer_Missing), Check True True None,
          answer, tick, tick, again, tock, tock])"

lemma late_failure_threads:
  "sy_workers (fold (system_step (\<lambda>_. example_digest)) late_failure (new_system (Semantic_Version 1 0 0) (Some Windows_X64) True))
     = [Fetching example_release, Fetching example_release]"
proof -
  have newer: "\<not> re_version example_release \<le> Semantic_Version (Suc 0) 0 0"
    by (simp add: example_release_def less_eq_semantic_version_def version_at_most_def)
  show ?thesis
    by (simp add: late_failure_def Let_def system_step_def new_system_def new_manager_def begin_check_def worker_step_defs
        example_latest example_download newer transition_def notify_def fail_def windows_installer_def)
qed

text \<open>C21: One thread at a time: as long as no launch reports a failure, at most one thread checks or downloads, and the busy mark
  stands while one does. A failure reported after the next check has begun clears the mark under it: two threads then
  download the same release into the same partial file.\<close>

theorem one_update_at_a_time:
  "(update_reach sha256 no_launch_failure (new_system current target install_request) s \<longrightarrow>
      held s \<le> 1 \<and> (um_closed (sy_manager s) \<or> um_busy (sy_manager s) = (held s = 1)))
   \<and> (\<exists>s. update_reach (\<lambda>_. example_digest) (\<lambda>_. True) (new_system (Semantic_Version 1 0 0) (Some Windows_X64) True) s
        \<and> sy_workers s = [Fetching example_release, Fetching example_release])"
proof -
  have "update_reach sha256 no_launch_failure (new_system current target install_request) s \<Longrightarrow> one_holder s"
    by (rule one_holder_reach [OF _ one_holder_new])
  moreover have "update_reach (\<lambda>_. example_digest) (\<lambda>_. True) (new_system (Semantic_Version 1 0 0) (Some Windows_X64) True)
      (fold (system_step (\<lambda>_. example_digest)) late_failure (new_system (Semantic_Version 1 0 0) (Some Windows_X64) True))"
    by (rule update_reach_fold) (simp add: list_all_iff)
  ultimately show ?thesis using late_failure_threads by (auto simp: one_holder_def)
qed

theorem one_update_at_a_time_witness:
  "held (system_step (\<lambda>_. []) (Check False False None) (new_system (Semantic_Version 1 0 0) (Some Windows_X64) True)) \<le> 1"
proof -
  let ?start = "new_system (Semantic_Version 1 0 0) (Some Windows_X64) True"
  have "update_reach (\<lambda>_. []) no_launch_failure ?start (system_step (\<lambda>_. []) (Check False False None) ?start)"
    by (intro update_reach.step update_reach.here) (simp add: no_launch_failure_def)
  then show ?thesis
    using one_update_at_a_time [of "\<lambda>_. []" "Semantic_Version 1 0 0" "Some Windows_X64" True
        "system_step (\<lambda>_. []) (Check False False None) ?start"] by simp
qed

definition one_update :: "update_event list" where
  "one_update =
     (let answer = Work 0 (Answered (Inr (LATEST_RELEASE_URL, \<lambda>_. Inr [])) (\<lambda>_. Inr example_payload)); tick = Work 0 (Called None)
      in [Check True True None, answer, tick, tick, Work 0 (Download_Ended example_env (\<lambda>_. None)), tick, tick])"

lemma one_update_handed:
  "sy_handed (fold (system_step (\<lambda>_. example_digest)) one_update (new_system (Semantic_Version 1 0 0) (Some Windows_X64) True))
     = [(example_release, ra_name (re_asset example_release), [ra_name (re_asset example_release) \<mapsto> [1, 2, 3, 4, 5, 6, 7]])]"
proof -
  have newer: "\<not> re_version example_release \<le> Semantic_Version (Suc 0) 0 0"
    by (simp add: example_release_def less_eq_semantic_version_def version_at_most_def)
  show ?thesis
    by (simp add: one_update_def Let_def system_step_def new_system_def new_manager_def begin_check_def worker_step_defs
        example_latest example_download newer transition_def notify_def fail_def windows_installer_def)
qed


end
