(* ===== verification/Engine_State.thy ===== *)
theory Engine_State
  imports Corrections Learning Typo_Correction
begin

text \<open>
  The state of \<open>KeySwitchEngine\<close> (\<open>src/keyswitch/engine.py\<close>) and the operations that let a word go, watch the layout and the
  window, and show the rule offer. What the engine asks of the backend, the stores and the windows is recorded in the order it
  is asked, with the lines of the technical log that carry the user's text; \<open>time.monotonic()\<close>, the focused window and the
  program in front are arguments. Two key events are the same object when they are equal: a press is told from another by its
  time.
\<close>

definition LEARNING_PROMPT_TIMEOUT_SECONDS :: real where "LEARNING_PROMPT_TIMEOUT_SECONDS = 8"
definition ENGINE_SWITCH_GRACE_SECONDS :: real where "ENGINE_SWITCH_GRACE_SECONDS = 3 / 2"
definition STALE_PRESS_SECONDS :: real where "STALE_PRESS_SECONDS = 3"
definition ACTION_TIMEOUT_SECONDS :: real where "ACTION_TIMEOUT_SECONDS = 2"
definition MANUAL_RELEASE_TIMEOUT_SECONDS :: real where "MANUAL_RELEASE_TIMEOUT_SECONDS = 3"
definition MAX_REMEMBERED_APPLICATION_CONTEXTS :: nat where "MAX_REMEMBERED_APPLICATION_CONTEXTS = 32"

section \<open>The state\<close>

record learning_prompt =
  lp_source :: int
  lp_target :: int
  lp_original :: ustr
  lp_replacement :: ustr
  lp_application :: ustr
  lp_action :: rule_action

record language_context =
  lc_group :: int
  lc_words :: "(int \<times> ustr) list"
  lc_updated_at :: real

record waiting_word =
  ww_plan :: correction_plan
  ww_decision :: decision
  ww_field :: field_context
  ww_window :: int
  ww_deadline :: real
  ww_diagnostic_id :: int
  ww_settles_on_pause :: bool
  ww_baseline :: "decision option"
  ww_converted :: bool

record provisional_word =
  pv_plan :: correction_plan
  pv_window :: int
  pv_deadline :: real

record kept_word =
  kw_plan :: correction_plan
  kw_baseline :: "decision option"
  kw_field :: "field_context option"
  kw_window :: int
  kw_deadline :: real
  kw_segmentation_open :: bool

record field_wait =
  fw_plan :: correction_plan
  fw_prompt :: "learning_prompt option"
  fw_deadline :: real

text \<open>What the status line says: one constructor for each text, with the words printed in it.\<close>

datatype shown_action =
    Waiting_For_Input
  | Replaced ustr ustr
  | Early_Switch_Undone ustr ustr
  | Early_Switch_Dropped
  | Correction_Failed
  | Undo_Unavailable
  | Conversion_Waits
  | Already_Converted ustr
  | No_Word_To_Convert
  | Layout_Switched int
  | Layout_Not_Switched
  | Layout_Picked_By_Hand
  | Layout_Chosen int
  | Layout_Not_Chosen
  | Manual_Layout_Kept ustr
  | Action_Not_Delivered
  | Action_Failed
  | Keys_Passed_By
  | Queue_Overflowed
  | Release_Not_Seen
  | Field_Is_Protected
  | Conversion_Suggested ustr ustr
  | Corrections_Switched bool
  | Other_Action ustr

datatype engine_effect =
    Logged string ustr "ustr list"
  | Input_Held
  | Input_Released
  | Correction_Injected injection_call
  | Group_Switched int
  | Action_Completed bool
  | History_Appended ustr ustr ustr real
  | Correction_Announced correction_plan
  | Prompt_Changed "learning_prompt option"
  | Rule_Requested learning_prompt
  | Word_Kept ustr
  | Word_Added ustr
  | Enabled_Set bool
  | Selection_Requested ustr

text \<open>What keeps the keys typed after a word from being typed again: a key of some kind, a layout picked in the menu, the stop.\<close>

datatype late_refusal = Late_Key late_kind | Late_Layout | Late_Stop

datatype queued = Queued_Key key_event | Queued_Layout int | Queued_Stop

record engine =
  en_strokes :: "key_event list"
  en_symbols :: "key_event list"
  en_mention_shown :: "key_event option"
  en_source :: int
  en_untracked :: bool
  en_last_character :: ustr
  en_character_before :: ustr
  en_caret_moved :: bool
  en_position_unknown :: bool
  en_insertion :: "(ustr \<times> ustr) option"
  en_word_input_at :: "real option"
  en_pause_pending :: bool
  en_pressed :: "int set"
  en_pressed_since :: "(int \<times> real) list"
  en_modifiers :: "int set"
  en_queue :: "queued list"
  en_late_refusal :: "late_refusal option"
  en_pending :: "correction_plan option"
  en_prompt_after :: "learning_prompt option"
  en_trigger :: int
  en_release_deadline :: real
  en_field_wait :: "field_wait option"
  en_committed :: "correction_plan option"
  en_stale :: bool
  en_log :: correction_log
  en_last_requested :: "correction_plan option"
  en_convert_outcome :: "convert_outcome option"
  en_convert_at :: real
  en_convert_keycode :: int
  en_convert_released :: bool
  en_early_origin :: "int option"
  en_early_at :: "real option"
  en_early_confidence :: real
  en_early_undone :: bool
  en_switch_at :: "real option"
  en_switch_group :: "int option"
  en_manual_group :: "int option"
  en_manual_at :: "real option"
  en_manual_source :: string
  en_manual_word :: bool
  en_own_ignored :: bool
  en_suspended :: bool
  en_foreign_active :: bool
  en_test_field :: bool
  en_focus_window :: "int option"
  en_sensitive :: "int option"
  en_context_waiting :: "waiting_word option"
  en_wait_sequence :: nat
  en_result_field :: "field_context option"
  en_provisional :: "provisional_word option"
  en_paused :: "provisional_word option"
  en_kept :: "kept_word list"
  en_contexts :: "(ustr, language_context) odict"
  en_stream :: input_context
  en_deferred_action :: "key_event option"
  en_action_deadline :: real
  en_prompt :: "learning_prompt option"
  en_prompt_deadline :: "real option"
  en_prompt_keys_until :: real
  en_personal_pending :: ustr
  en_templates :: key_templates
  en_correction_id :: nat
  en_group :: int
  en_word :: ustr
  en_count :: nat
  en_action :: shown_action
  en_error :: ustr
  en_done :: "engine_effect list"

text \<open>
  What the engine reads besides: its layouts in order, the settings, the backend's abilities, the words the detector protects
  and the parts it would leave as typed, and the error of a disk that takes no entry of the history.
\<close>

record engine_config =
  cf_models :: "int list"
  cf_respect_manual :: bool
  cf_keep_history :: bool
  cf_technical_logging :: bool
  cf_learning :: bool
  cf_catch_up :: real
  cf_excluded :: "ustr \<Rightarrow> bool"
  cf_history_error :: "ustr option"
  cf_erasing :: bool
  cf_swallows_hotkeys :: bool
  cf_action_keys :: "ustr list"
  cf_own_hotkeys :: "hotkey list"
  cf_accepts_injected :: bool
  cf_protected_token :: "ustr \<Rightarrow> bool"
  cf_segment_settled :: "key_event list \<Rightarrow> int \<Rightarrow> int \<Rightarrow> bool"

definition REDACTED :: ustr where "REDACTED = asc ''<redacted>''"

definition tell :: "engine_effect \<Rightarrow> engine \<Rightarrow> engine" where
  "tell e s = s\<lparr>en_done := en_done s @ [e]\<rparr>"

definition log_texts :: "engine_config \<Rightarrow> string \<Rightarrow> ustr \<Rightarrow> ustr list \<Rightarrow> engine \<Rightarrow> engine" where
  "log_texts cf name application texts s =
     tell (Logged name application (if cf_excluded cf application then map (\<lambda>_. REDACTED) texts else texts)) s"

section \<open>Letting a word go\<close>

definition log_pending_dropped :: "engine_config \<Rightarrow> engine \<Rightarrow> engine" where
  "log_pending_dropped cf s =
     (case en_pending s of None \<Rightarrow> s
      | Some p \<Rightarrow> log_texts cf ''pending_correction_dropped'' (cp_application p) [cp_original p, cp_replacement p] s)"

definition personal_word_settled :: "bool \<Rightarrow> engine \<Rightarrow> engine" where
  "personal_word_settled kept s =
     (let word = en_personal_pending s; s = s\<lparr>en_personal_pending := []\<rparr>
      in if word \<noteq> [] \<and> kept then tell (Word_Kept word) s else s)"

definition cancel_context_wait :: "engine \<Rightarrow> engine" where
  "cancel_context_wait s = s\<lparr>en_context_waiting := None, en_provisional := None, en_paused := None, en_kept := []\<rparr>"

text \<open>\<open>_complete_deferred_action\<close>, with the message of the exception the backend raises, if it does.\<close>

definition complete_deferred_action :: "bool \<Rightarrow> ustr option \<Rightarrow> engine \<Rightarrow> engine" where
  "complete_deferred_action deliver raised s =
     (let s = tell (Action_Completed deliver) (s\<lparr>en_deferred_action := None, en_action_deadline := 0\<rparr>)
      in case raised of
           Some message \<Rightarrow> s\<lparr>en_error := message, en_action := Action_Failed\<rparr>
         | None \<Rightarrow> if deliver then s else s\<lparr>en_action := Action_Not_Delivered\<rparr>)"

definition log_word_discarded :: "engine_config \<Rightarrow> ustr \<Rightarrow> engine \<Rightarrow> engine" where
  "log_word_discarded cf application s =
     (if en_strokes s = [] \<and> en_symbols s = [] \<or> \<not> cf_technical_logging cf then s
      else log_texts cf ''word_discarded'' application [text_for_group (en_symbols s @ en_strokes s) (en_source s)] s)"

definition dismiss_prompt :: "learning_prompt option \<Rightarrow> engine \<Rightarrow> bool \<times> engine" where
  "dismiss_prompt prompt s =
     (case en_prompt s of
        None \<Rightarrow> (False, s)
      | Some current \<Rightarrow>
          if prompt \<noteq> None \<and> prompt \<noteq> Some current then (False, s)
          else (True, tell (Prompt_Changed None)
                        (s\<lparr>en_prompt := None, en_prompt_deadline := None, en_prompt_keys_until := 0\<rparr>)))"

definition confirm_prompt :: "learning_prompt option \<Rightarrow> engine \<Rightarrow> bool \<times> engine" where
  "confirm_prompt prompt s =
     (case en_prompt s of
        None \<Rightarrow> (False, s)
      | Some current \<Rightarrow>
          if prompt \<noteq> None \<and> prompt \<noteq> Some current then (False, s)
          else (True, tell (Rule_Requested current) (tell (Prompt_Changed None)
                        (s\<lparr>en_prompt := None, en_prompt_deadline := None, en_prompt_keys_until := 0\<rparr>))))"

definition show_prompt :: "engine_config \<Rightarrow> real \<Rightarrow> learning_prompt \<Rightarrow> engine \<Rightarrow> engine" where
  "show_prompt cf now prompt s =
     tell (Prompt_Changed (Some prompt))
       (log_texts cf ''learning_prompt_shown'' (lp_application prompt) [lp_original prompt, lp_replacement prompt]
         (s\<lparr>en_prompt := Some prompt, en_prompt_deadline := Some (now + LEARNING_PROMPT_TIMEOUT_SECONDS),
            en_prompt_keys_until := now + LEARNING_PROMPT_TIMEOUT_SECONDS\<rparr>))"

definition expire_prompt :: "real \<Rightarrow> engine \<Rightarrow> bool \<times> engine" where
  "expire_prompt now s =
     (case en_prompt_deadline s of
        None \<Rightarrow> (False, s)
      | Some deadline \<Rightarrow> if now < deadline then (False, s) else dismiss_prompt None s)"

definition record_history :: "engine_config \<Rightarrow> ustr \<Rightarrow> ustr \<Rightarrow> ustr \<Rightarrow> real \<Rightarrow> engine \<Rightarrow> engine" where
  "record_history cf original replacement application confidence s =
     (if \<not> cf_keep_history cf then s
      else case cf_history_error cf of
        None \<Rightarrow> tell (History_Appended original replacement application confidence) s
      | Some message \<Rightarrow> s\<lparr>en_error := message\<rparr>)"

definition finish_early_switch ::
    "engine_config \<Rightarrow> real \<Rightarrow> key_event list \<Rightarrow> key_event option \<Rightarrow> ustr \<Rightarrow> int \<Rightarrow> key_event list \<Rightarrow> engine \<Rightarrow> engine" where
  "finish_early_switch cf now strokes boundary application final trailing s =
     (case en_early_origin s of
        None \<Rightarrow> s\<lparr>en_early_origin := None, en_early_at := None\<rparr>
      | Some origin \<Rightarrow>
          let (made, committed) = finished_early_plans strokes boundary origin final (en_early_confidence s) application trailing;
              s = s\<lparr>en_early_origin := None, en_early_at := None, en_log := remember_correction now made (en_log s),
                    en_committed := Some committed, en_stale := False\<rparr>;
              s = log_texts cf ''early_switch_completed'' application [cp_original made, cp_replacement made] s;
              s = s\<lparr>en_count := en_count s + 1, en_action := Replaced (cp_original made) (cp_replacement made)\<rparr>
          in tell (Correction_Announced made)
               (record_history cf (cp_original made) (cp_replacement made) application EARLY_SWITCH_CONFIDENCE s))"

text \<open>
  \<open>_clear_word\<close>: \<open>delivered\<close> is its reason \<open>action_completed\<close>, \<open>raised\<close> the exception of the backend that cancels a withheld
  Enter.
\<close>

definition clear_word :: "engine_config \<Rightarrow> real \<Rightarrow> ustr \<Rightarrow> ustr option \<Rightarrow> shown_action option \<Rightarrow> bool \<Rightarrow> engine \<Rightarrow> engine" where
  "clear_word cf now application raised action delivered s =
     (let s = personal_word_settled delivered s;
          s = s\<lparr>en_stream := clear_context (en_stream s), en_field_wait := None, en_last_character := [],
                en_position_unknown := True, en_insertion := None\<rparr>;
          s = cancel_context_wait s;
          s = (if en_deferred_action s \<noteq> None then complete_deferred_action False raised s else s);
          s = log_pending_dropped cf (log_word_discarded cf application s);
          s = snd (dismiss_prompt None s);
          s = (if en_early_origin s \<noteq> None \<and> en_strokes s \<noteq> []
               then (finish_early_switch cf now (en_strokes s) None application (en_source s) [] s)\<lparr>en_stale := True\<rparr> else s);
          s = (if en_manual_word s then s\<lparr>en_manual_group := None, en_manual_word := False\<rparr> else s);
          s = s\<lparr>en_early_undone := False, en_strokes := [], en_symbols := [], en_mention_shown := None, en_source := -1,
                en_early_origin := None, en_early_at := None, en_word_input_at := None, en_pause_pending := False,
                en_pending := None, en_prompt_after := None, en_release_deadline := 0, en_stale := True, en_word := []\<rparr>
      in case action of None \<Rightarrow> s | Some a \<Rightarrow> s\<lparr>en_action := a\<rparr>)"

section \<open>The window and the layout\<close>

definition note_engine_switch :: "real \<Rightarrow> int \<Rightarrow> engine \<Rightarrow> engine" where
  "note_engine_switch now grp s = s\<lparr>en_switch_at := Some now, en_switch_group := Some grp, en_manual_group := None\<rparr>"

text \<open>An exception of the backend: its message, and the layout asked for when that is what failed.\<close>

record backend_error =
  be_message :: ustr
  be_unconfirmed :: "int option"

definition note_unconfirmed_switch :: "real \<Rightarrow> backend_error \<Rightarrow> engine \<Rightarrow> engine" where
  "note_unconfirmed_switch now e s = (case be_unconfirmed e of None \<Rightarrow> s | Some grp \<Rightarrow> note_engine_switch now grp s)"

definition context_for :: "real \<Rightarrow> ustr \<Rightarrow> engine \<Rightarrow> (int \<times> ustr) list \<times> int option" where
  "context_for now application s =
     (if strip application = [] then ([], None)
      else case map_of (en_contexts s) (casefold application) of
        None \<Rightarrow> ([], None)
      | Some c \<Rightarrow> if CONTEXT_TTL < now - lc_updated_at c then ([], None) else (lc_words c, Some (lc_group c)))"

definition remember_context :: "engine_config \<Rightarrow> real \<Rightarrow> ustr \<Rightarrow> int \<Rightarrow> key_event list \<Rightarrow> engine \<Rightarrow> engine" where
  "remember_context cf now application grp strokes s =
     (if grp \<notin> set (cf_models cf) \<or> strokes = [] \<or> strip application = [] \<or> cf_excluded cf application then s
      else s\<lparr>en_contexts := evict MAX_REMEMBERED_APPLICATION_CONTEXTS
               (AList.delete (casefold application) (en_contexts s)
                @ [(casefold application,
                    \<lparr>lc_group = grp, lc_words = map (\<lambda>g. (g, text_for_group strokes g)) (cf_models cf),
                     lc_updated_at = now\<rparr>)])\<rparr>)"

definition focus_changed :: "engine_config \<Rightarrow> real \<Rightarrow> ustr \<Rightarrow> ustr option \<Rightarrow> engine \<Rightarrow> engine" where
  "focus_changed cf now application raised s =
     (let s = clear_word cf now application raised None False
                (s\<lparr>en_own_ignored := False, en_sensitive := None, en_convert_at := 0\<rparr>)
      in s\<lparr>en_untracked := False, en_contexts := [], en_stream := clear_context (en_stream s), en_manual_group := None,
           en_stale := True, en_pressed := {}, en_modifiers := {}, en_pressed_since := []\<rparr>)"

text \<open>\<open>FocusInfo\<close>; the result of \<open>_track_focus\<close> is whether the window changed and whether its layout is to be ignored.\<close>

record focus_info =
  fo_window :: int
  fo_own :: bool
  fo_isolated :: bool

definition track_focus ::
    "engine_config \<Rightarrow> real \<Rightarrow> ustr \<Rightarrow> ustr option \<Rightarrow> focus_info option \<Rightarrow> engine \<Rightarrow> (bool \<times> bool) \<times> engine" where
  "track_focus cf now application raised focus s =
     (case focus of
        None \<Rightarrow> ((False, False), s)
      | Some f \<Rightarrow>
          if fo_window f = 0 then ((False, False), s)
          else if fo_own f \<and> \<not> en_test_field s then ((False, fo_isolated f), s)
          else let previous = en_focus_window s; s = s\<lparr>en_focus_window := Some (fo_window f)\<rparr>
               in if previous = None \<or> previous = Some (fo_window f) then ((False, False), s)
                  else ((True, False), focus_changed cf now application raised s))"

text \<open>The elapsed time since the engine's own switch is compared in rounded milliseconds, as it is logged.\<close>

definition milliseconds :: "real \<Rightarrow> int" where
  "milliseconds t = (let x = 1000 * t; low = \<lfloor>x\<rfloor>; rest = x - of_int low
     in if rest < 1 / 2 then low else if rest > 1 / 2 then low + 1 else if even low then low else low + 1)"

definition initiated_by_engine :: "real \<Rightarrow> int \<Rightarrow> engine \<Rightarrow> bool" where
  "initiated_by_engine now grp s \<longleftrightarrow>
     (case en_switch_at s of None \<Rightarrow> False
      | Some switched \<Rightarrow> real_of_int (milliseconds (now - switched)) \<le> ENGINE_SWITCH_GRACE_SECONDS * 1000 \<and> en_switch_group s = Some grp)"

definition observe_group ::
    "engine_config \<Rightarrow> real \<Rightarrow> ustr \<Rightarrow> ustr option \<Rightarrow> focus_info option \<Rightarrow> string \<Rightarrow> int \<Rightarrow> engine \<Rightarrow> engine" where
  "observe_group cf now application raised focus source grp s =
     (let ((changed, ignored), s) = track_focus cf now application raised focus s;
          s = (if ignored then s else s\<lparr>en_own_ignored := False\<rparr>);
          current = en_group s
      in if grp < 0 \<or> int (length (cf_models cf)) \<le> grp \<or> grp = current then s
         else if ignored then s\<lparr>en_own_ignored := True\<rparr>
         else
           let protects = 0 \<le> current \<and> cf_respect_manual cf \<and> \<not> initiated_by_engine now grp s \<and> \<not> changed;
               s = (if changed then s\<lparr>en_manual_group := None\<rparr> else s)
           in if protects
              then s\<lparr>en_manual_group := Some grp, en_manual_at := Some now, en_manual_source := source, en_manual_word := False,
                     en_group := grp, en_action := Layout_Picked_By_Hand\<rparr>
              else s\<lparr>en_group := grp\<rparr>)"

definition word_protected :: "engine_config \<Rightarrow> int \<Rightarrow> engine \<Rightarrow> bool" where
  "word_protected cf source s \<longleftrightarrow> en_early_undone s \<or> cf_respect_manual cf \<and> en_manual_group s = Some source"

definition prune_stale_presses :: "real \<Rightarrow> real \<Rightarrow> int option \<Rightarrow> engine \<Rightarrow> engine" where
  "prune_stale_presses now older_than kept s =
     (let stale = map fst (List.filter (\<lambda>(keycode, since). older_than < now - since \<and> Some keycode \<noteq> kept) (en_pressed_since s))
      in s\<lparr>en_pressed_since := List.filter (\<lambda>(keycode, _). keycode \<notin> set stale) (en_pressed_since s),
           en_pressed := en_pressed s - set stale, en_modifiers := en_modifiers s - set stale\<rparr>)"

definition take_hook_gap :: "engine_config \<Rightarrow> real \<Rightarrow> ustr \<Rightarrow> ustr option \<Rightarrow> bool \<Rightarrow> engine \<Rightarrow> bool \<times> engine" where
  "take_hook_gap cf now application raised gap s =
     (if \<not> gap then (False, s)
      else let s = clear_word cf now application raised (Some Keys_Passed_By) False s
           in (True, s\<lparr>en_untracked := True, en_stream := clear_context (en_stream s)\<rparr>))"

section \<open>The keys the hook keeps\<close>

text \<open>The answer of \<open>consumes_key\<close>: pass the key, keep it, or hold it back for the engine.\<close>

datatype disposition = Passed | Consumed | Deferred

definition accepts_injected :: "engine_config \<Rightarrow> key_event \<Rightarrow> bool" where
  "accepts_injected cf e \<longleftrightarrow> cf_accepts_injected cf \<and> ev_key_name e \<noteq> UNICODE_PACKET_KEY_NAME"

definition consumes_key :: "engine_config \<Rightarrow> bool \<Rightarrow> real \<Rightarrow> key_event \<Rightarrow> engine \<Rightarrow> disposition \<times> engine" where
  "consumes_key cf suspended now e s =
     (if \<not> ev_pressed e \<or> ev_synthetic e then (Passed, s)
      else if suspended \<or> ev_foreign e \<and> \<not> accepts_injected cf e then (Passed, s)
      else if en_sensitive s \<noteq> None then (Passed, s)
      else if ev_key_name e \<in> set MODIFIER_KEYS then (Passed, s)
      else if shortcut e \<or> ev_shift e then
        (if cf_swallows_hotkeys cf \<and> list_ex (\<lambda>h. hotkey_matches h e) (cf_own_hotkeys cf) then Consumed else Passed,
         s\<lparr>en_prompt_keys_until := 0\<rparr>)
      else if now < en_prompt_keys_until s \<and> ev_key_name e \<in> set PROMPT_KEYS then (Consumed, s)
      else (if ev_key_name e \<in> set (cf_action_keys cf) then Deferred else Passed, s\<lparr>en_prompt_keys_until := 0\<rparr>))"

text \<open>\<open>_double_convert_press\<close>: whether this press of the conversion hotkey completes a double press.\<close>

definition double_convert_press :: "engine_config \<Rightarrow> real \<Rightarrow> key_event \<Rightarrow> engine \<Rightarrow> bool \<times> engine" where
  "double_convert_press cf now e s =
     (if ev_keycode e = en_convert_keycode s \<and> \<not> en_convert_released s \<and> en_convert_at s \<noteq> 0 then (False, s)
      else
        let double = cf_learning cf \<and> en_convert_released s \<and> ev_keycode e = en_convert_keycode s \<and> en_convert_outcome s \<noteq> None
                     \<and> now - en_convert_at s \<le> DOUBLE_CONVERT_PRESS_WINDOW_SECONDS
        in (double, s\<lparr>en_convert_at := (if double then 0 else now), en_convert_keycode := ev_keycode e, en_convert_released := False,
                      en_convert_outcome := (if double then en_convert_outcome s else None)\<rparr>))"

text \<open>The offers of \<open>_rule_offer\<close> and \<open>_empty_rule_offer\<close>.\<close>

definition empty_rule_offer :: "engine_config \<Rightarrow> ustr \<Rightarrow> engine \<Rightarrow> learning_prompt" where
  "empty_rule_offer cf application s =
     (let grp = (if en_group s \<in> set (cf_models cf) then en_group s else case cf_models cf of [] \<Rightarrow> 0 | g # _ \<Rightarrow> g);
          target = (case other_group (cf_models cf) grp of None \<Rightarrow> grp | Some g \<Rightarrow> g)
      in \<lparr>lp_source = grp, lp_target = target, lp_original = [], lp_replacement = [], lp_application = application,
          lp_action = Convert\<rparr>)"

definition rule_offer :: "engine_config \<Rightarrow> correction_plan \<Rightarrow> ustr \<Rightarrow> engine \<Rightarrow> learning_prompt" where
  "rule_offer cf origin application s =
     (if \<not> list_ex isalpha_ch (cp_original origin) then empty_rule_offer cf application s
      else \<lparr>lp_source = cp_source origin, lp_target = cp_target origin, lp_original = cp_original origin,
            lp_replacement = cp_replacement origin, lp_application = application,
            lp_action = (if cp_automatic origin then Keep else Convert)\<rparr>)"

end
