(* ===== verification/Field_Check.thy ===== *)
theory Field_Check
  imports Corrections
begin

text \<open>
  How the text a field shows is compared with what was typed: \<open>src/keyswitch/context_policy.py\<close> (a field may show the last keys
  late, its caret short of them, or the first letter as a capital) and the checks of \<open>engine.py\<close> built on it.
\<close>

definition FIELD_CARET_LAG_MAX_CHARACTERS :: nat where "FIELD_CARET_LAG_MAX_CHARACTERS = 2"
definition FIELD_PENDING_MAX_CHARACTERS :: nat where "FIELD_PENDING_MAX_CHARACTERS = 2"

section \<open>The end of a text\<close>

definition ends_with_typed :: "ustr \<Rightarrow> ustr \<Rightarrow> bool" where
  "ends_with_typed shown typed \<longleftrightarrow>
     ends_with shown typed
     \<or> (let tail = (if length typed \<le> length shown then drop (length shown - length typed) shown else [])
        in typed \<noteq> [] \<and> length tail = length typed \<and> drop 1 tail = drop 1 typed
           \<and> casefold (take 1 tail) = casefold (take 1 typed))"

definition shown_ahead :: "ustr \<Rightarrow> ustr \<Rightarrow> ustr \<Rightarrow> nat" where
  "shown_ahead before typed ahead =
     (case List.find (\<lambda>n. ends_with before (take n ahead) \<and> ends_with_typed (take (length before - n) before) typed)
             (rev [2..<Suc (length ahead)]) of
        None \<Rightarrow> 0 | Some n \<Rightarrow> n)"

definition typed_short_of :: "ustr \<Rightarrow> ustr \<Rightarrow> ustr \<Rightarrow> ustr option" where
  "typed_short_of before after typed =
     map_option (\<lambda>n. take (length typed - n) typed)
       (List.find (\<lambda>n. ends_with before (take (length typed - n) typed) \<and> \<not> starts_with after (drop (length typed - n) typed))
         [1..<Suc (min FIELD_PENDING_MAX_CHARACTERS (length typed - 1))])"

definition caret_lag :: "ustr \<Rightarrow> ustr \<Rightarrow> ustr \<Rightarrow> bool \<Rightarrow> nat option" where
  "caret_lag before after typed exact =
     List.find (\<lambda>lag. let head = before @ take lag after
                      in ends_with_typed head typed \<or> \<not> exact \<and> ends_with_typed (butlast head) typed)
       [0..<Suc (min FIELD_CARET_LAG_MAX_CHARACTERS (length after))]"

text \<open>A word of these letters, its first one in either case.\<close>

definition same_word :: "ustr \<Rightarrow> ustr \<Rightarrow> bool" where
  "same_word shown typed \<longleftrightarrow>
     shown = typed \<or> (\<exists>c d rest. shown = c # rest \<and> typed = d # rest \<and> casefold [c] = casefold [d])"

lemma same_word_length: "same_word shown typed \<Longrightarrow> length shown = length typed"
  by (auto simp: same_word_def)

lemma ends_with_typed_iff: "ends_with_typed shown typed \<longleftrightarrow> (\<exists>x w. shown = x @ w \<and> same_word w typed)"
proof
  assume l: "ends_with_typed shown typed"
  show "\<exists>x w. shown = x @ w \<and> same_word w typed"
  proof (cases "ends_with shown typed")
    case True
    then show ?thesis by (auto simp: ends_with_iff same_word_def)
  next
    case False
    define tail where "tail = drop (length shown - length typed) shown"
    have t: "typed \<noteq> []" "length typed \<le> length shown" "length tail = length typed" "drop 1 tail = drop 1 typed"
      "casefold (take 1 tail) = casefold (take 1 typed)"
      using l False by (auto simp: ends_with_typed_def tail_def Let_def split: if_splits)
    obtain d rest where d: "typed = d # rest" using t(1) by (cases typed) simp_all
    obtain c more where c: "tail = c # more" using t(1,3) by (cases tail) simp_all
    have "same_word tail typed" using t(4,5) by (simp add: c d same_word_def)
    moreover have "shown = take (length shown - length typed) shown @ tail" by (simp add: tail_def)
    ultimately show ?thesis by blast
  qed
next
  assume "\<exists>x w. shown = x @ w \<and> same_word w typed"
  then obtain x w where xw: "shown = x @ w" "same_word w typed" by blast
  then show "ends_with_typed shown typed"
    by (cases "w = typed") (auto simp: ends_with_typed_def same_word_def Let_def)
qed

lemma find_upt_Some: "List.find P [m..<n] = Some k \<Longrightarrow> m \<le> k \<and> k < n \<and> P k"
  by (auto simp: find_Some_iff)

lemma find_upt_None: "List.find P [m..<n] = None \<longleftrightarrow> (\<forall>k. m \<le> k \<and> k < n \<longrightarrow> \<not> P k)"
  by (auto simp: find_None_iff)

lemma caret_lag_exact_Some:
  "caret_lag before after typed True = Some lag \<Longrightarrow>
     lag \<le> FIELD_CARET_LAG_MAX_CHARACTERS \<and> lag \<le> length after \<and> (\<exists>x w. before @ take lag after = x @ w \<and> same_word w typed)"
  unfolding caret_lag_def Let_def by (drule find_upt_Some) (auto simp flip: ends_with_typed_iff)

lemma caret_lag_exact_None:
  assumes "caret_lag before after typed True = None" "lag \<le> FIELD_CARET_LAG_MAX_CHARACTERS" "lag \<le> length after"
  shows "\<not> (\<exists>x w. before @ take lag after = x @ w \<and> same_word w typed)"
  using assms unfolding caret_lag_def Let_def find_upt_None ends_with_typed_iff [symmetric] by auto

section \<open>The field before a correction\<close>

datatype field_refusal = Unread | Other_Field | Sensitive_Or_Selected | Other_Text

definition field_refusal :: "correction_plan \<Rightarrow> field_context option \<Rightarrow> ustr \<Rightarrow> ustr \<Rightarrow> field_refusal option" where
  "field_refusal p field suffix ahead =
     (case field of
        None \<Rightarrow> Some Unread
      | Some f \<Rightarrow>
          if fc_field_id f \<noteq> cp_context_field p \<or> fc_application f \<noteq> cp_application p then Some Other_Field
          else if fc_sensitive f \<or> fc_selection f then Some Sensitive_Or_Selected
          else if list_ex (\<lambda>taken. caret_lag (fc_before f) (fc_after f) (suffix @ take taken ahead) True \<noteq> None)
                    [0..<Suc (length ahead)] then None
          else Some Other_Text)"

text \<open>\<open>_typed_in_field\<close>: the text before and after a word as it is typed.\<close>

definition typed_in_field :: "field_context \<Rightarrow> ustr \<Rightarrow> ustr \<Rightarrow> (ustr \<times> ustr) option" where
  "typed_in_field f typed ahead =
     (let fits = (\<lambda>taken. case caret_lag (fc_before f) (fc_after f) (typed @ take taken ahead) True of
                            None \<Rightarrow> False
                          | Some lag \<Rightarrow> ends_with (fc_before f @ take lag (fc_after f)) (typed @ take taken ahead))
      in case List.find fits (rev [0..<Suc (length ahead)]) of
           Some taken \<Rightarrow>
             let shown = typed @ take taken ahead;
                 lag = the (caret_lag (fc_before f) (fc_after f) shown True);
                 head = fc_before f @ take lag (fc_after f)
             in Some (take (length head - length shown) head, drop lag (fc_after f))
         | None \<Rightarrow>
             map_option (\<lambda>short. (take (length (fc_before f) - length short) (fc_before f), fc_after f))
               (typed_short_of (fc_before f) (fc_after f) typed))"

text \<open>
  The field \<open>ContextPolicy.decide\<close> gives the model, from one read for the application in front: the text before the word, or
  the reason the word stays as it is. \<open>None\<close> keeps the observed text, and the flag says why the read was set aside.
\<close>

datatype field_reading =
    Protected_Field
  | Changed_Field field_context
  | Read_Field field_context bool
  | Observed_Instead

definition anchored_field :: "field_context \<Rightarrow> ustr \<Rightarrow> ustr option \<Rightarrow> field_reading" where
  "anchored_field read anchor ahead =
     (let f = bounded_field read
      in if fc_sensitive f \<or> fc_selection f then Protected_Field
         else if input_buffer_only f anchor then Observed_Instead
         else
           let f = (case caret_lag (fc_before f) (fc_after f) anchor False of
                      None \<Rightarrow> f
                    | Some lag \<Rightarrow> if lag = 0 then f
                        else f\<lparr>fc_before := fc_before f @ take lag (fc_after f), fc_after := drop lag (fc_after f)\<rparr>);
               before = fc_before f;
               cut = (\<lambda>n. f\<lparr>fc_before := take (length before - n) before\<rparr>);
               more = (case ahead of None \<Rightarrow> 0 | Some text_ahead \<Rightarrow> shown_ahead before anchor text_ahead)
           in if anchor \<noteq> [] \<and> ends_with_typed before anchor then Read_Field (cut (length anchor)) False
              else if anchor \<noteq> [] \<and> ends_with_typed (butlast before) anchor then Read_Field (cut (length anchor + 1)) False
              else if anchor \<noteq> [] \<and> more \<noteq> 0 then Read_Field (cut (length anchor + more)) False
              else case (if anchor = [] then None else typed_short_of before (fc_after f) anchor) of
                     Some short \<Rightarrow> Read_Field (cut (length short)) True
                   | None \<Rightarrow> Changed_Field f)"

section \<open>What the checks let through\<close>

text \<open>C15: A correction passes the check of its field exactly when the field is the one the word was typed in, holds no password and
  no selection, and its text, up to two characters after the caret it reports, ends with the word and its boundary and then with
  as much of the keys typed ahead as it shows by then; only the first letter may stand in the other case.\<close>

theorem field_check_exact:
  "(field_refusal p field suffix ahead = None) =
     (\<exists>f. field = Some f \<and> fc_field_id f = cp_context_field p \<and> fc_application f = cp_application p
        \<and> \<not> fc_sensitive f \<and> \<not> fc_selection f
        \<and> (\<exists>taken lag x w. taken \<le> length ahead \<and> lag \<le> 2 \<and> lag \<le> length (fc_after f)
             \<and> fc_before f @ take lag (fc_after f) = x @ w \<and> same_word w (suffix @ take taken ahead)))"
proof (cases field)
  case None
  then show ?thesis by (simp add: field_refusal_def)
next
  case (Some f)
  have fits: "caret_lag (fc_before f) (fc_after f) t True \<noteq> None \<longleftrightarrow>
      (\<exists>lag x w. lag \<le> 2 \<and> lag \<le> length (fc_after f) \<and> fc_before f @ take lag (fc_after f) = x @ w \<and> same_word w t)" for t
    using caret_lag_exact_Some [of "fc_before f" "fc_after f" t] caret_lag_exact_None [of "fc_before f" "fc_after f" t]
    unfolding FIELD_CARET_LAG_MAX_CHARACTERS_def by (cases "caret_lag (fc_before f) (fc_after f) t True") blast+
  have some: "list_ex P [0..<Suc n] \<longleftrightarrow> (\<exists>k\<le>n. P k)" for P n
    by (auto simp: list_ex_iff less_Suc_eq_le simp del: upt_Suc)
  show ?thesis unfolding field_refusal_def Some option.case some fits by auto
qed

lemma find_SomeD: "List.find P xs = Some x \<Longrightarrow> P x \<and> x \<in> set xs"
  by (auto simp: find_Some_iff)

lemma shown_ahead_Some:
  assumes "shown_ahead before typed ahead = n" "n \<noteq> 0"
  shows "\<exists>x w. before = x @ w @ take n ahead \<and> same_word w typed \<and> n \<le> length ahead"
proof -
  have n: "ends_with before (take n ahead)" "ends_with_typed (take (length before - n) before) typed" "n \<le> length ahead"
    using assms find_SomeD unfolding shown_ahead_def by (fastforce split: option.splits)+
  obtain x w where xw: "take (length before - n) before = x @ w" "same_word w typed" using n(2) by (auto simp: ends_with_typed_iff)
  have "length (take n ahead) = n" using n(3) by simp
  then have "before = take (length before - n) before @ take n ahead" using ends_with_take [OF n(1)] by metis
  then show ?thesis using xw n(3) by (metis append.assoc)
qed

lemma typed_short_of_Some:
  assumes "typed_short_of before after typed = Some shown"
  shows "\<exists>x rest. before = x @ shown \<and> typed = shown @ rest \<and> shown \<noteq> [] \<and> rest \<noteq> [] \<and> length rest \<le> 2 \<and> \<not> starts_with after rest"
proof -
  obtain n where found: "List.find (\<lambda>n. ends_with before (take (length typed - n) typed)
        \<and> \<not> starts_with after (drop (length typed - n) typed)) [1..<Suc (min FIELD_PENDING_MAX_CHARACTERS (length typed - 1))] = Some n"
    and shown: "shown = take (length typed - n) typed"
    using assms unfolding typed_short_of_def map_option_eq_Some by blast
  have n: "1 \<le> n" "n \<le> min FIELD_PENDING_MAX_CHARACTERS (length typed - 1)" "shown = take (length typed - n) typed"
    "ends_with before shown" "\<not> starts_with after (drop (length typed - n) typed)"
    using find_upt_Some [OF found] shown by (simp_all add: less_Suc_eq_le)
  have "n \<le> 2" "n < length typed" using n(1,2) unfolding FIELD_PENDING_MAX_CHARACTERS_def by linarith+
  then show ?thesis
    using n by (auto simp: ends_with_iff intro!: exI [of _ "drop (length typed - n) typed"])
qed

lemma cut_word:
  assumes "ends_with_typed before typed"
  shows "\<exists>w. before = take (length before - length typed) before @ w \<and> same_word w typed"
proof -
  obtain x w where xw: "before = x @ w" "same_word w typed" using assms by (auto simp: ends_with_typed_iff)
  then show ?thesis using same_word_length [OF xw(2)] by (auto intro!: exI [of _ w])
qed

text \<open>What may stand after the word and before the caret: nothing, one character, or keys typed ahead.\<close>

definition follows_word :: "ustr option \<Rightarrow> ustr \<Rightarrow> bool" where
  "follows_word ahead m \<longleftrightarrow> length m \<le> 1 \<or> (\<exists>t n. ahead = Some t \<and> m = take n t)"

text \<open>C24: The text the context model is given as standing before a word does stand there: what the field shows around its caret
  is that text, then the word, its first letter in either case, with what was typed after it, or the word short of its last one
  or two letters, and then the text given as standing after the caret.\<close>

theorem field_before_word:
  assumes "anchored_field read anchor ahead = Read_Field g behind"
  shows "(\<exists>w m. fc_before (bounded_field read) @ fc_after (bounded_field read) = fc_before g @ w @ m @ fc_after g
      \<and> (if behind then m = [] \<and> w \<noteq> [] \<and> (\<exists>rest. anchor = w @ rest \<and> rest \<noteq> [] \<and> length rest \<le> 2)
         else same_word w anchor \<and> follows_word ahead m))
    \<and> \<not> fc_sensitive g \<and> \<not> fc_selection g"
proof -
  let ?f = "bounded_field read"
  define f where "f = (case caret_lag (fc_before ?f) (fc_after ?f) anchor False of
      None \<Rightarrow> ?f
    | Some lag \<Rightarrow> if lag = 0 then ?f
        else ?f\<lparr>fc_before := fc_before ?f @ take lag (fc_after ?f), fc_after := drop lag (fc_after ?f)\<rparr>)"
  define more where "more = (case ahead of None \<Rightarrow> 0 | Some t \<Rightarrow> shown_ahead (fc_before f) anchor t)"
  have whole: "fc_before ?f @ fc_after ?f = fc_before f @ fc_after f" and flags: "fc_sensitive f = fc_sensitive ?f" "fc_selection f = fc_selection ?f"
    by (simp_all add: f_def split: option.split)
  have open_field: "\<not> fc_sensitive ?f" "\<not> fc_selection ?f"
    using assms by (auto simp: anchored_field_def Let_def split: if_splits)
  have cases: "anchor \<noteq> []
    \<and> (ends_with_typed (fc_before f) anchor \<and> \<not> behind \<and> g = f\<lparr>fc_before := take (length (fc_before f) - length anchor) (fc_before f)\<rparr>
     \<or> ends_with_typed (butlast (fc_before f)) anchor \<and> \<not> behind
         \<and> g = f\<lparr>fc_before := take (length (fc_before f) - (length anchor + 1)) (fc_before f)\<rparr>
     \<or> more \<noteq> 0 \<and> \<not> behind \<and> g = f\<lparr>fc_before := take (length (fc_before f) - (length anchor + more)) (fc_before f)\<rparr>
     \<or> (\<exists>short. typed_short_of (fc_before f) (fc_after f) anchor = Some short \<and> behind
          \<and> g = f\<lparr>fc_before := take (length (fc_before f) - length short) (fc_before f)\<rparr>))"
    using assms open_field unfolding anchored_field_def Let_def f_def [symmetric] more_def [symmetric]
    by (simp split: if_splits option.splits)
  then consider
      (at_word) w where "fc_before f = fc_before g @ w" "same_word w anchor" "\<not> behind"
    | (at_sign) w c where "fc_before f = fc_before g @ w @ [c]" "same_word w anchor" "\<not> behind"
    | (ahead) w where "fc_before f = fc_before g @ w @ take more (the ahead)" "same_word w anchor" "\<not> behind" "ahead \<noteq> None"
    | (short) w rest where "fc_before f = fc_before g @ w" "anchor = w @ rest" "w \<noteq> []" "rest \<noteq> []" "length rest \<le> 2" "behind"
  proof (elim conjE disjE exE)
    assume a: "ends_with_typed (fc_before f) anchor" "\<not> behind" "g = f\<lparr>fc_before := take (length (fc_before f) - length anchor) (fc_before f)\<rparr>"
    then show thesis using cut_word [OF a(1)] that(1) by auto
  next
    assume a: "ends_with_typed (butlast (fc_before f)) anchor" "\<not> behind" "anchor \<noteq> []"
      "g = f\<lparr>fc_before := take (length (fc_before f) - (length anchor + 1)) (fc_before f)\<rparr>"
    obtain w where w: "butlast (fc_before f) = take (length (fc_before f) - 1 - length anchor) (butlast (fc_before f)) @ w" "same_word w anchor"
      using cut_word [OF a(1)] by auto
    have ne: "fc_before f \<noteq> []" using a(1,3) by (auto simp: ends_with_typed_def ends_with_iff)
    have "take (length (fc_before f) - 1 - length anchor) (butlast (fc_before f)) = fc_before g"
      using ne by (simp add: a(4) butlast_conv_take min_def)
    then have "butlast (fc_before f) = fc_before g @ w" using w(1) by simp
    then have "fc_before f = fc_before g @ w @ [last (fc_before f)]" using ne append_butlast_last_id by fastforce
    then show thesis using w(2) a(2) that(2) by blast
  next
    assume a: "more \<noteq> 0" "\<not> behind" "g = f\<lparr>fc_before := take (length (fc_before f) - (length anchor + more)) (fc_before f)\<rparr>"
    then obtain t where t: "ahead = Some t" "shown_ahead (fc_before f) anchor t = more" by (auto simp: more_def split: option.splits)
    obtain x w where xw: "fc_before f = x @ w @ take more t" "same_word w anchor" "more \<le> length t"
      using shown_ahead_Some [OF t(2) a(1)] by blast
    have "fc_before g = x" using xw same_word_length [OF xw(2)] by (simp add: a(3))
    then show thesis using xw t(1) a(2) that(3) [of w] by simp
  next
    fix short
    assume a: "typed_short_of (fc_before f) (fc_after f) anchor = Some short" "behind"
      "g = f\<lparr>fc_before := take (length (fc_before f) - length short) (fc_before f)\<rparr>"
    then show thesis using typed_short_of_Some [OF a(1)] that(4) [of short] by auto
  qed
  moreover have kept: "fc_after g = fc_after f" "\<not> fc_sensitive g" "\<not> fc_selection g" using cases open_field flags by auto
  moreover have normal: ?thesis
    if "fc_before f @ fc_after f = fc_before g @ w @ m @ fc_after g" "same_word w anchor" "follows_word ahead m" "\<not> behind" for w m
    unfolding whole using that kept by (intro conjI exI [of _ w] exI [of _ m]) simp_all
  ultimately show ?thesis
  proof cases
    case (at_word w)
    then show ?thesis using kept by (intro normal [of w "[]"]) (simp_all add: follows_word_def)
  next
    case (at_sign w c)
    then show ?thesis using kept by (intro normal [of w "[c]"]) (simp_all add: follows_word_def)
  next
    case (ahead w)
    then show ?thesis using kept by (intro normal [of w "take more (the ahead)"]) (auto simp: follows_word_def)
  next
    case (short w rest)
    then show ?thesis unfolding whole using kept by (intro conjI exI [of _ w] exI [of _ "[]"]) auto
  qed
qed

text \<open>A browser that shows a word without its last letter yet.\<close>

definition late_field :: field_context where
  "late_field = \<lparr>fc_application = asc ''firefox'', fc_field_id = asc ''1'', fc_before = asc ''in ghbdt'', fc_after = [],
     fc_role = Text_Role, fc_selection = False, fc_sensitive = False, fc_source = asc ''uia''\<rparr>"

lemma late_field_read: "anchored_field late_field (asc ''ghbdtn'') None = Read_Field (late_field\<lparr>fc_before := asc ''in ''\<rparr>) True"
  by code_simp

theorem field_before_word_witness:
  "\<exists>w. asc ''in ghbdt'' = asc ''in '' @ w \<and> w \<noteq> []"
  using field_before_word [OF late_field_read] by (auto simp: late_field_def bounded_field_def CONTEXT_LIMIT_def last_n_def asc_def)

end
