(* ===== verification/Execution.thy ===== *)
theory Execution
  imports Engine_State Field_Check
begin

text \<open>
  How the engine carries a correction out (\<open>src/keyswitch/engine.py\<close>): the keys typed after the word, the checks before the
  backend is asked, the call itself with the input held, what a success or a failure leaves, and the hotkeys that schedule a
  conversion or an undo. What the world answers is a record of its own.
\<close>

section \<open>Keys typed after the word\<close>

text \<open>\<open>_typed_ahead\<close>: the text of plain keys after the word, up to the first key that is none.\<close>

fun ahead_text :: "queued list \<Rightarrow> ustr" where
  "ahead_text (Queued_Key e # rest) =
     (if \<not> ev_pressed e \<or> ev_key_name e \<in> set MODIFIER_KEYS then ahead_text rest
      else if ev_character e = [] \<or> \<not> isprintable (ev_character e) \<or> shortcut e then []
      else ev_character e @ ahead_text rest)"
| "ahead_text _ = []"

definition typed_ahead :: "key_event list \<Rightarrow> engine \<Rightarrow> ustr" where
  "typed_ahead typed s =
     ahead_text (map Queued_Key (List.filter (\<lambda>e. e \<notin> set typed) (en_strokes s)) @ en_queue s)"

text \<open>One key of the queue: the refusal so far, the keys to type again, the rest of the queue.\<close>

definition first_refusal :: "late_refusal option \<Rightarrow> late_refusal \<Rightarrow> late_refusal option" where
  "first_refusal r x = (if r = None then Some x else r)"

definition collect_item ::
    "(key_event \<Rightarrow> bool) \<Rightarrow> queued \<Rightarrow> late_refusal option \<times> key_event list \<times> queued list
      \<Rightarrow> late_refusal option \<times> key_event list \<times> queued list" where
  "collect_item is_convert item acc =
     (let (refusal, late, kept) = acc in
      case item of
        Queued_Layout _ \<Rightarrow> (first_refusal refusal Late_Layout, late, kept @ [item])
      | Queued_Stop \<Rightarrow> (first_refusal refusal Late_Stop, late, kept @ [item])
      | Queued_Key e \<Rightarrow>
          if ev_synthetic e then (refusal, late, kept @ [item])
          else if ev_key_name e \<in> set MODIFIER_KEYS then (first_refusal refusal (Late_Key Late_Modifier), late, kept @ [item])
          else if \<not> ev_pressed e \<or> is_convert e then (refusal, late, kept @ [item])
          else if late_text_key e \<and> safe_text_stroke e then (refusal, late @ [e], kept)
          else (first_refusal refusal (Late_Key (late_key_kind e)), late, kept))"

definition collect_late :: "(key_event \<Rightarrow> bool) \<Rightarrow> correction_plan \<Rightarrow> engine \<Rightarrow> key_event list option \<times> engine" where
  "collect_late is_convert p s =
     (let planned = set (cp_strokes p @ cp_trailing p);
          rollover = List.filter (\<lambda>e. e \<notin> planned) (en_strokes s);
          start = map_option (\<lambda>e. Late_Key (late_key_kind e)) (List.find (\<lambda>e. \<not> late_text_key e) rollover);
          (refusal, late, kept) = fold (collect_item is_convert) (en_queue s) (start, rollover, []);
          s = s\<lparr>en_late_refusal := refusal\<rparr>
      in if refusal \<noteq> None then (None, s)
         else if late = [] then (Some [], s)
         else let s = s\<lparr>en_queue := kept\<rparr>; strokes = List.filter (\<lambda>e. e \<in> planned) (en_strokes s)
              in (Some late, if rollover = [] then s
                             else s\<lparr>en_strokes := strokes, en_source := (if strokes = [] then -1 else en_source s)\<rparr>))"

section \<open>Before the call\<close>

text \<open>What the world answers: the clock before and after, the program and the window in front, the field read, the backend.\<close>

record world =
  wo_now :: real
  wo_later :: real
  wo_application :: ustr
  wo_action_error :: "ustr option"
  wo_focus :: "focus_info option"
  wo_overflow :: bool
  wo_gap :: bool
  wo_field :: "field_context option"
  wo_hold :: "backend_error option"
  wo_inject :: "injection_call \<Rightarrow> backend_error + nat"
  wo_release :: "backend_error + nat"
  wo_keys :: nat
  wo_presses :: nat
  wo_is_convert :: "key_event \<Rightarrow> bool"

definition let_go :: "engine_config \<Rightarrow> world \<Rightarrow> shown_action option \<Rightarrow> bool \<Rightarrow> engine \<Rightarrow> engine" where
  "let_go cf w action delivered s = clear_word cf (wo_now w) (wo_application w) (wo_action_error w) action delivered s"

definition texts_of :: "key_event list \<Rightarrow> ustr" where "texts_of es = concat (map ev_character es)"

definition waits_for_field ::
    "engine_config \<Rightarrow> real \<Rightarrow> correction_plan \<Rightarrow> learning_prompt option \<Rightarrow> field_context \<Rightarrow> field_wait option \<Rightarrow> engine
      \<Rightarrow> bool \<times> engine" where
  "waits_for_field cf now p prompt f waiting s =
     (let typed = cp_original p @ texts_of (cp_trailing p);
          closing = (case cp_boundary p of None \<Rightarrow> [] | Some b \<Rightarrow> if ev_deferred b then [] else ev_character b)
      in if typed_short_of (fc_before f) (fc_after f) typed = None
            \<and> \<not> (closing \<noteq> [] \<and> ends_with_typed (fc_before f) typed \<and> \<not> starts_with (fc_after f) closing) then (False, s)
         else
           let known = (case waiting of None \<Rightarrow> None | Some x \<Rightarrow> if fw_plan x = p then Some (fw_deadline x) else None);
               deadline = (case known of Some d \<Rightarrow> d | None \<Rightarrow> now + cf_catch_up cf)
           in if known = None \<and> cf_catch_up cf \<le> 0 then (False, s)
              else if deadline \<le> now then (False, s)
              else (True, s\<lparr>en_field_wait := Some \<lparr>fw_plan = p, fw_prompt = prompt, fw_deadline = deadline\<rparr>\<rparr>))"

text \<open>A mention head is rewritten with the word.\<close>

definition with_head :: "correction_plan \<Rightarrow> correction_plan" where
  "with_head p =
     (if cp_head p = [] then p
      else p\<lparr>cp_strokes := cp_head p @ cp_strokes p,
             cp_original := text_for_group (cp_head p) (cp_source p) @ cp_original p,
             cp_replacement := text_for_group (cp_head p) (cp_target p) @ cp_replacement p, cp_head := []\<rparr>)"

text \<open>The check of the field the word was typed in; False gives the correction up or puts it off.\<close>

definition check_field ::
    "engine_config \<Rightarrow> world \<Rightarrow> correction_plan \<Rightarrow> learning_prompt option \<Rightarrow> field_wait option \<Rightarrow> correction_plan \<Rightarrow> engine
      \<Rightarrow> bool \<times> engine" where
  "check_field cf w requested prompt waiting p s =
     (let ahead = typed_ahead (cp_strokes p @ cp_trailing p) s;
          suffix = cp_original p @ texts_of (cp_trailing p @ boundary_keys p);
          give_up = (let typed_after = en_strokes s \<noteq> []; s = let_go cf w None False s
                     in (False, s\<lparr>en_untracked := en_untracked s \<or> typed_after\<rparr>))
      in case field_refusal p (wo_field w) suffix ahead of
           None \<Rightarrow> (True, s)
         | Some refusal \<Rightarrow>
             (case wo_field w of
                None \<Rightarrow> give_up
              | Some f \<Rightarrow>
                  if refusal = Other_Text \<and> cp_mode p = Mode_Early \<and> typed_in_field f (cp_original p) ahead \<noteq> None then (False, s)
                  else if refusal = Other_Text \<and> cp_mode p \<noteq> Mode_Early
                          \<and> fst (waits_for_field cf (wo_now w) requested prompt f waiting s)
                       then (False, snd (waits_for_field cf (wo_now w) requested prompt f waiting s))
                  else give_up))"

definition check_correction ::
    "engine_config \<Rightarrow> world \<Rightarrow> correction_plan \<Rightarrow> learning_prompt option \<Rightarrow> field_wait option \<Rightarrow> correction_plan \<Rightarrow> engine
      \<Rightarrow> bool \<times> engine" where
  "check_correction cf w requested prompt waiting p s =
     (let ((changed, _), s) = track_focus cf (wo_now w) (wo_application w) (wo_action_error w) (wo_focus w) s in
      if changed then (False, s)
      else if wo_overflow w then (False, let_go cf w None False s)
      else let (gap, s) = take_hook_gap cf (wo_now w) (wo_application w) (wo_action_error w) (wo_gap w) s in
      if gap then (False, s)
      else if \<not> list_all safe_text_stroke (cp_strokes p @ cp_trailing p) then (False, let_go cf w None False s)
      else if cp_context_field p \<noteq> [] then check_field cf w requested prompt waiting p s
      else (True, s))"

section \<open>The call\<close>

text \<open>
  The input is held before the late keys are collected, and released whatever happens then; a release that raises takes the
  place of the outcome.
\<close>

datatype injection_outcome = Not_Safe | Not_Injected backend_error | Injected "key_event list" nat

text \<open>The message of a backend that cannot erase another number of characters; a program with one layout raises without one.\<close>

definition CANNOT_ERASE :: ustr where
  "CANNOT_ERASE = [0x411, 0x44D, 0x43A, 0x435, 0x43D, 0x434, 0x20, 0x43D, 0x435, 0x20, 0x443, 0x43C, 0x435, 0x435, 0x442, 0x20,
     0x441, 0x442, 0x438, 0x440, 0x430, 0x442, 0x44C, 0x20, 0x434, 0x440, 0x443, 0x433, 0x43E, 0x435, 0x20, 0x447, 0x438, 0x441,
     0x43B, 0x43E, 0x20, 0x441, 0x438, 0x43C, 0x432, 0x43E, 0x43B, 0x43E, 0x432, 0x3B, 0x20, 0x437, 0x430, 0x43C, 0x435, 0x43D,
     0x430, 0x20, 0x43E, 0x442, 0x43C, 0x435, 0x43D, 0x435, 0x43D, 0x430]"

definition call_refused :: "correction_plan \<Rightarrow> backend_error" where
  "call_refused p = \<lparr>be_message = (if cp_mode p = Mode_Sign then [] else CANNOT_ERASE), be_unconfirmed = None\<rparr>"

definition attempt_injection :: "engine_config \<Rightarrow> world \<Rightarrow> correction_plan \<Rightarrow> engine \<Rightarrow> injection_outcome \<times> engine" where
  "attempt_injection cf w p s =
     (case wo_hold w of
        Some e \<Rightarrow> (Not_Injected e, s)
      | None \<Rightarrow>
          (case collect_late (wo_is_convert w) p s of
             (None, s) \<Rightarrow> (Not_Safe, s\<lparr>en_stale := True\<rparr>)
           | (Some late, s) \<Rightarrow>
               (case plan_call (cf_models cf) (cf_erasing cf) p late of
                  None \<Rightarrow> (Not_Injected (call_refused p), s)
                | Some call \<Rightarrow>
                    let s = tell (Correction_Injected call) s
                    in case wo_inject w call of Inl e \<Rightarrow> (Not_Injected e, s) | Inr held \<Rightarrow> (Injected late held, s))))"

definition inject_plan :: "engine_config \<Rightarrow> world \<Rightarrow> correction_plan \<Rightarrow> engine \<Rightarrow> injection_outcome \<times> engine" where
  "inject_plan cf w p s =
     (let (outcome, s) = attempt_injection cf w p (tell Input_Held s); s = tell Input_Released s
      in case wo_release w of
           Inl e \<Rightarrow> (Not_Injected e, s)
         | Inr rest \<Rightarrow> (case outcome of Injected late held \<Rightarrow> (Injected late (held + rest), s) | _ \<Rightarrow> (outcome, s)))"

section \<open>What a correction leaves\<close>

text \<open>Whether the observed text is lost, and the observed text.\<close>

definition settle_stream ::
    "world \<Rightarrow> correction_plan \<Rightarrow> ustr \<Rightarrow> key_event list \<Rightarrow> nat \<Rightarrow> input_context \<Rightarrow> bool \<times> input_context" where
  "settle_stream w p rolled late held c =
     (let only_releases = (0 < held \<and> wo_keys w = held \<and> wo_presses w = 0);
          unheld = (0 < held \<and> wo_keys w \<noteq> held);
          withdrawn = (late \<noteq> [] \<and> \<not> (0 < held \<and> \<not> only_releases) \<and> fst (withdraw_typed rolled c));
          c = (if withdrawn then snd (withdraw_typed rolled c) else c);
          lost = (if late \<noteq> [] then \<not> withdrawn else unheld)
      in (lost, if lost then clear_context c
                else replace_suffix (wo_later w) (cp_original p) (cp_replacement p)
                       (if cp_mode p = Mode_Mention_Shown then [] else texts_of (cp_trailing p @ boundary_keys p)) c))"

definition layout_after :: "correction_plan \<Rightarrow> int" where
  "layout_after p = (if cp_kept_tail p \<noteq> 0 then cp_source p else cp_target p)"

text \<open>The corrections that end no word: the head of a mention, a word still being typed, the undo of an early switch.\<close>

definition finish_mention :: "correction_plan \<Rightarrow> engine \<Rightarrow> engine" where
  "finish_mention p s =
     s\<lparr>en_mention_shown := (if cp_mode p = Mode_Mention_Shown then case en_symbols s of [] \<Rightarrow> None | e # _ \<Rightarrow> Some e else None),
       en_group := cp_target p, en_error := []\<rparr>"

definition finish_prefix :: "real \<Rightarrow> correction_plan \<Rightarrow> engine \<Rightarrow> engine" where
  "finish_prefix now p s =
     (let s = (if cp_mode p = Mode_Early
               then s\<lparr>en_early_origin := Some (cp_source p), en_early_at := Some now, en_early_confidence := cp_confidence p\<rparr> else s)
      in s\<lparr>en_source := cp_target p, en_group := cp_target p, en_word := text_for_group (en_strokes s) (cp_target p), en_error := []\<rparr>)"

definition finish_early_undo :: "engine_config \<Rightarrow> real \<Rightarrow> correction_plan \<Rightarrow> engine \<Rightarrow> engine" where
  "finish_early_undo cf now p s =
     s\<lparr>en_early_origin := None, en_early_at := None, en_source := cp_target p, en_early_undone := True,
       en_manual_group := (if cf_respect_manual cf then Some (cp_target p) else None), en_manual_at := Some now,
       en_manual_source := ''early_undo'', en_manual_word := True, en_group := cp_target p,
       en_word := text_for_group (en_strokes s) (cp_target p),
       en_action := Early_Switch_Undone (cp_original p) (cp_replacement p), en_error := []\<rparr>"

text \<open>A finished correction of a word, step by step.\<close>

definition commit_correction :: "real \<Rightarrow> correction_plan \<Rightarrow> bool \<Rightarrow> engine \<Rightarrow> engine" where
  "commit_correction now p lost s =
     (let provisional = \<lparr>pv_plan = p, pv_window = (case en_focus_window s of None \<Rightarrow> 0 | Some x \<Rightarrow> x), pv_deadline = now + CONTEXT_TTL\<rparr>
      in s\<lparr>en_committed := Some (committed_after p), en_stale := (lost \<or> cp_mode p = Mode_Sign),
           en_provisional := (if cp_revisit p \<noteq> None \<and> cp_boundary p \<noteq> None \<and> \<not> lost then Some provisional else None),
           en_paused := (if cp_revisit p \<noteq> None \<and> cp_boundary p = None \<and> \<not> lost then Some provisional else None)\<rparr>)"

definition reopen_word :: "real \<Rightarrow> correction_plan \<Rightarrow> bool \<Rightarrow> engine \<Rightarrow> engine" where
  "reopen_word now p lost s =
     (if cp_boundary p = None \<and> cp_trailing p = [] \<and> \<not> cp_sign_replayed p \<and> \<not> lost \<and> list_ex isalpha_ch (cp_replacement p)
      then let s = s\<lparr>en_strokes := cp_strokes p, en_source := cp_target p, en_word := cp_replacement p\<rparr>
           in if cp_automatic p then s
              else s\<lparr>en_manual_group := Some (cp_target p), en_manual_at := Some now, en_manual_source := ''current_word'',
                     en_manual_word := True\<rparr>
      else s)"

definition count_correction :: "engine_config \<Rightarrow> correction_plan \<Rightarrow> engine \<Rightarrow> engine" where
  "count_correction cf p s =
     (let s = s\<lparr>en_group := layout_after p, en_count := en_count s + (if cp_automatic p then 1 else 0),
                en_action := Replaced (cp_original p) (cp_replacement p), en_error := []\<rparr>
      in tell (Correction_Announced p)
           (if cp_automatic p
            then record_history cf (cp_original p) (cp_replacement p) (cp_application p) (cp_confidence p) s else s))"

definition finish_word ::
    "engine_config \<Rightarrow> real \<Rightarrow> correction_plan \<Rightarrow> learning_prompt option \<Rightarrow> bool \<Rightarrow> engine \<Rightarrow> engine" where
  "finish_word cf now p prompt lost s =
     (let s = reopen_word now p lost (commit_correction now p lost s);
          s = count_correction cf p
                (if cp_kept_tail p \<noteq> 0 then s
                 else remember_context cf now (cp_application p) (cp_target p) (cp_strokes p) s)
      in case prompt of None \<Rightarrow> s | Some x \<Rightarrow> show_prompt cf now x s)"

definition remember_request :: "real \<Rightarrow> correction_plan \<Rightarrow> correction_plan \<Rightarrow> engine \<Rightarrow> engine" where
  "remember_request now requested p s =
     (let s = s\<lparr>en_log := remember_correction now p (en_log s), en_last_requested := Some requested\<rparr>
      in if en_convert_outcome s = Some (Converted requested) \<and> en_convert_at s \<noteq> 0 then s\<lparr>en_convert_at := now\<rparr> else s)"

definition finish_symbols :: "correction_plan \<Rightarrow> engine \<Rightarrow> engine" where
  "finish_symbols p s =
     tell (Correction_Announced p)
       (s\<lparr>en_group := cp_target p, en_action := Replaced (cp_original p) (cp_replacement p), en_error := []\<rparr>)"

text \<open>The undo of a typo correction makes the word the user's own.\<close>

definition learn_undone_word :: "correction_plan \<Rightarrow> engine \<Rightarrow> engine" where
  "learn_undone_word p s =
     (if cp_mode p = Mode_Undo \<and> cp_replaced_strokes p \<noteq> []
      then tell (Word_Added (text_for_group (cp_strokes p) (cp_source p))) s else s)"

definition finish_correction ::
    "engine_config \<Rightarrow> real \<Rightarrow> correction_plan \<Rightarrow> learning_prompt option \<Rightarrow> correction_plan \<Rightarrow> bool \<Rightarrow> engine \<Rightarrow> engine" where
  "finish_correction cf now requested prompt p lost s =
     (if cp_mode p = Mode_Mention_Shown \<or> cp_mode p = Mode_Mention_Hidden then finish_mention p s
      else if cp_mode p = Mode_Early \<or> cp_mode p = Mode_Late_Stroke then finish_prefix now p s
      else if cp_mode p = Mode_Early_Undo then finish_early_undo cf now p s
      else if cp_mode p = Mode_Symbols then finish_symbols p (remember_request now requested p s)
      else finish_word cf now p prompt lost (remember_request now requested p s))"

definition after_injection ::
    "engine_config \<Rightarrow> world \<Rightarrow> correction_plan \<Rightarrow> learning_prompt option \<Rightarrow> correction_plan \<Rightarrow> ustr \<Rightarrow> key_event list \<Rightarrow> nat
      \<Rightarrow> engine \<Rightarrow> engine" where
  "after_injection cf w requested prompt p rolled late held s =
     (let (lost, stream) = settle_stream w p rolled late held (en_stream s);
          s = (note_engine_switch (wo_later w) (layout_after p) s)\<lparr>en_stream := stream\<rparr>
      in finish_correction cf (wo_later w) requested prompt p lost
           (learn_undone_word p
             (log_texts cf ''correction_applied'' (cp_application p) [cp_original p, cp_replacement p] s)))"

definition failed_injection :: "engine_config \<Rightarrow> world \<Rightarrow> correction_plan \<Rightarrow> backend_error \<Rightarrow> engine \<Rightarrow> engine" where
  "failed_injection cf w p e s =
     (let s = log_texts cf ''correction_failed'' (cp_application p) [cp_original p, cp_replacement p] s;
          s = (note_unconfirmed_switch (wo_later w) e s)\<lparr>en_early_origin := None, en_early_at := None\<rparr>;
          s = let_go cf w None False s
      in s\<lparr>en_error := be_message e, en_action := Correction_Failed\<rparr>)"

text \<open>\<open>_execute_correction\<close>.\<close>

definition execute_correction ::
    "engine_config \<Rightarrow> world \<Rightarrow> correction_plan \<Rightarrow> learning_prompt option \<Rightarrow> engine \<Rightarrow> bool \<times> engine" where
  "execute_correction cf w requested prompt s =
     (let waiting = en_field_wait s; p = with_head requested;
          s = s\<lparr>en_field_wait := None\<rparr>;
          s = (if cp_head requested = [] then s else s\<lparr>en_symbols := [], en_mention_shown := None\<rparr>);
          (ready, s) = check_correction cf w requested prompt waiting p s
      in if \<not> ready then (False, s)
         else
           let s = s\<lparr>en_correction_id := en_correction_id s + 1\<rparr>;
               rolled = texts_of (List.filter (\<lambda>e. e \<notin> set (cp_strokes p @ cp_trailing p)) (en_strokes s));
               (outcome, s) = inject_plan cf w p s
           in case outcome of
                Not_Safe \<Rightarrow> (False, s)
              | Not_Injected e \<Rightarrow> (False, failed_injection cf w p e s)
              | Injected late held \<Rightarrow> (True, after_injection cf w requested prompt p rolled late held s))"

section \<open>The hotkeys\<close>

text \<open>\<open>_switch_layout_only\<close>, with the exception of \<open>switch_group\<close>, if it raises.\<close>

definition alternate_layout_group :: "int \<Rightarrow> int option" where
  "alternate_layout_group g = (if g \<in> {0, 1} then Some (1 - g) else None)"

definition switch_layout_only :: "engine_config \<Rightarrow> real \<Rightarrow> backend_error option \<Rightarrow> engine \<Rightarrow> engine" where
  "switch_layout_only cf now raised s =
     (case alternate_layout_group (en_group s) of
        None \<Rightarrow> s\<lparr>en_action := No_Word_To_Convert\<rparr>
      | Some target \<Rightarrow>
          if target \<notin> set (cf_models cf) then s\<lparr>en_action := No_Word_To_Convert\<rparr>
          else
            let s = tell (Group_Switched target) s
            in case raised of
                 Some e \<Rightarrow> (note_unconfirmed_switch now e s)\<lparr>en_error := be_message e, en_action := Layout_Not_Switched\<rparr>
               | None \<Rightarrow>
                   let undone = (case cl_last (en_log s) of None \<Rightarrow> False
                         | Some previous \<Rightarrow> cp_automatic previous \<and> cp_source previous = target
                             \<and> now - cl_time (en_log s) \<le> UNDO_AVAILABLE_WINDOW_SECONDS);
                       s = (note_engine_switch now target s)\<lparr>en_convert_outcome := Some Switched_Layout\<rparr>;
                       s = (if undone \<and> cf_respect_manual cf
                            then s\<lparr>en_manual_group := Some target, en_manual_at := Some now, en_manual_source := ''correction_undone'',
                                   en_manual_word := False\<rparr> else s)
                   in s\<lparr>en_group := target, en_action := Layout_Switched target, en_error := []\<rparr>)"

definition queue_undo :: "engine_config \<Rightarrow> real \<Rightarrow> correction_plan \<Rightarrow> int \<Rightarrow> engine \<Rightarrow> engine" where
  "queue_undo cf now p trigger s =
     (log_pending_dropped cf s)\<lparr>en_pending := Some p, en_prompt_after := None, en_trigger := trigger,
        en_release_deadline := now + MANUAL_RELEASE_TIMEOUT_SECONDS\<rparr>"

definition schedule_early_undo :: "engine_config \<Rightarrow> real \<Rightarrow> ustr \<Rightarrow> int \<Rightarrow> int \<Rightarrow> engine \<Rightarrow> engine" where
  "schedule_early_undo cf now application origin trigger s =
     (log_pending_dropped cf s)\<lparr>en_pending := Some (early_undo_plan (en_strokes s) (en_source s) origin application),
        en_prompt_after := None, en_trigger := trigger, en_release_deadline := now + MANUAL_RELEASE_TIMEOUT_SECONDS\<rparr>"

definition schedule_undo :: "engine_config \<Rightarrow> real \<Rightarrow> ustr \<Rightarrow> int \<Rightarrow> engine \<Rightarrow> engine" where
  "schedule_undo cf now application trigger s =
     (let s = personal_word_settled False s in
      if (case en_pending s of None \<Rightarrow> False | Some p \<Rightarrow> cp_mode p = Mode_Early) then
        (log_pending_dropped cf s)\<lparr>en_pending := None, en_prompt_after := None, en_early_undone := True,
           en_action := Early_Switch_Dropped\<rparr>
      else if en_early_origin s \<noteq> None \<and> en_strokes s \<noteq> []
        then schedule_early_undo cf now application (the (en_early_origin s)) trigger s
      else if undo_available (cl_last (en_log s)) (en_committed s) (en_stale s) (en_strokes s) (en_symbols s) (cl_time (en_log s)) now
        then let p = the (cl_last (en_log s)) in queue_undo cf now (undo_of p (cp_boundary p) (cp_trailing p)) trigger s
      else s\<lparr>en_action := Undo_Unavailable\<rparr>)"

text \<open>
  \<open>_joined_split\<close>: the keys up to the last joining sign when every part before it is settled as typed; whether a part is
  decided is a parameter of the configuration.
\<close>

definition JOINED_PART_MIN_LETTERS :: nat where "JOINED_PART_MIN_LETTERS = 2"

fun joined_segments :: "(key_event list \<Rightarrow> bool) \<Rightarrow> key_event list \<Rightarrow> key_event list \<Rightarrow> bool \<Rightarrow> bool option" where
  "joined_segments decided [] segment lettered = Some lettered"
| "joined_segments decided (e # es) segment lettered =
     (if \<not> joins_parts e then joined_segments decided es (segment @ [e]) lettered
      else if segment = [] then joined_segments decided es segment lettered
      else if \<not> decided segment then None
      else joined_segments decided es [] True)"

definition joined_split :: "engine_config \<Rightarrow> key_event list \<Rightarrow> int \<Rightarrow> nat" where
  "joined_split cf strokes source =
     (case (other_group (cf_models cf) source, List.find (\<lambda>i. joins_parts (strokes ! i)) (rev [0..<length strokes])) of
        (Some target, Some i) \<Rightarrow>
          let head = i + 1; tail = drop head strokes
          in if source \<notin> set (cf_models cf) \<or> cf_protected_token cf (text_for_group strokes source)
                \<or> length tail < JOINED_PART_MIN_LETTERS
                \<or> \<not> list_all (\<lambda>e. isalpha (ev_character e) \<or> is_layout_letter e) tail then 0
             else (case joined_segments (\<lambda>segment. cf_segment_settled cf segment source target) (take head strokes) [] False of
                     None \<Rightarrow> 0 | Some lettered \<Rightarrow> if lettered then head else 0)
      | _ \<Rightarrow> 0)"

text \<open>What Pause acts on: the word or the signs being typed, or the last word.\<close>

definition pause_target ::
    "engine_config \<Rightarrow> ustr \<Rightarrow> engine \<Rightarrow> (key_event list \<times> int \<times> key_event option \<times> ustr \<times> plan_mode \<times> key_event list) option" where
  "pause_target cf application s =
     (if en_strokes s \<noteq> [] then Some (en_symbols s @ en_strokes s, en_source s, None, application, Mode_Manual, [])
      else if en_symbols s \<noteq> [] then
        (let shown = ev_group (last (en_symbols s));
             source = (if en_mention_shown s = None then shown else the (other_group (cf_models cf) shown))
         in Some (en_symbols s, source, None, application, Mode_Symbols, []))
      else case en_committed s of
        None \<Rightarrow> None
      | Some c \<Rightarrow> if en_stale s then None
                  else Some (cp_strokes c, cp_source c, cp_boundary c, cp_application c, Mode_Manual, cp_trailing c))"

definition taken_up :: "engine \<Rightarrow> engine" where
  "taken_up s =
     (if en_strokes s \<noteq> [] then s\<lparr>en_mention_shown := None, en_early_origin := None, en_early_at := None\<rparr>
      else if en_symbols s \<noteq> [] \<and> en_mention_shown s \<noteq> None then s\<lparr>en_mention_shown := None, en_symbols := []\<rparr>
      else s)"

definition manual_plan ::
    "engine_config \<Rightarrow> correction_log \<Rightarrow> key_event list \<Rightarrow> int \<Rightarrow> int \<Rightarrow> key_event option \<Rightarrow> ustr \<Rightarrow> plan_mode \<Rightarrow> key_event list
      \<Rightarrow> correction_plan" where
  "manual_plan cf l strokes source target boundary application mode trailing =
     (let restores = (case cl_last l of None \<Rightarrow> False | Some previous \<Rightarrow> strokes = cp_strokes previous \<and> source = cp_target previous);
          kept = (if mode = Mode_Manual \<and> \<not> restores then joined_split cf strokes source else 0);
          strokes = drop kept strokes
      in (plain_plan strokes boundary source target (text_for_group strokes source) (text_for_group strokes target)
            UNSCORED_CORRECTION_CONFIDENCE application False mode)\<lparr>cp_trailing := trailing\<rparr>)"

text \<open>\<open>_schedule_manual_conversion\<close>: Pause.\<close>

definition schedule_manual_conversion :: "engine_config \<Rightarrow> real \<Rightarrow> ustr \<Rightarrow> backend_error option \<Rightarrow> int \<Rightarrow> engine \<Rightarrow> engine" where
  "schedule_manual_conversion cf now application raised trigger s =
     (let idle = (en_strokes s = [] \<and> en_symbols s = []) in
      if idle \<and> (case en_pending s of None \<Rightarrow> False | Some p \<Rightarrow> \<not> cp_automatic p) then s\<lparr>en_action := Conversion_Waits\<rparr>
      else
        let s = (if idle then personal_word_settled False s else s) in
        if typo_correction_reversible (cl_last (en_log s)) (en_committed s) (en_stale s) (en_strokes s) (en_symbols s)
             (cl_time (en_log s)) now then schedule_undo cf now application trigger s
        else case pause_target cf application s of
          None \<Rightarrow> switch_layout_only cf now raised s
        | Some (strokes, source, boundary, app, mode, trailing) \<Rightarrow>
            (let s = taken_up s in
             case other_group (cf_models cf) source of
               None \<Rightarrow> s
             | Some target \<Rightarrow>
                 let p = manual_plan cf (en_log s) strokes source target boundary app mode trailing in
                 if reversal_of (cl_last (en_log s)) p \<noteq> None \<and> agrees_with_pause now p (en_log s)
                 then s\<lparr>en_log := (en_log s)\<lparr>cl_agreement_open := False\<rparr>, en_action := Already_Converted (cp_original p)\<rparr>
                 else
                   let s = (log_pending_dropped cf s)\<lparr>en_pending := Some p, en_prompt_after := None,
                              en_convert_outcome := Some (Converted p), en_trigger := trigger,
                              en_release_deadline := now + MANUAL_RELEASE_TIMEOUT_SECONDS\<rparr>;
                       s = log_texts cf ''manual_conversion_scheduled'' app [cp_original p, cp_replacement p] s
                   in (cancel_context_wait s)\<lparr>en_strokes := [], en_insertion := None, en_symbols := [], en_source := -1,
                         en_early_undone := False, en_stale := True, en_word_input_at := None, en_pause_pending := False\<rparr>))"

text \<open>
  \<open>_request_rule_after_double_press\<close> on the state: what \<open>request_rule\<close> decides, carried out. The offer of a conversion that
  has to be made first waits for it.
\<close>

definition press_twice :: "engine_config \<Rightarrow> real \<Rightarrow> ustr \<Rightarrow> backend_error option \<Rightarrow> int \<Rightarrow> engine \<Rightarrow> engine" where
  "press_twice cf now application raised trigger s =
     (let outcome = en_convert_outcome s; s = s\<lparr>en_convert_outcome := None\<rparr>
      in case request_rule (en_pending s) (en_last_requested s) (en_log s) outcome of
           Drop_Pending origin \<Rightarrow>
             show_prompt cf now (rule_offer cf origin application s)
               ((log_pending_dropped cf s)\<lparr>en_pending := None, en_release_deadline := 0\<rparr>)
         | Run_Pending origin \<Rightarrow> s\<lparr>en_prompt_after := Some (rule_offer cf origin application s)\<rparr>
         | Offer_Now origin \<Rightarrow> show_prompt cf now (rule_offer cf origin application s) s
         | Convert_Back origin \<Rightarrow>
             (let offer = rule_offer cf origin application s;
                  s = schedule_manual_conversion cf now application raised trigger s;
                  scheduled = en_convert_outcome s; s = s\<lparr>en_convert_outcome := None\<rparr>
              in case scheduled of
                   Some (Converted p) \<Rightarrow>
                     if en_pending s = Some p then s\<lparr>en_prompt_after := Some offer\<rparr> else show_prompt cf now offer s
                 | _ \<Rightarrow> show_prompt cf now offer s)
         | Switch_Back \<Rightarrow>
             (let s = (switch_layout_only cf now raised s)\<lparr>en_convert_outcome := None\<rparr>
              in show_prompt cf now (empty_rule_offer cf application s) s)
         | Offer_Empty \<Rightarrow> show_prompt cf now (empty_rule_offer cf application s) s)"

text \<open>
  \<open>_maybe_execute_pending\<close> when an event arrives: a withheld Enter goes out after the correction, any other correction runs once
  every key is up. The plan of a word still being typed is brought up to date first (\<open>refresh\<close>, a parameter: it asks the
  prefix model); the selection hotkeys are not part of this state.
\<close>

definition run_action :: "engine_config \<Rightarrow> world \<Rightarrow> engine \<Rightarrow> engine" where
  "run_action cf w s =
     (let p = en_pending s; s = s\<lparr>en_pending := None, en_prompt_after := None\<rparr>;
          (succeeded, s) = (case p of None \<Rightarrow> (True, s) | Some p \<Rightarrow> execute_correction cf w p None s);
          s = (if en_deferred_action s \<noteq> None then complete_deferred_action succeeded (wo_action_error w) s else s);
          s = let_go cf w None True s
      in s\<lparr>en_contexts := [], en_stream := clear_context (en_stream s)\<rparr>)"

definition maybe_execute_pending ::
    "engine_config \<Rightarrow> world \<Rightarrow> (correction_plan \<Rightarrow> engine \<Rightarrow> correction_plan option \<times> engine) \<Rightarrow> key_event \<Rightarrow> engine \<Rightarrow> engine" where
  "maybe_execute_pending cf w refresh e s =
     (if en_deferred_action s \<noteq> None \<and> en_pressed s = {} \<and> en_modifiers s = {} then run_action cf w s
      else case en_pending s of
        None \<Rightarrow> s
      | Some p \<Rightarrow>
          let s = (if ev_keycode e = en_trigger s \<and> \<not> ev_pressed e then s\<lparr>en_trigger := -1\<rparr> else s) in
          if en_trigger s \<noteq> -1 \<or> en_modifiers s \<noteq> {} \<or> en_pressed s \<noteq> {} then s
          else
            let prompt = en_prompt_after s; s = s\<lparr>en_pending := None, en_release_deadline := 0, en_prompt_after := None\<rparr>;
                (q, s) = (if cp_mode p \<in> {Mode_Early, Mode_Early_Undo, Mode_Late_Stroke} then refresh p s else (Some p, s))
            in case q of
                 None \<Rightarrow> s
               | Some p \<Rightarrow>
                   let typed = en_strokes s;
                       p = (if cp_mode p = Mode_Mention_Hidden \<and> cp_boundary p = None \<and> cp_trailing p = []
                               \<and> length (cp_strokes p) \<le> length typed
                               \<and> take (length (cp_strokes p) - 1) typed = tl (cp_strokes p)
                            then mention_write_back (the (other_group (cf_models cf) (ev_group (hd (cp_strokes p)))))
                                   (hd (cp_strokes p)) typed [] None (cp_application p)
                            else p)
                   in snd (execute_correction cf w p prompt s))"

section \<open>The input is held around the call\<close>

definition touches_input :: "engine_effect \<Rightarrow> bool" where
  "touches_input e = (case e of Input_Held \<Rightarrow> True | Input_Released \<Rightarrow> True | Correction_Injected _ \<Rightarrow> True | _ \<Rightarrow> False)"

definition input_trace :: "engine \<Rightarrow> engine_effect list" where
  "input_trace s = List.filter touches_input (en_done s)"

lemma input_trace_cong: "en_done s' = en_done s \<Longrightarrow> input_trace s' = input_trace s"
  by (simp add: input_trace_def)

lemma input_trace_tell [simp]: "input_trace (tell e s) = (if touches_input e then input_trace s @ [e] else input_trace s)"
  by (simp add: input_trace_def tell_def)

lemma touches_input_simps [simp]:
  "touches_input Input_Held" "touches_input Input_Released" "touches_input (Correction_Injected call)"
  "\<not> touches_input (Logged n a ts)" "\<not> touches_input (Group_Switched g)" "\<not> touches_input (Action_Completed d)"
  "\<not> touches_input (History_Appended a b c x)" "\<not> touches_input (Correction_Announced p)" "\<not> touches_input (Prompt_Changed q)"
  "\<not> touches_input (Rule_Requested l)" "\<not> touches_input (Word_Kept u)" "\<not> touches_input (Word_Added u)"
  by (simp_all add: touches_input_def)

lemma input_trace_updates [simp]:
  "input_trace (s\<lparr>en_strokes := a\<rparr>) = input_trace s" "input_trace (s\<lparr>en_symbols := a\<rparr>) = input_trace s"
  "input_trace (s\<lparr>en_mention_shown := b\<rparr>) = input_trace s" "input_trace (s\<lparr>en_source := g\<rparr>) = input_trace s"
  "input_trace (s\<lparr>en_untracked := c\<rparr>) = input_trace s" "input_trace (s\<lparr>en_last_character := u\<rparr>) = input_trace s"
  "input_trace (s\<lparr>en_position_unknown := c\<rparr>) = input_trace s" "input_trace (s\<lparr>en_insertion := d\<rparr>) = input_trace s"
  "input_trace (s\<lparr>en_word_input_at := r\<rparr>) = input_trace s" "input_trace (s\<lparr>en_pause_pending := c\<rparr>) = input_trace s"
  "input_trace (s\<lparr>en_pressed := k\<rparr>) = input_trace s" "input_trace (s\<lparr>en_pressed_since := l\<rparr>) = input_trace s"
  "input_trace (s\<lparr>en_modifiers := k\<rparr>) = input_trace s" "input_trace (s\<lparr>en_queue := q\<rparr>) = input_trace s"
  "input_trace (s\<lparr>en_late_refusal := m\<rparr>) = input_trace s" "input_trace (s\<lparr>en_pending := p\<rparr>) = input_trace s"
  "input_trace (s\<lparr>en_prompt_after := lp\<rparr>) = input_trace s" "input_trace (s\<lparr>en_trigger := g\<rparr>) = input_trace s"
  "input_trace (s\<lparr>en_release_deadline := t\<rparr>) = input_trace s" "input_trace (s\<lparr>en_field_wait := fw\<rparr>) = input_trace s"
  "input_trace (s\<lparr>en_committed := p\<rparr>) = input_trace s" "input_trace (s\<lparr>en_stale := c\<rparr>) = input_trace s"
  "input_trace (s\<lparr>en_log := cl\<rparr>) = input_trace s" "input_trace (s\<lparr>en_last_requested := p\<rparr>) = input_trace s"
  "input_trace (s\<lparr>en_convert_outcome := co\<rparr>) = input_trace s" "input_trace (s\<lparr>en_convert_at := t\<rparr>) = input_trace s"
  "input_trace (s\<lparr>en_early_origin := io\<rparr>) = input_trace s" "input_trace (s\<lparr>en_early_at := r\<rparr>) = input_trace s"
  "input_trace (s\<lparr>en_early_confidence := t\<rparr>) = input_trace s" "input_trace (s\<lparr>en_early_undone := c\<rparr>) = input_trace s"
  "input_trace (s\<lparr>en_switch_at := r\<rparr>) = input_trace s" "input_trace (s\<lparr>en_switch_group := io\<rparr>) = input_trace s"
  "input_trace (s\<lparr>en_manual_group := io\<rparr>) = input_trace s" "input_trace (s\<lparr>en_manual_at := r\<rparr>) = input_trace s"
  "input_trace (s\<lparr>en_manual_source := str\<rparr>) = input_trace s" "input_trace (s\<lparr>en_manual_word := c\<rparr>) = input_trace s"
  "input_trace (s\<lparr>en_own_ignored := c\<rparr>) = input_trace s" "input_trace (s\<lparr>en_focus_window := io\<rparr>) = input_trace s"
  "input_trace (s\<lparr>en_sensitive := io\<rparr>) = input_trace s" "input_trace (s\<lparr>en_context_waiting := ww\<rparr>) = input_trace s"
  "input_trace (s\<lparr>en_provisional := pv\<rparr>) = input_trace s" "input_trace (s\<lparr>en_paused := pv\<rparr>) = input_trace s"
  "input_trace (s\<lparr>en_kept := kw\<rparr>) = input_trace s" "input_trace (s\<lparr>en_contexts := cs\<rparr>) = input_trace s"
  "input_trace (s\<lparr>en_stream := st\<rparr>) = input_trace s" "input_trace (s\<lparr>en_deferred_action := b\<rparr>) = input_trace s"
  "input_trace (s\<lparr>en_action_deadline := t\<rparr>) = input_trace s" "input_trace (s\<lparr>en_prompt := lp\<rparr>) = input_trace s"
  "input_trace (s\<lparr>en_prompt_deadline := r\<rparr>) = input_trace s" "input_trace (s\<lparr>en_prompt_keys_until := t\<rparr>) = input_trace s"
  "input_trace (s\<lparr>en_personal_pending := u\<rparr>) = input_trace s" "input_trace (s\<lparr>en_correction_id := n\<rparr>) = input_trace s"
  "input_trace (s\<lparr>en_group := g\<rparr>) = input_trace s" "input_trace (s\<lparr>en_word := u\<rparr>) = input_trace s"
  "input_trace (s\<lparr>en_count := n\<rparr>) = input_trace s" "input_trace (s\<lparr>en_action := sa\<rparr>) = input_trace s"
  "input_trace (s\<lparr>en_error := u\<rparr>) = input_trace s"
  by (simp_all add: input_trace_def)

lemma input_trace_quiet [simp]:
  "input_trace (log_texts cf n app ts s) = input_trace s"
  "input_trace (log_pending_dropped cf s) = input_trace s"
  "input_trace (personal_word_settled kept s) = input_trace s"
  "input_trace (cancel_context_wait s) = input_trace s"
  "input_trace (complete_deferred_action deliver raised s) = input_trace s"
  "input_trace (log_word_discarded cf app s) = input_trace s"
  "input_trace (snd (dismiss_prompt q s)) = input_trace s"
  "input_trace (show_prompt cf now prompt s) = input_trace s"
  "input_trace (record_history cf a b app x s) = input_trace s"
  by (simp_all add: log_texts_def log_pending_dropped_def personal_word_settled_def cancel_context_wait_def complete_deferred_action_def
      log_word_discarded_def dismiss_prompt_def show_prompt_def record_history_def Let_def split: option.split)

lemma input_trace_early [simp]: "input_trace (finish_early_switch cf now strokes b app g t s) = input_trace s"
  by (simp add: finish_early_switch_def Let_def split_beta split: option.split)

lemma input_trace_clear [simp]: "input_trace (clear_word cf now app raised action delivered s) = input_trace s"
  by (simp add: clear_word_def Let_def split: option.split)

lemma input_trace_let_go [simp]: "input_trace (let_go cf w action delivered s) = input_trace s"
  by (simp add: let_go_def)

lemma input_trace_window [simp]:
  "input_trace (note_engine_switch now g s) = input_trace s"
  "input_trace (note_unconfirmed_switch now e s) = input_trace s"
  "input_trace (remember_context cf now app g strokes s) = input_trace s"
  "input_trace (focus_changed cf now app raised s) = input_trace s"
  "input_trace (snd (track_focus cf now app raised focus s)) = input_trace s"
  "input_trace (snd (take_hook_gap cf now app raised gap s)) = input_trace s"
  by (simp_all add: note_engine_switch_def note_unconfirmed_switch_def remember_context_def focus_changed_def track_focus_def
      take_hook_gap_def Let_def split: option.split)

lemma input_trace_checks [simp]:
  "input_trace (snd (collect_late is_convert p s)) = input_trace s"
  "input_trace (snd (waits_for_field cf now p prompt f waiting s)) = input_trace s"
  "input_trace (snd (check_field cf w q prompt waiting p s)) = input_trace s"
  "input_trace (snd (check_correction cf w q prompt waiting p s)) = input_trace s"
proof -
  show "input_trace (snd (collect_late is_convert p s)) = input_trace s" for s
    by (simp add: collect_late_def Let_def split_beta)
  show wait: "input_trace (snd (waits_for_field cf now p prompt f waiting s)) = input_trace s" for now p f s
    by (simp add: waits_for_field_def Let_def)
  have check: "input_trace (snd (check_field cf w q prompt waiting p s)) = input_trace s" for s
    using wait by (simp add: check_field_def Let_def split: option.split)
  show "input_trace (snd (check_field cf w q prompt waiting p s)) = input_trace s" by (rule check)
  show "input_trace (snd (check_correction cf w q prompt waiting p s)) = input_trace s"
    using check by (simp add: check_correction_def Let_def split_beta)
qed

lemma input_trace_finish [simp]:
  "input_trace (finish_mention p s) = input_trace s"
  "input_trace (finish_prefix now p s) = input_trace s"
  "input_trace (finish_early_undo cf now p s) = input_trace s"
  "input_trace (commit_correction now p lost s) = input_trace s"
  "input_trace (reopen_word now p lost s) = input_trace s"
  "input_trace (count_correction cf p s) = input_trace s"
  "input_trace (remember_request now requested p s) = input_trace s"
  "input_trace (finish_symbols p s) = input_trace s"
  "input_trace (learn_undone_word p s) = input_trace s"
  by (simp_all add: finish_mention_def finish_prefix_def finish_early_undo_def commit_correction_def reopen_word_def
      count_correction_def remember_request_def finish_symbols_def learn_undone_word_def Let_def)

lemma input_trace_after [simp]:
  "input_trace (after_injection cf w requested prompt p rolled late held s) = input_trace s"
  "input_trace (failed_injection cf w p e s) = input_trace s"
  by (simp_all add: after_injection_def finish_correction_def finish_word_def failed_injection_def Let_def split_beta
      split: option.split)

lemma input_trace_inject:
  assumes "inject_plan cf w p s = (outcome, s')"
  shows "(\<exists>calls. input_trace s' = input_trace s @ [Input_Held] @ calls @ [Input_Released] \<and> length calls \<le> 1
       \<and> (\<forall>late held. outcome = Injected late held \<longrightarrow>
             (\<exists>call. calls = [Correction_Injected call] \<and> plan_call (cf_models cf) (cf_erasing cf) p late = Some call
                 \<and> (\<exists>n. wo_inject w call = Inr n))))"
proof -
  obtain first s1 where attempt: "attempt_injection cf w p (tell Input_Held s) = (first, s1)" by fastforce
  have traced: "\<exists>calls. input_trace s1 = input_trace s @ [Input_Held] @ calls \<and> length calls \<le> 1
      \<and> (\<forall>late held. first = Injected late held \<longrightarrow>
           (\<exists>call. calls = [Correction_Injected call] \<and> plan_call (cf_models cf) (cf_erasing cf) p late = Some call
               \<and> wo_inject w call = Inr held))"
  proof (cases "wo_hold w")
    case (Some e)
    then show ?thesis using attempt by (auto simp: attempt_injection_def)
  next
    case None
    obtain late s2 where late: "collect_late (wo_is_convert w) p (tell Input_Held s) = (late, s2)" by fastforce
    have s2: "input_trace s2 = input_trace s @ [Input_Held]"
      using input_trace_checks(1) [of "wo_is_convert w" p "tell Input_Held s"] by (simp add: late)
    show ?thesis
      using attempt None s2
      by (auto simp: attempt_injection_def late Let_def split: option.splits sum.splits)
  qed
  have "s' = tell Input_Released s1" "outcome = first \<or> (\<exists>e. outcome = Not_Injected e)
      \<or> (\<exists>late held more. first = Injected late held \<and> outcome = Injected late more)"
    using assms attempt by (auto simp: inject_plan_def Let_def split: sum.splits injection_outcome.splits)
  then show ?thesis using traced by fastforce
qed

lemma execute_run:
  assumes "check_correction cf w requested prompt (en_field_wait s) (with_head requested)
      (if cp_head requested = [] then s\<lparr>en_field_wait := None\<rparr>
       else s\<lparr>en_field_wait := None, en_symbols := [], en_mention_shown := None\<rparr>) = (ready, s1)"
    and "inject_plan cf w (with_head requested) (s1\<lparr>en_correction_id := Suc (en_correction_id s1)\<rparr>) = (outcome, s2)"
  shows "execute_correction cf w requested prompt s =
     (if \<not> ready then (False, s1)
      else case outcome of
        Not_Safe \<Rightarrow> (False, s2)
      | Not_Injected e \<Rightarrow> (False, failed_injection cf w (with_head requested) e s2)
      | Injected late held \<Rightarrow>
          (True, after_injection cf w requested prompt (with_head requested)
                   (texts_of (List.filter (\<lambda>e. e \<notin> set (cp_strokes (with_head requested) @ cp_trailing (with_head requested))) (en_strokes s1)))
                   late held s2))"
  using assms by (cases outcome) (simp_all add: execute_correction_def Let_def)

lemma execute_trace:
  "if fst (execute_correction cf w requested prompt s)
   then \<exists>late call n. plan_call (cf_models cf) (cf_erasing cf) (with_head requested) late = Some call \<and> wo_inject w call = Inr n
      \<and> input_trace (snd (execute_correction cf w requested prompt s))
          = input_trace s @ [Input_Held, Correction_Injected call, Input_Released]
   else \<exists>calls. length calls \<le> 1
      \<and> input_trace (snd (execute_correction cf w requested prompt s)) \<in>
          {input_trace s, input_trace s @ [Input_Held] @ calls @ [Input_Released]}"
proof -
  let ?p = "with_head requested"
  let ?s = "if cp_head requested = [] then s\<lparr>en_field_wait := None\<rparr>
       else s\<lparr>en_field_wait := None, en_symbols := [], en_mention_shown := None\<rparr>"
  obtain ready s1 where checked: "check_correction cf w requested prompt (en_field_wait s) ?p ?s = (ready, s1)" by fastforce
  have s1: "input_trace s1 = input_trace s"
    using input_trace_checks(4) [of cf w requested prompt "en_field_wait s" ?p ?s] by (simp add: checked split: if_splits)
  obtain outcome s2 where injected: "inject_plan cf w ?p (s1\<lparr>en_correction_id := Suc (en_correction_id s1)\<rparr>) = (outcome, s2)"
    by fastforce
  note run = execute_run [OF checked injected]
  obtain calls where calls: "input_trace s2 = input_trace s @ [Input_Held] @ calls @ [Input_Released]" "length calls \<le> 1"
    "\<forall>late held. outcome = Injected late held \<longrightarrow> (\<exists>call. calls = [Correction_Injected call]
        \<and> plan_call (cf_models cf) (cf_erasing cf) ?p late = Some call \<and> (\<exists>n. wo_inject w call = Inr n))"
    using input_trace_inject [OF injected] s1 by auto
  show ?thesis
  proof (cases "ready \<and> (\<exists>late held. outcome = Injected late held)")
    case True
    then obtain late held where o: "ready" "outcome = Injected late held" by blast
    then obtain call n where "calls = [Correction_Injected call]" "plan_call (cf_models cf) (cf_erasing cf) ?p late = Some call"
      "wo_inject w call = Inr n"
      using calls(3) by blast
    then show ?thesis using o calls(1) by (simp add: run) blast
  next
    case False
    then have "\<not> fst (execute_correction cf w requested prompt s)
        \<and> input_trace (snd (execute_correction cf w requested prompt s)) \<in> {input_trace s, input_trace s2}"
      using s1 by (cases ready; cases outcome) (simp_all add: run)
    then show ?thesis using calls(1,2) by (simp only: if_False) (intro exI [of _ calls], simp)
  qed
qed


section \<open>No key is lost\<close>

lemma collect_items:
  assumes "fold (collect_item is_convert) queue (refusal, late, kept) = (None, late', kept')"
  shows "refusal = None \<and> (\<exists>taken rest. late' = late @ taken \<and> kept' = kept @ rest
    \<and> queue \<in> shuffles (map Queued_Key taken) rest \<and> list_all (\<lambda>e. late_text_key e \<and> safe_text_stroke e) taken)"
  using assms
proof (induction queue arbitrary: refusal late kept)
  case (Cons item queue)
  obtain r l k where step: "collect_item is_convert item (refusal, late, kept) = (r, l, k)" by (metis prod_cases3)
  have rest: "fold (collect_item is_convert) queue (r, l, k) = (None, late', kept')" using Cons.prems step by simp
  from Cons.IH [OF rest] obtain taken rest where t: "r = None" "late' = l @ taken" "kept' = k @ rest"
    "queue \<in> shuffles (map Queued_Key taken) rest" "list_all (\<lambda>e. late_text_key e \<and> safe_text_stroke e) taken"
    by blast
  have "refusal = None \<and> (l = late \<and> k = kept @ [item]
      \<or> (\<exists>e. item = Queued_Key e \<and> l = late @ [e] \<and> k = kept \<and> late_text_key e \<and> safe_text_stroke e))"
    using step t(1) by (auto simp: collect_item_def first_refusal_def split: queued.splits if_splits)
  then show ?case
  proof (elim conjE disjE exE)
    assume "refusal = None" "l = late" "k = kept @ [item]"
    then show ?thesis using t Cons_in_shuffles_rightI [OF t(4), of item] by auto
  next
    fix e
    assume e: "refusal = None" "item = Queued_Key e" "l = late @ [e]" "k = kept" "late_text_key e" "safe_text_stroke e"
    have "item # queue \<in> shuffles (map Queued_Key (e # taken)) rest"
      using Cons_in_shuffles_leftI [OF t(4), of item] e(2) by simp
    then show ?thesis using t e by (intro conjI exI [of _ "e # taken"] exI [of _ rest]) simp_all
  qed
qed simp

text \<open>C16: No key typed while a correction waits is lost or reordered: either every key stays in the queue and the word as it was,
  or the keys to type again are the next word's letters and then the queue's text keys, in the order they were typed, and what
  stays queued keeps its order too; nothing but plain text is ever typed again.\<close>

theorem late_keys_conserved:
  "case collect_late is_convert p s of
     (None, s') \<Rightarrow> en_queue s' = en_queue s \<and> en_strokes s' = en_strokes s \<and> en_late_refusal s' \<noteq> None
   | (Some late, s') \<Rightarrow>
       (\<exists>taken. late = List.filter (\<lambda>e. e \<notin> set (cp_strokes p @ cp_trailing p)) (en_strokes s) @ taken
          \<and> en_queue s \<in> shuffles (map Queued_Key taken) (en_queue s'))
       \<and> en_strokes s' = List.filter (\<lambda>e. e \<in> set (cp_strokes p @ cp_trailing p)) (en_strokes s)
       \<and> list_all late_text_key late"
proof -
  let ?planned = "set (cp_strokes p @ cp_trailing p)"
  let ?rollover = "List.filter (\<lambda>e. e \<notin> ?planned) (en_strokes s)"
  let ?start = "map_option (\<lambda>e. Late_Key (late_key_kind e)) (List.find (\<lambda>e. \<not> late_text_key e) ?rollover)"
  obtain refusal late kept where run: "fold (collect_item is_convert) (en_queue s) (?start, ?rollover, []) = (refusal, late, kept)"
    by (metis prod_cases3)
  show ?thesis
  proof (cases "refusal = None")
    case False
    then show ?thesis using run by (simp add: collect_late_def Let_def)
  next
    case True
    obtain taken rest where taken: "?start = None" "late = ?rollover @ taken" "kept = rest"
      "en_queue s \<in> shuffles (map Queued_Key taken) rest" "list_all (\<lambda>e. late_text_key e \<and> safe_text_stroke e) taken"
      using collect_items [OF run [unfolded True]] by auto
    have texts: "list_all late_text_key late"
      using taken(1,2,5) by (auto simp: find_None_iff list_all_iff)
    have planned: "?rollover = [] \<Longrightarrow> List.filter (\<lambda>e. e \<in> ?planned) (en_strokes s) = en_strokes s"
      by (induction "en_strokes s") (auto simp: filter_empty_conv)
    show ?thesis
    proof (cases "late = []")
      case True
      then show ?thesis
        using run \<open>refusal = None\<close> taken(2) planned by (auto simp: collect_late_def Let_def)
    next
      case False
      then show ?thesis
        using run \<open>refusal = None\<close> taken texts planned by (auto simp: collect_late_def Let_def)
    qed
  qed
qed

section \<open>Undo on the screen\<close>

text \<open>What these steps leave alone.\<close>

lemma untouched_fields [simp]:
  "en_log (tell e s) = en_log s" "en_committed (tell e s) = en_committed s" "en_stale (tell e s) = en_stale s"
  "en_symbols (tell e s) = en_symbols s" "en_strokes (tell e s) = en_strokes s" "en_group (tell e s) = en_group s"
  "en_early_origin (tell e s) = en_early_origin s" "en_pending (tell e s) = en_pending s" "en_queue (tell e s) = en_queue s"
  "en_pressed (tell e s) = en_pressed s" "en_modifiers (tell e s) = en_modifiers s"
  "en_deferred_action (tell e s) = en_deferred_action s" "en_personal_pending (tell e s) = en_personal_pending s"
  "en_log (log_texts cf name app ts s) = en_log s" "en_committed (log_texts cf name app ts s) = en_committed s"
  "en_stale (log_texts cf name app ts s) = en_stale s" "en_symbols (log_texts cf name app ts s) = en_symbols s"
  "en_strokes (log_texts cf name app ts s) = en_strokes s" "en_group (log_texts cf name app ts s) = en_group s"
  "en_early_origin (log_texts cf name app ts s) = en_early_origin s" "en_pending (log_texts cf name app ts s) = en_pending s"
  "en_queue (log_texts cf name app ts s) = en_queue s" "en_pressed (log_texts cf name app ts s) = en_pressed s"
  "en_modifiers (log_texts cf name app ts s) = en_modifiers s"
  "en_deferred_action (log_texts cf name app ts s) = en_deferred_action s"
  "en_personal_pending (log_texts cf name app ts s) = en_personal_pending s"
  "en_log (remember_context cf now app g strokes s) = en_log s"
  "en_committed (remember_context cf now app g strokes s) = en_committed s"
  "en_stale (remember_context cf now app g strokes s) = en_stale s"
  "en_symbols (remember_context cf now app g strokes s) = en_symbols s"
  "en_strokes (remember_context cf now app g strokes s) = en_strokes s"
  "en_group (remember_context cf now app g strokes s) = en_group s"
  "en_early_origin (remember_context cf now app g strokes s) = en_early_origin s"
  "en_pending (remember_context cf now app g strokes s) = en_pending s"
  "en_queue (remember_context cf now app g strokes s) = en_queue s"
  "en_pressed (remember_context cf now app g strokes s) = en_pressed s"
  "en_modifiers (remember_context cf now app g strokes s) = en_modifiers s"
  "en_deferred_action (remember_context cf now app g strokes s) = en_deferred_action s"
  "en_personal_pending (remember_context cf now app g strokes s) = en_personal_pending s"
  "en_log (record_history cf a b app x s) = en_log s" "en_committed (record_history cf a b app x s) = en_committed s"
  "en_stale (record_history cf a b app x s) = en_stale s" "en_symbols (record_history cf a b app x s) = en_symbols s"
  "en_strokes (record_history cf a b app x s) = en_strokes s" "en_group (record_history cf a b app x s) = en_group s"
  "en_early_origin (record_history cf a b app x s) = en_early_origin s"
  "en_pending (record_history cf a b app x s) = en_pending s" "en_queue (record_history cf a b app x s) = en_queue s"
  "en_pressed (record_history cf a b app x s) = en_pressed s" "en_modifiers (record_history cf a b app x s) = en_modifiers s"
  "en_deferred_action (record_history cf a b app x s) = en_deferred_action s"
  "en_personal_pending (record_history cf a b app x s) = en_personal_pending s" "en_log (show_prompt cf now q s) = en_log s"
  "en_committed (show_prompt cf now q s) = en_committed s" "en_stale (show_prompt cf now q s) = en_stale s"
  "en_symbols (show_prompt cf now q s) = en_symbols s" "en_strokes (show_prompt cf now q s) = en_strokes s"
  "en_group (show_prompt cf now q s) = en_group s" "en_early_origin (show_prompt cf now q s) = en_early_origin s"
  "en_pending (show_prompt cf now q s) = en_pending s" "en_queue (show_prompt cf now q s) = en_queue s"
  "en_pressed (show_prompt cf now q s) = en_pressed s" "en_modifiers (show_prompt cf now q s) = en_modifiers s"
  "en_deferred_action (show_prompt cf now q s) = en_deferred_action s"
  "en_personal_pending (show_prompt cf now q s) = en_personal_pending s" "en_log (learn_undone_word p s) = en_log s"
  "en_committed (learn_undone_word p s) = en_committed s" "en_stale (learn_undone_word p s) = en_stale s"
  "en_symbols (learn_undone_word p s) = en_symbols s" "en_strokes (learn_undone_word p s) = en_strokes s"
  "en_group (learn_undone_word p s) = en_group s" "en_early_origin (learn_undone_word p s) = en_early_origin s"
  "en_pending (learn_undone_word p s) = en_pending s" "en_queue (learn_undone_word p s) = en_queue s"
  "en_pressed (learn_undone_word p s) = en_pressed s" "en_modifiers (learn_undone_word p s) = en_modifiers s"
  "en_deferred_action (learn_undone_word p s) = en_deferred_action s"
  "en_personal_pending (learn_undone_word p s) = en_personal_pending s" "en_log (log_pending_dropped cf s) = en_log s"
  "en_committed (log_pending_dropped cf s) = en_committed s" "en_stale (log_pending_dropped cf s) = en_stale s"
  "en_symbols (log_pending_dropped cf s) = en_symbols s" "en_strokes (log_pending_dropped cf s) = en_strokes s"
  "en_group (log_pending_dropped cf s) = en_group s" "en_early_origin (log_pending_dropped cf s) = en_early_origin s"
  "en_pending (log_pending_dropped cf s) = en_pending s" "en_queue (log_pending_dropped cf s) = en_queue s"
  "en_pressed (log_pending_dropped cf s) = en_pressed s" "en_modifiers (log_pending_dropped cf s) = en_modifiers s"
  "en_deferred_action (log_pending_dropped cf s) = en_deferred_action s"
  "en_personal_pending (log_pending_dropped cf s) = en_personal_pending s"
  by (simp_all add: tell_def log_texts_def remember_context_def record_history_def show_prompt_def learn_undone_word_def
      log_pending_dropped_def split: option.split)

lemma check_correction_ready:
  assumes "check_correction cf w requested prompt waiting p s = (True, s')"
  shows "(\<exists>window. s' = s\<lparr>en_focus_window := window\<rparr>) \<and> list_all safe_text_stroke (cp_strokes p @ cp_trailing p)"
proof -
  obtain changed ignored s1 where focus: "track_focus cf (wo_now w) (wo_application w) (wo_action_error w) (wo_focus w) s = ((changed, ignored), s1)"
    by (metis surj_pair)
  have unchanged: "\<not> changed" "\<not> wo_overflow w" "\<not> wo_gap w" "list_all safe_text_stroke (cp_strokes p @ cp_trailing p)"
    using assms by (auto simp: check_correction_def focus take_hook_gap_def Let_def split: if_splits)
  have field: "check_field cf w requested prompt waiting p s1 = (True, t) \<Longrightarrow> t = s1" for t
    by (auto simp: check_field_def Let_def split: option.splits if_splits)
  have "s' = s1" using assms unchanged field by (auto simp: check_correction_def focus take_hook_gap_def split: if_splits)
  moreover have "\<exists>window. s1 = s\<lparr>en_focus_window := window\<rparr>"
    using focus unchanged(1) by (auto simp: track_focus_def Let_def split: option.splits if_splits intro: exI [of _ "en_focus_window s"])
  ultimately show ?thesis using unchanged(4) by blast
qed

lemma collect_nothing:
  "en_queue s = [] \<Longrightarrow> en_strokes s = [] \<Longrightarrow> collect_late is_convert p s = (Some [], s\<lparr>en_late_refusal := None\<rparr>)"
  by (simp add: collect_late_def)

lemma counted_fields [simp]:
  "en_log (count_correction cf p s) = en_log s"
  "en_committed (count_correction cf p s) = en_committed s"
  "en_stale (count_correction cf p s) = en_stale s"
  "en_symbols (count_correction cf p s) = en_symbols s"
  "en_strokes (count_correction cf p s) = en_strokes s"
  "en_early_origin (count_correction cf p s) = en_early_origin s"
  "en_pending (count_correction cf p s) = en_pending s"
  "en_queue (count_correction cf p s) = en_queue s"
  "en_deferred_action (count_correction cf p s) = en_deferred_action s"
  "en_pressed (count_correction cf p s) = en_pressed s"
  "en_modifiers (count_correction cf p s) = en_modifiers s"
  "en_group (count_correction cf p s) = layout_after p"
  by (simp_all add: count_correction_def Let_def)

lemma committed_fields [simp]:
  "en_log (commit_correction now p lost s) = en_log s"
  "en_symbols (commit_correction now p lost s) = en_symbols s"
  "en_strokes (commit_correction now p lost s) = en_strokes s"
  "en_early_origin (commit_correction now p lost s) = en_early_origin s"
  "en_pending (commit_correction now p lost s) = en_pending s"
  "en_queue (commit_correction now p lost s) = en_queue s"
  "en_deferred_action (commit_correction now p lost s) = en_deferred_action s"
  "en_pressed (commit_correction now p lost s) = en_pressed s"
  "en_modifiers (commit_correction now p lost s) = en_modifiers s"
  "en_committed (commit_correction now p lost s) = Some (committed_after p)"
  "en_stale (commit_correction now p lost s) = (lost \<or> cp_mode p = Mode_Sign)"
  by (simp_all add: commit_correction_def Let_def)

lemma requested_fields [simp]:
  "en_committed (remember_request now requested p s) = en_committed s"
  "en_stale (remember_request now requested p s) = en_stale s"
  "en_symbols (remember_request now requested p s) = en_symbols s"
  "en_strokes (remember_request now requested p s) = en_strokes s"
  "en_early_origin (remember_request now requested p s) = en_early_origin s"
  "en_pending (remember_request now requested p s) = en_pending s"
  "en_queue (remember_request now requested p s) = en_queue s"
  "en_deferred_action (remember_request now requested p s) = en_deferred_action s"
  "en_pressed (remember_request now requested p s) = en_pressed s"
  "en_modifiers (remember_request now requested p s) = en_modifiers s"
  "en_log (remember_request now requested p s) = remember_correction now p (en_log s)"
  by (simp_all add: remember_request_def Let_def)

lemma switched_fields [simp]:
  "en_log (note_engine_switch now g s) = en_log s"
  "en_committed (note_engine_switch now g s) = en_committed s"
  "en_stale (note_engine_switch now g s) = en_stale s"
  "en_symbols (note_engine_switch now g s) = en_symbols s"
  "en_strokes (note_engine_switch now g s) = en_strokes s"
  "en_early_origin (note_engine_switch now g s) = en_early_origin s"
  "en_pending (note_engine_switch now g s) = en_pending s"
  "en_queue (note_engine_switch now g s) = en_queue s"
  "en_deferred_action (note_engine_switch now g s) = en_deferred_action s"
  "en_pressed (note_engine_switch now g s) = en_pressed s"
  "en_modifiers (note_engine_switch now g s) = en_modifiers s"
  by (simp_all add: note_engine_switch_def Let_def)

lemma finish_word_finished:
  "cp_boundary p \<noteq> None \<Longrightarrow> cp_kept_tail p = 0 \<Longrightarrow>
   finish_word cf now p prompt lost s =
     (let s = count_correction cf p (remember_context cf now (cp_application p) (cp_target p) (cp_strokes p) (commit_correction now p lost s))
      in case prompt of None \<Rightarrow> s | Some x \<Rightarrow> show_prompt cf now x s)"
  by (cases "cp_boundary p") (simp_all add: finish_word_def reopen_word_def)

lemma after_finished_word:
  assumes "cp_boundary p \<noteq> None" "cp_mode p \<notin> {Mode_Sign, Mode_Symbols, Mode_Mention_Shown, Mode_Mention_Hidden,
      Mode_Early, Mode_Late_Stroke, Mode_Early_Undo}" "cp_kept_tail p = 0" "settle_stream w p rolled late n (en_stream s) = (False, c)"
  shows "after_injection cf w p prompt p rolled late n s =
    (let s = learn_undone_word p (log_texts cf ''correction_applied'' (cp_application p) [cp_original p, cp_replacement p]
               ((note_engine_switch (wo_later w) (layout_after p) s)\<lparr>en_stream := c\<rparr>));
         s = commit_correction (wo_later w) p False (remember_request (wo_later w) p p s);
         s = count_correction cf p (remember_context cf (wo_later w) (cp_application p) (cp_target p) (cp_strokes p) s)
     in case prompt of None \<Rightarrow> s | Some x \<Rightarrow> show_prompt cf (wo_later w) x s)"
  using assms by (simp add: after_injection_def finish_correction_def finish_word_finished)

text \<open>A correction of a finished word, with no key typed since: the engine afterwards.\<close>

lemma executed_word:
  assumes executed: "execute_correction cf w p prompt s = (True, s')"
    and word: "cp_head p = []" "cp_boundary p \<noteq> None" "cp_mode p \<notin> {Mode_Sign, Mode_Symbols, Mode_Mention_Shown, Mode_Mention_Hidden,
      Mode_Early, Mode_Late_Stroke, Mode_Early_Undo}" "cp_kept_tail p = 0"
    and alone: "en_queue s = []" "en_strokes s = []" "wo_release w = Inr 0"
    and held: "\<forall>call n. wo_inject w call = Inr n \<longrightarrow> n = 0"
  shows "(\<exists>call. input_trace s' = input_trace s @ [Input_Held, Correction_Injected call, Input_Released]
      \<and> plan_call (cf_models cf) (cf_erasing cf) p [] = Some call \<and> wo_inject w call = Inr 0)
    \<and> en_log s' = remember_correction (wo_later w) p (en_log s) \<and> en_committed s' = Some (committed_after p) \<and> \<not> en_stale s'
    \<and> en_symbols s' = en_symbols s \<and> en_strokes s' = [] \<and> en_group s' = cp_target p \<and> en_queue s' = []
    \<and> en_early_origin s' = en_early_origin s \<and> en_pending s' = en_pending s
    \<and> en_deferred_action s' = en_deferred_action s \<and> en_pressed s' = en_pressed s \<and> en_modifiers s' = en_modifiers s
    \<and> list_all safe_text_stroke (cp_strokes p @ cp_trailing p)"
proof -
  have p: "with_head p = p" using word(1) by (simp add: with_head_def)
  obtain ready s1 where checked: "check_correction cf w p prompt (en_field_wait s) p (s\<lparr>en_field_wait := None\<rparr>) = (ready, s1)" by fastforce
  obtain outcome s2 where injected: "inject_plan cf w p (s1\<lparr>en_correction_id := Suc (en_correction_id s1)\<rparr>) = (outcome, s2)"
    by fastforce
  have run: "execute_correction cf w p prompt s =
     (if \<not> ready then (False, s1)
      else case outcome of
        Not_Safe \<Rightarrow> (False, s2)
      | Not_Injected e \<Rightarrow> (False, failed_injection cf w p e s2)
      | Injected late held \<Rightarrow>
          (True, after_injection cf w p prompt p
                   (texts_of (List.filter (\<lambda>e. e \<notin> set (cp_strokes p @ cp_trailing p)) (en_strokes s1))) late held s2))"
    using execute_run [of cf w p prompt s ready s1 outcome s2, unfolded p] checked injected word(1) by simp
  then obtain late n where o: "ready" "outcome = Injected late n"
    and s': "s' = after_injection cf w p prompt p
        (texts_of (List.filter (\<lambda>e. e \<notin> set (cp_strokes p @ cp_trailing p)) (en_strokes s1))) late n s2"
    using executed by (auto split: if_splits injection_outcome.splits)
  obtain window where s1: "s1 = s\<lparr>en_field_wait := None, en_focus_window := window\<rparr>" and safe: "list_all safe_text_stroke (cp_strokes p @ cp_trailing p)"
    using check_correction_ready [OF checked [unfolded o(1) [THEN eqTrueI]]] by auto
  obtain call where call: "plan_call (cf_models cf) (cf_erasing cf) p [] = Some call" "wo_inject w call = Inr 0" "late = []" "n = 0"
    and s2: "s2 = tell Input_Released (tell (Correction_Injected call)
        ((tell Input_Held (s1\<lparr>en_correction_id := Suc (en_correction_id s1)\<rparr>))\<lparr>en_late_refusal := None\<rparr>))"
    using injected o(2) alone held
    by (auto simp: inject_plan_def attempt_injection_def collect_nothing s1 Let_def split: option.splits sum.splits)
  have stream: "\<exists>c. settle_stream w p u [] 0 (en_stream s2) = (False, c)" for u
    by (simp add: settle_stream_def)
  then obtain c where c: "settle_stream w p (texts_of (List.filter (\<lambda>e. e \<notin> set (cp_strokes p @ cp_trailing p)) (en_strokes s1))) [] 0
      (en_stream s2) = (False, c)" by blast
  have "input_trace s' = input_trace s @ [Input_Held, Correction_Injected call, Input_Released]"
    by (simp add: s' s2 s1)
  moreover have "en_log s' = remember_correction (wo_later w) p (en_log s) \<and> en_committed s' = Some (committed_after p) \<and> \<not> en_stale s'
    \<and> en_symbols s' = en_symbols s \<and> en_strokes s' = [] \<and> en_group s' = cp_target p \<and> en_queue s' = []
    \<and> en_early_origin s' = en_early_origin s \<and> en_pending s' = en_pending s
    \<and> en_deferred_action s' = en_deferred_action s \<and> en_pressed s' = en_pressed s \<and> en_modifiers s' = en_modifiers s"
    using word alone
    unfolding s' call(3,4) after_finished_word [OF word(2-4) c] Let_def
    by (simp add: s2 s1 layout_after_def split: option.split)
  ultimately show ?thesis using call safe by blast
qed

text \<open>Undo pressed right after: the inverse plan waits for the keys to come up, and then runs.\<close>

lemma undo_scheduled:
  assumes "en_log s = l" "cl_last l = Some p" "now - cl_time l \<le> UNDO_AVAILABLE_WINDOW_SECONDS"
    "en_committed s = Some (committed_after p)" "\<not> en_stale s" "en_strokes s = []" "en_symbols s = []" "en_early_origin s = None"
    "en_pending s = None"
  shows "en_pending (schedule_undo cf now application trigger s) = Some (undo_of p (cp_boundary p) (cp_trailing p))
    \<and> en_trigger (schedule_undo cf now application trigger s) = trigger
    \<and> en_queue (schedule_undo cf now application trigger s) = en_queue s
    \<and> en_strokes (schedule_undo cf now application trigger s) = []
    \<and> input_trace (schedule_undo cf now application trigger s) = input_trace s
    \<and> en_pressed (schedule_undo cf now application trigger s) = en_pressed s
    \<and> en_modifiers (schedule_undo cf now application trigger s) = en_modifiers s
    \<and> en_deferred_action (schedule_undo cf now application trigger s) = en_deferred_action s
    \<and> en_prompt_after (schedule_undo cf now application trigger s) = None"
proof -
  have committed: "cp_strokes (committed_after p) = cp_strokes p" "cp_trailing (committed_after p) = cp_trailing p"
    "cp_boundary (committed_after p) = cp_boundary p"
    by (simp_all add: committed_after_def plain_plan_def)
  have settled_word: "personal_word_settled False s = s\<lparr>en_personal_pending := []\<rparr>" by (simp add: personal_word_settled_def)
  have available: "undo_available (Some p) (Some (committed_after p)) False [] [] (cl_time l) now"
    using assms(3) by (simp add: undo_available_def committed)
  show ?thesis
    using assms available by (simp add: schedule_undo_def settled_word queue_undo_def Let_def)
qed

definition x11_performed ::
    "x_server \<Rightarrow> nat \<Rightarrow> (x_request list \<Rightarrow> x_request \<Rightarrow> bool) \<Rightarrow> real \<Rightarrow> expectation \<Rightarrow> injection_call \<Rightarrow> x_request list" where
  "x11_performed srv n accepts now ex call = fst (snd (run_call srv n accepts now call ex))"

text \<open>The X11 backend as the engine sees it: it counts no held key.\<close>

definition x11_inject ::
    "x_server \<Rightarrow> nat \<Rightarrow> (x_request list \<Rightarrow> x_request \<Rightarrow> bool) \<Rightarrow> real \<Rightarrow> expectation \<Rightarrow> (x11_error \<Rightarrow> ustr) \<Rightarrow> injection_call
      \<Rightarrow> backend_error + nat" where
  "x11_inject srv n accepts now ex message call =
     (case snd (snd (run_call srv n accepts now call ex)) of
        Inl e \<Rightarrow> Inl \<lparr>be_message = message e, be_unconfirmed = None\<rparr>
      | Inr held \<Rightarrow> Inr (nat held))"

lemma run_call_held: "snd (snd (run_call srv n accepts now call ex)) = Inr held \<Longrightarrow> held = 0"
  by (auto simp: run_call_def inject_correction_def Let_def split: sum.splits prod.splits option.splits)

text \<open>C2: Undo, from the hotkey to the screen: after a correction of a finished word, with no key typed since and within ten
  seconds, the hotkey schedules the inverse plan, and once the keys are up the engine has the X server put the field back: the
  text is the one typed, the layout the one it was typed in, and the engine knows it is.\<close>

theorem undo_hotkey_restores_screen:
  assumes corrected: "execute_correction cf w p prompt s = (True, s1)"
    and undone: "execute_correction cf w2 (undo_of p (cp_boundary p) (cp_trailing p)) None
      ((schedule_undo cf now application trigger s1)\<lparr>en_trigger := -1, en_pending := None, en_release_deadline := 0, en_prompt_after := None\<rparr>)
      = (True, s3)"
    and word: "cp_head p = []" "cp_boundary p \<noteq> None" "cp_mode p \<notin> {Mode_Sign, Mode_Symbols, Mode_Mention_Shown,
      Mode_Mention_Hidden, Mode_Early, Mode_Late_Stroke, Mode_Early_Undo}" "plan_ok p"
    and keys: "reported_plan m n srv p" "reported_plan m n srv2 p"
    and same: "xs_shift srv2 = xs_shift srv" "xs_backspace srv2 = xs_backspace srv"
    and world: "wo_inject w = x11_inject srv n accepts t ex message" "wo_release w = Inr 0"
      "wo_inject w2 = x11_inject srv2 n accepts2 t2 ex2 message" "wo_release w2 = Inr 0" "now - wo_later w \<le> 10" "cf_erasing cf"
    and engine: "en_queue s = []" "en_strokes s = []" "en_symbols s = []" "en_early_origin s = None" "en_pending s = None"
      "en_deferred_action s = None" "en_pressed s = {}" "en_modifiers s = {}"
    and key_up: "ev_keycode e = trigger" "\<not> ev_pressed e"
    and field: "sc_text screen0 = before @ cp_original p @ literal_text p" "\<not> sc_shift screen0"
  shows "\<exists>call call2.
      input_trace s1 = input_trace s @ [Input_Held, Correction_Injected call, Input_Released]
      \<and> maybe_execute_pending cf w2 refresh e (schedule_undo cf now application trigger s1) = s3
      \<and> input_trace s3 = input_trace s1 @ [Input_Held, Correction_Injected call2, Input_Released]
      \<and> screen_run m srv2 (the (xs_locked_mods srv2) AND LOCK_MASK \<noteq> 0) (x11_performed srv2 n accepts2 t2 ex2 call2)
          (screen_run m srv (the (xs_locked_mods srv) AND LOCK_MASK \<noteq> 0) (x11_performed srv n accepts t ex call) screen0)
        = screen0\<lparr>sc_group := cp_source p\<rparr>
      \<and> en_group s3 = cp_source p"
proof -
  let ?u = "undo_of p (cp_boundary p) (cp_trailing p)"
  let ?s2 = "schedule_undo cf now application trigger s1"
  have strokes: "cp_strokes p \<noteq> []" "cp_kept_tail p = 0" using word(4) by (simp_all add: plan_ok_def)
  have no_held: "\<forall>call k. wo_inject w call = Inr k \<longrightarrow> k = 0" "\<forall>call k. wo_inject w2 call = Inr k \<longrightarrow> k = 0"
    by (auto simp: world x11_inject_def dest: run_call_held split: sum.splits)
  obtain call where call: "input_trace s1 = input_trace s @ [Input_Held, Correction_Injected call, Input_Released]"
      "plan_call (cf_models cf) (cf_erasing cf) p [] = Some call" "wo_inject w call = Inr 0"
    and s1: "en_log s1 = remember_correction (wo_later w) p (en_log s)" "en_committed s1 = Some (committed_after p)" "\<not> en_stale s1"
      "en_symbols s1 = []" "en_strokes s1 = []" "en_queue s1 = []" "en_early_origin s1 = None" "en_pending s1 = None"
      "en_deferred_action s1 = None" "en_pressed s1 = {}" "en_modifiers s1 = {}"
    using executed_word [OF corrected word(1-3) strokes(2) engine(1,2) world(2) no_held(1)] engine by auto
  have s2: "en_pending ?s2 = Some ?u" "en_trigger ?s2 = trigger" "en_queue ?s2 = []" "en_strokes ?s2 = []"
    "input_trace ?s2 = input_trace s1" "en_pressed ?s2 = {}" "en_modifiers ?s2 = {}" "en_deferred_action ?s2 = None"
    "en_prompt_after ?s2 = None"
    using undo_scheduled [of s1 "remember_correction (wo_later w) p (en_log s)" p now cf application trigger] s1 world(5) engine
    by (simp_all add: remember_correction_def UNDO_AVAILABLE_WINDOW_SECONDS_def)
  have ran: "maybe_execute_pending cf w2 refresh e ?s2 = s3"
    using s2 undone key_up by (simp add: maybe_execute_pending_def Let_def)
  obtain call2 where call2: "input_trace s3 = input_trace s1 @ [Input_Held, Correction_Injected call2, Input_Released]"
      "plan_call (cf_models cf) (cf_erasing cf) ?u [] = Some call2" "wo_inject w2 call2 = Inr 0" "en_group s3 = cp_source p"
    using executed_word [OF undone _ _ _ _ _ _ world(4) no_held(2)] word(2) s2 by auto
  have performed: "run_call srv n accepts t call ex = (fst (run_call srv n accepts t call ex), x11_performed srv n accepts t ex call, Inr 0)"
    "run_call srv2 n accepts2 t2 call2 ex2 = (fst (run_call srv2 n accepts2 t2 call2 ex2), x11_performed srv2 n accepts2 t2 ex2 call2, Inr 0)"
    using call(3) call2(3) run_call_held
    by (auto simp: world x11_inject_def x11_performed_def prod_eq_iff split: sum.splits)
  let ?screen1 = "screen0\<lparr>sc_group := cp_target p, sc_text := before @ cp_replacement p @ literal_text p\<rparr>"
  have first: "screen_run m srv (the (xs_locked_mods srv) AND LOCK_MASK \<noteq> 0) (x11_performed srv n accepts t ex call) screen0 = ?screen1"
    by (rule plan_typed [OF word(4) keys(1) _ performed(1) field]) (use call(2) world(6) in simp)
  have u: "reported_plan m n srv2 ?u" "literal_text ?u = literal_text p"
    using keys(2) undo_of_screen [OF strokes(1), of "cp_boundary p" "cp_trailing p"] by (auto simp: reported_plan_def literal_text_def)
  have "screen_run m srv2 (the (xs_locked_mods srv2) AND LOCK_MASK \<noteq> 0) (x11_performed srv2 n accepts2 t2 ex2 call2) ?screen1
      = screen0\<lparr>sc_group := cp_source p\<rparr>"
    using plan_typed [OF plan_ok_undo [OF word(4)] u(1) _ performed(2), of "cf_models cf" ?screen1 before] call2(2) world(6) field u(2)
    by simp
  then show ?thesis using call(1) ran call2(1,4) first by auto
qed

text \<open>When a correction is carried out: the window is the same, the backend answers and holds no key back.\<close>

lemma correction_executed:
  assumes world: "wo_focus w = None" "\<not> wo_overflow w" "\<not> wo_gap w" "wo_hold w = None" "wo_release w = Inr 0"
    and plan: "list_all safe_text_stroke (cp_strokes p @ cp_trailing p)" "cp_context_field p = []" "cp_head p = []"
    and alone: "en_queue s = []" "en_strokes s = []"
    and call: "plan_call (cf_models cf) (cf_erasing cf) p [] = Some call" "wo_inject w call = Inr n"
  shows "\<exists>s1. execute_correction cf w p prompt s = (True, s1)"
proof -
  let ?s = "s\<lparr>en_field_wait := None\<rparr>"
  have checked: "check_correction cf w p prompt (en_field_wait s) p ?s = (True, ?s)"
    using world plan by (simp add: check_correction_def track_focus_def take_hook_gap_def)
  obtain s2 where "inject_plan cf w p (?s\<lparr>en_correction_id := Suc (en_correction_id ?s)\<rparr>) = (Injected [] n, s2)"
    using world alone call by (simp add: inject_plan_def attempt_injection_def collect_nothing)
  then show ?thesis
    using execute_run [of cf w p prompt s True ?s "Injected [] n" s2] checked plan(3) by (simp add: with_head_def)
qed

definition small_engine :: engine where
  "small_engine =
     \<lparr>en_strokes = [], en_symbols = [], en_mention_shown = None, en_source = -1, en_untracked = False, en_last_character = [],
      en_character_before = [], en_caret_moved = False,
      en_position_unknown = False, en_insertion = None, en_word_input_at = None, en_pause_pending = False, en_pressed = {},
      en_pressed_since = [], en_modifiers = {}, en_queue = [], en_late_refusal = None, en_pending = None, en_prompt_after = None,
      en_trigger = -1, en_release_deadline = 0, en_field_wait = None, en_committed = None, en_stale = False,
      en_log = no_corrections, en_last_requested = None, en_convert_outcome = None, en_convert_at = 0, en_convert_keycode = -1,
      en_convert_released = False, en_early_origin = None, en_early_at = None, en_early_confidence = 0, en_early_undone = False,
      en_switch_at = None, en_switch_group = None, en_manual_group = None, en_manual_at = None, en_manual_source = [],
      en_manual_word = False, en_own_ignored = False, en_suspended = False, en_foreign_active = False, en_test_field = False, en_focus_window = None, en_sensitive = None,
      en_context_waiting = None, en_wait_sequence = 0, en_result_field = None, en_provisional = None, en_paused = None, en_kept = [], en_contexts = [],
      en_stream = initial_context, en_deferred_action = None, en_action_deadline = 0, en_prompt = None, en_prompt_deadline = None,
      en_prompt_keys_until = 0, en_personal_pending = [], en_templates = Map.empty, en_correction_id = 0, en_group = 0, en_word = [], en_count = 0,
      en_action = Waiting_For_Input, en_error = [], en_done = []\<rparr>"

definition small_config :: engine_config where
  "small_config =
     \<lparr>cf_models = [0, 1], cf_respect_manual = True, cf_keep_history = False, cf_technical_logging = True, cf_learning = False,
      cf_catch_up = 0, cf_excluded = (\<lambda>_. False), cf_history_error = None, cf_erasing = True, cf_swallows_hotkeys = False,
      cf_action_keys = [], cf_own_hotkeys = [], cf_accepts_injected = False, cf_protected_token = (\<lambda>_. False),
      cf_segment_settled = (\<lambda>_ _ _. False)\<rparr>"

definition small_world :: "x_server \<Rightarrow> world" where
  "small_world srv =
     \<lparr>wo_now = 0, wo_later = 0, wo_application = [], wo_action_error = None, wo_focus = None, wo_overflow = False, wo_gap = False,
      wo_field = None, wo_hold = None,
      wo_inject = x11_inject srv 2 (\<lambda>_ _. True) 0 \<lparr>ex_steps = [], ex_deadline = 0\<rparr> (\<lambda>_. []), wo_release = Inr 0, wo_keys = 0,
      wo_presses = 0, wo_is_convert = (\<lambda>_. False)\<rparr>"

lemma small_executed:
  assumes srv: "srv = small_server \<or> srv = caps_server"
    and p: "p = small_plan \<or> p = undo_of small_plan (cp_boundary small_plan) (cp_trailing small_plan)"
    and s: "en_queue s = []" "en_strokes s = []"
  shows "\<exists>s1. execute_correction small_config (small_world srv) p None s = (True, s1)"
proof -
  let ?call = "\<lparr>ia_strokes = [key_f], ia_target = cp_target p, ia_boundary = Some key_space, ia_source = cp_source p, ia_late = [],
      ia_trailing = [], ia_kept_tail = 0, ia_erased = None\<rparr>"
  have fields: "cp_strokes p = [key_f]" "cp_trailing p = []" "cp_context_field p = []" "cp_head p = []"
    "0 \<le> cp_target p \<and> cp_target p < 2" "0 \<le> cp_source p \<and> cp_source p < 2"
    "plan_call (cf_models small_config) (cf_erasing small_config) p [] = Some ?call"
    using p by (auto simp: small_plan_def plain_plan_def undo_of_def plan_call_def small_config_def)
  have safe: "safe_text_stroke key_f"
    using small_plan_reported [of small_server]
    by (simp add: reported_plan_def small_plan_def plain_plan_def)
  obtain ex' performed where run: "run_call srv 2 (\<lambda>_ _. True) 0 ?call \<lparr>ex_steps = [], ex_deadline = 0\<rparr> = (ex', performed, Inr 0)"
    using small_call [OF srv, of "cp_target p" "cp_source p"] fields by auto
  have "wo_inject (small_world srv) ?call = Inr 0"
    by (simp add: small_world_def x11_inject_def run)
  then show ?thesis
    using correction_executed [of "small_world srv" p s small_config ?call 0 None] fields safe s
    by (simp add: small_world_def)
qed

theorem undo_hotkey_restores_screen_witness:
  "\<exists>s1 s3 performed performed2.
     execute_correction small_config (small_world small_server) small_plan None small_engine = (True, s1)
     \<and> maybe_execute_pending small_config (small_world caps_server) (\<lambda>p s. (Some p, s)) (key_f\<lparr>ev_pressed := False\<rparr>)
         (schedule_undo small_config 5 [] 41 s1) = s3
     \<and> en_group s3 = 0
     \<and> sc_text (screen_run small_keymap caps_server True performed2 (screen_run small_keymap small_server False performed
       \<lparr>sc_group = 0, sc_shift = False, sc_text = [0x46, 0x20]\<rparr>)) = [0x46, 0x20]"
proof -
  let ?p = small_plan
  let ?u = "undo_of ?p (cp_boundary ?p) (cp_trailing ?p)"
  have keys: "character_for key_f 0 = [0x46]" "character_for key_f 1 = [0x410]" "ev_character key_space = [0x20]"
    by (simp_all add: key_f_def key_space_def character_for_def)
  have ok: "plan_ok ?p" by (simp add: plan_ok_def small_plan_def plain_plan_def keys_on_screen_def keys)
  have p: "cp_head ?p = []" "cp_boundary ?p \<noteq> None" "cp_mode ?p = Mode_Boundary" "cp_original ?p = [0x46]" "literal_text ?p = [0x20]"
    "cp_source ?p = 0" "cp_kept_tail ?p = 0"
    by (simp_all add: small_plan_def plain_plan_def literal_text_def literal_keys_def keys)
  have engine: "en_queue small_engine = []" "en_strokes small_engine = []" "en_symbols small_engine = []"
    "en_early_origin small_engine = None" "en_pending small_engine = None" "en_deferred_action small_engine = None"
    "en_pressed small_engine = {}" "en_modifiers small_engine = {}"
    by (simp_all add: small_engine_def)
  have world: "wo_inject (small_world srv) = x11_inject srv 2 (\<lambda>_ _. True) 0 \<lparr>ex_steps = [], ex_deadline = 0\<rparr> (\<lambda>_. [])"
    "wo_release (small_world srv) = Inr 0" "5 - wo_later (small_world srv) \<le> 10" for srv
    by (simp_all add: small_world_def)
  have held: "\<forall>call n. wo_inject (small_world srv) call = Inr n \<longrightarrow> n = 0" for srv
    by (auto simp: world x11_inject_def dest: run_call_held split: sum.splits)
  have locks: "(the (xs_locked_mods small_server) AND LOCK_MASK \<noteq> 0) = False" "(the (xs_locked_mods caps_server) AND LOCK_MASK \<noteq> 0) = True"
    "xs_shift caps_server = xs_shift small_server" "xs_backspace caps_server = xs_backspace small_server"
    by (simp_all add: small_server_def caps_server_def masks)
  obtain s1 where s1: "execute_correction small_config (small_world small_server) ?p None small_engine = (True, s1)"
    using small_executed engine by blast
  let ?s2 = "(schedule_undo small_config 5 [] 41 s1)\<lparr>en_trigger := -1, en_pending := None, en_release_deadline := 0, en_prompt_after := None\<rparr>"
  have f1: "en_log s1 = remember_correction (wo_later (small_world small_server)) ?p (en_log small_engine)"
    "en_committed s1 = Some (committed_after ?p)" "\<not> en_stale s1" "en_symbols s1 = []" "en_strokes s1 = []" "en_queue s1 = []"
    "en_early_origin s1 = None" "en_pending s1 = None"
    using executed_word [OF s1 p(1,2) _ p(7) engine(1,2) world(2) held] p(3) engine by auto
  have "en_queue ?s2 = [] \<and> en_strokes ?s2 = []"
    using undo_scheduled [of s1 _ ?p 5 small_config "[]" 41] f1 world(3) [of small_server]
    by (simp add: remember_correction_def UNDO_AVAILABLE_WINDOW_SECONDS_def)
  then obtain s3 where s3: "execute_correction small_config (small_world caps_server) ?u None ?s2 = (True, s3)"
    using small_executed by blast
  have rest: "cp_mode ?p \<notin> {Mode_Sign, Mode_Symbols, Mode_Mention_Shown, Mode_Mention_Hidden, Mode_Early, Mode_Late_Stroke,
      Mode_Early_Undo}" "cf_erasing small_config" "ev_keycode (key_f\<lparr>ev_pressed := False\<rparr>) = 41"
    "\<not> ev_pressed (key_f\<lparr>ev_pressed := False\<rparr>)"
    "sc_text \<lparr>sc_group = 0, sc_shift = False, sc_text = [0x46, 0x20]\<rparr> = [] @ cp_original ?p @ literal_text ?p"
    "\<not> sc_shift \<lparr>sc_group = 0, sc_shift = False, sc_text = [0x46, 0x20]\<rparr>"
    by (simp_all add: p small_config_def key_f_def)
  note restored = undo_hotkey_restores_screen [OF s1 s3 p(1,2) rest(1) ok small_plan_reported small_plan_reported locks(3,4)
      world(1,2) world(1,2) world(3) rest(2) engine rest(3-6), of "\<lambda>p s. (Some p, s)"]
  obtain call call2 where "maybe_execute_pending small_config (small_world caps_server) (\<lambda>p s. (Some p, s)) (key_f\<lparr>ev_pressed := False\<rparr>)
        (schedule_undo small_config 5 [] 41 s1) = s3" "en_group s3 = 0"
    and screen: "screen_run small_keymap caps_server True (x11_performed caps_server 2 (\<lambda>_ _. True) 0 \<lparr>ex_steps = [], ex_deadline = 0\<rparr> call2)
          (screen_run small_keymap small_server False (x11_performed small_server 2 (\<lambda>_ _. True) 0 \<lparr>ex_steps = [], ex_deadline = 0\<rparr> call)
            \<lparr>sc_group = 0, sc_shift = False, sc_text = [0x46, 0x20]\<rparr>)
        = \<lparr>sc_group = 0, sc_shift = False, sc_text = [0x46, 0x20]\<rparr>\<lparr>sc_group := 0\<rparr>"
    using restored unfolding locks p(6) by blast
  moreover have "sc_text (screen_run small_keymap caps_server True (x11_performed caps_server 2 (\<lambda>_ _. True) 0 \<lparr>ex_steps = [], ex_deadline = 0\<rparr> call2)
          (screen_run small_keymap small_server False (x11_performed small_server 2 (\<lambda>_ _. True) 0 \<lparr>ex_steps = [], ex_deadline = 0\<rparr> call)
            \<lparr>sc_group = 0, sc_shift = False, sc_text = [0x46, 0x20]\<rparr>)) = [0x46, 0x20]"
    by (simp add: screen)
  ultimately show ?thesis using s1 by blast
qed

end
