(* ===== verification/Word_Typing.thy ===== *)
theory Word_Typing
  imports Execution Early_Switch Conventions
begin

text \<open>
  A word as it is typed (\<open>src/keyswitch/engine.py\<close>): how it begins, what stands around the caret, the quote shown as a mention,
  the keys that arrive after the layout changed, and the switch made inside the word. The settings are read through
  \<open>settings_reader\<close>; what a classifier answers, the word lists and the platform are fields of \<open>surroundings\<close>. Within one step
  the clock, the field and the program in front are read once.
\<close>

definition LATE_STROKE_GRACE_SECONDS :: real where "LATE_STROKE_GRACE_SECONDS = 1 / 2"
definition PREFIX_MIN_CHARACTERS :: nat where "PREFIX_MIN_CHARACTERS = 4"
definition PREFIX_MAX_CHARACTERS :: nat where "PREFIX_MAX_CHARACTERS = 12"

record surroundings =
  su_get :: settings_reader
  su_repr :: "json \<Rightarrow> ustr"
  su_overflow :: bool
  su_gap :: bool
  su_switch_error :: "backend_error option"
  su_reader :: bool
  su_reader_available :: bool
  su_boundary :: "(ustr \<Rightarrow> ustr \<Rightarrow> nat \<Rightarrow> nat option) option"
  su_recognisable :: "key_event list \<Rightarrow> int \<Rightarrow> bool"
  su_rules :: learning_store
  su_ignored :: "ustr list"
  su_indexes :: "int \<Rightarrow> prefix_index option"
  su_scorers :: "int \<Rightarrow> scorer option"
  su_minimum :: nat
  su_prefix_model :: "(ustr \<Rightarrow> ustr \<Rightarrow> int \<Rightarrow> field_context \<Rightarrow> bool \<times> real) option"
  su_int_text :: "int \<Rightarrow> ustr"
  su_settles :: "key_event \<Rightarrow> waiting_word \<Rightarrow> real option"

definition enabled :: "surroundings \<Rightarrow> bool" where "enabled su = flag (su_get su) ''enabled'' True"

definition reads_field :: "surroundings \<Rightarrow> bool" where
  "reads_field su \<longleftrightarrow> su_reader su \<and> flag (su_get su) ''detection.context_read_field'' False"

definition context_mode :: "surroundings \<Rightarrow> json" where
  "context_mode su = su_get su (asc ''detection.context_policy'') (JStr (asc ''assist''))"

section \<open>Where a word begins\<close>

definition letters_before :: "ustr \<Rightarrow> ustr" where "letters_before s = rev (takeWhile isalpha_ch (rev s))"
definition letters_after :: "ustr \<Rightarrow> ustr" where "letters_after s = takeWhile isalpha_ch s"

definition inside_word :: "(ustr \<times> ustr) option \<Rightarrow> bool" where
  "inside_word point \<longleftrightarrow> (case point of None \<Rightarrow> False | Some (head, tail) \<Rightarrow> head \<noteq> [] \<or> tail \<noteq> [])"

definition word_activity :: "world \<Rightarrow> engine \<Rightarrow> engine" where
  "word_activity w s = s\<lparr>en_word_input_at := Some (wo_now w), en_pause_pending := True\<rparr>"

definition reset_pause :: "engine \<Rightarrow> engine" where
  "reset_pause s = s\<lparr>en_word_input_at := None, en_pause_pending := False\<rparr>"

definition read_insertion :: "engine_config \<Rightarrow> surroundings \<Rightarrow> world \<Rightarrow> key_event \<Rightarrow> engine \<Rightarrow> (ustr \<times> ustr) option" where
  "read_insertion cf su w e s =
     (if \<not> reads_field su \<or> cf_excluded cf (wo_application w) then None
      else case wo_field w of
        None \<Rightarrow> None
      | Some f \<Rightarrow>
          if fc_sensitive f \<or> fc_selection f \<or> fc_application f \<noteq> wo_application w then None
          else let around = (if ev_character e = [] then None else typed_in_field f (ev_character e) (typed_ahead [e] s));
                   (before, after) = (case around of None \<Rightarrow> (fc_before f, fc_after f) | Some x \<Rightarrow> x)
               in Some (letters_before before, letters_after after))"

definition begin_word :: "engine_config \<Rightarrow> surroundings \<Rightarrow> world \<Rightarrow> key_event \<Rightarrow> engine \<Rightarrow> engine" where
  "begin_word cf su w e s =
     (if en_strokes s \<noteq> [] then s
      else let s = personal_word_settled True s;
               s = (if en_position_unknown s then s\<lparr>en_insertion := read_insertion cf su w e s\<rparr> else s)
           in s\<lparr>en_position_unknown := False\<rparr>)"

text \<open>\<open>_insertion_holds\<close>: a word begun inside text that turns out to stand alone forgets the text around it.\<close>

definition insertion_holds :: "surroundings \<Rightarrow> world \<Rightarrow> ustr \<Rightarrow> ustr \<Rightarrow> engine \<Rightarrow> bool \<times> engine" where
  "insertion_holds su w typed ahead s =
     (if \<not> inside_word (en_insertion s) then (False, s)
      else if \<not> reads_field su then (True, s)
      else case wo_field w of
        None \<Rightarrow> (True, s)
      | Some f \<Rightarrow>
          if fc_sensitive f \<or> fc_selection f \<or> fc_application f \<noteq> wo_application w then (True, s)
          else if \<not> input_buffer_only f typed
                  \<and> (case typed_in_field f typed ahead of
                       None \<Rightarrow> True
                     | Some (before, after) \<Rightarrow> letters_before before \<noteq> [] \<or> letters_after after \<noteq> []) then (True, s)
          else (False, s\<lparr>en_insertion := None\<rparr>))"

definition caret_unknown :: "surroundings \<Rightarrow> engine \<Rightarrow> bool" where
  "caret_unknown su s \<longleftrightarrow>
     en_caret_moved s \<and> flag (su_get su) ''detection.hold_after_caret_move'' True
     \<and> (flag (su_get su) ''detection.context_read_field'' True \<longrightarrow> \<not> su_reader_available su)"

section \<open>The quote shown as a mention\<close>

definition mention_convention :: "engine_config \<Rightarrow> surroundings \<Rightarrow> key_event \<Rightarrow> ustr \<Rightarrow> bool" where
  "mention_convention cf su e application \<longleftrightarrow>
     (case other_group (cf_models cf) (ev_group e) of
        None \<Rightarrow> False
      | Some target \<Rightarrow>
          ev_group e \<in> set (cf_models cf)
          \<and> find_mention_head (\<lambda>path. py_truth (su_get su path (JBool True))) application
               (text_for_group [e] (ev_group e)) (text_for_group [e] target) \<noteq> None)"

definition mention_keys :: "engine_config \<Rightarrow> surroundings \<Rightarrow> ustr \<Rightarrow> engine \<Rightarrow> key_event list" where
  "mention_keys cf su application s =
     (case en_symbols s of
        [e] \<Rightarrow> if en_strokes s \<noteq> [] \<and> mention_convention cf su e application then [e] else []
      | _ \<Rightarrow> [])"

definition show_mention :: "engine_config \<Rightarrow> surroundings \<Rightarrow> world \<Rightarrow> key_event \<Rightarrow> engine \<Rightarrow> engine" where
  "show_mention cf su w e s =
     (if \<not> enabled su \<or> cf_excluded cf (wo_application w) \<or> caret_unknown su s \<or> word_protected cf (ev_group e) s
         \<or> \<not> mention_convention cf su e (wo_application w)
         \<or> en_character_before s \<noteq> [] \<and> \<not> isspace (en_character_before s) then s
      else
        let target = the (other_group (cf_models cf) (ev_group e));
            shown = e\<lparr>ev_group := target, ev_character := character_for e target\<rparr>
        in s\<lparr>en_pending := Some ((plain_plan [] None (ev_group e) (ev_group e) (ev_character e) (ev_character shown)
                UNSCORED_CORRECTION_CONFIDENCE (wo_application w) True Mode_Mention_Shown)\<lparr>cp_trailing := [shown]\<rparr>),
             en_prompt_after := None, en_trigger := ev_keycode e\<rparr>)"

definition hide_mention :: "engine_config \<Rightarrow> world \<Rightarrow> key_event \<Rightarrow> key_event option \<Rightarrow> int \<Rightarrow> engine \<Rightarrow> engine" where
  "hide_mention cf w head boundary trigger s =
     (if boundary = None \<and> (case en_pending s of None \<Rightarrow> False | Some p \<Rightarrow> cp_mode p = Mode_Mention_Hidden) then s
      else (log_pending_dropped cf s)\<lparr>
             en_pending := Some (mention_write_back (the (other_group (cf_models cf) (ev_group head))) head (en_strokes s) []
               boundary (wo_application w)),
             en_prompt_after := None, en_trigger := trigger\<rparr>)"

definition after_mention :: "engine_config \<Rightarrow> world \<Rightarrow> key_event \<Rightarrow> key_event option \<Rightarrow> engine \<Rightarrow> engine" where
  "after_mention cf w e boundary s =
     (if (case en_pending s of None \<Rightarrow> False | Some p \<Rightarrow> cp_mode p = Mode_Mention_Shown)
      then (log_pending_dropped cf s)\<lparr>en_pending := None\<rparr>
      else case en_mention_shown s of
        None \<Rightarrow> s
      | Some head \<Rightarrow>
          if ev_group e \<noteq> ev_group head then s\<lparr>en_mention_shown := None\<rparr>
          else hide_mention cf w head boundary (ev_keycode e) s)"

section \<open>The switch inside a word\<close>

definition late_stroke :: "world \<Rightarrow> key_event \<Rightarrow> engine \<Rightarrow> bool" where
  "late_stroke w e s \<longleftrightarrow>
     (case en_early_at s of
        None \<Rightarrow> False
      | Some switched \<Rightarrow> en_early_origin s = Some (ev_group e) \<and> ev_group e \<noteq> en_source s
          \<and> wo_now w - switched \<le> LATE_STROKE_GRACE_SECONDS)"

definition take_late_stroke :: "world \<Rightarrow> key_event \<Rightarrow> engine \<Rightarrow> key_event \<times> engine" where
  "take_late_stroke w e s =
     (let (converted, p) = convert_late_stroke (en_strokes s) (en_source s) (wo_application w) e
      in (converted, s\<lparr>en_pending := Some p, en_trigger := ev_keycode e, en_prompt_after := None\<rparr>))"

text \<open>\<open>_early_prefix_protection\<close>: why a prefix stays as it is; the search inside text may forget what stood around it.\<close>

definition prefix_protected :: "engine_config \<Rightarrow> surroundings \<Rightarrow> world \<Rightarrow> ustr \<Rightarrow> int \<Rightarrow> engine \<Rightarrow> bool \<times> engine" where
  "prefix_protected cf su w original source s =
     (if list_ex (\<lambda>word. starts_with (token_key word) (token_key original)) (su_ignored su) then (True, s)
      else if cf_learning cf \<and> keeps_continuation (su_rules su) source original then (True, s)
      else if flag (su_get su) ''detection.protect_code'' True \<and> cf_protected_token cf original then (True, s)
      else if en_context_waiting s \<noteq> None then (True, s)
      else insertion_holds su w original (typed_ahead (en_strokes s) s) s)"

definition bare_field :: "surroundings \<Rightarrow> world \<Rightarrow> engine \<Rightarrow> field_context" where
  "bare_field su w s =
     \<lparr>fc_application = wo_application w, fc_field_id = su_int_text su (case en_focus_window s of None \<Rightarrow> 0 | Some x \<Rightarrow> x),
      fc_before = [], fc_after = [], fc_role = Unknown_Role, fc_selection = False, fc_sensitive = False,
      fc_source = asc ''observed''\<rparr>"

text \<open>A field that turns out to hold a password: nothing observed in it is kept.\<close>

definition protect_field :: "engine \<Rightarrow> engine" where
  "protect_field s = s\<lparr>en_sensitive := en_focus_window s, en_stream := clear_context (en_stream s), en_contexts := [], en_word := [],
     en_action := Field_Is_Protected\<rparr>"

definition prefix_field :: "engine_config \<Rightarrow> surroundings \<Rightarrow> world \<Rightarrow> ustr \<Rightarrow> engine \<Rightarrow> (field_context \<times> bool) \<times> engine" where
  "prefix_field cf su w original s =
     (let field = (if flag (su_get su) ''detection.context_aware'' True
                   then context_snapshot (su_int_text su) (wo_now w) original (en_stream s) else bare_field su w s)
      in case (if reads_field su then wo_field w else None) of
           None \<Rightarrow> ((field, False), s)
         | Some read \<Rightarrow>
             let f = bounded_field read; around = typed_in_field f original (typed_ahead (en_strokes s) s)
             in if fc_sensitive f
                then ((f, True), protect_field s)
                else if around = None \<and> input_buffer_only f original \<and> \<not> fc_selection f \<and> fc_application f = wo_application w
                then ((field, False), s)
                else if fc_selection f \<or> fc_field_id f = [] \<or> fc_application f \<noteq> wo_application w then ((f, True), s)
                else case around of
                       None \<Rightarrow> ((f, True), s)
                     | Some (before, after) \<Rightarrow> ((f\<lparr>fc_before := before, fc_after := after\<rparr>, False), s))"

definition prefix_supported :: "engine_config \<Rightarrow> surroundings \<Rightarrow> ustr \<Rightarrow> ustr \<Rightarrow> int \<Rightarrow> int \<Rightarrow> bool" where
  "prefix_supported cf su original replacement source target \<longleftrightarrow>
     PREFIX_MIN_CHARACTERS \<le> length original \<and> length original \<le> PREFIX_MAX_CHARACTERS \<and> isalpha replacement
     \<and> \<not> list_ex isupper_ch (drop 1 original @ drop 1 replacement)
     \<and> source \<in> {0, 1} \<and> target = 1 - source
     \<and> 0 \<in> set (cf_models cf) \<and> 1 \<in> set (cf_models cf) \<and> su_indexes su 0 \<noteq> None \<and> su_indexes su 1 \<noteq> None"

text \<open>\<open>_decide_prefix\<close>: whether to switch, and the confidence.\<close>

definition decide_prefix ::
    "engine_config \<Rightarrow> surroundings \<Rightarrow> bool \<Rightarrow> ustr \<Rightarrow> ustr \<Rightarrow> int \<Rightarrow> int \<Rightarrow> field_context \<Rightarrow> bool \<times> real" where
  "decide_prefix cf su baseline original replacement source target field =
     (let assist = (context_mode su = JStr (asc ''assist'')); shadow = (context_mode su = JStr (asc ''shadow''))
      in if \<not> flag (su_get su) ''detection.context_aware'' True \<or> \<not> assist \<and> \<not> shadow then (baseline, EARLY_SWITCH_CONFIDENCE)
         else case su_prefix_model su of
           None \<Rightarrow> (\<not> assist \<and> baseline, EARLY_SWITCH_CONFIDENCE)
         | Some predict \<Rightarrow>
             if \<not> prefix_supported cf su original replacement source target then (\<not> assist \<and> baseline, EARLY_SWITCH_CONFIDENCE)
             else if shadow then (baseline, EARLY_SWITCH_CONFIDENCE)
             else predict original replacement source field)"

definition early_policy :: "surroundings \<Rightarrow> early_switch_policy" where
  "early_policy su = default_early_switch_policy\<lparr>pol_minimum_length := su_minimum su\<rparr>"

definition early_allowed :: "engine_config \<Rightarrow> surroundings \<Rightarrow> engine \<Rightarrow> bool" where
  "early_allowed cf su s \<longleftrightarrow>
     \<not> (su_boundary su \<noteq> None \<and> en_strokes s \<noteq> [] \<and> \<not> isalpha (ev_character (last (en_strokes s))) \<and> is_layout_letter (last (en_strokes s)))
     \<and> flag (su_get su) ''detection.early_switch'' True \<and> enabled su \<and> \<not> caret_unknown su s
     \<and> en_early_origin s = None \<and> en_pending s = None \<and> su_minimum su \<le> length (en_strokes s)
     \<and> en_source s \<in> set (cf_models cf) \<and> \<not> word_protected cf (en_source s) s"

definition maybe_early_switch :: "engine_config \<Rightarrow> surroundings \<Rightarrow> world \<Rightarrow> engine \<Rightarrow> engine" where
  "maybe_early_switch cf su w s =
     (if \<not> early_allowed cf su s then s
      else
        let strokes = en_strokes s; source = en_source s; original = text_for_group strokes source;
            alternatives = map (\<lambda>g. (g, text_for_group strokes g)) (List.filter (\<lambda>g. g \<noteq> source) (cf_models cf));
            d = early_switch_decision (su_indexes su) (su_scorers su) (early_policy su) original alternatives source;
            excluded = cf_excluded cf (wo_application w);
            (protection, s) = prefix_protected cf su w original source s;
            ((field, refused), s) =
              (if excluded \<or> protection then ((bare_field su w s, protection), s) else prefix_field cf su w original s);
            (switch, confidence) =
              (if refused then (False, EARLY_SWITCH_CONFIDENCE)
               else if excluded then (es_switch d, EARLY_SWITCH_CONFIDENCE)
               else decide_prefix cf su (es_switch d) original (es_replacement d) source (es_target d) field);
            s = (if length strokes = su_minimum su \<or> switch
                 then log_texts cf ''early_switch_evaluation'' (wo_application w) [original, es_replacement d] s else s)
        in if \<not> switch \<or> excluded then s
           else s\<lparr>en_pending := Some ((plain_plan strokes None source (es_target d) original (es_replacement d) confidence
                         (wo_application w) True Mode_Early)
                         \<lparr>cp_context_field := (if fc_source field = asc ''observed'' then [] else fc_field_id field),
                          cp_head := mention_keys cf su (wo_application w) s\<rparr>),
                   en_prompt_after := None, en_trigger := ev_keycode (last strokes)\<rparr>)"

text \<open>\<open>_refresh_early_plan\<close>: a scheduled switch takes in the letters typed since, or is dropped.\<close>

definition refresh_early ::
    "engine_config \<Rightarrow> surroundings \<Rightarrow> world \<Rightarrow> correction_plan \<Rightarrow> engine \<Rightarrow> correction_plan option \<times> engine" where
  "refresh_early cf su w p s =
     (let strokes = en_strokes s; source = cp_source p; original = text_for_group strokes source;
          replacement = text_for_group strokes (cp_target p);
          refreshed = p\<lparr>cp_strokes := strokes, cp_original := original, cp_replacement := replacement\<rparr>
      in if length strokes < length (cp_strokes p) \<or> take (length (cp_strokes p)) strokes \<noteq> cp_strokes p \<or> en_source s \<noteq> source
         then (None, s)
         else if cp_mode p \<noteq> Mode_Early then (Some refreshed, s)
         else if \<not> flag (su_get su) ''detection.early_switch'' True \<or> length strokes < su_minimum su then (None, s)
         else
           let (protection, s) = prefix_protected cf su w original source s
           in if protection \<or> \<not> isalpha replacement then (None, s)
              else
                let ((field, refused), s) = prefix_field cf su w original s
                in if refused then (None, s)
                   else case decide_prefix cf su True original replacement source (cp_target p) field of
                     (False, _) \<Rightarrow> (None, s)
                   | (True, confidence) \<Rightarrow> (Some (refreshed\<lparr>cp_confidence := confidence\<rparr>), s))"

section \<open>Keys of the word\<close>

text \<open>\<open>_ambiguous_key_is_boundary\<close>: whether a sign key of this layout ends the word.\<close>

definition ambiguous_is_boundary :: "surroundings \<Rightarrow> key_event \<Rightarrow> engine \<Rightarrow> bool" where
  "ambiguous_is_boundary su e s \<longleftrightarrow>
     su_boundary su = None \<and> en_strokes s \<noteq> [] \<and> 0 \<le> en_source s \<and> ev_character e \<notin> {[0x27], [0x2D]}
     \<and> \<not> list_ex (\<lambda>k. \<not> isalpha (ev_character k) \<and> is_layout_letter k) (en_strokes s)
     \<and> su_recognisable su (en_strokes s) (en_source s)"

definition add_stroke :: "world \<Rightarrow> key_event \<Rightarrow> int \<Rightarrow> engine \<Rightarrow> engine" where
  "add_stroke w e source s =
     (let s = word_activity w (s\<lparr>en_source := source, en_strokes := en_strokes s @ [e]\<rparr>)
      in s\<lparr>en_word := text_for_group (en_strokes s) source\<rparr>)"

end
