(* ===== verification/Key_Handling.thy ===== *)
theory Key_Handling
  imports Word_Typing
begin

text \<open>
  One key event through the engine: \<open>_handle\<close> of \<open>src/keyswitch/engine.py\<close>, branch by branch in its order, with the timers of
  the loop that let go of a correction. The end of a word (\<open>_commit_word\<close>) is an argument; the selection hotkeys, which keep a
  state of their own, are recorded as requests.
\<close>

section \<open>Before the key\<close>

definition expire_manual :: "engine_config \<Rightarrow> world \<Rightarrow> engine \<Rightarrow> engine" where
  "expire_manual cf w s =
     (case en_pending s of
        None \<Rightarrow> s
      | Some p \<Rightarrow> if \<not> cp_automatic p \<and> 0 < en_release_deadline s \<and> en_release_deadline s \<le> wo_now w
                  then let_go cf w (Some Release_Not_Seen) False s else s)"

definition take_overflow :: "engine_config \<Rightarrow> surroundings \<Rightarrow> world \<Rightarrow> engine \<Rightarrow> engine" where
  "take_overflow cf su w s =
     (if \<not> su_overflow su then s
      else let s = let_go cf w (Some Queue_Overflowed) False (complete_deferred_action False (wo_action_error w) s)
           in s\<lparr>en_untracked := True, en_stream := clear_context (en_stream s)\<rparr>)"

definition before_key :: "engine_config \<Rightarrow> surroundings \<Rightarrow> world \<Rightarrow> key_event \<Rightarrow> engine \<Rightarrow> engine" where
  "before_key cf su w e s =
     (let s = take_overflow cf su w (expire_manual cf w s);
          s = snd (take_hook_gap cf (wo_now w) (wo_application w) (wo_action_error w) (su_gap su) s)
      in if ev_pressed e then snd (track_focus cf (wo_now w) (wo_application w) (wo_action_error w) (wo_focus w) s) else s)"

definition handle_pointer :: "engine_config \<Rightarrow> world \<Rightarrow> engine \<Rightarrow> engine" where
  "handle_pointer cf w s =
     (let s = let_go cf w None False (s\<lparr>en_sensitive := None, en_convert_at := 0\<rparr>)
      in s\<lparr>en_untracked := False, en_caret_moved := False, en_contexts := [], en_stream := clear_context (en_stream s)\<rparr>)"

definition handle_suspended :: "engine_config \<Rightarrow> world \<Rightarrow> key_event \<Rightarrow> engine \<Rightarrow> engine" where
  "handle_suspended cf w e s =
     (let s = (if ev_pressed e \<and> (en_strokes s \<noteq> [] \<or> en_symbols s \<noteq> []) then let_go cf w None False s else s)
      in s\<lparr>en_convert_at := 0\<rparr>)"

definition observe_foreign :: "engine_config \<Rightarrow> world \<Rightarrow> key_event \<Rightarrow> engine \<Rightarrow> engine" where
  "observe_foreign cf w e s =
     (if \<not> ev_pressed e \<or> ev_key_name e \<in> set MODIFIER_KEYS then s
      else let s = s\<lparr>en_convert_at := 0, en_foreign_active := True\<rparr>
           in if en_deferred_action s \<noteq> None then s
              else (let_go cf w None False s)\<lparr>en_untracked := False, en_stale := True, en_contexts := []\<rparr>)"

text \<open>The rule offer on screen takes Enter and Escape, and any other key ends it; True when the key was the offer's.\<close>

definition answer_prompt :: "world \<Rightarrow> key_event \<Rightarrow> engine \<Rightarrow> bool \<times> engine" where
  "answer_prompt w e s =
     (let s = snd (expire_prompt (wo_now w) s); unmodified = (\<not> shortcut e \<and> \<not> ev_shift e)
      in if en_prompt s = None \<or> \<not> ev_pressed e \<or> ev_key_name e \<in> set MODIFIER_KEYS then (False, s)
         else if unmodified \<and> ev_key_name e \<in> {asc ''Return'', asc ''KP_Enter''}
         then (True, let s = snd (confirm_prompt (en_prompt s) s) in if ev_deferred e then tell (Action_Completed False) s else s)
         else if unmodified \<and> ev_key_name e = asc ''Escape'' then (True, snd (dismiss_prompt (en_prompt s) s))
         else (False, snd (dismiss_prompt (en_prompt s) s)))"

section \<open>The key is noted\<close>

definition engine_hotkey :: "surroundings \<Rightarrow> world \<Rightarrow> key_event \<Rightarrow> bool" where
  "engine_hotkey su w e \<longleftrightarrow>
     matches_hotkey (su_get su) (su_repr su) (asc ''toggle'') e \<or> wo_is_convert w e
     \<or> matches_hotkey (su_get su) (su_repr su) (asc ''undo'') e \<or> selection_hotkey (su_get su) (su_repr su) e \<noteq> None"

definition notice_password :: "engine_config \<Rightarrow> surroundings \<Rightarrow> world \<Rightarrow> key_event \<Rightarrow> engine \<Rightarrow> engine" where
  "notice_password cf su w e s =
     (if ev_character e \<noteq> [] \<and> en_strokes s = [] \<and> en_sensitive s = None \<and> \<not> cf_excluded cf (wo_application w) \<and> enabled su
         \<and> reads_field su \<and> (case wo_field w of None \<Rightarrow> False | Some f \<Rightarrow> fc_sensitive f)
      then let s = cancel_context_wait (s\<lparr>en_sensitive := en_focus_window s\<rparr>) in s\<lparr>en_stream := clear_context (en_stream s)\<rparr>
      else s)"

definition context_observed :: "engine_config \<Rightarrow> surroundings \<Rightarrow> world \<Rightarrow> bool" where
  "context_observed cf su w \<longleftrightarrow>
     enabled su \<and> flag (su_get su) ''detection.context_aware'' True \<and> context_mode su \<noteq> JStr (asc ''off'')
     \<and> \<not> cf_excluded cf (wo_application w)"

definition observe_press :: "engine_config \<Rightarrow> surroundings \<Rightarrow> world \<Rightarrow> key_event \<Rightarrow> engine \<Rightarrow> engine" where
  "observe_press cf su w e s =
     (let s = notice_password cf su w e s;
          s = (if en_sensitive s = None \<and> \<not> cf_excluded cf (wo_application w)
               then s\<lparr>en_templates := observe_template e (en_templates s)\<rparr> else s);
          c = focus_context (wo_application w) (case en_focus_window s of None \<Rightarrow> 0 | Some x \<Rightarrow> x) (en_stream s);
          c = (if \<not> context_observed cf su w then clear_context c
               else if engine_hotkey su w e then c else observe_event (wo_now w) e c);
          s = s\<lparr>en_stream := c\<rparr>
      in if ev_key_name e = asc ''BackSpace'' \<or> shortcut e then cancel_context_wait s else s)"

definition note_press :: "engine_config \<Rightarrow> world \<Rightarrow> key_event \<Rightarrow> engine \<Rightarrow> engine" where
  "note_press cf w e s =
     (let s = (if late_stroke w e s then s
               else observe_group cf (wo_now w) (wo_application w) (wo_action_error w) (wo_focus w) ''keystroke'' (ev_group e) s)
      in s\<lparr>en_pressed := insert (ev_keycode e) (en_pressed s),
           en_pressed_since := AList.update (ev_keycode e) (wo_now w) (en_pressed_since s)\<rparr>)"

definition note_release :: "key_event \<Rightarrow> engine \<Rightarrow> engine" where
  "note_release e s =
     s\<lparr>en_pressed := en_pressed s - {ev_keycode e}, en_pressed_since := AList.delete (ev_keycode e) (en_pressed_since s)\<rparr>"

definition note_modifier :: "key_event \<Rightarrow> engine \<Rightarrow> engine" where
  "note_modifier e s =
     s\<lparr>en_modifiers := (if ev_pressed e then insert (ev_keycode e) (en_modifiers s) else en_modifiers s - {ev_keycode e})\<rparr>"

definition note_character :: "key_event \<Rightarrow> engine \<Rightarrow> engine" where
  "note_character e s =
     (if \<not> ev_pressed e \<or> ev_synthetic e then s
      else let typed = (if ev_key_name e \<in> {asc ''BackSpace'', asc ''Delete''} then [] else ev_character e)
           in s\<lparr>en_character_before := en_last_character s,
                en_last_character := (if isprintable typed \<or> isspace typed then typed else [])\<rparr>)"

section \<open>The hotkeys and the editing keys\<close>

definition undo_hotkey :: "engine_config \<Rightarrow> world \<Rightarrow> int \<Rightarrow> engine \<Rightarrow> engine" where
  "undo_hotkey cf w trigger s =
     (case undo_past_spaces (cl_last (en_log s)) (en_committed s) (en_pending s) (en_stale s) (en_strokes s) (en_symbols s)
             (cl_time (en_log s)) (wo_now w) of
        None \<Rightarrow> schedule_undo cf (wo_now w) (wo_application w) trigger s
      | Some (p, _) \<Rightarrow> queue_undo cf (wo_now w) p trigger s)"

definition convert_hotkey :: "engine_config \<Rightarrow> surroundings \<Rightarrow> world \<Rightarrow> key_event \<Rightarrow> engine \<Rightarrow> engine" where
  "convert_hotkey cf su w e s =
     (let (double, s) = double_convert_press cf (wo_now w) e s
      in if double then press_twice cf (wo_now w) (wo_application w) (su_switch_error su) (ev_keycode e) s
         else schedule_manual_conversion cf (wo_now w) (wo_application w) (su_switch_error su) (ev_keycode e) s)"

definition erase_stroke :: "engine \<Rightarrow> engine" where
  "erase_stroke s =
     (let s = reset_pause (s\<lparr>en_strokes := butlast (en_strokes s)\<rparr>);
          s = (if en_strokes s = [] then s\<lparr>en_source := -1, en_early_origin := None, en_early_at := None\<rparr> else s)
      in s\<lparr>en_word := text_for_group (en_strokes s) (en_source s)\<rparr>)"

definition handle_backspace :: "engine_config \<Rightarrow> world \<Rightarrow> key_event \<Rightarrow> engine \<Rightarrow> engine" where
  "handle_backspace cf w e s =
     (let s = (if en_strokes s = [] then personal_word_settled False s else s);
          reopened = reopenable_word (en_committed s) (en_stale s) (en_strokes s) (en_symbols s);
          s = (log_pending_dropped cf s)\<lparr>en_stale := True, en_pending := None, en_prompt_after := None, en_caret_moved := False\<rparr>;
          s = (if en_strokes s \<noteq> [] then erase_stroke s
               else if en_symbols s \<noteq> []
               then s\<lparr>en_symbols := butlast (en_symbols s),
                      en_mention_shown := (if butlast (en_symbols s) = [] then None else en_mention_shown s)\<rparr>
               else case reopened of
                      Some p \<Rightarrow> s\<lparr>en_strokes := cp_strokes p, en_source := cp_source p,
                                  en_word := text_for_group (cp_strokes p) (cp_source p)\<rparr>
                    | None \<Rightarrow> s\<lparr>en_position_unknown := True\<rparr>)
      in case en_mention_shown s of
           Some head \<Rightarrow> if en_strokes s = [] then s else hide_mention cf w head None (ev_keycode e) s
         | None \<Rightarrow> s)"

text \<open>\<open>_settle_context_wait_at_action\<close>: the context model's answer is a parameter.\<close>

definition settle_at_action :: "engine_config \<Rightarrow> surroundings \<Rightarrow> world \<Rightarrow> key_event \<Rightarrow> engine \<Rightarrow> engine" where
  "settle_at_action cf su w e s =
     (case en_context_waiting s of
        None \<Rightarrow> s
      | Some waiting \<Rightarrow>
          if ww_converted waiting \<or> en_pending s \<noteq> None \<or> en_stale s
             \<or> ww_window waiting \<noteq> (case en_focus_window s of None \<Rightarrow> 0 | Some x \<Rightarrow> x)
             \<or> context_mode su \<noteq> JStr (asc ''assist'') \<or> \<not> enabled su \<or> \<not> boundary_enabled (su_get su) e
             \<or> cp_application (ww_plan waiting) \<noteq> wo_application w \<or> cf_excluded cf (wo_application w) then s
          else case su_settles su e waiting of
                 None \<Rightarrow> s\<lparr>en_context_waiting := None\<rparr>
               | Some confidence \<Rightarrow>
                   s\<lparr>en_context_waiting := None, en_prompt_after := None,
                     en_pending := Some ((ww_plan waiting)\<lparr>cp_confidence := confidence\<rparr>)\<rparr>)"

definition handle_action ::
    "engine_config \<Rightarrow> surroundings \<Rightarrow> world \<Rightarrow> (key_event \<Rightarrow> engine \<Rightarrow> engine) \<Rightarrow> key_event \<Rightarrow> engine \<Rightarrow> engine" where
  "handle_action cf su w commit e s =
     (if ev_deferred e
      then let s = s\<lparr>en_deferred_action := Some e, en_action_deadline := wo_now w + ACTION_TIMEOUT_SECONDS\<rparr>
           in if en_strokes s \<noteq> [] \<and> \<not> en_untracked s then commit e s else settle_at_action cf su w e s
      else let s = let_go cf w None False s
           in s\<lparr>en_untracked := False, en_caret_moved := False, en_contexts := [], en_stream := clear_context (en_stream s),
                en_sensitive := None\<rparr>)"

section \<open>The keys of the text\<close>

definition handle_letter ::
    "engine_config \<Rightarrow> surroundings \<Rightarrow> world \<Rightarrow> (key_event \<Rightarrow> engine \<Rightarrow> engine) \<Rightarrow> key_event \<Rightarrow> engine \<Rightarrow> engine" where
  "handle_letter cf su w commit e s =
     (let s = s\<lparr>en_stale := True\<rparr>
      in if \<not> isalpha (ev_character e) \<and> ambiguous_is_boundary su e s then commit e s
         else
           let (e, s) = (if late_stroke w e s then take_late_stroke w e s else (e, s));
               s = (if en_source s \<noteq> -1 \<and> en_source s \<noteq> ev_group e then let_go cf w None False s else s);
               s = (if en_strokes s = [] \<and> list_ex (\<lambda>k. ev_character k \<in> {[0x40], [0x5F], [0x2F], [0x5C]}) (en_symbols s)
                    then s\<lparr>en_strokes := en_symbols s, en_symbols := []\<rparr> else s);
               s = add_stroke w e (ev_group e) (begin_word cf su w e s);
               s = after_mention cf w e None (s\<lparr>en_group := ev_group e, en_error := []\<rparr>)
           in maybe_early_switch cf su w s)"

definition handle_separator :: "engine_config \<Rightarrow> surroundings \<Rightarrow> world \<Rightarrow> key_event \<Rightarrow> engine \<Rightarrow> engine" where
  "handle_separator cf su w e s =
     (let s = (if space_follows_pending_sign (en_pending s) e
               then let p = the (en_pending s)
                    in s\<lparr>en_pending := Some (p\<lparr>cp_trailing := cp_trailing p @ boundary_keys p, cp_boundary := Some e,
                            cp_revisit := None\<rparr>)\<rparr>
               else (log_pending_dropped cf s)\<lparr>en_pending := None\<rparr>);
          s = s\<lparr>en_prompt_after := None\<rparr>;
          s = (if ev_key_name e \<in> set WORD_BOUNDARY_KEYS \<or> isspace (ev_character e) then s\<lparr>en_symbols := []\<rparr>
               else if layout_dependent e then s\<lparr>en_symbols := en_symbols s @ [e]\<rparr> else s);
          s = (if pause_reaches_past (en_committed s) (en_stale s) [e]
               then s\<lparr>en_committed := extend_committed (the (en_committed s)) [e]\<rparr> else s\<lparr>en_stale := True\<rparr>)
      in if en_mention_shown s \<noteq> None then after_mention cf w e (Some e) s
         else if en_symbols s = [e] then show_mention cf su w e s else s)"

definition handle_boundary ::
    "engine_config \<Rightarrow> surroundings \<Rightarrow> world \<Rightarrow> (key_event \<Rightarrow> engine \<Rightarrow> engine) \<Rightarrow> key_event \<Rightarrow> engine \<Rightarrow> engine" where
  "handle_boundary cf su w commit e s =
     (if en_strokes s = [] \<and> ev_character e = [0x2D]
      then after_mention cf w e None (word_activity w (s\<lparr>en_source := ev_group e, en_strokes := [e]\<rparr>))
      else if en_strokes s \<noteq> [] then commit e s
      else handle_separator cf su w e s)"

definition handle_sign :: "engine_config \<Rightarrow> surroundings \<Rightarrow> world \<Rightarrow> key_event \<Rightarrow> engine \<Rightarrow> engine" where
  "handle_sign cf su w e s =
     (let s = (if joins_parts e \<and> list_all joins_parts (en_strokes s) then s else s\<lparr>en_stale := True\<rparr>)
      in if en_strokes s \<noteq> [] then add_stroke w e (en_source s) s
         else if layout_dependent e then s\<lparr>en_symbols := en_symbols s @ [e]\<rparr>
         else after_mention cf w e None (add_stroke w e (ev_group e) (begin_word cf su w e s)))"

definition joining_sign :: "key_event \<Rightarrow> bool" where
  "joining_sign e \<longleftrightarrow> ev_character e \<in> set WORD_JOINERS \<union> {[0x5F], [0x40], [0x2F], [0x5C], [0x3D]}"

definition handle_text ::
    "engine_config \<Rightarrow> surroundings \<Rightarrow> world \<Rightarrow> (key_event \<Rightarrow> engine \<Rightarrow> engine) \<Rightarrow> key_event \<Rightarrow> engine \<Rightarrow> engine" where
  "handle_text cf su w commit e s =
     (if en_sensitive s \<noteq> None then s
      else if en_untracked s then (if is_boundary e then s\<lparr>en_untracked := False\<rparr> else s)
      else if ev_character e \<noteq> [] \<and> \<not> safe_text_stroke e \<and> \<not> (length (ev_character e) = 1 \<and> isspace (ev_character e))
              \<or> MAX_WORD_STROKES \<le> length (en_strokes s) + length (en_symbols s)
      then (let_go cf w None False s)\<lparr>en_untracked := \<not> is_boundary e\<rparr>
      else if en_strokes s \<noteq> [] \<and> joining_sign e then add_stroke w e (en_source s) s
      else if is_layout_letter e then handle_letter cf su w commit e s
      else if is_boundary e then handle_boundary cf su w commit e s
      else if ev_key_name e \<in> set NAVIGATION_KEYS then (let_go cf w None False (s\<lparr>en_stale := True\<rparr>))\<lparr>en_caret_moved := True\<rparr>
      else if ev_character e \<noteq> [] then handle_sign cf su w e s
      else if ev_key_name e \<notin> {asc ''Pause'', asc ''Break''} then (let_go cf w None False s)\<lparr>en_untracked := True\<rparr>
      else s)"

definition handle_press ::
    "engine_config \<Rightarrow> surroundings \<Rightarrow> world \<Rightarrow> (key_event \<Rightarrow> engine \<Rightarrow> engine) \<Rightarrow> key_event \<Rightarrow> engine \<Rightarrow> engine" where
  "handle_press cf su w commit e s =
     (let s = (if wo_is_convert w e then s else s\<lparr>en_convert_at := 0\<rparr>)
      in if matches_hotkey (su_get su) (su_repr su) (asc ''toggle'') e
         then let_go cf w (Some (Corrections_Switched (\<not> enabled su))) False (tell (Enabled_Set (\<not> enabled su)) s)
         else if wo_is_convert w e then convert_hotkey cf su w e s
         else if matches_hotkey (su_get su) (su_repr su) (asc ''undo'') e then undo_hotkey cf w (ev_keycode e) s
         else case selection_hotkey (su_get su) (su_repr su) e of
           Some name \<Rightarrow> tell (Selection_Requested name) s
         | None \<Rightarrow>
             if shortcut e then let_go cf w None False s
             else if ev_key_name e = asc ''BackSpace'' then handle_backspace cf w e s
             else if ev_key_name e \<in> set ACTION_BOUNDARY_KEYS then handle_action cf su w commit e s
             else handle_text cf su w commit e s)"

section \<open>The event\<close>

definition handle_key ::
    "engine_config \<Rightarrow> surroundings \<Rightarrow> world \<Rightarrow> (key_event \<Rightarrow> engine \<Rightarrow> engine) \<Rightarrow> key_event \<Rightarrow> engine \<Rightarrow> engine" where
  "handle_key cf su w commit e s =
     (let s = (if ev_pressed e then note_press cf w e (observe_press cf su w e s) else note_release e s);
          run = maybe_execute_pending cf w (refresh_early cf su w) e
      in if ev_key_name e \<in> set MODIFIER_KEYS then run (note_modifier e s)
         else if \<not> ev_pressed e
         then run (if ev_keycode e = en_convert_keycode s then s\<lparr>en_convert_released := True\<rparr> else s)
         else handle_press cf su w commit e (note_character e s))"

definition handle ::
    "engine_config \<Rightarrow> surroundings \<Rightarrow> world \<Rightarrow> (key_event \<Rightarrow> engine \<Rightarrow> engine) \<Rightarrow> key_event \<Rightarrow> engine \<Rightarrow> engine" where
  "handle cf su w commit e s =
     (let s = before_key cf su w e s
      in if ev_key_name e = asc ''Pointer'' then handle_pointer cf w s
         else if en_suspended s then handle_suspended cf w e s
         else if ev_foreign e \<and> \<not> accepts_injected cf e then observe_foreign cf w e s
         else
           let s = (if ev_pressed e \<and> ev_key_name e \<notin> set MODIFIER_KEYS then s\<lparr>en_foreign_active := False\<rparr> else s)
           in case answer_prompt w e s of (True, s) \<Rightarrow> s | (False, s) \<Rightarrow> handle_key cf su w commit e s)"

text \<open>\<open>_expire_deferred_action\<close> and \<open>_retry_field_wait\<close>: the timers of the loop that make or give up a correction.\<close>

definition expire_action :: "engine_config \<Rightarrow> surroundings \<Rightarrow> world \<Rightarrow> engine \<Rightarrow> engine" where
  "expire_action cf su w s =
     (case en_deferred_action s of
        None \<Rightarrow> s
      | Some action \<Rightarrow>
          if wo_now w < en_action_deadline s then s
          else
            let s = prune_stale_presses (wo_now w) (wo_now w - (en_action_deadline s - ACTION_TIMEOUT_SECONDS))
                      (Some (ev_keycode action)) s
            in if en_pressed s \<noteq> {} \<or> en_modifiers s \<noteq> {} then let_go cf w None False s
               else maybe_execute_pending cf w (refresh_early cf su w) action s)"

definition retry_field_wait :: "engine_config \<Rightarrow> world \<Rightarrow> engine \<Rightarrow> engine" where
  "retry_field_wait cf w s =
     (case en_field_wait s of
        None \<Rightarrow> s
      | Some waiting \<Rightarrow>
          if en_pressed s \<noteq> {} \<or> en_modifiers s \<noteq> {} then s
          else if en_pending s \<noteq> None then s\<lparr>en_field_wait := None\<rparr>
          else snd (execute_correction cf w (fw_plan waiting) (fw_prompt waiting) s))"

text \<open>\<open>_apply_layout_selection\<close>: a layout picked in the menu of the tray.\<close>

definition select_layout :: "engine_config \<Rightarrow> surroundings \<Rightarrow> world \<Rightarrow> int \<Rightarrow> engine \<Rightarrow> engine" where
  "select_layout cf su w grp s =
     (let s = tell (Group_Switched grp) s
      in case su_switch_error su of
           Some error \<Rightarrow> s\<lparr>en_error := be_message error, en_action := Layout_Not_Chosen\<rparr>
         | None \<Rightarrow>
             let s = note_engine_switch (wo_now w) grp ((let_go cf w None False s)\<lparr>en_stale := True\<rparr>)
             in s\<lparr>en_manual_group := (if cf_respect_manual cf then Some grp else None), en_manual_at := Some (wo_now w),
                  en_manual_source := ''menu'', en_manual_word := False, en_group := grp, en_action := Layout_Chosen grp,
                  en_error := []\<rparr>)"

end
