(* ===== verification/Context_Policy.thy ===== *)
theory Context_Policy
  imports Field_Check Word_Decision Identifier_Lexicon
begin

text \<open>
  \<open>src/keyswitch/context_policy.py\<close>: what becomes of the context model's answer about a word (\<open>ContextPolicy.decide\<close>), with the
  classes of tokens its heads answer for (\<open>context_action_features.py\<close>) and the term tables it reads (\<open>context_model.py\<close>).
  The trained models, the packaged tables and the reader of the field are fields of the record \<open>policy\<close>.
\<close>

definition CONTEXT_TYPO_MIN_CHARACTERS :: nat where "CONTEXT_TYPO_MIN_CHARACTERS = 5"
definition ACTION_FEATURE_BEFORE_CONTEXT_CHARACTERS :: nat where "ACTION_FEATURE_BEFORE_CONTEXT_CHARACTERS = 512"
definition OPENING_SHORT_MAX_LETTERS :: nat where "OPENING_SHORT_MAX_LETTERS = 3"
definition RESUME_LEADING_SIGNS :: ustr where "RESUME_LEADING_SIGNS = [0x22, 0xAB, 0x28]"
definition ALNUM_HEAD_MAX_CHARACTERS :: nat where "ALNUM_HEAD_MAX_CHARACTERS = 8"
definition RUSSIAN_SLANG_MIN_TERM_BUCKET :: nat where "RUSSIAN_SLANG_MIN_TERM_BUCKET = 2"
definition CONTEXT_TERM_FREQUENCY_BUCKET_BOUNDS :: "nat list" where "CONTEXT_TERM_FREQUENCY_BUCKET_BOUNDS = [5, 50, 500, 5000]"
definition MINIMUM_SHAPED_TOKEN_CHARACTERS :: nat where "MINIMUM_SHAPED_TOKEN_CHARACTERS = 2"
definition ACRONYM_MIN_LETTERS :: nat where "ACRONYM_MIN_LETTERS = 2"
definition INNER_MARKS :: ustr where "INNER_MARKS = [0x2D, 0x27, 0x2019]"
definition WORD_QUOTES :: ustr where "WORD_QUOTES = [0x22, 0x27]"
definition QUOTED_WORD_CLOSING_SIGNS :: ustr where "QUOTED_WORD_CLOSING_SIGNS = [0x2E, 0x2C, 0x3A, 0x3B, 0x21, 0x3F]"
definition TERM_EDGE_SIGNS :: ustr where
  "TERM_EDGE_SIGNS = [0x2E, 0x2C, 0x21, 0x3F, 0x3A, 0x3B, 0x22, 0x27, 0x28, 0x29, 0x5B, 0x5D, 0x7B, 0x7D, 0x3C, 0x3E, 0xAB, 0xBB, 0x2D]"
definition VARIABLE_HEAD_TRIGGERS :: "trigger list" where "VARIABLE_HEAD_TRIGGERS = [On_Space, On_Punctuation]"
definition CYRLETTER_HEAD_TRIGGERS :: "trigger list" where "CYRLETTER_HEAD_TRIGGERS = [On_Space, On_Punctuation]"
definition DIGIT_DOT_HEAD_TRIGGERS :: "trigger list" where "DIGIT_DOT_HEAD_TRIGGERS = [On_Space]"
definition DIGIT_DOT_SIGN_LETTERS :: ustr where "DIGIT_DOT_SIGN_LETTERS = [0x44E]"
definition DIGIT_DOT_SIGNS :: ustr where "DIGIT_DOT_SIGNS = [0x2E]"

section \<open>The shapes of a token\<close>

definition ascii_text :: "ustr \<Rightarrow> bool" where "ascii_text s \<longleftrightarrow> list_all (\<lambda>c. c < 0x80) s"

text \<open>\<open>str.split()\<close>.\<close>

definition split_words :: "ustr \<Rightarrow> ustr list" where "split_words s = List.filter (\<lambda>w. w \<noteq> []) (split_on isspace_ch s)"

definition ends_in_space :: "ustr \<Rightarrow> bool" where "ends_in_space s \<longleftrightarrow> s \<noteq> [] \<and> isspace_ch (last s)"

definition cyrillic_letter :: "uchar \<Rightarrow> bool" where
  "cyrillic_letter c \<longleftrightarrow> (case casefold_ch c of [d] \<Rightarrow> 0x430 \<le> d \<and> d \<le> 0x44F \<or> d = 0x451 | _ \<Rightarrow> False)"

definition letters_and_digits :: "ustr \<Rightarrow> bool" where
  "letters_and_digits token \<longleftrightarrow>
     (let letters = List.filter isalpha_ch token
      in letters \<noteq> [] \<and> list_ex (\<lambda>c. c < 0x80 \<and> isdigit_ch c) token
         \<and> list_all (\<lambda>c. isalpha_ch c \<or> c < 0x80 \<and> isdigit_ch c) token
         \<and> (list_all (\<lambda>c. c < 0x80) letters \<or> list_all cyrillic_letter letters))"

definition latin_dominant :: "ustr \<Rightarrow> bool" where
  "latin_dominant text \<longleftrightarrow>
     length (List.filter (\<lambda>c. 0x430 \<le> c \<and> c \<le> 0x44F \<or> c = 0x451) text) < length (List.filter (\<lambda>c. 0x61 \<le> c \<and> c \<le> 0x7A) text)"

definition word_shaped :: "ustr \<Rightarrow> bool" where
  "word_shaped token \<longleftrightarrow>
     MINIMUM_SHAPED_TOKEN_CHARACTERS \<le> length token \<and> isalpha_ch (hd token) \<and> isalpha_ch (last token)
     \<and> (let marks = List.filter (\<lambda>c. \<not> isalpha_ch c) (butlast (tl token)) in set marks \<subseteq> set INNER_MARKS \<and> length marks \<le> 1)"

text \<open>The split of \<open>quoted_or_scoped\<close>, at dots and, unless the token is in capitals, at one colon or two.\<close>

fun scoped_parts :: "bool \<Rightarrow> bool \<Rightarrow> ustr \<Rightarrow> ustr \<Rightarrow> ustr list" where
  "scoped_parts colons after [] part = [part]"
| "scoped_parts colons after (c # s) part =
     (if c = 0x2E then part # scoped_parts colons False s []
      else if colons \<and> c = 0x3A then (if after then scoped_parts colons False s part else part # scoped_parts colons True s [])
      else scoped_parts colons False s (part @ [c]))"

definition removesuffix :: "ustr \<Rightarrow> ustr \<Rightarrow> ustr" where
  "removesuffix suffix s = (if ends_with s suffix then take (length s - length suffix) s else s)"

text \<open>\<open>core[0]\<close> of the empty text raises: the empty text is in \<open>WORD_QUOTES\<close>.\<close>

definition quoted_or_scoped :: "ustr \<Rightarrow> ustr \<Rightarrow> py_error + bool" where
  "quoted_or_scoped replacement original =
     (if replacement = [] then Inl IndexError
      else
        let core = (if hd replacement \<in> set WORD_QUOTES
                    then let quote = [hd replacement]; core = tl replacement;
                             core = (if core \<noteq> [] \<and> last core \<in> set QUOTED_WORD_CLOSING_SIGNS \<and> ends_with (butlast core) quote
                                     then butlast core else core)
                         in removesuffix quote core
                    else replacement)
        in Inr (core \<noteq> [] \<and> list_all isalpha (scoped_parts (\<not> isupper original) False core [])))"

text \<open>The shapes \<open>_spelling_a_word\<close> lets through.\<close>

definition spelled_as_word :: "ustr \<Rightarrow> ustr \<Rightarrow> py_error + bool" where
  "spelled_as_word original replacement =
     (let body = (if starts_with replacement [0x2E] then drop 1 replacement else replacement)
      in if isalpha body \<or> word_shaped body \<or> list_all isalpha (split_on (\<lambda>c. c = 0x2E) body) then Inr True
         else quoted_or_scoped body original)"

datatype case_shape = All_Capitals | Initial_Capital | Inner_Capital | Small_Letters

definition shape_of :: "ustr \<Rightarrow> bool \<Rightarrow> case_shape" where
  "shape_of token first_in_field =
     (let letters = List.filter isalpha_ch token
      in if ACRONYM_MIN_LETTERS \<le> length letters \<and> list_all isupper_ch letters then All_Capitals
         else if isupper (take 1 token) then (if first_in_field then Initial_Capital else Inner_Capital)
         else Small_Letters)"

section \<open>The words the tables count\<close>

datatype term_table = Cyrillic_Terms | Latin_Terms | English_Prose | Russian_Prose

record tables =
  tb_terms :: "term_table \<Rightarrow> ustr \<Rightarrow> nat"
  tb_alnum_cyrillic :: "ustr \<Rightarrow> nat"
  tb_alnum_latin :: "ustr \<Rightarrow> nat"

definition term_bucket :: "tables \<Rightarrow> ustr \<Rightarrow> term_table \<Rightarrow> nat option" where
  "term_bucket tb text table =
     (let core = casefold (rstrip_chars (\<lambda>c. c \<in> set TERM_EDGE_SIGNS) (lstrip_chars (\<lambda>c. c \<in> set TERM_EDGE_SIGNS) text))
      in if isalpha core
         then Some (length (List.filter (\<lambda>bound. bound \<le> tb_terms tb table core) CONTEXT_TERM_FREQUENCY_BUCKET_BOUNDS)) else None)"

definition russian_slang :: "tables \<Rightarrow> ustr \<Rightarrow> ustr \<Rightarrow> int \<Rightarrow> bool \<Rightarrow> bool" where
  "russian_slang tb original alternative source known \<longleftrightarrow>
     source = 1 \<and> \<not> known \<and> (case term_bucket tb original Cyrillic_Terms of None \<Rightarrow> False | Some b \<Rightarrow> RUSSIAN_SLANG_MIN_TERM_BUCKET \<le> b)
     \<and> term_bucket tb alternative Latin_Terms = Some 0 \<and> term_bucket tb alternative English_Prose = Some 0"

definition one_typo_from_word :: "ustr \<Rightarrow> ustr \<Rightarrow> language_model \<Rightarrow> bool" where
  "one_typo_from_word letters text m \<longleftrightarrow>
     (let word = normalize_word text; known = (\<lambda>w. count_of (lm_frequencies m) w \<noteq> 0)
      in \<not> (length word < CONTEXT_TYPO_MIN_CHARACTERS \<or> word \<noteq> casefold text \<or> \<not> isalpha word \<or> known word)
         \<and> (list_ex (\<lambda>i. let head = take i word; tail = drop (i + 1) word; current = word ! i
                in known (head @ tail) \<or> tail \<noteq> [] \<and> known (head @ take 1 tail @ [current] @ drop 1 tail)
                   \<or> list_ex (\<lambda>c. c \<noteq> current \<and> known (head @ [c] @ tail)) letters) [0..<length word]
            \<or> list_ex (\<lambda>i. list_ex (\<lambda>c. known (take i word @ [c] @ drop i word)) letters) [0..<Suc (length word)]))"

section \<open>The classes the heads answer for\<close>

datatype after_origin = No_After | Field_After | Planned_Next | Kept_Next
datatype before_origin = Field_Before | Planned_Previous

definition letter_question :: "ustr \<Rightarrow> ustr \<Rightarrow> ustr \<Rightarrow> bool" where
  "letter_question original alternative before \<longleftrightarrow>
     length original = 1 \<and> isalpha original \<and> isalpha alternative \<and> ends_in_space before
     \<and> (let words = split_words before; letters = (if words = [] then [] else List.filter isalpha_ch (last words))
        in letters \<noteq> [] \<and> ascii_text letters)"

definition resume_word :: "ustr \<Rightarrow> ustr" where
  "resume_word token =
     (let word = (if token \<noteq> [] \<and> hd token \<in> set RESUME_LEADING_SIGNS then tl token else token)
      in if isalpha word \<and> length word \<le> OPENING_SHORT_MAX_LETTERS then word else [])"

definition letters_seen :: "ustr \<Rightarrow> ustr" where
  "letters_seen before = List.filter isalpha_ch (last_n ACTION_FEATURE_BEFORE_CONTEXT_CHARACTERS before)"

definition resume_question :: "ustr \<Rightarrow> ustr \<Rightarrow> ustr \<Rightarrow> ustr \<Rightarrow> after_origin \<Rightarrow> bool" where
  "resume_question original alternative before after origin \<longleftrightarrow>
     origin = Planned_Next \<and> letters_seen before \<noteq> [] \<and> last (letters_seen before) < 0x80
     \<and> list_ex isalpha_ch after \<and> resume_word original \<noteq> [] \<and> resume_word alternative \<noteq> []
     \<and> \<not> letter_question original alternative before"

definition variable_question :: "ustr \<Rightarrow> ustr \<Rightarrow> ustr \<Rightarrow> trigger \<Rightarrow> bool" where
  "variable_question original alternative before trigger \<longleftrightarrow>
     length original = 1 \<and> cyrillic_letter (hd original) \<and> length alternative = 1 \<and> isalpha alternative
     \<and> casefold original \<notin> set TRUSTED_SINGLE_LETTER_WORDS \<and> ends_in_space before \<and> trigger \<in> set VARIABLE_HEAD_TRIGGERS
     \<and> split_words before \<noteq> [] \<and> list_all cyrillic_letter (last (split_words before))"

definition cyrletter_question :: "ustr \<Rightarrow> ustr \<Rightarrow> ustr \<Rightarrow> trigger \<Rightarrow> bool" where
  "cyrletter_question original alternative before trigger \<longleftrightarrow>
     length original = 1 \<and> ascii_text original \<and> isalpha original \<and> length alternative = 1
     \<and> casefold alternative \<in> set TRUSTED_SINGLE_LETTER_WORDS \<and> trigger \<in> set CYRLETTER_HEAD_TRIGGERS
     \<and> letters_seen before \<noteq> [] \<and> cyrillic_letter (last (letters_seen before))"

definition digit_dot_question :: "ustr \<Rightarrow> ustr \<Rightarrow> trigger \<Rightarrow> bool" where
  "digit_dot_question original alternative trigger \<longleftrightarrow>
     trigger \<in> set DIGIT_DOT_HEAD_TRIGGERS \<and> length original = length alternative
     \<and> (let head = length (takeWhile isdigit_ch original); rest = drop (head + 1) original
        in 0 < head \<and> head < length original \<and> original ! head \<in> set DIGIT_DOT_SIGN_LETTERS \<and> alternative ! head \<in> set DIGIT_DOT_SIGNS
           \<and> take head alternative = take head original \<and> drop (head + 1) alternative = rest \<and> (rest = [] \<or> isdigit rest))"

definition alnum_question :: "tables \<Rightarrow> ustr \<Rightarrow> ustr \<Rightarrow> ustr \<Rightarrow> bool" where
  "alnum_question tb original alternative before \<longleftrightarrow>
     length original \<le> ALNUM_HEAD_MAX_CHARACTERS \<and> \<not> ascii_text original \<and> letters_and_digits original
     \<and> ascii_text alternative \<and> letters_and_digits alternative
     \<and> \<not> latin_dominant (casefold (last_n ACTION_FEATURE_BEFORE_CONTEXT_CHARACTERS before))
     \<and> (tb_alnum_cyrillic tb (casefold original) \<noteq> 0 \<or> tb_alnum_latin tb (casefold alternative) \<noteq> 0)"

section \<open>The models and the question\<close>

datatype model_action = Model_Convert | Model_Keep | Model_Wait | Model_Suggest

record context_prediction =
  xp_action :: model_action
  xp_probability :: real

record context_evidence =
  ce_original :: ustr
  ce_alternative :: ustr
  ce_source :: int
  ce_field :: field_context
  ce_trigger :: trigger
  ce_baseline_convert :: bool
  ce_source_score :: word_score
  ce_target_score :: word_score
  ce_model_probability :: "real option"
  ce_model_threshold :: "real option"
  ce_literal_tail :: ustr
  ce_ortho :: "(real \<times> real) option"
  ce_boundary_text :: ustr
  ce_after_origin :: after_origin
  ce_before_origin :: before_origin
  ce_source_identifier :: bool
  ce_target_identifier :: bool
  ce_source_typo :: bool
  ce_target_typo :: bool
  ce_source_opening :: bool
  ce_target_opening :: bool
  ce_inside :: bool

record context_model =
  cm_action_version :: bool
  cm_predict :: "context_evidence \<Rightarrow> context_prediction"
  cm_letters :: bool
  cm_variables :: bool
  cm_alnum :: bool
  cm_resume :: bool
  cm_cyrletter :: bool
  cm_digit_dot :: bool

text \<open>
  The character model of keys: the score of \<open>OrthoModel.score\<close> when it supports the token, asked with the known words of the
  English layout (\<open>True\<close>) and the Russian one; its thresholds by the layout typed in.
\<close>

record ortho_model =
  om_score :: "ustr \<Rightarrow> case_shape \<Rightarrow> bool \<Rightarrow> (bool \<Rightarrow> ustr \<Rightarrow> bool) option \<Rightarrow> real option"
  om_threshold :: "bool \<Rightarrow> real"
  om_minimum_length :: nat

record policy =
  po_model :: "context_model option"
  po_ortho :: "ortho_model option"
  po_reader :: bool
  po_tables :: tables
  po_identifiers :: "ustr \<Rightarrow> bool"
  po_lexicon :: "int \<Rightarrow> (ustr \<times> language_model) option"

datatype result_source = By_Baseline | By_Safety | By_Model | By_Short_Word | By_Keys

datatype fallback =
    No_Fallback | Mode_Disabled | Model_Unavailable | Sensitive_Or_Selected_Field | Field_Changed | Field_Input_Buffer
  | Field_Behind | Shadow_Mode | Trusted_Short | Replacement_No_Word | Keys_Licence

text \<open>\<open>ContextResult\<close>.\<close>

record context_result =
  cr_decision :: decision
  cr_prediction :: "context_prediction option"
  cr_field :: "field_context option"
  cr_applied :: bool
  cr_source :: result_source
  cr_fallback :: fallback
  cr_withheld :: nat

definition plain_result :: "decision \<Rightarrow> fallback \<Rightarrow> context_result" where
  "plain_result d f =
     \<lparr>cr_decision = d, cr_prediction = None, cr_field = None, cr_applied = False, cr_source = By_Baseline, cr_fallback = f,
      cr_withheld = 0\<rparr>"

definition cr_action :: "context_result \<Rightarrow> model_action option" where "cr_action r = map_option xp_action (cr_prediction r)"

datatype policy_mode = Assist_Mode | Shadow_Mode_Set | Other_Mode

record question =
  qu_baseline :: decision
  qu_alternative :: ustr
  qu_target :: int
  qu_trigger :: trigger
  qu_mode :: policy_mode
  qu_after :: ustr
  qu_read :: bool
  qu_field :: "field_context option"
  qu_literal_tail :: ustr
  qu_boundary_text :: ustr
  qu_after_origin :: after_origin
  qu_inside :: bool
  qu_before_origin :: before_origin
  qu_ahead :: "ustr option"

section \<open>The decision\<close>

text \<open>The field the word is judged in, or the refusal; \<open>observed\<close> is the stream's snapshot, \<open>read\<close> what the reader returned.\<close>

definition question_field ::
    "policy \<Rightarrow> (ustr \<Rightarrow> field_context) \<Rightarrow> field_context option \<Rightarrow> question \<Rightarrow> context_result + field_context \<times> fallback" where
  "question_field po observed read q =
     (let anchor = dc_original (qu_baseline q) @ qu_literal_tail q;
          field = (case qu_field q of Some f \<Rightarrow> f | None \<Rightarrow> observed anchor);
          refused = (\<lambda>why f fallback. Inl \<lparr>cr_decision = (qu_baseline q)\<lparr>dc_convert := False, dc_reason := why\<rparr>, cr_prediction = None,
            cr_field = Some f, cr_applied = False, cr_source = By_Safety, cr_fallback = fallback, cr_withheld = 0\<rparr>)
      in case (if qu_read q \<and> po_reader po then read else None) of
           None \<Rightarrow> Inr (field, No_Fallback)
         | Some f \<Rightarrow>
             if fc_application f \<noteq> fc_application field then Inr (field, No_Fallback)
             else case anchored_field f anchor (map_option (\<lambda>t. qu_boundary_text q @ t) (qu_ahead q)) of
                    Protected_Field \<Rightarrow> refused Field_Withheld (bounded_field f) Sensitive_Or_Selected_Field
                  | Observed_Instead \<Rightarrow> Inr (field, Field_Input_Buffer)
                  | Read_Field g behind \<Rightarrow> Inr (g, if behind then Field_Behind else No_Fallback)
                  | Changed_Field g \<Rightarrow> refused Field_Text_Changed g Field_Changed)"

definition evidence_for_decision ::
    "policy \<Rightarrow> detector \<Rightarrow> question \<Rightarrow> field_context \<Rightarrow> ortho_model option \<Rightarrow> py_error + context_evidence" where
  "evidence_for_decision po det q f ortho =
     (let d = qu_baseline q; original = dc_original d; source = dc_source d
      in case (det_models det source, det_models det (qu_target q)) of
           (Some source_scorer, Some target_scorer) \<Rightarrow>
             let source_score = score_word source_scorer original; target_score = score_word target_scorer (qu_alternative q);
                 typo = (\<lambda>g text. case po_lexicon po g of None \<Rightarrow> False | Some (letters, m) \<Rightarrow> one_typo_from_word letters text m);
                 keys = (if source = 0 then original else qu_alternative q);
                 scored = (case ortho of
                     Some om \<Rightarrow> if source \<in> {0, 1}
                       then map_option (\<lambda>gain. (gain, om_threshold om (source = 0)))
                              (om_score om keys (shape_of original (strip (fc_before f) = [])) (source = 0) None) else None
                   | None \<Rightarrow> None)
             in Inr \<lparr>ce_original = original, ce_alternative = qu_alternative q, ce_source = source, ce_field = f,
                     ce_trigger = qu_trigger q, ce_baseline_convert = dc_convert d, ce_source_score = source_score,
                     ce_target_score = target_score, ce_model_probability = dc_probability d, ce_model_threshold = dc_threshold d,
                     ce_literal_tail = qu_literal_tail q, ce_ortho = scored, ce_boundary_text = qu_boundary_text q,
                     ce_after_origin = (if qu_after_origin q \<in> {No_After, Field_After}
                        then if fc_after f \<noteq> [] then Field_After else No_After else qu_after_origin q),
                     ce_before_origin = qu_before_origin q,
                     ce_source_identifier = po_identifiers po original, ce_target_identifier = po_identifiers po (qu_alternative q),
                     ce_source_typo = typo source original, ce_target_typo = typo (qu_target q) (qu_alternative q),
                     ce_source_opening = opens_sentences original source,
                     ce_target_opening = opens_sentences (qu_alternative q) (qu_target q), ce_inside = qu_inside q\<rparr>
         | _ \<Rightarrow> Inl KeyError)"

text \<open>A letter the Cyrillic-letter head keeps at its own space waits for the word after it.\<close>

definition letter_waits :: "context_model \<Rightarrow> question \<Rightarrow> field_context \<Rightarrow> context_prediction \<Rightarrow> context_prediction" where
  "letter_waits m q f x =
     (if xp_action x = Model_Keep \<and> qu_after_origin q = No_After \<and> cm_cyrletter m
         \<and> cyrletter_question (dc_original (qu_baseline q)) (qu_alternative q) (fc_before f) (qu_trigger q)
      then x\<lparr>xp_action := Model_Wait\<rparr> else x)"

text \<open>A curated short word at a pause whose letters begin many words of its own language.\<close>

definition pause_baseline :: "policy \<Rightarrow> question \<Rightarrow> decision" where
  "pause_baseline po q =
     (let d = qu_baseline q
      in if qu_trigger q = On_Pause \<and> is_short_word_override d
            \<and> (case po_lexicon po (dc_source d) of None \<Rightarrow> False | Some (_, m) \<Rightarrow> begins_words m (dc_original d))
         then d\<lparr>dc_convert := False, dc_reason := Pause_Word_Start\<rparr> else d)"

definition learned_class :: "policy \<Rightarrow> context_model \<Rightarrow> question \<Rightarrow> field_context \<Rightarrow> bool" where
  "learned_class po m q f \<longleftrightarrow>
     (let original = dc_original (qu_baseline q); alternative = qu_alternative q; before = fc_before f
      in cm_letters m \<and> letter_question original alternative before
         \<or> cm_variables m \<and> variable_question original alternative before (qu_trigger q)
         \<or> cm_alnum m \<and> alnum_question (po_tables po) original alternative before
         \<or> cm_resume m \<and> resume_question original alternative before (fc_after f) (qu_after_origin q)
         \<or> cm_cyrletter m \<and> cyrletter_question original alternative before (qu_trigger q)
         \<or> cm_digit_dot m \<and> digit_dot_question original alternative (qu_trigger q))"

definition lone_letter :: "policy \<Rightarrow> context_model \<Rightarrow> question \<Rightarrow> field_context \<Rightarrow> bool" where
  "lone_letter po m q f \<longleftrightarrow>
     (let original = dc_original (qu_baseline q)
      in cm_action_version m \<and> length (List.filter isalpha_ch original) = 1
         \<and> list_all (\<lambda>c. isalpha_ch c \<or> isdigit_ch c) original \<and> \<not> learned_class po m q f)"

definition spelling_a_word :: "context_result \<Rightarrow> py_error + context_result" where
  "spelling_a_word r =
     (let d = cr_decision r
      in if \<not> dc_convert d \<or> \<not> isalpha (dc_original d) then Inr r
         else case spelled_as_word (dc_original d) (dc_replacement d) of
           Inl e \<Rightarrow> Inl e
         | Inr True \<Rightarrow> Inr r
         | Inr False \<Rightarrow> Inr (r\<lparr>cr_decision := d\<lparr>dc_convert := False, dc_reason := Not_A_Word\<rparr>, cr_source := By_Safety,
             cr_fallback := Replacement_No_Word\<rparr>))"

definition orthotactic :: "policy \<Rightarrow> detector \<Rightarrow> decision \<Rightarrow> ustr \<Rightarrow> int \<Rightarrow> field_context \<Rightarrow> decision option" where
  "orthotactic po det d alternative target f =
     (case po_ortho po of
        None \<Rightarrow> None
      | Some om \<Rightarrow>
          let latin = (dc_source d = 0); keys = (if latin then dc_original d else alternative);
              known = (\<lambda>english word. case det_models det (if english then 0 else 1) of None \<Rightarrow> False
                         | Some scorer \<Rightarrow> sc_known (score_word scorer word))
          in if sc_known (dc_source_score d) \<or> dc_source d \<notin> {0, 1} \<or> length keys < om_minimum_length om
                \<or> \<not> word_shaped (dc_original d) then None
             else case om_score om keys (shape_of (dc_original d) (strip (fc_before f) = [])) latin (Some known) of
                    None \<Rightarrow> None
                  | Some gain \<Rightarrow>
                      if gain \<le> om_threshold om latin then None
                      else Some (d\<lparr>dc_convert := True, dc_replacement := alternative, dc_target := target,
                             dc_reason := Keys_Unlike_Language, dc_confidence := gain\<rparr>))"

definition licensed :: "policy \<Rightarrow> detector \<Rightarrow> decision \<Rightarrow> ustr \<Rightarrow> int \<Rightarrow> field_context \<Rightarrow> context_result \<Rightarrow> context_result" where
  "licensed po det baseline alternative target f r =
     (if dc_convert (cr_decision r) \<or> dc_convert baseline \<or> cr_action r \<in> {None, Some Model_Wait} then r
      else case orthotactic po det baseline alternative target f of
        None \<Rightarrow> r
      | Some d \<Rightarrow> \<lparr>cr_decision = d, cr_prediction = cr_prediction r, cr_field = Some f, cr_applied = False, cr_source = By_Keys,
                    cr_fallback = Keys_Licence, cr_withheld = 0\<rparr>)"

text \<open>What becomes of a decision of the model's: the licence of the keys, then the veto of the spelling.\<close>

definition settled ::
    "policy \<Rightarrow> detector \<Rightarrow> context_model \<Rightarrow> question \<Rightarrow> field_context \<Rightarrow> fallback \<Rightarrow> nat \<Rightarrow> context_prediction \<Rightarrow> decision
      \<Rightarrow> py_error + context_result" where
  "settled po det m q f ignored_read withheld x d =
     (let r = \<lparr>cr_decision = d, cr_prediction = Some x, cr_field = Some f, cr_applied = True, cr_source = By_Model,
                cr_fallback = ignored_read, cr_withheld = 0\<rparr>;
          r = (if \<not> cm_action_version m \<or> xp_action x = Model_Suggest
               then licensed po det (pause_baseline po q) (qu_alternative q) (qu_target q) f r else r)
      in case spelling_a_word r of Inl e \<Rightarrow> Inl e | Inr r \<Rightarrow> Inr (r\<lparr>cr_withheld := withheld\<rparr>))"

definition unsettled :: "decision \<Rightarrow> context_prediction \<Rightarrow> field_context \<Rightarrow> result_source \<Rightarrow> fallback \<Rightarrow> nat \<Rightarrow> context_result" where
  "unsettled d x f source why withheld =
     \<lparr>cr_decision = d, cr_prediction = Some x, cr_field = Some f, cr_applied = False, cr_source = source, cr_fallback = why,
      cr_withheld = withheld\<rparr>"

text \<open>A curated rule the model does not overrule.\<close>

definition curated_rule :: "context_model \<Rightarrow> question \<Rightarrow> model_action \<Rightarrow> decision \<Rightarrow> bool" where
  "curated_rule m q action d \<longleftrightarrow>
     is_short_word_override d
       \<and> (dc_reason d = Short_Word_At_Start \<or> qu_trigger q = On_Pause \<or> action \<noteq> Model_Wait \<and> \<not> cm_action_version m)
     \<or> dc_reason d = Stranded_Short_Word"

text \<open>The verdict on the model's answer.\<close>

definition verdict_on ::
    "policy \<Rightarrow> detector \<Rightarrow> context_model \<Rightarrow> question \<Rightarrow> field_context \<Rightarrow> fallback \<Rightarrow> nat \<Rightarrow> context_evidence
      \<Rightarrow> py_error + context_result" where
  "verdict_on po det m q f ignored_read withheld ev =
     (let x = letter_waits m q f (cm_predict m ev); d = pause_baseline po q; action = xp_action x; lone = lone_letter po m q f;
          slang = (cm_action_version m
                   \<and> russian_slang (po_tables po) (dc_original d) (qu_alternative q) (dc_source d) (sc_known (ce_source_score ev)));
          settle = settled po det m q f ignored_read withheld x;
          converted = (\<lambda>why. d\<lparr>dc_convert := True, dc_replacement := qu_alternative q, dc_target := qu_target q,
            dc_source_score := ce_source_score ev, dc_target_score := ce_target_score ev, dc_reason := why,
            dc_confidence := xp_probability x\<rparr>)
      in if qu_mode q = Shadow_Mode_Set then Inr (unsettled (qu_baseline q) x f By_Baseline Shadow_Mode withheld)
         else if action = Model_Convert \<and> \<not> slang \<and> (\<not> lone \<or> is_short_word_override d) then settle (converted Model_Decides)
         else if action = Model_Suggest \<and> dc_convert d \<and> cm_action_version m \<and> \<not> slang \<and> \<not> lone then settle (converted Suggestion_Confirmed)
         else if curated_rule m q action d then Inr (unsettled d x f By_Short_Word Trusted_Short withheld)
         else settle (d\<lparr>dc_convert := False,
                dc_reason := (case action of Model_Convert \<Rightarrow> if slang then Slang_Kept else Lone_Letter_Kept
                  | Model_Keep \<Rightarrow> Model_Keeps | Model_Wait \<Rightarrow> Model_Waits | Model_Suggest \<Rightarrow> Model_Suggests)\<rparr>))"

definition decide_context ::
    "policy \<Rightarrow> detector \<Rightarrow> (ustr \<Rightarrow> field_context) \<Rightarrow> field_context option \<Rightarrow> question \<Rightarrow> py_error + context_result" where
  "decide_context po det observed read q =
     (if qu_mode q = Other_Mode then Inr (plain_result (qu_baseline q) Mode_Disabled)
      else case po_model po of
        None \<Rightarrow> Inr (plain_result (qu_baseline q) Model_Unavailable)
      | Some m \<Rightarrow>
          (case question_field po observed read q of
             Inl refused \<Rightarrow> Inr refused
           | Inr (f, ignored_read) \<Rightarrow>
               let asked = f\<lparr>fc_after := qu_after q\<rparr>
               in case evidence_for_decision po det q asked (if cm_action_version m then po_ortho po else None) of
                    Inl e \<Rightarrow> Inl e
                  | Inr ev \<Rightarrow> verdict_on po det m q asked ignored_read (length (fc_after f)) ev))"


section \<open>What a conversion of the policy rests on\<close>

lemma spelled_conversion:
  assumes "spelling_a_word r = Inr r'" "dc_convert (cr_decision r')"
  shows "r' = r \<and> (isalpha (dc_original (cr_decision r)) \<longrightarrow> spelled_as_word (dc_original (cr_decision r)) (dc_replacement (cr_decision r)) = Inr True)"
  using assms by (auto simp: spelling_a_word_def Let_def split: if_splits sum.splits bool.splits)

lemma orthotactic_fields:
  assumes "orthotactic po det b alternative target f = Some d"
  shows "dc_convert d \<and> dc_original d = dc_original b \<and> dc_source d = dc_source b \<and> dc_replacement d = alternative
    \<and> dc_target d = target \<and> \<not> sc_known (dc_source_score b) \<and> word_shaped (dc_original b)"
  using assms by (auto simp: orthotactic_def Let_def split: option.splits if_splits)

lemma licensed_cases:
  obtains "licensed po det b alternative target f r = r"
    | d where "orthotactic po det b alternative target f = Some d" "\<not> dc_convert b" "\<not> dc_convert (cr_decision r)"
      "cr_action r \<noteq> None" "cr_action r \<noteq> Some Model_Wait"
      "licensed po det b alternative target f r =
         \<lparr>cr_decision = d, cr_prediction = cr_prediction r, cr_field = Some f, cr_applied = False, cr_source = By_Keys,
          cr_fallback = Keys_Licence, cr_withheld = 0\<rparr>"
  by (cases "dc_convert (cr_decision r) \<or> dc_convert b \<or> cr_action r \<in> {None, Some Model_Wait}"; cases "orthotactic po det b alternative target f")
    (auto simp: licensed_def)

lemma pause_baseline_fields [simp]:
  "dc_original (pause_baseline po q) = dc_original (qu_baseline q)" "dc_source (pause_baseline po q) = dc_source (qu_baseline q)"
  by (simp_all add: pause_baseline_def Let_def)

lemma pause_baseline_kept: "dc_convert (pause_baseline po q) \<Longrightarrow> pause_baseline po q = qu_baseline q"
  by (auto simp: pause_baseline_def Let_def split: if_splits)

text \<open>What the keys' licence rests on: neither the detector nor the model converts, and the layout in use does not know the word.\<close>

definition keys_speak :: "policy \<Rightarrow> question \<Rightarrow> context_result \<Rightarrow> bool" where
  "keys_speak po q r \<longleftrightarrow>
     \<not> dc_convert (pause_baseline po q) \<and> \<not> sc_known (dc_source_score (pause_baseline po q))
     \<and> word_shaped (dc_original (qu_baseline q)) \<and> cr_action r \<noteq> None \<and> cr_action r \<noteq> Some Model_Wait"

definition source_known :: "detector \<Rightarrow> decision \<Rightarrow> bool" where
  "source_known det d \<longleftrightarrow> (case det_models det (dc_source d) of None \<Rightarrow> False | Some scorer \<Rightarrow> sc_known (score_word scorer (dc_original d)))"

text \<open>What the model's word rests on: it converts, or suggests what the detector converts; of a model of the shipped version, never for
  a Russian abbreviation or slang word, nor for a lone letter it has not learned, unless a curated rule converts that letter too.\<close>

definition model_speaks :: "policy \<Rightarrow> detector \<Rightarrow> context_model \<Rightarrow> question \<Rightarrow> context_result \<Rightarrow> bool" where
  "model_speaks po det m q r \<longleftrightarrow>
     (cr_action r = Some Model_Convert \<or> cr_action r = Some Model_Suggest \<and> dc_convert (qu_baseline q) \<and> cm_action_version m)
     \<and> \<not> (cm_action_version m
          \<and> russian_slang (po_tables po) (dc_original (qu_baseline q)) (qu_alternative q) (dc_source (qu_baseline q))
              (source_known det (qu_baseline q)))
     \<and> (case cr_field r of None \<Rightarrow> False
        | Some f \<Rightarrow> \<not> lone_letter po m q f \<or> cr_action r = Some Model_Convert \<and> is_short_word_override (qu_baseline q))"

definition to_reading :: "question \<Rightarrow> decision \<Rightarrow> bool" where
  "to_reading q d \<longleftrightarrow>
     dc_original d = dc_original (qu_baseline q) \<and> dc_source d = dc_source (qu_baseline q)
     \<and> dc_replacement d = qu_alternative q \<and> dc_target d = qu_target q
     \<and> (isalpha (dc_original d) \<longrightarrow> spelled_as_word (dc_original d) (dc_replacement d) = Inr True)"

lemma settled_sound:
  assumes "settled po det m q f ignored withheld x d = Inr r" "dc_convert (cr_decision r)"
    and "dc_original d = dc_original (qu_baseline q)" "dc_source d = dc_source (qu_baseline q)"
    and "dc_convert d \<Longrightarrow> dc_replacement d = qu_alternative q \<and> dc_target d = qu_target q"
  shows "to_reading q (cr_decision r) \<and> cr_action r = Some (xp_action x)
    \<and> (dc_convert d \<and> cr_source r = By_Model \<and> cr_field r = Some f
       \<or> \<not> dc_convert d \<and> cr_source r = By_Keys \<and> keys_speak po q r \<and> (cm_action_version m \<longrightarrow> xp_action x = Model_Suggest))"
proof -
  define r0 where "r0 = \<lparr>cr_decision = d, cr_prediction = Some x, cr_field = Some f, cr_applied = True, cr_source = By_Model,
    cr_fallback = ignored, cr_withheld = 0\<rparr>"
  define r1 where "r1 = (if \<not> cm_action_version m \<or> xp_action x = Model_Suggest
    then licensed po det (pause_baseline po q) (qu_alternative q) (qu_target q) f r0 else r0)"
  obtain r2 where r2: "spelling_a_word r1 = Inr r2" "r = r2\<lparr>cr_withheld := withheld\<rparr>"
    using assms(1) unfolding settled_def Let_def r0_def [symmetric] r1_def [symmetric] by (cases "spelling_a_word r1") auto
  have spelled: "r2 = r1" "isalpha (dc_original (cr_decision r1)) \<longrightarrow>
      spelled_as_word (dc_original (cr_decision r1)) (dc_replacement (cr_decision r1)) = Inr True"
    using spelled_conversion [OF r2(1)] assms(2) r2(2) by simp_all
  show ?thesis
  proof (cases "r1 = r0")
    case True
    then have "dc_convert d" using assms(2) r2(2) spelled(1) by (simp add: r0_def)
    then show ?thesis using assms(3-5) r2(2) spelled True by (auto simp: to_reading_def r0_def cr_action_def)
  next
    case False
    then have "\<not> cm_action_version m \<or> xp_action x = Model_Suggest" by (auto simp: r1_def split: if_splits)
    have r1: "r1 = licensed po det (pause_baseline po q) (qu_alternative q) (qu_target q) f r0"
      "\<not> cm_action_version m \<or> xp_action x = Model_Suggest"
      using False by (auto simp: r1_def split: if_splits)
    show ?thesis
    proof (rule licensed_cases [of po det "pause_baseline po q" "qu_alternative q" "qu_target q" f r0])
      assume "licensed po det (pause_baseline po q) (qu_alternative q) (qu_target q) f r0 = r0"
      then show ?thesis using False r1(1) by simp
    next
      fix e
      assume e: "orthotactic po det (pause_baseline po q) (qu_alternative q) (qu_target q) f = Some e"
        "\<not> dc_convert (pause_baseline po q)" "\<not> dc_convert (cr_decision r0)" "cr_action r0 \<noteq> Some Model_Wait"
        "licensed po det (pause_baseline po q) (qu_alternative q) (qu_target q) f r0 =
           \<lparr>cr_decision = e, cr_prediction = cr_prediction r0, cr_field = Some f, cr_applied = False, cr_source = By_Keys,
            cr_fallback = Keys_Licence, cr_withheld = 0\<rparr>"
      have r: "cr_decision r = e" "cr_action r = Some (xp_action x)" "cr_source r = By_Keys"
        using r2(2) spelled(1) e(5) by (simp_all add: r1(1) r0_def cr_action_def)
      have "isalpha (dc_original e) \<longrightarrow> spelled_as_word (dc_original e) (dc_replacement e) = Inr True"
        using spelled(2) e(5) by (simp add: r1(1))
      then have "to_reading q e" using orthotactic_fields [OF e(1)] by (simp add: to_reading_def)
      moreover have "keys_speak po q r"
        using orthotactic_fields [OF e(1)] e(2,4) unfolding keys_speak_def r(2) by (simp add: r0_def cr_action_def)
      ultimately show ?thesis using r r1(2) e(3) by (auto simp: r0_def)
    qed
  qed
qed

lemma if_cases: "(if b then x else y) = z \<Longrightarrow> (b \<Longrightarrow> x = z \<Longrightarrow> R) \<Longrightarrow> (\<not> b \<Longrightarrow> y = z \<Longrightarrow> R) \<Longrightarrow> R"
  by (simp split: if_splits)

lemma evidence_known:
  "evidence_for_decision po det q f ortho = Inr ev \<Longrightarrow> sc_known (ce_source_score ev) = source_known det (qu_baseline q)"
  by (auto simp: evidence_for_decision_def source_known_def Let_def split: option.splits)

lemma paused_override: "is_short_word_override (pause_baseline po q) \<Longrightarrow> is_short_word_override (qu_baseline q)"
  by (auto simp: pause_baseline_def Let_def split: if_splits)

lemma verdict_sound:
  assumes "verdict_on po det m q f ignored withheld ev = Inr r" "dc_convert (cr_decision r)"
    and known: "sc_known (ce_source_score ev) = source_known det (qu_baseline q)"
  shows "qu_mode q = Shadow_Mode_Set \<and> cr_decision r = qu_baseline q
    \<or> qu_mode q \<noteq> Shadow_Mode_Set \<and> cr_decision r = qu_baseline q
        \<and> (is_short_word_override (qu_baseline q) \<or> dc_reason (qu_baseline q) = Stranded_Short_Word)
    \<or> qu_mode q \<noteq> Shadow_Mode_Set \<and> to_reading q (cr_decision r) \<and> cr_source r = By_Model \<and> model_speaks po det m q r
    \<or> qu_mode q \<noteq> Shadow_Mode_Set \<and> to_reading q (cr_decision r) \<and> cr_source r = By_Keys \<and> keys_speak po q r
        \<and> (cm_action_version m \<longrightarrow> cr_action r = Some Model_Suggest)"
proof -
  define x where "x = letter_waits m q f (cm_predict m ev)"
  define d where "d = pause_baseline po q"
  define slang where "slang \<longleftrightarrow> cm_action_version m
    \<and> russian_slang (po_tables po) (dc_original d) (qu_alternative q) (dc_source d) (sc_known (ce_source_score ev))"
  define lone where "lone = lone_letter po m q f"
  define converted where "converted why = d\<lparr>dc_convert := True, dc_replacement := qu_alternative q, dc_target := qu_target q,
    dc_source_score := ce_source_score ev, dc_target_score := ce_target_score ev, dc_reason := why,
    dc_confidence := xp_probability x\<rparr>" for why
  define kept where "kept = d\<lparr>dc_convert := False,
    dc_reason := (case xp_action x of Model_Convert \<Rightarrow> if slang then Slang_Kept else Lone_Letter_Kept
      | Model_Keep \<Rightarrow> Model_Keeps | Model_Wait \<Rightarrow> Model_Waits | Model_Suggest \<Rightarrow> Model_Suggests)\<rparr>"
  have verdict: "verdict_on po det m q f ignored withheld ev =
     (if qu_mode q = Shadow_Mode_Set then Inr (unsettled (qu_baseline q) x f By_Baseline Shadow_Mode withheld)
      else if xp_action x = Model_Convert \<and> \<not> slang \<and> (\<not> lone \<or> is_short_word_override d)
      then settled po det m q f ignored withheld x (converted Model_Decides)
      else if xp_action x = Model_Suggest \<and> dc_convert d \<and> cm_action_version m \<and> \<not> slang \<and> \<not> lone
      then settled po det m q f ignored withheld x (converted Suggestion_Confirmed)
      else if curated_rule m q (xp_action x) d then Inr (unsettled d x f By_Short_Word Trusted_Short withheld)
      else settled po det m q f ignored withheld x kept)"
    unfolding verdict_on_def Let_def x_def d_def slang_def lone_def converted_def kept_def by (rule refl)
  have settled: "to_reading q (cr_decision r) \<and> cr_action r = Some (xp_action x)
      \<and> (dc_convert e \<and> cr_source r = By_Model \<and> cr_field r = Some f
        \<or> \<not> dc_convert e \<and> cr_source r = By_Keys \<and> keys_speak po q r \<and> (cm_action_version m \<longrightarrow> xp_action x = Model_Suggest))"
    if "settled po det m q f ignored withheld x e = Inr r" "e = kept \<or> e = converted Model_Decides \<or> e = converted Suggestion_Confirmed" for e
    using that(2) by (intro settled_sound [OF that(1) assms(2)]) (auto simp: kept_def converted_def d_def)
  have same: "dc_convert d \<Longrightarrow> d = qu_baseline q" unfolding d_def by (rule pause_baseline_kept)
  have converts: "dc_convert (converted why)" "\<not> dc_convert kept" for why by (simp_all add: converted_def kept_def)
  note v = assms(1) [unfolded verdict]
  consider (shadow) "qu_mode q = Shadow_Mode_Set" "r = unsettled (qu_baseline q) x f By_Baseline Shadow_Mode withheld"
    | (model) "qu_mode q \<noteq> Shadow_Mode_Set" "xp_action x = Model_Convert" "\<not> slang" "\<not> lone \<or> is_short_word_override d"
        "settled po det m q f ignored withheld x (converted Model_Decides) = Inr r"
    | (both) "qu_mode q \<noteq> Shadow_Mode_Set" "xp_action x = Model_Suggest" "dc_convert d" "cm_action_version m" "\<not> slang" "\<not> lone"
        "settled po det m q f ignored withheld x (converted Suggestion_Confirmed) = Inr r"
    | (rule) "qu_mode q \<noteq> Shadow_Mode_Set" "curated_rule m q (xp_action x) d" "r = unsettled d x f By_Short_Word Trusted_Short withheld"
    | (kept) "qu_mode q \<noteq> Shadow_Mode_Set" "settled po det m q f ignored withheld x kept = Inr r"
    using v by (elim if_cases; blast)
  then show ?thesis
  proof cases
    case shadow
    then show ?thesis by (simp add: unsettled_def)
  next
    case model
    have "\<not> lone \<or> is_short_word_override (qu_baseline q)" using model(4) paused_override unfolding d_def by blast
    then show ?thesis using settled [OF model(5)] converts model(1-3)
      by (auto simp: model_speaks_def slang_def lone_def d_def known)
  next
    case both
    have "dc_convert (qu_baseline q)" using both(3) same by simp
    then have "model_speaks po det m q r" if "cr_action r = Some Model_Suggest" "cr_field r = Some f"
      using that both(4-6) by (simp add: model_speaks_def slang_def lone_def d_def known)
    then show ?thesis using settled [OF both(7)] converts both(1,2) by simp
  next
    case rule
    then have "d = qu_baseline q" using assms(2) same by (simp add: unsettled_def)
    then show ?thesis using rule by (auto simp: unsettled_def curated_rule_def)
  next
    case kept
    then show ?thesis using settled [OF kept(2)] converts by simp
  qed
qed

lemma refused_keeps: "question_field po observed read q = Inl r \<Longrightarrow> \<not> dc_convert (cr_decision r)"
  by (auto simp: question_field_def Let_def split: option.splits if_splits field_reading.splits)

lemma policy_sound:
  assumes "decide_context po det observed read q = Inr r" "dc_convert (cr_decision r)"
  shows "cr_decision r = qu_baseline q
      \<and> (qu_mode q \<noteq> Assist_Mode \<or> po_model po = None \<or> is_short_word_override (qu_baseline q)
         \<or> dc_reason (qu_baseline q) = Stranded_Short_Word)
    \<or> qu_mode q = Assist_Mode \<and> to_reading q (cr_decision r)
      \<and> (case po_model po of None \<Rightarrow> False
          | Some m \<Rightarrow> cr_source r = By_Model \<and> model_speaks po det m q r
              \<or> cr_source r = By_Keys \<and> keys_speak po q r \<and> (cm_action_version m \<longrightarrow> cr_action r = Some Model_Suggest))"
proof (cases "qu_mode q = Other_Mode \<or> po_model po = None")
  case True
  then show ?thesis using assms by (auto simp: decide_context_def plain_result_def split: if_splits)
next
  case False
  then obtain m where m: "po_model po = Some m" "qu_mode q = Assist_Mode \<or> qu_mode q = Shadow_Mode_Set" by (cases "qu_mode q") auto
  obtain f ignored where f: "question_field po observed read q = Inr (f, ignored)"
    using assms m False refused_keeps [of po observed read q] by (auto simp: decide_context_def split: sum.splits)
  obtain ev where "verdict_on po det m q (f\<lparr>fc_after := qu_after q\<rparr>) ignored (length (fc_after f)) ev = Inr r"
      "sc_known (ce_source_score ev) = source_known det (qu_baseline q)"
  proof -
    obtain ev where "evidence_for_decision po det q (f\<lparr>fc_after := qu_after q\<rparr>) (if cm_action_version m then po_ortho po else None) = Inr ev"
      "verdict_on po det m q (f\<lparr>fc_after := qu_after q\<rparr>) ignored (length (fc_after f)) ev = Inr r"
      using assms(1) m f False by (auto simp: decide_context_def Let_def split: sum.splits)
    from that [OF this(2) evidence_known [OF this(1)]] show ?thesis .
  qed
  then show ?thesis using verdict_sound [OF _ assms(2)] m by fastforce
qed

text \<open>C9: Whatever the trained models, the tables and the field answer, the policy converts a word only as the detector alone
  converted it, when the policy is off, only watches, has no model, or a curated short word stands; or to the one reading it
  was asked about, where the model converts, or suggests what the detector converts, or the model of the keys speaks for a word
  the layout in use does not know and the context model does not wait. A word of letters is then spelled as a word; the shipped
  model converts no Russian abbreviation or slang word, and no lone letter it has not learned unless a curated rule does too.\<close>

theorem policy_conversion_sound:
  assumes "decide_context po det observed read q = Inr r" "dc_convert (cr_decision r)"
  shows "cr_decision r = qu_baseline q
      \<and> (qu_mode q \<noteq> Assist_Mode \<or> po_model po = None \<or> is_short_word_override (qu_baseline q)
         \<or> dc_reason (qu_baseline q) = Stranded_Short_Word)
    \<or> qu_mode q = Assist_Mode \<and> to_reading q (cr_decision r)
      \<and> (case po_model po of None \<Rightarrow> False
          | Some m \<Rightarrow> cr_source r = By_Model \<and> model_speaks po det m q r
              \<or> cr_source r = By_Keys \<and> keys_speak po q r \<and> (cm_action_version m \<longrightarrow> cr_action r = Some Model_Suggest))"
  using assms by (rule policy_sound)

text \<open>The question about \<open>gj\<close> typed in the English layout, and a model that always converts.\<close>

definition sample_policy :: policy where
  "sample_policy =
     \<lparr>po_model = Some \<lparr>cm_action_version = True, cm_predict = (\<lambda>_. \<lparr>xp_action = Model_Convert, xp_probability = 1\<rparr>), cm_letters = False,
        cm_variables = False, cm_alnum = False, cm_resume = False, cm_cyrletter = False, cm_digit_dot = False\<rparr>,
      po_ortho = None, po_reader = True,
      po_tables = \<lparr>tb_terms = (\<lambda>_ _. 0), tb_alnum_cyrillic = (\<lambda>_. 0), tb_alnum_latin = (\<lambda>_. 0)\<rparr>,
      po_identifiers = (\<lambda>_. False), po_lexicon = (\<lambda>_. None)\<rparr>"

definition sample_question :: question where
  "sample_question =
     \<lparr>qu_baseline = plain_decision False [0x67, 0x6A] [0x67, 0x6A] 0 0 0 Model_Unsure empty_score empty_score,
      qu_alternative = [0x43F, 0x43E], qu_target = 1, qu_trigger = On_Space, qu_mode = Assist_Mode, qu_after = [], qu_read = True,
      qu_field = None, qu_literal_tail = [], qu_boundary_text = [0x20], qu_after_origin = No_After, qu_inside = False,
      qu_before_origin = Field_Before, qu_ahead = Some []\<rparr>"

definition empty_field :: field_context where
  "empty_field = \<lparr>fc_application = [], fc_field_id = [], fc_before = [], fc_after = [], fc_role = Text_Role, fc_selection = False,
     fc_sensitive = False, fc_source = []\<rparr>"

lemma sample_decided:
  "\<exists>r. decide_context sample_policy sample_detector (\<lambda>_. empty_field) None sample_question = Inr r
     \<and> dc_convert (cr_decision r) \<and> dc_replacement (cr_decision r) = [0x43F, 0x43E]"
  by (simp add: decide_context_def sample_policy_def sample_question_def question_field_def evidence_for_decision_def sample_detector_def
      verdict_on_def letter_waits_def lone_letter_def pause_baseline_def plain_decision_def russian_slang_def settled_def spelling_a_word_def
      spelled_as_word_def starts_with_def isalpha_def isalpha_ch_def letter_class_def Let_def)

theorem policy_conversion_sound_witness:
  "\<exists>r. decide_context sample_policy sample_detector (\<lambda>_. empty_field) None sample_question = Inr r
     \<and> to_reading sample_question (cr_decision r) \<and> dc_replacement (cr_decision r) = [0x43F, 0x43E]"
proof -
  obtain r where r: "decide_context sample_policy sample_detector (\<lambda>_. empty_field) None sample_question = Inr r"
    "dc_convert (cr_decision r)" "dc_replacement (cr_decision r) = [0x43F, 0x43E]"
    using sample_decided by blast
  have "cr_decision r \<noteq> qu_baseline sample_question"
    using r(3) by (auto simp: sample_question_def plain_decision_def)
  then show ?thesis using policy_conversion_sound [OF r(1,2)] r by blast
qed

text \<open>A field that holds a password or a selection: no model is asked, and nothing of its text is kept.\<close>

lemma protected_field_refused:
  assumes "qu_mode q \<noteq> Other_Mode" "po_model po = Some m" "qu_read q" "po_reader po"
    and "fc_application f = fc_application (case qu_field q of Some g \<Rightarrow> g | None \<Rightarrow> observed (dc_original (qu_baseline q) @ qu_literal_tail q))"
    and "fc_sensitive (bounded_field f) \<or> fc_selection (bounded_field f)"
  shows "decide_context po det observed (Some f) q = Inr
    \<lparr>cr_decision = (qu_baseline q)\<lparr>dc_convert := False, dc_reason := Field_Withheld\<rparr>, cr_prediction = None,
     cr_field = Some (bounded_field f), cr_applied = False, cr_source = By_Safety, cr_fallback = Sensitive_Or_Selected_Field, cr_withheld = 0\<rparr>"
proof -
  have "anchored_field f anchor ahead = Protected_Field" for anchor ahead
    using assms(6) by (simp add: anchored_field_def Let_def)
  then show ?thesis using assms(1-5) by (simp add: decide_context_def question_field_def Let_def)
qed

text \<open>
  The Russian letter on the key of the dot: its other reading is the sign alone, of which the veto reads the first character after
  a leading dot. With a model of another feature version, which converts a lone letter, the decision raises.
\<close>

lemma dot_letter_raises: "spelled_as_word [0x44E] [0x2E] = Inl IndexError"
  by (simp add: spelled_as_word_def starts_with_def isalpha_def word_shaped_def quoted_or_scoped_def MINIMUM_SHAPED_TOKEN_CHARACTERS_def)

end
