(* ===== verification/Word_Parts.thy ===== *)
theory Word_Parts
  imports Word_Typing Layouts Context_Policy
begin

text \<open>
  The parts of a typed token and the plans made of them (\<open>src/keyswitch/engine.py\<close>): the literal head before a slash, the signs
  at its end, the conversion of one word, the case fix, the typo correction, and the corrections that take a neighbour along.
  What a trained model answers is a function of the record \<open>deciders\<close>; when it is asked, and what is made of the answer, is
  the engine's.
\<close>

definition MAX_SUFFIX :: nat where "MAX_SUFFIX = 8"
definition REPLAYED_SIGNS_MIN_STEM_LETTERS :: nat where "REPLAYED_SIGNS_MIN_STEM_LETTERS = 2"
definition KEPT_WORDS_TAKEN_ALONG :: nat where "KEPT_WORDS_TAKEN_ALONG = 2"
definition KEPT_CONTEXT_WORD_MAX_CHARACTERS :: nat where "KEPT_CONTEXT_WORD_MAX_CHARACTERS = 5"
definition PLANNED_CONTEXT_WORD_MAX_CHARACTERS :: nat where "PLANNED_CONTEXT_WORD_MAX_CHARACTERS = 3"
definition KEPT_WORD_PROSE_MIN_COUNT :: nat where "KEPT_WORD_PROSE_MIN_COUNT = 500"
definition SIGN_DASH :: ustr where "SIGN_DASH = [0x2D]"
definition DOUBLE_CAPITALS :: nat where "DOUBLE_CAPITALS = 2"
definition DOUBLE_CAPITALS_MIN_LETTERS :: nat where "DOUBLE_CAPITALS_MIN_LETTERS = 4"

section \<open>What the models answer\<close>

text \<open>
  The decision of \<open>_decide_word\<close>, the context result and the baseline it leaves in the engine, and the questions that were put to
  the context model on the way, with the two readings and the answer.
\<close>

record judgement =
  jd_decision :: decision
  jd_result :: "context_result option"
  jd_baseline :: "decision option"
  jd_asked :: "(ustr \<times> ustr \<times> context_result) list"

record deciders =
  de_policy :: policy
  de_word :: "ustr \<Rightarrow> (int \<times> ustr) list \<Rightarrow> int \<Rightarrow> key_event list \<Rightarrow> key_event \<Rightarrow> judgement"
  de_shadow :: "ustr \<Rightarrow> (int \<times> ustr) list \<Rightarrow> int \<Rightarrow> key_event \<Rightarrow> judgement"
  de_inside :: "key_event list \<Rightarrow> int \<Rightarrow> key_event \<Rightarrow> judgement option"
  de_settle :: "judgement \<Rightarrow> key_event list \<Rightarrow> int \<Rightarrow> int \<Rightarrow> key_event \<Rightarrow> judgement"
  de_joined :: "judgement \<Rightarrow> key_event list \<Rightarrow> key_event list \<Rightarrow> int \<Rightarrow> key_event \<Rightarrow> nat option \<times> judgement"
  de_ask :: "question \<Rightarrow> context_result"
  de_planned :: "ustr \<Rightarrow> ustr \<Rightarrow> int \<Rightarrow> ustr \<Rightarrow> int \<Rightarrow> decision"
  de_baseline :: "ustr \<Rightarrow> ustr \<Rightarrow> int \<Rightarrow> int \<Rightarrow> decision"
  de_term :: "ustr \<Rightarrow> ustr \<Rightarrow> bool"
  de_spelled :: "int \<Rightarrow> ustr \<Rightarrow> bool"
  de_layout_name :: "int \<Rightarrow> string"
  de_judge_typo :: "ustr \<Rightarrow> int \<Rightarrow> ustr \<Rightarrow> typo_judgement option"
  de_personal :: "ustr \<Rightarrow> bool"

definition de_model :: "deciders \<Rightarrow> bool" where "de_model de \<longleftrightarrow> po_model (de_policy de) \<noteq> None"

definition de_action_model :: "deciders \<Rightarrow> bool" where
  "de_action_model de \<longleftrightarrow> (case po_model (de_policy de) of None \<Rightarrow> False | Some m \<Rightarrow> cm_action_version m)"

definition result_field :: "context_result option \<Rightarrow> field_context option" where
  "result_field r = (case r of None \<Rightarrow> None | Some x \<Rightarrow> cr_field x)"

definition field_id_of :: "field_context option \<Rightarrow> ustr" where
  "field_id_of field =
     (case field of None \<Rightarrow> [] | Some f \<Rightarrow> if fc_source f = asc ''observed'' then [] else fc_field_id f)"

definition context_field_id :: "context_result option \<Rightarrow> ustr" where "context_field_id r = field_id_of (result_field r)"

definition forced :: "engine_config \<Rightarrow> surroundings \<Rightarrow> int \<Rightarrow> ustr \<Rightarrow> bool" where
  "forced cf su source word \<longleftrightarrow> cf_learning cf \<and> forced_target (su_rules su) source word \<noteq> None"

definition rejected_word :: "engine_config \<Rightarrow> surroundings \<Rightarrow> int \<Rightarrow> ustr \<Rightarrow> bool" where
  "rejected_word cf su source word \<longleftrightarrow> cf_learning cf \<and> keeps (su_rules su) source word"

definition ignored_word :: "surroundings \<Rightarrow> ustr \<Rightarrow> bool" where
  "ignored_word su word \<longleftrightarrow> token_key word \<in> token_key ` set (su_ignored su)"

section \<open>The parts of a token\<close>

fun head_settled :: "(key_event list \<Rightarrow> bool) \<Rightarrow> key_event list \<Rightarrow> key_event list \<Rightarrow> bool" where
  "head_settled settled_part [] segment = True"
| "head_settled settled_part (e # es) segment =
     (if ev_character e \<noteq> [0x2F] then head_settled settled_part es (segment @ [e])
      else if segment \<noteq> [] \<and> \<not> settled_part segment then False
      else head_settled settled_part es [])"

definition literal_head :: "engine_config \<Rightarrow> surroundings \<Rightarrow> deciders \<Rightarrow> key_event list \<Rightarrow> int \<Rightarrow> nat" where
  "literal_head cf su de strokes source =
     (if source \<notin> set (cf_models cf) \<or> \<not> flag (su_get su) ''detection.protect_code'' True
         \<or> \<not> flag (su_get su) ''detection.context_aware'' True \<or> context_mode su \<noteq> JStr (asc ''assist'') \<or> \<not> de_model de then 0
      else case (other_group (cf_models cf) source, List.find (\<lambda>i. ev_character (strokes ! i) = [0x2F]) (rev [0..<length strokes])) of
        (Some target, Some i) \<Rightarrow>
          let head = i + 1; core = drop head strokes
          in if core = [] \<or> \<not> cf_protected_token cf (text_for_group strokes source)
                \<or> cf_protected_token cf (text_for_group core source)
                \<or> \<not> list_all (\<lambda>e. isalpha (ev_character e) \<or> is_layout_letter e \<or> ev_character e \<in> set WORD_JOINERS) core then 0
             else if head_settled (\<lambda>segment. cf_segment_settled cf segment source target) (take head strokes) [] then head else 0
      | _ \<Rightarrow> 0)"

text \<open>The word, the signs split off its end, whether the split is certain, and whether the boundary model abstained.\<close>

definition completed_word ::
    "engine_config \<Rightarrow> surroundings \<Rightarrow> key_event list \<Rightarrow> int \<Rightarrow> key_event list \<times> key_event list \<times> bool \<times> bool" where
  "completed_word cf su strokes source =
     (case su_boundary su of
        None \<Rightarrow> (strokes, [], True, False)
      | Some predict \<Rightarrow>
          let tail = length (takeWhile (\<lambda>e. \<not> isalpha (ev_character e) \<and> is_layout_letter e) (rev strokes));
              original = text_for_group strokes source
          in if source \<notin> set (cf_models cf) \<or> tail = 0 then (strokes, [], True, False)
             else case other_group (cf_models cf) source of
               None \<Rightarrow> (strokes, [], False, False)
             | Some target \<Rightarrow>
                 if length strokes \<le> tail \<or> MAX_SUFFIX < tail then (strokes, [], False, False)
                 else if forced cf su source original then (strokes, [], True, False)
                 else if flag (su_get su) ''detection.protect_code'' True \<and> cf_protected_token cf original
                         \<or> casefold original \<in> casefold ` set (su_ignored su) \<or> rejected_word cf su source original
                 then (strokes, [], False, False)
                 else case predict original (text_for_group strokes target) tail of
                        None \<Rightarrow> (strokes, [], False, True)
                      | Some n \<Rightarrow> (take (length strokes - n) strokes, drop (length strokes - n) strokes, True, False))"

definition replayed_sign :: "int \<Rightarrow> key_event \<Rightarrow> bool" where
  "replayed_sign target e \<longleftrightarrow>
     (let meant = character_for e target in meant \<noteq> [] \<and> \<not> isalpha meant \<and> \<not> isspace meant \<and> meant \<noteq> ev_character e)"

definition replayed_signs :: "engine_config \<Rightarrow> surroundings \<Rightarrow> key_event list \<Rightarrow> int \<Rightarrow> nat" where
  "replayed_signs cf su strokes source =
     (case other_group (cf_models cf) source of
        None \<Rightarrow> 0
      | Some target \<Rightarrow>
          let count = length (takeWhile (replayed_sign target) (rev strokes))
          in if count = 0 \<or> length strokes - count < REPLAYED_SIGNS_MIN_STEM_LETTERS
                \<or> \<not> list_all (\<lambda>e. isalpha (ev_character e) \<or> isalpha (character_for e target) \<or> joins_parts e)
                      (take (length strokes - count) strokes)
                \<or> (case su_scorers su source of None \<Rightarrow> False | Some sc \<Rightarrow> sc_known (score_word sc (text_for_group strokes source)))
             then 0 else count)"

section \<open>The plans of one word\<close>

definition plan_from_decision ::
    "deciders \<Rightarrow> key_event list \<Rightarrow> key_event option \<Rightarrow> ustr \<Rightarrow> decision \<Rightarrow> context_result option \<Rightarrow> correction_plan" where
  "plan_from_decision de strokes boundary application d result =
     (if (case boundary of None \<Rightarrow> False | Some b \<Rightarrow> isspace (ev_character b) \<and> \<not> ev_deferred b)
         \<and> digit_dot_question (dc_original d) (dc_replacement d) On_Space
      then (plain_plan strokes boundary (dc_source d) (dc_source d) (dc_original d) (dc_replacement d) (dc_confidence d) application
              True Mode_Sign)\<lparr>cp_context_field := context_field_id result\<rparr>
      else (plain_plan strokes boundary (dc_source d) (dc_target d) (dc_original d) (dc_replacement d) (dc_confidence d) application
              True Mode_Boundary)\<lparr>cp_context_field := context_field_id result\<rparr>)"

text \<open>\<open>_unshifted\<close>; the two layouts are all it knows.\<close>

definition unshifted_key :: "deciders \<Rightarrow> int \<Rightarrow> key_event \<Rightarrow> key_event option" where
  "unshifted_key de grp e =
     (let names = map (\<lambda>i. de_layout_name de (int i)) [0..<length (ev_characters e)];
          letter = lower (character_for e grp);
          moved = map (\<lambda>name. translate letter (de_layout_name de grp) name) names
      in if \<not> ev_shift e \<or> length letter \<noteq> 1 \<or> \<not> set names \<subseteq> {''us'', ''ru''} \<or> list_ex isl moved then None
         else Some (e\<lparr>ev_character := letter, ev_characters := map (\<lambda>x. case x of Inr t \<Rightarrow> t | Inl _ \<Rightarrow> []) moved,
                      ev_state := ev_state e AND NOT SHIFT_MASK\<rparr>))"

definition double_capitals :: "ustr \<Rightarrow> bool" where
  "double_capitals word \<longleftrightarrow>
     DOUBLE_CAPITALS_MIN_LETTERS \<le> length word \<and> isalpha word \<and> isupper (take DOUBLE_CAPITALS word) \<and> islower (drop DOUBLE_CAPITALS word)"

definition fix_double_capitals ::
    "engine_config \<Rightarrow> surroundings \<Rightarrow> deciders \<Rightarrow> correction_plan \<Rightarrow> key_event \<Rightarrow> engine \<Rightarrow> correction_plan \<times> engine" where
  "fix_double_capitals cf su de p boundary s =
     (let word = cp_original p; grp = cp_source p;
          fixed = take 1 word @ lower (take 1 (drop 1 word)) @ drop DOUBLE_CAPITALS word;
          lowered = map (unshifted_key de grp) (take 1 (drop 1 (cp_strokes p)))
      in case su_scorers su grp of
           None \<Rightarrow> (p, s)
         | Some sc \<Rightarrow>
             if grp \<notin> set (cf_models cf) \<or> \<not> flag (su_get su) ''detection.fix_double_capitals'' True \<or> length word \<noteq> length (cp_strokes p)
                \<or> \<not> double_capitals word
                \<or> list_ex (\<lambda>e. ev_group e \<noteq> grp) (cp_strokes p) \<or> inside_word (en_insertion s) \<or> ignored_word su word
                \<or> forced cf su grp word \<or> rejected_word cf su grp word \<or> list_ex ev_caps_lock (cp_strokes p)
                \<or> de_spelled de grp word \<or> \<not> sc_exact (score_word sc fixed) \<or> None \<in> set lowered then (p, s)
             else
               let strokes = take 1 (cp_strokes p) @ map the lowered @ drop DOUBLE_CAPITALS (cp_strokes p)
               in (p\<lparr>cp_strokes := strokes, cp_original := fixed, cp_replacement := text_for_group strokes (cp_target p)\<rparr>,
                   s\<lparr>en_pending := Some ((plain_plan strokes (if ev_deferred boundary then None else Some boundary) grp grp word fixed
                        UNSCORED_CORRECTION_CONFIDENCE (cp_application p) True Mode_Case)\<lparr>cp_replaced := cp_strokes p\<rparr>),
                     en_prompt_after := None, en_trigger := ev_keycode boundary\<rparr>))"

text \<open>\<open>_typo_plan\<close>: \<open>base\<close> with the slip in its word undone; \<open>1 / (1 + exp (- margin))\<close> of an infinite margin is 1.\<close>

definition typo_plan ::
    "engine_config \<Rightarrow> surroundings \<Rightarrow> deciders \<Rightarrow> world \<Rightarrow> correction_plan \<Rightarrow> key_event list \<Rightarrow> engine
      \<Rightarrow> correction_plan option \<times> engine" where
  "typo_plan cf su de w base keys s =
     (let grp = cp_target base; word = text_for_group keys grp
      in case de_judge_typo de word grp (before_word (wo_now w) (cp_original base) (en_stream s)) of
           None \<Rightarrow> (None, s)
         | Some j \<Rightarrow>
             let s = s\<lparr>en_personal_pending := []\<rparr>
             in if de_personal de word \<or> rejected_word cf su grp word then (None, s)
                else
                  let s = (if tj_reason j \<in> {No_Candidate, Rare, Ambiguous, Corrected} then s\<lparr>en_personal_pending := word\<rparr> else s)
                  in case (tj_choice j, tj_reason j) of
                       (Some choice, Corrected) \<Rightarrow>
                         (case corrected_keys keys grp choice (en_templates s) of
                            Inr (Some strokes) \<Rightarrow>
                              if length strokes \<noteq> length keys \<and> \<not> cf_erasing cf then (None, s)
                              else (Some (base\<lparr>cp_strokes := strokes, cp_replaced_strokes := keys, cp_replacement := ch_word choice,
                                       cp_mode := Mode_Typo, cp_revisit := None, cp_automatic := True,
                                       cp_confidence := (if cp_source base \<noteq> grp then cp_confidence base
                                         else case ch_margin choice of None \<Rightarrow> 1 | Some m \<Rightarrow> 1 / (1 + exp (- m)))\<rparr>),
                                    s\<lparr>en_personal_pending := []\<rparr>)
                          | _ \<Rightarrow> (None, s))
                     | _ \<Rightarrow> (None, s))"

section \<open>A word and its neighbours\<close>

definition reads_alike :: "correction_plan \<Rightarrow> bool" where
  "reads_alike p \<longleftrightarrow> cp_original p = cp_replacement p \<and> \<not> list_ex isalpha_ch (cp_original p)"

definition window_of :: "engine \<Rightarrow> int" where
  "window_of s = (case en_focus_window s of None \<Rightarrow> 0 | Some x \<Rightarrow> x)"

text \<open>Whether the text before the caret ends with this, as far as it was observed.\<close>

definition stands :: "ustr \<Rightarrow> engine \<Rightarrow> bool" where "stands shown s \<longleftrightarrow> ends_with (ic_text (en_stream s)) shown"

definition closing_key :: "key_event option \<Rightarrow> key_event option" where
  "closing_key boundary = (case boundary of None \<Rightarrow> None | Some b \<Rightarrow> if ev_deferred b then None else Some b)"

definition closing_text :: "key_event option \<Rightarrow> ustr" where
  "closing_text boundary = (case closing_key boundary of None \<Rightarrow> [] | Some b \<Rightarrow> ev_character b)"

definition trigger_of :: "key_event option \<Rightarrow> trigger" where
  "trigger_of boundary =
     (case boundary of
        None \<Rightarrow> On_Pause
      | Some b \<Rightarrow> (case trigger_for_boundary b of Trigger_Space \<Rightarrow> On_Space | Trigger_Enter \<Rightarrow> On_Enter | Trigger_Tab \<Rightarrow> On_Tab
          | Trigger_Punctuation \<Rightarrow> On_Punctuation))"

text \<open>\<open>ContextPolicy.decide\<close> with its default arguments, and with those of a word asked beside its neighbour.\<close>

definition plain_question :: "decision \<Rightarrow> ustr \<Rightarrow> int \<Rightarrow> trigger \<Rightarrow> field_context option \<Rightarrow> question" where
  "plain_question baseline alternative grp trigger field =
     \<lparr>qu_baseline = baseline, qu_alternative = alternative, qu_target = grp, qu_trigger = trigger, qu_mode = Assist_Mode, qu_after = [],
      qu_read = False, qu_field = field, qu_literal_tail = [], qu_boundary_text = [], qu_after_origin = No_After, qu_inside = False,
      qu_before_origin = Field_Before, qu_ahead = None\<rparr>"

definition neighbour_question ::
    "decision \<Rightarrow> ustr \<Rightarrow> int \<Rightarrow> ustr \<Rightarrow> field_context option \<Rightarrow> ustr \<Rightarrow> after_origin \<Rightarrow> question" where
  "neighbour_question baseline alternative grp after field boundary_text origin =
     (plain_question baseline alternative grp On_Space field)
       \<lparr>qu_after := after, qu_boundary_text := boundary_text, qu_after_origin := origin\<rparr>"

definition neighbour_origin :: "ustr \<Rightarrow> after_origin" where
  "neighbour_origin word = (if 0 < length word \<and> length word \<le> PLANNED_CONTEXT_WORD_MAX_CHARACTERS then Planned_Next else Field_After)"

definition neighbour_stands :: "world \<Rightarrow> ustr \<Rightarrow> real \<Rightarrow> int \<Rightarrow> correction_plan \<Rightarrow> engine \<Rightarrow> bool" where
  "neighbour_stands w application deadline window p s \<longleftrightarrow>
     wo_now w \<le> deadline \<and> window = window_of s \<and> cp_application p = application \<and> cp_boundary p \<noteq> None"

definition decide_after_waiting ::
    "deciders \<Rightarrow> waiting_word \<Rightarrow> decision \<Rightarrow> (int \<times> ustr) list \<Rightarrow> key_event option \<Rightarrow> ustr \<Rightarrow> decision option" where
  "decide_after_waiting de waiting d alternatives boundary boundary_text =
     (let previous = ww_plan waiting; grp = cp_target previous; reading = text_for_group (cp_strokes previous) grp
      in case map_of alternatives grp of
           None \<Rightarrow> None
         | Some alternative \<Rightarrow>
             let r = de_ask de ((plain_question (de_planned de (dc_original d) alternative (dc_source d) reading grp) alternative grp
                       (trigger_of boundary)
                       (Some ((ww_field waiting)\<lparr>fc_before := fc_before (ww_field waiting) @ reading @ boundary_text\<rparr>)))
                         \<lparr>qu_before_origin := Planned_Previous\<rparr>)
             in if dc_convert (cr_decision r) then Some (cr_decision r) else None)"

text \<open>The waiting word and the next word in one correction.\<close>

definition resolve_wait ::
    "surroundings \<Rightarrow> deciders \<Rightarrow> world \<Rightarrow> waiting_word option \<Rightarrow> key_event list \<Rightarrow> key_event option \<Rightarrow> decision \<Rightarrow> ustr
      \<Rightarrow> (int \<times> ustr) list \<Rightarrow> bool \<Rightarrow> context_result option \<Rightarrow> engine \<Rightarrow> (correction_plan \<times> decision) option" where
  "resolve_wait su de w waits strokes boundary d application alternatives switched result s =
     (case waits of
        None \<Rightarrow> None
      | Some waiting \<Rightarrow>
          let previous = ww_plan waiting; gap = the (cp_boundary previous); grp0 = cp_source previous
          in if context_mode su \<noteq> JStr (asc ''assist'')
                \<or> \<not> neighbour_stands w application (ww_deadline waiting) (ww_window waiting) previous s
                \<or> grp0 \<noteq> dc_source d
                \<or> list_ex (\<lambda>e. ev_group e \<noteq> grp0) (cp_strokes previous @ (if switched then [] else strokes)) then None
             else case (if dc_convert d then Some d else decide_after_waiting de waiting d alternatives boundary (ev_character gap)) of
               None \<Rightarrow> None
             | Some d \<Rightarrow>
                 let original = cp_original previous @ ev_character gap @ dc_original d; grp = dc_target d;
                     alternative = text_for_group (cp_strokes previous) grp;
                     baseline = (if de_model de \<and> de_action_model de
                                 then de_planned de (cp_original previous) alternative grp0 (dc_replacement d) grp else ww_decision waiting);
                     r = cr_decision (de_ask de (neighbour_question baseline alternative grp (dc_replacement d) (Some (ww_field waiting))
                           (ev_character gap) (neighbour_origin (cp_original previous))));
                     pair = (if \<not> dc_convert r \<and> dc_convert baseline
                                \<and> (dc_reason (ww_decision waiting) = Short_Word_At_Start
                                   \<or> length (cp_original previous) = 1 \<and> is_short_word_override baseline) then baseline else r);
                     keys = cp_strokes previous @ [gap] @ strokes
                 in if \<not> stands (original @ closing_text boundary) s \<or> \<not> dc_convert pair then None
                    else Some ((plain_plan keys (closing_key boundary) grp0 grp original
                                  (alternative @ ev_character gap @ dc_replacement d) (dc_confidence pair) application True
                                  Mode_Context_Phrase)
                                 \<lparr>cp_context_field := context_field_id result,
                                  cp_typed := (if switched then text_for_group keys grp0 else [])\<rparr>, d))"

definition word_before_kept ::
    "correction_plan \<Rightarrow> key_event list \<Rightarrow> key_event \<Rightarrow> int \<Rightarrow> ustr \<Rightarrow> ustr \<Rightarrow> real \<Rightarrow> ustr \<Rightarrow> context_result option
      \<Rightarrow> correction_plan" where
  "word_before_kept previous strokes boundary grp alternative following confidence application result =
     (let gap = the (cp_boundary previous);
          alike = (text_for_group strokes grp = following \<and> \<not> list_ex isalpha_ch following)
      in (plain_plan (cp_strokes previous @ [gap] @ strokes) (Some boundary) (cp_source previous) grp
            (cp_original previous @ ev_character gap @ following) (alternative @ ev_character gap @ following) confidence application
            True Mode_Context_Word)
           \<lparr>cp_context_field := context_field_id result, cp_kept_tail := (if alike then 0 else int (length strokes))\<rparr>)"

definition ask_before_kept :: "deciders \<Rightarrow> decision \<Rightarrow> correction_plan \<Rightarrow> field_context option \<Rightarrow> ustr \<Rightarrow> decision" where
  "ask_before_kept de baseline previous field following =
     cr_decision (de_ask de (neighbour_question baseline (text_for_group (cp_strokes previous) (cp_target previous)) (cp_target previous)
       following field (ev_character (the (cp_boundary previous))) Kept_Next))"

definition spaced_before :: "correction_plan \<Rightarrow> key_event list \<Rightarrow> key_event \<Rightarrow> decision \<Rightarrow> bool" where
  "spaced_before previous strokes boundary d \<longleftrightarrow>
     map_option ev_character (cp_boundary previous) = Some [0x20] \<and> ev_character boundary = [0x20] \<and> \<not> ev_deferred boundary
     \<and> dc_original d \<noteq> [] \<and> \<not> list_ex isspace_ch (dc_original d) \<and> cp_source previous = dc_source d
     \<and> list_all (\<lambda>e. ev_group e = cp_source previous) (cp_strokes previous @ strokes)"

definition decide_with_kept ::
    "deciders \<Rightarrow> world \<Rightarrow> waiting_word \<Rightarrow> key_event list \<Rightarrow> key_event \<Rightarrow> decision \<Rightarrow> ustr \<Rightarrow> context_result option \<Rightarrow> engine
      \<Rightarrow> correction_plan option" where
  "decide_with_kept de w waiting strokes boundary d application result s =
     (let previous = ww_plan waiting; gap = the (cp_boundary previous)
      in case ww_baseline waiting of
           None \<Rightarrow> None
         | Some baseline \<Rightarrow>
             if \<not> (de_model de \<and> de_action_model de) \<or> \<not> spaced_before previous strokes boundary d
                \<or> cp_original previous = [] \<or> KEPT_CONTEXT_WORD_MAX_CHARACTERS < length (cp_original previous)
                \<or> \<not> neighbour_stands w application (ww_deadline waiting) (ww_window waiting) previous s
                \<or> \<not> stands (cp_original previous @ ev_character gap @ dc_original d @ ev_character boundary) s then None
             else let r = ask_before_kept de baseline previous (Some (ww_field waiting)) (dc_original d)
                  in if \<not> dc_convert r then None
                     else Some (word_before_kept previous strokes boundary (cp_target previous)
                            (text_for_group (cp_strokes previous) (cp_target previous)) (dc_original d) (dc_confidence r) application result))"

definition sign_token_asked :: "ustr \<Rightarrow> bool" where
  "sign_token_asked token \<longleftrightarrow> list_ex (\<lambda>c. c \<notin> set SIGN_DASH) token \<and> \<not> list_ex isalpha_ch token"

definition decide_letter_before_sign ::
    "deciders \<Rightarrow> world \<Rightarrow> kept_word list \<Rightarrow> key_event list \<Rightarrow> key_event \<Rightarrow> decision \<Rightarrow> ustr \<Rightarrow> context_result option \<Rightarrow> engine
      \<Rightarrow> correction_plan option" where
  "decide_letter_before_sign de w kept strokes boundary d application result s =
     (if kept = [] then None
      else
        let word = last kept; previous = kw_plan word; gap = the (cp_boundary previous); grp = cp_target previous;
            alternative = text_for_group (cp_strokes previous) grp
        in case (kw_baseline word, kw_field word) of
             (Some baseline, Some field) \<Rightarrow>
               if \<not> (de_model de \<and> de_action_model de) \<or> kw_segmentation_open word \<or> \<not> spaced_before previous strokes boundary d
                  \<or> text_for_group strokes grp \<noteq> dc_original d
                  \<or> \<not> sign_token_asked (dc_original d)
                  \<or> \<not> variable_question (cp_original previous) alternative (fc_before field) On_Space
                  \<or> \<not> neighbour_stands w application (kw_deadline word) (kw_window word) previous s
                  \<or> \<not> stands (cp_original previous @ ev_character gap @ dc_original d @ ev_character boundary) s then None
               else let r = ask_before_kept de baseline previous (Some field) (dc_original d)
                    in if \<not> dc_convert r then None
                       else Some (word_before_kept previous strokes boundary grp alternative (dc_original d) (dc_confidence r)
                              application result)
           | _ \<Rightarrow> None)"

definition revert_with_next ::
    "surroundings \<Rightarrow> deciders \<Rightarrow> world \<Rightarrow> provisional_word option \<Rightarrow> key_event list \<Rightarrow> key_event option \<Rightarrow> decision \<Rightarrow> ustr
      \<Rightarrow> context_result option \<Rightarrow> engine \<Rightarrow> (correction_plan \<times> decision) option" where
  "revert_with_next su de w provisional strokes boundary d application result s =
     (case provisional of
        None \<Rightarrow> None
      | Some pv \<Rightarrow>
          let applied = pv_plan pv; gap = the (cp_boundary applied);
              original = cp_replacement applied @ ev_character gap @ dc_original d
          in case cp_revisit applied of
               None \<Rightarrow> None
             | Some (baseline, field) \<Rightarrow>
                 if \<not> dc_convert d \<or> context_mode su \<noteq> JStr (asc ''assist'')
                    \<or> \<not> neighbour_stands w application (pv_deadline pv) (pv_window pv) applied s
                    \<or> dc_target d \<noteq> cp_source applied \<or> list_ex (\<lambda>e. ev_group e \<noteq> cp_target applied) strokes
                    \<or> \<not> stands (original @ closing_text boundary) s
                    \<or> dc_reason baseline = Stranded_Short_Word \<or> de_term de (cp_original applied) (case field of None \<Rightarrow> [] | Some f \<Rightarrow> fc_before f)
                 then None
                 else
                   let r = cr_decision (de_ask de (neighbour_question (baseline\<lparr>dc_convert := False, dc_reason := Asked_Again\<rparr>)
                             (cp_replacement applied) (cp_target applied) (dc_replacement d) field (ev_character gap)
                             (neighbour_origin (cp_replacement applied))))
                   in if dc_convert r then None
                      else Some ((plain_plan (cp_strokes applied @ [gap] @ strokes) (closing_key boundary) (cp_target applied)
                                    (cp_source applied) original (cp_original applied @ ev_character gap @ dc_replacement d)
                                    (dc_confidence d) application True Mode_Context_Phrase)
                                   \<lparr>cp_context_field := context_field_id result\<rparr>, d))"

section \<open>The words before a converted word\<close>

text \<open>Whether the kept word still stands right before the plan, and nothing of the user's forbids its conversion.\<close>

definition kept_stands ::
    "engine_config \<Rightarrow> surroundings \<Rightarrow> world \<Rightarrow> ustr \<Rightarrow> bool \<Rightarrow> ustr \<Rightarrow> correction_plan \<Rightarrow> kept_word \<Rightarrow> engine \<Rightarrow> bool" where
  "kept_stands cf su w application switched suffix p word s \<longleftrightarrow>
     (let previous = kw_plan word
      in neighbour_stands w application (kw_deadline word) (kw_window word) previous s
         \<and> cp_source p = cp_source previous \<and> cp_target p = cp_target previous
         \<and> list_all (\<lambda>e. ev_group e = cp_source previous) (cp_strokes previous @ (if switched then [] else cp_strokes p))
         \<and> stands (cp_original previous @ ev_character (the (cp_boundary previous)) @ cp_original p @ suffix) s
         \<and> \<not> ignored_word su (cp_original previous)
         \<and> \<not> (rejected_word cf su (cp_source previous) (cp_original previous)
               \<and> cp_target previous \<in> set (cf_models cf) \<and> cp_target previous \<noteq> cp_source previous))"

definition joined_before :: "key_event option \<Rightarrow> context_result option \<Rightarrow> correction_plan \<Rightarrow> correction_plan \<Rightarrow> correction_plan" where
  "joined_before closing result previous p =
     (let gap = the (cp_boundary previous)
      in p\<lparr>cp_strokes := cp_strokes previous @ [gap] @ cp_strokes p, cp_boundary := closing,
           cp_original := cp_original previous @ ev_character gap @ cp_original p,
           cp_replacement := cp_replacement previous @ ev_character gap @ cp_replacement p, cp_automatic := True,
           cp_mode := Mode_Context_Phrase, cp_context_field := context_field_id result,
           cp_typed := (if cp_typed p = [] then [] else cp_original previous @ ev_character gap @ cp_typed p)\<rparr>)"

definition kept_field :: "surroundings \<Rightarrow> world \<Rightarrow> ustr \<Rightarrow> correction_plan \<Rightarrow> kept_word \<Rightarrow> engine \<Rightarrow> field_context" where
  "kept_field su w suffix p word s =
     (case kw_field word of
        Some f \<Rightarrow> f
      | None \<Rightarrow> context_snapshot (su_int_text su) (wo_now w)
          (cp_original (kw_plan word) @ ev_character (the (cp_boundary (kw_plan word))) @ cp_original p @ suffix) (en_stream s))"

definition asked_again :: "deciders \<Rightarrow> kept_word \<Rightarrow> ustr \<Rightarrow> field_context \<Rightarrow> context_result" where
  "asked_again de word next_replacement field =
     (let previous = kw_plan word
      in de_ask de (neighbour_question
           (case kw_baseline word of Some b \<Rightarrow> b
            | None \<Rightarrow> de_baseline de (cp_original previous) (cp_replacement previous) (cp_source previous) (cp_target previous))
           (cp_replacement previous) (cp_target previous) next_replacement (Some field) (ev_character (the (cp_boundary previous)))
           (neighbour_origin (cp_replacement previous))))"

text \<open>\<open>_known_reading\<close> and the questions built on it; the character model of keys speaks through its score.\<close>

definition without_yo :: "ustr \<Rightarrow> ustr" where
  "without_yo s = map (\<lambda>c. if c = 0x451 then 0x435 else if c = 0x401 then 0x415 else c) s"

definition known_word :: "surroundings \<Rightarrow> int \<Rightarrow> ustr \<Rightarrow> bool" where
  "known_word su grp word = (case su_scorers su grp of None \<Rightarrow> False | Some sc \<Rightarrow> sc_known (score_word sc word))"

definition known_reading :: "surroundings \<Rightarrow> int \<Rightarrow> ustr \<Rightarrow> bool" where
  "known_reading su grp word \<longleftrightarrow> known_word su grp word \<or> known_word su grp (without_yo word)"

definition word_of_its_language :: "surroundings \<Rightarrow> deciders \<Rightarrow> int \<Rightarrow> ustr \<Rightarrow> bool" where
  "word_of_its_language su de grp word \<longleftrightarrow>
     known_reading su grp word
     \<or> KEPT_WORD_PROSE_MIN_COUNT \<le> tb_terms (po_tables (de_policy de)) (if grp = 1 then Russian_Prose else English_Prose) (casefold word)"

definition keys_score :: "surroundings \<Rightarrow> ortho_model \<Rightarrow> correction_plan \<Rightarrow> ustr \<Rightarrow> real option" where
  "keys_score su om p before =
     (let latin = (cp_source p = 0)
      in om_score om (if latin then cp_original p else cp_replacement p) (shape_of (cp_original p) (strip before = [])) latin
           (Some (\<lambda>english word. known_word su (if english then 0 else 1) word)))"

definition keys_of_target :: "surroundings \<Rightarrow> deciders \<Rightarrow> correction_plan \<Rightarrow> ustr \<Rightarrow> bool" where
  "keys_of_target su de p before \<longleftrightarrow>
     (case po_ortho (de_policy de) of
        None \<Rightarrow> False
      | Some om \<Rightarrow> om_minimum_length om \<le> length (if cp_source p = 0 then cp_original p else cp_replacement p)
          \<and> (case keys_score su om p before of None \<Rightarrow> False | Some gain \<Rightarrow> om_threshold om (cp_source p = 0) < gain))"

definition keys_lean :: "surroundings \<Rightarrow> deciders \<Rightarrow> correction_plan \<Rightarrow> ustr \<Rightarrow> bool" where
  "keys_lean su de p before \<longleftrightarrow>
     (case po_ortho (de_policy de) of
        None \<Rightarrow> False
      | Some om \<Rightarrow> (case keys_score su om p before of None \<Rightarrow> False | Some gain \<Rightarrow> 0 < gain))"

definition sign_reads_as_letter :: "surroundings \<Rightarrow> correction_plan \<Rightarrow> bool" where
  "sign_reads_as_letter su p \<longleftrightarrow>
     known_reading su (cp_target p) (text_for_group (cp_strokes p @ cp_trailing p) (cp_target p))
     \<and> \<not> known_word su (cp_target p) (cp_replacement p)"

text \<open>Whether a kept word is asked about at all.\<close>

definition may_ask :: "surroundings \<Rightarrow> deciders \<Rightarrow> kept_word \<Rightarrow> ustr \<Rightarrow> bool" where
  "may_ask su de word before \<longleftrightarrow>
     (let previous = kw_plan word
      in word_of_its_language su de (cp_target previous) (cp_replacement previous)
         \<or> kw_segmentation_open word \<and> keys_of_target su de previous before)"

text \<open>Whether the model's answer takes the word along, and whether it does so in the middle of a line.\<close>

definition takes_word :: "surroundings \<Rightarrow> deciders \<Rightarrow> kept_word \<Rightarrow> ustr \<Rightarrow> context_result \<Rightarrow> bool" where
  "takes_word su de word before r \<longleftrightarrow>
     kw_segmentation_open word \<and> cr_action r = Some Model_Suggest \<and> keys_lean su de (kw_plan word) before
     \<or> dc_convert (cr_decision r)
        \<and> (\<not> kw_segmentation_open word \<or> cr_source r = By_Short_Word \<or> cr_action r = Some Model_Convert)"

definition resumes :: "deciders \<Rightarrow> kept_word \<Rightarrow> ustr \<Rightarrow> ustr \<Rightarrow> context_result \<Rightarrow> bool" where
  "resumes de word before next_replacement r \<longleftrightarrow>
     (let original = cp_original (kw_plan word); alternative = cp_replacement (kw_plan word)
      in case po_model (de_policy de) of
           None \<Rightarrow> False
         | Some m \<Rightarrow> cr_action r = Some Model_Convert
             \<and> (cm_resume m \<and> resume_question original alternative before next_replacement (neighbour_origin alternative)
                \<or> cm_cyrletter m \<and> cyrletter_question original alternative before On_Space))"

record taking =
  tk_plan :: correction_plan
  tk_next :: ustr
  tk_settled :: correction_plan
  tk_taken :: "kept_word list"
  tk_resumed :: "kept_word list"

fun take_words ::
    "engine_config \<Rightarrow> surroundings \<Rightarrow> deciders \<Rightarrow> world \<Rightarrow> ustr \<Rightarrow> bool \<Rightarrow> ustr \<Rightarrow> key_event option \<Rightarrow> context_result option
      \<Rightarrow> engine \<Rightarrow> kept_word list \<Rightarrow> taking \<Rightarrow> taking" where
  "take_words cf su de w application switched suffix closing result s [] t = t"
| "take_words cf su de w application switched suffix closing result s (word # rest) t =
     (let p = tk_plan t; previous = kw_plan word; passed = reads_alike previous; field = kept_field su w suffix p word s
      in if \<not> kept_stands cf su w application switched suffix p word s then t
         else if passed
         then take_words cf su de w application switched suffix closing result s rest
                (t\<lparr>tk_plan := joined_before closing result previous p\<rparr>)
         else if \<not> may_ask su de word (fc_before field) then t
         else
           let r = asked_again de word (tk_next t) field; joined = joined_before closing result previous p
           in if \<not> takes_word su de word (fc_before field) r then t
              else take_words cf su de w application switched suffix closing result s rest
                     (t\<lparr>tk_plan := joined, tk_next := cp_replacement previous, tk_settled := joined, tk_taken := tk_taken t @ [word],
                        tk_resumed := (if resumes de word (fc_before field) (tk_next t) r
                                       then tk_resumed t @ [word] else tk_resumed t)\<rparr>))"

definition last_line :: "ustr \<Rightarrow> ustr" where "last_line s = rev (takeWhile (\<lambda>c. c \<noteq> 0x0A) (rev s))"

definition take_along ::
    "engine_config \<Rightarrow> surroundings \<Rightarrow> deciders \<Rightarrow> world \<Rightarrow> kept_word list \<Rightarrow> correction_plan \<Rightarrow> nat \<Rightarrow> ustr \<Rightarrow> bool
      \<Rightarrow> context_result option \<Rightarrow> engine \<Rightarrow> correction_plan" where
  "take_along cf su de w kept p first_characters application switched result s =
     (if context_mode su \<noteq> JStr (asc ''assist'') then p
      else
        let closing = closing_key (cp_boundary p); suffix = texts_of (cp_trailing p) @ closing_text (cp_boundary p);
            t = take_words cf su de w application switched suffix closing result s (rev kept)
                  \<lparr>tk_plan = p, tk_next = take first_characters (cp_replacement p), tk_settled = p, tk_taken = [], tk_resumed = []\<rparr>
        in if tk_taken t = [] then p
           else
             let settled_plan = tk_settled t; shown = ic_text (en_stream s);
                 before = (case kw_field (last (tk_taken t)) of
                             Some f \<Rightarrow> fc_before f
                           | None \<Rightarrow> take (length shown - length (cp_original settled_plan @ suffix)) shown)
             in if \<not> list_all (\<lambda>word. kw_segmentation_open word \<or> word \<in> set (tk_resumed t)) (tk_taken t)
                   \<and> list_ex isalpha_ch (last_line before) then p
                else settled_plan)"

section \<open>Words that stay for a later word\<close>

definition start_wait ::
    "surroundings \<Rightarrow> world \<Rightarrow> judgement \<Rightarrow> correction_plan \<Rightarrow> decision \<Rightarrow> key_event \<Rightarrow> key_event list \<Rightarrow> nat \<Rightarrow> bool \<Rightarrow> engine
      \<Rightarrow> bool \<times> engine" where
  "start_wait su w j p d boundary trailing head fallback s =
     (case jd_result j of
        None \<Rightarrow> (False, s)
      | Some r \<Rightarrow>
          (case (cr_action r, cr_field r) of
             (Some action, Some field) \<Rightarrow>
               let settles = (action = Model_Wait \<or> fallback)
               in if (settles \<or> action = Model_Suggest) \<and> ev_character boundary = [0x20] \<and> trailing = [] \<and> head = 0
                     \<and> \<not> ev_deferred boundary \<and> \<not> reads_alike p \<and> context_mode su = JStr (asc ''assist'')
                  then (True, s\<lparr>en_context_waiting := Some \<lparr>ww_plan = p, ww_decision = d, ww_field = field, ww_window = window_of s,
                          ww_deadline = wo_now w + CONTEXT_TTL, ww_diagnostic_id = en_wait_sequence s + 1, ww_settles_on_pause = settles,
                          ww_baseline = jd_baseline j, ww_converted = fallback\<rparr>,
                          en_wait_sequence := en_wait_sequence s + 1, en_word_input_at := Some (wo_now w)\<rparr>)
                  else (False, s)
           | _ \<Rightarrow> (False, s)))"

definition keep_for_next :: "kept_word list \<Rightarrow> kept_word option \<Rightarrow> key_event \<Rightarrow> engine \<Rightarrow> engine" where
  "keep_for_next kept word boundary s =
     (if ev_character boundary \<noteq> [0x20] \<or> ev_deferred boundary then s
      else case word of
        Some x \<Rightarrow>
          if \<not> list_ex isalpha_ch (cp_original (kw_plan x))
          then (if reads_alike (kw_plan x) \<and> kept \<noteq> [] \<and> \<not> reads_alike (kw_plan (last kept)) then s\<lparr>en_kept := kept @ [x]\<rparr> else s)
          else s\<lparr>en_kept := (let chain = (if cp_target (kw_plan x) = cp_source (kw_plan x) then kept else kept @ [x]);
                                  ws = List.filter (\<lambda>i. \<not> reads_alike (kw_plan (chain ! i))) [0..<length chain]
                              in if KEPT_WORDS_TAKEN_ALONG < length ws then drop (ws ! (length ws - KEPT_WORDS_TAKEN_ALONG)) chain else chain)\<rparr>
      | None \<Rightarrow>
          s\<lparr>en_kept := (let ws = List.filter (\<lambda>i. \<not> reads_alike (kw_plan (kept ! i))) [0..<length kept]
                        in if KEPT_WORDS_TAKEN_ALONG < length ws then drop (ws ! (length ws - KEPT_WORDS_TAKEN_ALONG)) kept else kept)\<rparr>)"

definition provisional_after_pause ::
    "world \<Rightarrow> provisional_word option \<Rightarrow> key_event list \<Rightarrow> int \<Rightarrow> key_event \<Rightarrow> engine \<Rightarrow> provisional_word option" where
  "provisional_after_pause w paused strokes source boundary s =
     (case paused of
        None \<Rightarrow> None
      | Some pv \<Rightarrow>
          if ev_character boundary \<noteq> [0x20] \<or> ev_deferred boundary \<or> pv_deadline pv < wo_now w \<or> pv_window pv \<noteq> window_of s
             \<or> source \<noteq> cp_target (pv_plan pv) \<or> strokes \<noteq> cp_strokes (pv_plan pv) then None
          else Some (pv\<lparr>pv_plan := (pv_plan pv)\<lparr>cp_boundary := Some boundary\<rparr>\<rparr>))"

definition opening_conversion :: "bool \<Rightarrow> judgement \<Rightarrow> ustr \<Rightarrow> bool" where
  "opening_conversion inside j original \<longleftrightarrow>
     \<not> inside \<and> (case jd_result j of None \<Rightarrow> False
       | Some r \<Rightarrow> cr_source r = By_Model \<and> dc_convert (cr_decision r)
           \<and> (case cr_field r of None \<Rightarrow> False | Some f \<Rightarrow> strip (fc_before f) = []))
     \<and> length (normalize_word original) \<le> TRUSTED_SHORT_WORD_MAX_LENGTH"

end
