(* ===== verification/Word_Judgement.thy ===== *)
theory Word_Judgement
  imports Word_Parts
begin

text \<open>
  How one word is judged (\<open>src/keyswitch/engine.py\<close>, \<open>_decide_word\<close>): the detector, the rule for a letter after an English term, the
  context model; the part after a joining sign, the letters typed inside a word, the word an early switch left. A missing model
  of a layout raises, as in the code. The record \<open>mind\<close> holds the models and what is read of the settings; \<open>deciders_of\<close> makes of it
  the functions the end of a word is defined over.
\<close>

definition STRANDED_TERM_MAX_WORDS :: nat where "STRANDED_TERM_MAX_WORDS = 3"
definition SENTENCE_END_SIGNS :: ustr where "SENTENCE_END_SIGNS = [0x2E, 0x21, 0x3F, 0x2026]"

record mind =
  mi_policy :: policy
  mi_detector :: detector
  mi_confidence :: real
  mi_layout_name :: "int \<Rightarrow> string"

text \<open>The word, as \<open>_decide_word\<close> is asked about it.\<close>

record asked_word =
  aw_original :: ustr
  aw_readings :: "(int \<times> ustr) list"
  aw_source :: int
  aw_trigger :: trigger
  aw_literal_tail :: ustr
  aw_boundary_text :: ustr
  aw_field :: "field_context option"
  aw_inside :: bool
  aw_following :: "key_event list option"

definition word_alone :: "ustr \<Rightarrow> (int \<times> ustr) list \<Rightarrow> int \<Rightarrow> trigger \<Rightarrow> asked_word" where
  "word_alone original others source trigger =
     \<lparr>aw_original = original, aw_readings = others, aw_source = source, aw_trigger = trigger, aw_literal_tail = [],
      aw_boundary_text = [], aw_field = None, aw_inside = False, aw_following = None\<rparr>"

definition readings :: "engine_config \<Rightarrow> key_event list \<Rightarrow> int \<Rightarrow> (int \<times> ustr) list" where
  "readings cf strokes source = map (\<lambda>g. (g, text_for_group strokes g)) (List.filter (\<lambda>g. g \<noteq> source) (cf_models cf))"

definition context_aware :: "surroundings \<Rightarrow> bool" where "context_aware su = flag (su_get su) ''detection.context_aware'' True"

definition forced_group :: "engine_config \<Rightarrow> surroundings \<Rightarrow> int \<Rightarrow> ustr \<Rightarrow> int option" where
  "forced_group cf su source word = (if cf_learning cf then forced_target (su_rules su) source word else None)"

definition rejected_groups :: "engine_config \<Rightarrow> surroundings \<Rightarrow> int \<Rightarrow> ustr \<Rightarrow> int list" where
  "rejected_groups cf su source word = (if rejected_word cf su source word then List.filter (\<lambda>g. g \<noteq> source) (cf_models cf) else [])"

definition read_mode :: "surroundings \<Rightarrow> policy_mode" where
  "read_mode su = (if context_mode su = JStr (asc ''assist'') then Assist_Mode
                   else if context_mode su = JStr (asc ''shadow'') then Shadow_Mode_Set else Other_Mode)"

section \<open>The detector\<close>

definition word_options ::
    "mind \<Rightarrow> engine_config \<Rightarrow> surroundings \<Rightarrow> (int \<times> ustr) list \<Rightarrow> int option \<Rightarrow> trigger \<Rightarrow> int \<Rightarrow> ustr \<Rightarrow> decide_options" where
  "word_options mi cf su words grp trigger source original =
     \<lparr>minimum_length = (if forced_group cf su source original \<noteq> None then 1 else su_minimum su),
      confidence_threshold = mi_confidence mi, ignored_words = su_ignored su, aggressive = flag (su_get su) ''detection.aggressive'' False,
      protect_code = flag (su_get su) ''detection.protect_code'' True, previous_words = map_of words, context_group = grp,
      forced_target_group = forced_group cf su source original, rejected_targets = rejected_groups cf su source original,
      opt_trigger = trigger, use_intent_model = flag (su_get su) ''detection.intent_model_enabled'' True\<rparr>"

definition baseline_decision ::
    "mind \<Rightarrow> engine_config \<Rightarrow> surroundings \<Rightarrow> world \<Rightarrow> engine \<Rightarrow> asked_word \<Rightarrow> py_error + decision" where
  "baseline_decision mi cf su w s a =
     (let (words, grp) = context_for (wo_now w) (wo_application w) s; aware = context_aware su;
          following = (\<lambda>g. case aw_following a of
             Some keys \<Rightarrow> if g \<in> fst ` set (aw_readings a) then Some (text_for_group keys g) else None | None \<Rightarrow> None)
      in automatic_word_decision (mi_detector mi)
           (word_options mi cf su (if aware then words else []) (if aware then grp else None) (aw_trigger a) (aw_source a) (aw_original a))
           (aware \<and> strip (wo_application w) \<noteq> []) following (aw_original a) (aw_readings a) (aw_source a))"

definition planned_baseline ::
    "mind \<Rightarrow> engine_config \<Rightarrow> surroundings \<Rightarrow> ustr \<Rightarrow> (int \<times> ustr) list \<Rightarrow> int \<Rightarrow> ustr \<Rightarrow> int \<Rightarrow> py_error + decision" where
  "planned_baseline mi cf su original others source next_word next_group =
     automatic_word_decision (mi_detector mi) (word_options mi cf su [(next_group, next_word)] (Some next_group) On_Space source original)
       False (\<lambda>_. None) original others source"

section \<open>A letter after an English term\<close>

definition latin_ch :: "uchar \<Rightarrow> bool" where "latin_ch c \<longleftrightarrow> 0x41 \<le> c \<and> c \<le> 0x5A \<or> 0x61 \<le> c \<and> c \<le> 0x7A"
definition cyrillic_ch :: "uchar \<Rightarrow> bool" where "cyrillic_ch c \<longleftrightarrow> 0x410 \<le> c \<and> c \<le> 0x44F \<or> c = 0x401 \<or> c = 0x451"

definition term_word :: "ustr \<Rightarrow> bool" where "term_word word \<longleftrightarrow> list_ex latin_ch word \<and> \<not> list_ex cyrillic_ch word"

text \<open>The words of the line from its end: the term, of \<open>n\<close> words so far, then the word before it.\<close>

fun term_before :: "nat \<Rightarrow> ustr list \<Rightarrow> bool" where
  "term_before n [] = False"
| "term_before n (word # rest) =
     (if n < STRANDED_TERM_MAX_WORDS \<and> term_word word
      then last word \<notin> set SENTENCE_END_SIGNS \<and> term_before (n + 1) rest
      else 0 < n \<and> list_ex cyrillic_ch word \<and> last word \<notin> set SENTENCE_END_SIGNS)"

definition after_russian_term :: "ustr \<Rightarrow> bool" where
  "after_russian_term before \<longleftrightarrow> ends_in_space before \<and> term_before 0 (rev (split_words (last_line before)))"

definition field_before :: "surroundings \<Rightarrow> world \<Rightarrow> ustr \<Rightarrow> ustr option" where
  "field_before su w typed =
     (if \<not> reads_field su then None
      else case wo_field w of
        None \<Rightarrow> None
      | Some f \<Rightarrow>
          if fc_sensitive f \<or> fc_selection f \<or> fc_application f \<noteq> wo_application w then None
          else map_option fst (typed_in_field (bounded_field f) typed [0x20]))"

definition stranded_letter ::
    "mind \<Rightarrow> engine_config \<Rightarrow> surroundings \<Rightarrow> world \<Rightarrow> engine \<Rightarrow> asked_word \<Rightarrow> decision \<Rightarrow> decision" where
  "stranded_letter mi cf su w s a d =
     (let original = aw_original a; rejected = rejected_groups cf su (aw_source a) original;
          targets = List.filter (\<lambda>(g, reading). g \<noteq> aw_source a \<and> g \<notin> set rejected \<and> reading \<in> set TRUSTED_SINGLE_LETTER_WORDS)
                      (aw_readings a)
      in if length original \<noteq> 1 \<or> \<not> list_all latin_ch original \<or> \<not> islower original then d
         else case targets of
           [] \<Rightarrow> d
         | (g, replacement) # _ \<Rightarrow>
             if \<not> after_russian_term (before_word (wo_now w) original (en_stream s))
                \<and> (case field_before su w original of None \<Rightarrow> True | Some f \<Rightarrow> \<not> after_russian_term f) then d
             else d\<lparr>dc_convert := True, dc_replacement := replacement, dc_target := g, dc_confidence := SINGLE_LETTER_CONFIDENCE,
                    dc_reason := Stranded_Short_Word,
                    dc_target_score := (case det_models (mi_detector mi) g of None \<Rightarrow> empty_score | Some sc \<Rightarrow> score_word sc replacement)\<rparr>)"

section \<open>The context model\<close>

text \<open>\<open>_typed_after\<close>.\<close>

definition typed_after :: "ustr \<Rightarrow> engine \<Rightarrow> ustr" where
  "typed_after original s = typed_ahead (if texts_of (en_strokes s) = original then en_strokes s else []) s"

definition consult_context_model ::
    "mind \<Rightarrow> engine_config \<Rightarrow> surroundings \<Rightarrow> world \<Rightarrow> engine \<Rightarrow> asked_word \<Rightarrow> decision \<Rightarrow> py_error + judgement" where
  "consult_context_model mi cf su w s a d =
     (let rejected = rejected_groups cf su (aw_source a) (aw_original a)
      in case List.filter (\<lambda>(g, _). g \<notin> set rejected) (aw_readings a) of
           [] \<Rightarrow> Inr \<lparr>jd_decision = d, jd_result = None, jd_baseline = Some d, jd_asked = []\<rparr>
         | (g, alternative) # _ \<Rightarrow>
             (case decide_context (mi_policy mi) (mi_detector mi)
                     (\<lambda>anchor. context_snapshot (su_int_text su) (wo_now w) anchor (en_stream s)) (wo_field w)
                     ((plain_question d alternative g (aw_trigger a) (aw_field a))
                        \<lparr>qu_mode := read_mode su,
                         qu_read := (aw_field a = None \<and> flag (su_get su) ''detection.context_read_field'' False),
                         qu_literal_tail := aw_literal_tail a, qu_boundary_text := aw_boundary_text a, qu_inside := aw_inside a,
                         qu_ahead := Some (typed_after (aw_original a) s)\<rparr>) of
                Inl e \<Rightarrow> Inl e
              | Inr r \<Rightarrow> Inr \<lparr>jd_decision = cr_decision r, jd_result = Some r, jd_baseline = Some d,
                              jd_asked = [(aw_original a, alternative, r)]\<rparr>))"

text \<open>What the user settled is not put to the model.\<close>

definition settled_by_user :: "engine_config \<Rightarrow> surroundings \<Rightarrow> world \<Rightarrow> asked_word \<Rightarrow> bool" where
  "settled_by_user cf su w a \<longleftrightarrow>
     \<not> context_aware su \<or> forced_group cf su (aw_source a) (aw_original a) \<noteq> None \<or> aw_trigger a = Boundary_Probe
     \<or> ignored_word su (aw_original a) \<or> cf_excluded cf (wo_application w)"

definition decide_word ::
    "mind \<Rightarrow> engine_config \<Rightarrow> surroundings \<Rightarrow> world \<Rightarrow> engine \<Rightarrow> asked_word \<Rightarrow> py_error + judgement" where
  "decide_word mi cf su w s a =
     (case baseline_decision mi cf su w s a of
        Inl e \<Rightarrow> Inl e
      | Inr b \<Rightarrow>
          let d = (if \<not> dc_convert b \<and> \<not> aw_inside a then stranded_letter mi cf su w s a b else b)
          in if settled_by_user cf su w a then Inr \<lparr>jd_decision = d, jd_result = None, jd_baseline = Some d, jd_asked = []\<rparr>
             else consult_context_model mi cf su w s a d)"

section \<open>An early switch, now that the word is complete\<close>

definition result_action :: "context_result option \<Rightarrow> model_action option" where
  "result_action r = (case r of None \<Rightarrow> None | Some x \<Rightarrow> cr_action x)"

definition settle_early_switch ::
    "mind \<Rightarrow> engine_config \<Rightarrow> surroundings \<Rightarrow> world \<Rightarrow> engine \<Rightarrow> judgement \<Rightarrow> key_event list \<Rightarrow> int \<Rightarrow> int \<Rightarrow> trigger \<Rightarrow> ustr
      \<Rightarrow> py_error + judgement" where
  "settle_early_switch mi cf su w s j strokes shown_group origin trigger boundary_text =
     (let shown = jd_decision j; typed = text_for_group strokes origin
      in if origin = shown_group \<or> origin \<notin> set (cf_models cf) \<or> dc_convert shown
            \<or> sc_known (dc_source_score shown) \<or> po_identifiers (mi_policy mi) (dc_original shown)
            \<or> result_action (jd_result j) = None then Inr j
         else case decide_word mi cf su w s ((word_alone typed [(shown_group, dc_original shown)] origin trigger)
                     \<lparr>aw_boundary_text := boundary_text, aw_field := result_field (jd_result j)\<rparr>) of
           Inl e \<Rightarrow> Inl e
         | Inr v \<Rightarrow>
             let asked = j\<lparr>jd_asked := jd_asked j @ jd_asked v\<rparr>
             in if dc_convert (jd_decision v) \<or> result_action (jd_result v) \<noteq> Some Model_Keep then Inr asked
                else Inr (asked\<lparr>jd_baseline := None,
                       jd_decision := shown\<lparr>dc_convert := True, dc_replacement := typed, dc_target := origin,
                         dc_confidence := (case jd_result v of None \<Rightarrow> 0 | Some r \<Rightarrow> (case cr_prediction r of None \<Rightarrow> 0 | Some x \<Rightarrow> xp_probability x)),
                         dc_reason := Early_Switch_Withdrawn\<rparr>\<rparr>))"

section \<open>The part after a joining sign\<close>

text \<open>The start of a word, at a pause.\<close>

definition word_begun :: "mind \<Rightarrow> ustr \<Rightarrow> int \<Rightarrow> ustr \<Rightarrow> int \<Rightarrow> bool" where
  "word_begun mi original grp alternative target \<longleftrightarrow>
     length original = PAUSE_WORD_START_LETTERS \<and> isalpha original
     \<and> (case po_lexicon (mi_policy mi) grp of None \<Rightarrow> False
        | Some (_, m) \<Rightarrow> PAUSE_WORD_START_MIN_WORDS \<le> count_of (word_starts m) (casefold original))
     \<and> (let prose = (if mi_layout_name mi target = ''us'' then Some English_Prose
                      else if mi_layout_name mi target = ''ru'' then Some Russian_Prose else None)
        in case prose of None \<Rightarrow> False
           | Some table \<Rightarrow> tb_terms (po_tables (mi_policy mi)) table (casefold alternative) < hd CONTEXT_TERM_FREQUENCY_BUCKET_BOUNDS)"

definition joined_head :: "mind \<Rightarrow> engine_config \<Rightarrow> surroundings \<Rightarrow> key_event list \<Rightarrow> int \<Rightarrow> nat" where
  "joined_head mi cf su strokes source =
     (if \<not> context_aware su \<or> context_mode su \<noteq> JStr (asc ''assist'') \<or> po_model (mi_policy mi) = None then 0
      else joined_split cf strokes source)"

definition decide_joined_part ::
    "mind \<Rightarrow> engine_config \<Rightarrow> surroundings \<Rightarrow> world \<Rightarrow> engine \<Rightarrow> judgement \<Rightarrow> key_event list \<Rightarrow> key_event list \<Rightarrow> int \<Rightarrow> key_event option
      \<Rightarrow> py_error + nat option \<times> judgement" where
  "decide_joined_part mi cf su w s j strokes signs source boundary =
     (let split = joined_head mi cf su strokes source; head = take (split - 1) strokes; tail = drop split strokes;
          original = text_for_group tail source; others = readings cf tail source
      in if split = 0 then Inr (None, j)
         else if trigger_of boundary = On_Pause \<and> signs = []
                 \<and> (case others of [] \<Rightarrow> False | (g, reading) # _ \<Rightarrow> word_begun mi original source reading g) then Inr (None, j)
         else case decide_word mi cf su w s ((word_alone original others source (trigger_of boundary))
                     \<lparr>aw_literal_tail := texts_of signs, aw_boundary_text := (case boundary of None \<Rightarrow> [] | Some b \<Rightarrow> ev_character b),
                      aw_following := Some (signs @ (case boundary of None \<Rightarrow> [] | Some b \<Rightarrow> [b]))\<rparr>) of
           Inl e \<Rightarrow> Inl e
         | Inr part \<Rightarrow>
             if \<not> dc_convert (jd_decision part) then Inr (None, j\<lparr>jd_asked := jd_asked j @ jd_asked part\<rparr>)
             else if \<not> dc_convert (jd_decision j) then Inr (Some split, part\<lparr>jd_asked := jd_asked j @ jd_asked part\<rparr>)
             else case decide_word mi cf su w s ((word_alone (text_for_group head source) (readings cf head source) source On_Punctuation)
                         \<lparr>aw_boundary_text := ev_character (strokes ! (split - 1))\<rparr>) of
               Inl e \<Rightarrow> Inl e
             | Inr h \<Rightarrow>
                 let asked = jd_asked j @ jd_asked part @ jd_asked h
                 in if result_action (jd_result h) = Some Model_Keep then Inr (Some split, part\<lparr>jd_asked := asked\<rparr>)
                    else Inr (None, j\<lparr>jd_asked := asked\<rparr>))"

section \<open>Letters typed inside a word\<close>

text \<open>The layout's letters, small and capital.\<close>

definition layout_letters :: "mind \<Rightarrow> int \<Rightarrow> ustr" where
  "layout_letters mi grp =
     (let keys = List.filter isalpha_ch (if mi_layout_name mi grp = ''us'' then US_KEYS else if mi_layout_name mi grp = ''ru'' then RU_KEYS else [])
      in keys @ concat (map (\<lambda>k. if length (upper_ch k) = 1 then upper_ch k else []) keys))"

text \<open>\<open>_kept_inside_word\<close> leaves the context result and the baseline of the word judged before in place.\<close>

definition kept_inside_word ::
    "mind \<Rightarrow> ustr \<Rightarrow> int \<Rightarrow> context_result option \<times> decision option \<Rightarrow> py_error + judgement" where
  "kept_inside_word mi fragment source left =
     (case det_models (mi_detector mi) source of
        None \<Rightarrow> Inl KeyError
      | Some sc \<Rightarrow> Inr \<lparr>jd_decision = plain_decision False fragment fragment source source 0 Typed_Inside_Word (score_word sc fragment)
                                      (score_word sc fragment),
                       jd_result = fst left, jd_baseline = snd left, jd_asked = []\<rparr>)"

definition signs_are_letters :: "engine_config \<Rightarrow> surroundings \<Rightarrow> ustr \<Rightarrow> ustr \<Rightarrow> int \<Rightarrow> int \<Rightarrow> nat \<Rightarrow> bool" where
  "signs_are_letters cf su original alternative source target count \<longleftrightarrow>
     (case su_boundary su of None \<Rightarrow> False
      | Some predict \<Rightarrow> source \<in> set (cf_models cf) \<and> target \<in> set (cf_models cf) \<and> predict original alternative count = Some 0)"

definition decide_inside_word ::
    "mind \<Rightarrow> engine_config \<Rightarrow> surroundings \<Rightarrow> world \<Rightarrow> engine \<Rightarrow> key_event list \<Rightarrow> int \<Rightarrow> context_result option \<times> decision option
      \<Rightarrow> key_event option \<Rightarrow> py_error + judgement option" where
  "decide_inside_word mi cf su w s strokes source left boundary =
     (let fragment = text_for_group strokes source; closing = closing_text boundary;
          kept = (case kept_inside_word mi fragment source left of Inl e \<Rightarrow> Inl e | Inr j \<Rightarrow> Inr (Some j))
      in if \<not> inside_word (en_insertion s) \<or> \<not> su_reader su then Inr None
         else case readings cf strokes source of
           [] \<Rightarrow> Inr None
         | (target, reading) # _ \<Rightarrow>
             (case (wo_field w,
                    case wo_field w of None \<Rightarrow> None
                    | Some f \<Rightarrow> if fc_sensitive f \<or> fc_selection f \<or> fc_application f \<noteq> wo_application w then None
                                else typed_in_field f fragment (closing @ typed_ahead strokes s)) of
                (Some f, Some (before, after)) \<Rightarrow>
                  let head = letters_before before; tail = (if boundary \<noteq> None then [] else letters_after after); around = head @ tail;
                      here = layout_letters mi source; there = layout_letters mi target
                  in if around = [] then Inr None
                     else if there = [] \<or> \<not> set around \<subseteq> set there \<or> set around \<inter> set here \<noteq> {} then kept
                     else (case (translate head (mi_layout_name mi target) (mi_layout_name mi source),
                                 translate tail (mi_layout_name mi target) (mi_layout_name mi source)) of
                       (Inr head2, Inr tail2) \<Rightarrow>
                         let whole = head2 @ fragment @ tail2
                         in if tail = [] \<and> \<not> list_ex isalpha_ch fragment
                               \<and> \<not> signs_are_letters cf su whole (head @ reading) source target (length fragment) then kept
                            else (case decide_word mi cf su w s ((word_alone whole [(target, head @ reading @ tail)] source (trigger_of boundary))
                                    \<lparr>aw_boundary_text := closing, aw_inside := True,
                                     aw_field := Some (f\<lparr>fc_before := take (length before - length head) before, fc_after := drop (length tail) after\<rparr>)\<rparr>) of
                              Inl e \<Rightarrow> Inl e
                            | Inr j \<Rightarrow>
                                let d = jd_decision j
                                in if dc_convert d \<and> dc_target d = target
                                   then Inr (Some (j\<lparr>jd_decision := d\<lparr>dc_original := fragment, dc_replacement := reading\<rparr>\<rparr>))
                                   else Inr (Some (j\<lparr>jd_result := None,
                                          jd_decision := d\<lparr>dc_convert := False, dc_original := fragment, dc_replacement := fragment\<rparr>\<rparr>)))
                     | (Inl e, _) \<Rightarrow> Inl e
                     | (_, Inl e) \<Rightarrow> Inl e)
              | _ \<Rightarrow> kept))"

section \<open>The answers the end of a word is defined over\<close>

text \<open>
  The functions of \<open>deciders\<close>, in the state the word ends in; \<open>left\<close> is what the word judged before left. Where the code raises, for
  a layout without a model, the word stays.
\<close>

definition or_stays :: "ustr \<Rightarrow> int \<Rightarrow> py_error + judgement \<Rightarrow> judgement" where
  "or_stays original source j =
     (case j of
        Inr j \<Rightarrow> j
      | Inl _ \<Rightarrow> \<lparr>jd_decision = plain_decision False original original source source 0 Not_Needed empty_score empty_score,
                  jd_result = None, jd_baseline = None, jd_asked = []\<rparr>)"

definition deciders_of ::
    "mind \<Rightarrow> engine_config \<Rightarrow> surroundings \<Rightarrow> world \<Rightarrow> engine \<Rightarrow> context_result option \<times> decision option \<Rightarrow> deciders \<Rightarrow> deciders" where
  "deciders_of mi cf su w s left de =
     de\<lparr>de_policy := mi_policy mi,
        de_word := (\<lambda>original others source tail b. or_stays original source (decide_word mi cf su w s
          ((word_alone original others source (trigger_of (Some b)))
             \<lparr>aw_literal_tail := texts_of tail, aw_boundary_text := ev_character b, aw_following := Some (tail @ [b])\<rparr>))),
        de_shadow := (\<lambda>original others source b. or_stays original source (decide_word mi cf su w s
          (word_alone original others source (trigger_of (Some b))))),
        de_inside := (\<lambda>strokes source b. case decide_inside_word mi cf su w s strokes source left (Some b) of Inr j \<Rightarrow> j | Inl _ \<Rightarrow> None),
        de_settle := (\<lambda>j strokes source origin b.
          case settle_early_switch mi cf su w s j strokes source origin (trigger_of (Some b)) (ev_character b) of Inr j2 \<Rightarrow> j2 | Inl _ \<Rightarrow> j),
        de_joined := (\<lambda>j strokes signs source b.
          case decide_joined_part mi cf su w s j strokes signs source (Some b) of Inr x \<Rightarrow> x | Inl _ \<Rightarrow> (None, j)),
        de_ask := (\<lambda>q. case decide_context (mi_policy mi) (mi_detector mi)
            (\<lambda>anchor. context_snapshot (su_int_text su) (wo_now w) anchor (en_stream s)) (wo_field w) q of
          Inr r \<Rightarrow> r | Inl _ \<Rightarrow> plain_result ((qu_baseline q)\<lparr>dc_convert := False\<rparr>) No_Fallback),
        de_planned := (\<lambda>original alternative source reading grp.
          case planned_baseline mi cf su original [(grp, alternative)] source reading grp of
            Inr d \<Rightarrow> d | Inl _ \<Rightarrow> jd_decision (or_stays original source (Inl KeyError))),
        de_baseline := (\<lambda>original alternative source grp.
          case baseline_decision mi cf su w s (word_alone original [(grp, alternative)] source On_Space) of
            Inr d \<Rightarrow> d | Inl _ \<Rightarrow> jd_decision (or_stays original source (Inl KeyError))),
        de_layout_name := mi_layout_name mi\<rparr>"

section \<open>What a conversion of one word guarantees\<close>

lemma decide_names:
  assumes "decide det opts original others source = Inr d"
  shows "dc_original d = original \<and> dc_source d = source"
proof -
  obtain scorer where scorer: "det_models det source = Some scorer" using assms by (auto simp: decide_def split: option.splits)
  let ?scored = "scored_candidates det opts scorer original others source"
  show ?thesis
  proof (cases "max_by cd_delta ?scored")
    case None
    then show ?thesis using assms scorer unfolding decide_def Let_def by auto
  next
    case (Some best)
    have about: "about x original source best (score_word scorer original) \<Longrightarrow> dc_original x = original \<and> dc_source x = source" for x
      by (simp add: about_def)
    let ?I = "\<lambda>x. dc_original x = original \<and> dc_source x = source"
    have if_keep: "(P \<Longrightarrow> ?I x) \<Longrightarrow> (\<not> P \<Longrightarrow> ?I y) \<Longrightarrow> ?I (if P then x else y)" for P x y by simp
    have opt_keep: "?I x \<Longrightarrow> (\<And>z. v = Some z \<Longrightarrow> ?I (f z)) \<Longrightarrow> ?I (case v of None \<Rightarrow> x | Some z \<Rightarrow> f z)" for v :: "'z option" and x f
      by (simp split: option.split)
    show ?thesis
      using assms scorer Some unfolding decide_def Let_def
      apply (simp only: option.case sum.inject)
      apply (erule subst)
      apply (intro if_keep opt_keep)
      apply (simp_all add: about [OF about_known] about [OF about_ngram])
      apply (auto split: if_split_asm dest: about_slip about)
      done
  qed
qed

lemma veto_names [simp]:
  "dc_original (word_shape_veto d) = dc_original d" "dc_source (word_shape_veto d) = dc_source d"
  "dc_original (natural_short_source_veto g d) = dc_original d" "dc_source (natural_short_source_veto g d) = dc_source d"
  by (simp_all add: word_shape_veto_def natural_short_source_veto_def Let_def)

lemma automatic_names:
  assumes "automatic_word_decision det opts tracked following original others source = Inr d"
  shows "dc_original d = original \<and> dc_source d = source"
proof -
  obtain verdict where verdict: "decide det opts original others source = Inr verdict"
    using assms by (auto simp: automatic_word_decision_def split: sum.splits)
  let ?d = "word_shape_veto (natural_short_source_veto (context_group opts) verdict)"
  have "d = ?d \<or> trusted_short_word_decision det (ignored_words opts) (rejected_targets opts) (protect_code opts)
        (context_group opts) original others source = Inr (Some d)
      \<or> opening_letter_decision det (ignored_words opts) (rejected_targets opts) (protect_code opts) (context_group opts)
        following original others source = Inr (Some d)"
    using assms verdict by (auto simp: automatic_word_decision_def Let_def split: sum.splits option.splits if_splits)
  then show ?thesis
    using decide_names [OF verdict] trusted_sound [where opts = opts] opening_sound [where opts = opts]
    by (auto simp: sound_conversion_def)
qed

lemma options_fields [simp]:
  "ignored_words (word_options mi cf su ws g tr source original) = su_ignored su"
  "forced_target_group (word_options mi cf su ws g tr source original) = forced_group cf su source original"
  "rejected_targets (word_options mi cf su ws g tr source original) = rejected_groups cf su source original"
  by (simp_all add: word_options_def)

text \<open>A conversion of the word that was asked about, to one of the readings it was asked with, past the rules of the user.\<close>

definition of_word :: "asked_word \<Rightarrow> decision \<Rightarrow> bool" where
  "of_word a d \<longleftrightarrow> dc_original d = aw_original a \<and> dc_source d = aw_source a"

definition offered :: "engine_config \<Rightarrow> surroundings \<Rightarrow> asked_word \<Rightarrow> decision \<Rightarrow> bool" where
  "offered cf su a d \<longleftrightarrow>
     (dc_target d, dc_replacement d) \<in> set (aw_readings a)
     \<and> (forced_group cf su (aw_source a) (aw_original a) = Some (dc_target d)
        \<or> dc_target d \<notin> set (rejected_groups cf su (aw_source a) (aw_original a)))"

lemma baseline_sound:
  assumes "baseline_decision mi cf su w s a = Inr d"
  shows "of_word a d \<and> (dc_convert d \<longrightarrow> offered cf su a d \<and> \<not> ignored_word su (aw_original a))"
proof -
  obtain ws g tracked following where d: "automatic_word_decision (mi_detector mi)
      (word_options mi cf su ws g (aw_trigger a) (aw_source a) (aw_original a)) tracked following (aw_original a) (aw_readings a) (aw_source a) = Inr d"
    using assms by (auto simp: baseline_decision_def Let_def split_beta)
  show ?thesis
    using automatic_names [OF d] automatic_sound [OF d]
    by (auto simp: of_word_def offered_def sound_conversion_def ignored_word_def split: if_splits)
qed

lemma stranded_cases:
  obtains "stranded_letter mi cf su w s a d = d"
    | g reading c where "(g, reading) \<in> set (aw_readings a)" "g \<notin> set (rejected_groups cf su (aw_source a) (aw_original a))"
      "stranded_letter mi cf su w s a d = d\<lparr>dc_convert := True, dc_replacement := reading, dc_target := g,
         dc_confidence := SINGLE_LETTER_CONFIDENCE, dc_reason := Stranded_Short_Word, dc_target_score := c\<rparr>"
proof (cases "List.filter (\<lambda>(g, reading). g \<noteq> aw_source a \<and> g \<notin> set (rejected_groups cf su (aw_source a) (aw_original a))
    \<and> reading \<in> set TRUSTED_SINGLE_LETTER_WORDS) (aw_readings a)")
  case Nil
  then show ?thesis by (intro that(1)) (simp add: stranded_letter_def Let_def)
next
  case (Cons x rest)
  obtain g reading where x: "x = (g, reading)" by fastforce
  from Cons have "x \<in> set (List.filter (\<lambda>(g, reading). g \<noteq> aw_source a \<and> g \<notin> set (rejected_groups cf su (aw_source a) (aw_original a))
      \<and> reading \<in> set TRUSTED_SINGLE_LETTER_WORDS) (aw_readings a))"
    by (simp only: list.set_intros)
  then have target: "(g, reading) \<in> set (aw_readings a)" "g \<notin> set (rejected_groups cf su (aw_source a) (aw_original a))"
    by (auto simp: x)
  show ?thesis
  proof (cases "length (aw_original a) \<noteq> 1 \<or> \<not> list_all latin_ch (aw_original a) \<or> \<not> islower (aw_original a)
      \<or> \<not> after_russian_term (before_word (wo_now w) (aw_original a) (en_stream s))
         \<and> (case field_before su w (aw_original a) of None \<Rightarrow> True | Some f \<Rightarrow> \<not> after_russian_term f)")
    case True
    then show ?thesis
      by (intro that(1)) (simp only: stranded_letter_def Let_def Cons x list.case prod.case split: if_split, blast)
  next
    case False
    have "stranded_letter mi cf su w s a d = d\<lparr>dc_convert := True, dc_replacement := reading, dc_target := g,
        dc_confidence := SINGLE_LETTER_CONFIDENCE, dc_reason := Stranded_Short_Word,
        dc_target_score := (case det_models (mi_detector mi) g of None \<Rightarrow> empty_score | Some sc \<Rightarrow> score_word sc reading)\<rparr>"
      using False by (simp only: stranded_letter_def Let_def Cons x list.case prod.case split: if_split, blast)
    then show ?thesis by (rule that(2) [OF target])
  qed
qed

lemma stranded_sound:
  assumes "of_word a d"
  shows "of_word a (stranded_letter mi cf su w s a d)
    \<and> (stranded_letter mi cf su w s a d = d
       \<or> offered cf su a (stranded_letter mi cf su w s a d) \<and> dc_reason (stranded_letter mi cf su w s a d) = Stranded_Short_Word)"
  by (rule stranded_cases [of mi cf su w s a d]) (use assms in \<open>simp_all add: of_word_def offered_def\<close>)

lemma consulted_sound:
  assumes "consult_context_model mi cf su w s a d = Inr j" "of_word a d" "dc_convert (jd_decision j)"
    and "dc_convert d \<Longrightarrow> offered cf su a d"
  shows "of_word a (jd_decision j) \<and> offered cf su a (jd_decision j)"
proof -
  let ?P = "\<lambda>(g, reading :: ustr). g \<notin> set (rejected_groups cf su (aw_source a) (aw_original a))"
  show ?thesis
  proof (cases "List.filter ?P (aw_readings a)")
    case Nil
    then show ?thesis using assms by (auto simp: consult_context_model_def)
  next
    case (Cons x rest)
    obtain g reading where x: "x = (g, reading)" by fastforce
    have "(g, reading) \<in> set (List.filter ?P (aw_readings a))" by (simp only: Cons x list.set_intros)
    then have target: "(g, reading) \<in> set (aw_readings a)" "g \<notin> set (rejected_groups cf su (aw_source a) (aw_original a))" by auto
    define q where "q = (plain_question d reading g (aw_trigger a) (aw_field a))
      \<lparr>qu_mode := read_mode su, qu_read := (aw_field a = None \<and> flag (su_get su) ''detection.context_read_field'' False),
       qu_literal_tail := aw_literal_tail a, qu_boundary_text := aw_boundary_text a, qu_inside := aw_inside a,
       qu_ahead := Some (typed_after (aw_original a) s)\<rparr>"
    obtain r where r: "decide_context (mi_policy mi) (mi_detector mi)
        (\<lambda>anchor. context_snapshot (su_int_text su) (wo_now w) anchor (en_stream s)) (wo_field w) q = Inr r" "jd_decision j = cr_decision r"
      using assms(1) unfolding consult_context_model_def Let_def Cons x q_def [symmetric]
      by (auto simp: q_def [symmetric] split: sum.splits)
    have q: "qu_baseline q = d" "qu_alternative q = reading" "qu_target q = g" by (simp_all add: q_def plain_question_def)
    from policy_sound [OF r(1)] assms(3) r(2)
    have "cr_decision r = d \<or> to_reading q (cr_decision r)" by (auto simp: q)
    then show ?thesis
      using assms(2-4) target r(2) q by (auto simp: of_word_def offered_def to_reading_def)
  qed
qed

text \<open>C10: Whatever the detector, the trained models, the observed text and the field answer, a word that is converted is the word that
  was asked about, to one of the readings it was asked with, and to no layout a rule of the user's keeps it from, unless another
  rule forces it; a word on the user's list of exclusions is converted by one rule alone, the one for a letter after an
  English term.\<close>

theorem decided_word_sound:
  assumes "decide_word mi cf su w s a = Inr j" "dc_convert (jd_decision j)"
  shows "of_word a (jd_decision j) \<and> offered cf su a (jd_decision j)
    \<and> (ignored_word su (aw_original a) \<longrightarrow> dc_reason (jd_decision j) = Stranded_Short_Word)"
proof -
  obtain b where b: "baseline_decision mi cf su w s a = Inr b" using assms(1) by (auto simp: decide_word_def split: sum.splits)
  define d where "d = (if \<not> dc_convert b \<and> \<not> aw_inside a then stranded_letter mi cf su w s a b else b)"
  have d: "of_word a d" "dc_convert d \<Longrightarrow> offered cf su a d \<and> (ignored_word su (aw_original a) \<longrightarrow> dc_reason d = Stranded_Short_Word)"
    using baseline_sound [OF b] stranded_sound [of a b mi cf su w s] by (auto simp: d_def split: if_splits)
  have j: "(if settled_by_user cf su w a then Inr \<lparr>jd_decision = d, jd_result = None, jd_baseline = Some d, jd_asked = []\<rparr>
            else consult_context_model mi cf su w s a d) = Inr j"
    using assms(1) unfolding decide_word_def b sum.case Let_def d_def [symmetric] .
  show ?thesis
  proof (cases "settled_by_user cf su w a")
    case True
    then show ?thesis using d j assms(2) by auto
  next
    case False
    then have "\<not> ignored_word su (aw_original a)" by (simp add: settled_by_user_def)
    then show ?thesis using False j consulted_sound [of mi cf su w s a d j] d assms(2) by auto
  qed
qed

text \<open>\<open>gj\<close> typed in the English layout, judged by a model that always converts.\<close>

definition small_surroundings :: surroundings where
  "small_surroundings =
     \<lparr>su_get = (\<lambda>path fallback. fallback), su_repr = (\<lambda>_. []), su_overflow = False, su_gap = False, su_switch_error = None,
      su_reader = False, su_reader_available = False, su_boundary = None, su_recognisable = (\<lambda>_ _. False),
      su_rules = \<lparr>rules_stored = [], migrated = 0, unreadable = False, main_file = No_File, backup_file = No_File, aside_file = No_File\<rparr>,
      su_ignored = [], su_indexes = (\<lambda>_. None), su_scorers = (\<lambda>_. None), su_minimum = 3, su_prefix_model = None,
      su_int_text = (\<lambda>_. []), su_settles = (\<lambda>_ _. None)\<rparr>"

definition small_mind :: mind where
  "small_mind = \<lparr>mi_policy = sample_policy, mi_detector = sample_detector, mi_confidence = 2,
     mi_layout_name = (\<lambda>g. if g = 0 then ''us'' else ''ru'')\<rparr>"

definition small_asked :: asked_word where "small_asked = word_alone [0x67, 0x6A] [(1, [0x43F, 0x43E])] 0 On_Space"

lemma automatic_total:
  "det_models det source \<noteq> None \<Longrightarrow> \<exists>d. automatic_word_decision det opts tracked following original others source = Inr d"
  by (auto simp: automatic_word_decision_def decide_def trusted_short_word_decision_def opening_letter_decision_def Let_def
      split: sum.split option.split)

lemma baseline_total:
  "det_models (mi_detector mi) (aw_source a) \<noteq> None \<Longrightarrow> \<exists>d. baseline_decision mi cf su w s a = Inr d"
  unfolding baseline_decision_def Let_def split_beta by (rule automatic_total)

lemma small_rules [simp]: "forced_group small_config small_surroundings g word = None" "rejected_groups small_config small_surroundings g word = []"
  by (simp_all add: forced_group_def rejected_groups_def rejected_word_def small_config_def)

lemma small_word_decided:
  "\<exists>j. decide_word small_mind small_config small_surroundings (small_world small_server) small_engine small_asked = Inr j
     \<and> dc_convert (jd_decision j) \<and> dc_replacement (jd_decision j) = [0x43F, 0x43E]"
proof -
  let ?w = "small_world small_server"
  have "det_models (mi_detector small_mind) (aw_source small_asked) \<noteq> None"
    by (simp add: small_mind_def sample_detector_def small_asked_def word_alone_def)
  from baseline_total [OF this] obtain b
    where b: "baseline_decision small_mind small_config small_surroundings ?w small_engine small_asked = Inr b" by blast
  have named: "dc_original b = [0x67, 0x6A]" "dc_source b = 0"
    using baseline_sound [OF b] by (simp_all add: of_word_def small_asked_def word_alone_def)
  have stays: "stranded_letter small_mind small_config small_surroundings ?w small_engine small_asked b = b"
    by (simp add: stranded_letter_def small_asked_def word_alone_def Let_def)
  have asked: "\<not> settled_by_user small_config small_surroundings ?w small_asked"
    by (simp add: settled_by_user_def context_aware_def ignored_word_def small_asked_def word_alone_def small_surroundings_def
        small_config_def forced_group_def flag_def)
  have consulted: "decide_word small_mind small_config small_surroundings ?w small_engine small_asked
      = consult_context_model small_mind small_config small_surroundings ?w small_engine small_asked b"
    by (simp add: decide_word_def b stays asked)
  show ?thesis
    unfolding consulted
    by (simp add: consult_context_model_def small_asked_def word_alone_def decide_context_def
        small_mind_def sample_policy_def plain_question_def question_field_def evidence_for_decision_def
        sample_detector_def read_mode_def context_mode_def small_surroundings_def small_world_def
        rejected_groups_def rejected_word_def small_config_def
        verdict_on_def letter_waits_def lone_letter_def pause_baseline_def russian_slang_def settled_def spelling_a_word_def named
        spelled_as_word_def starts_with_def isalpha_def isalpha_ch_def letter_class_def Let_def)
qed

theorem decided_word_sound_witness:
  "\<exists>j. decide_word small_mind small_config small_surroundings (small_world small_server) small_engine small_asked = Inr j
     \<and> offered small_config small_surroundings small_asked (jd_decision j) \<and> dc_replacement (jd_decision j) = [0x43F, 0x43E]"
  using small_word_decided decided_word_sound by blast

text \<open>
  \<open>f\<close> on the list of exclusions, typed after \<open>po env \<close> (the first word in Cyrillic letters): the detector leaves it, and the rule for
  a letter after an English term converts it all the same.
\<close>

lemma exclusion_passed_over:
  fixes su s
  defines "su \<equiv> small_surroundings\<lparr>su_ignored := [[0x66]]\<rparr>"
    and "s \<equiv> small_engine\<lparr>en_stream := \<lparr>ic_application = [], ic_window = 0,
          ic_text = [0x43F, 0x43E, 0x20, 0x65, 0x6E, 0x76, 0x20, 0x66], ic_updated_at = 0, ic_revision = 0\<rparr>\<rparr>"
  shows "ignored_word su [0x66]
    \<and> (\<exists>j. decide_word small_mind small_config su (small_world small_server) s (word_alone [0x66] [(1, [0x430])] 0 On_Space) = Inr j
         \<and> dc_convert (jd_decision j))"
proof -
  let ?a = "word_alone [0x66] [(1, [0x430])] 0 On_Space" and ?w = "small_world small_server"
  have ignored: "ignored_word su [0x66]" by (simp add: ignored_word_def su_def)
  have "det_models (mi_detector small_mind) (aw_source ?a) \<noteq> None" by (simp add: small_mind_def sample_detector_def word_alone_def)
  from baseline_total [OF this] obtain b where b: "baseline_decision small_mind small_config su ?w s ?a = Inr b" by blast
  have kept: "\<not> dc_convert b" using baseline_sound [OF b] ignored by (auto simp: word_alone_def)
  have "before_word 0 [0x66] (en_stream s) = [0x43F, 0x43E, 0x20, 0x65, 0x6E, 0x76, 0x20]"
    by (simp add: before_word_def s_def CONTEXT_TTL_def ends_with_def)
  moreover have "after_russian_term [0x43F, 0x43E, 0x20, 0x65, 0x6E, 0x76, 0x20]"
    by (simp add: after_russian_term_def ends_in_space_def isspace_ch_def last_line_def split_words_def term_word_def latin_ch_def
        cyrillic_ch_def STRANDED_TERM_MAX_WORDS_def SENTENCE_END_SIGNS_def)
  moreover have "rejected_groups small_config su 0 [0x66] = []" by (simp add: rejected_groups_def rejected_word_def small_config_def)
  ultimately have "dc_convert (stranded_letter small_mind small_config su ?w s ?a b)"
    by (simp add: stranded_letter_def word_alone_def small_world_def TRUSTED_SINGLE_LETTER_WORDS_def latin_ch_def islower_def
        islower_ch_def isupper_ch_def letter_class_def)
  moreover have "aw_original ?a = [0x66]" "\<not> aw_inside ?a" by (simp_all add: word_alone_def)
  ultimately show ?thesis
    using ignored kept by (simp add: decide_word_def b settled_by_user_def Let_def)
qed

end
