(* ===== verification/Word_Commit.thy ===== *)
theory Word_Commit
  imports Word_Judgement Key_Handling
begin

text \<open>
  The end of a word: \<open>_commit_word\<close> of \<open>src/keyswitch/engine.py\<close>, in the order of its steps. \<open>token\<close> holds the parts of what was
  typed, \<open>verdict\<close> what is decided about it together with its neighbours; neither touches the state.
\<close>

section \<open>The token\<close>

record token =
  to_typed :: "key_event list"
  to_opened :: "key_event list"
  to_shown :: "key_event option"
  to_mention :: "key_event list"
  to_head :: nat
  to_strokes :: "key_event list"
  to_trailing :: "key_event list"
  to_signs :: "key_event list"
  to_certain :: bool
  to_abstained :: bool
  to_source :: int

definition deferred_text :: "key_event \<Rightarrow> ustr" where
  "deferred_text boundary = (if ev_deferred boundary then [] else ev_character boundary)"

definition token_parts ::
    "engine_config \<Rightarrow> surroundings \<Rightarrow> deciders \<Rightarrow> world \<Rightarrow> key_event \<Rightarrow> engine \<Rightarrow> token \<times> engine" where
  "token_parts cf su de w boundary s =
     (let typed = en_strokes s; source = en_source s; head = literal_head cf su de typed source;
          (strokes, trailing, certain, abstained) = completed_word cf su (drop head typed) source;
          (holds, s') = insertion_holds su w (text_for_group typed source) (deferred_text boundary @ typed_ahead typed s) s;
          (head, strokes, trailing, certain, abstained) =
            (if holds then (0, typed, [], True, False) else (head, strokes, trailing, certain, abstained));
          count = (if trailing = [] \<and> certain \<and> \<not> inside_word (en_insertion s') then replayed_signs cf su strokes source else 0)
      in (\<lparr>to_typed = typed,
           to_opened = en_symbols s @ takeWhile (\<lambda>e. \<not> isalpha (ev_character e)) typed,
           to_shown = en_mention_shown s, to_mention = mention_keys cf su (wo_application w) s, to_head = head,
           to_strokes = take (length strokes - count) strokes, to_trailing = trailing,
           to_signs = drop (length strokes - count) strokes, to_certain = certain, to_abstained = abstained, to_source = source\<rparr>,
          s'))"

text \<open>The plan of the whole token, kept for Pause whatever is decided.\<close>

definition token_plan :: "engine_config \<Rightarrow> world \<Rightarrow> key_event \<Rightarrow> token \<Rightarrow> correction_plan" where
  "token_plan cf w boundary t =
     (let source = to_source t;
          target = (case other_group (cf_models cf) source of None \<Rightarrow> source | Some g \<Rightarrow> g)
      in (plain_plan (take (to_head t) (to_typed t) @ to_strokes t @ to_signs t) (Some boundary) source target
            (text_for_group (to_strokes t) source @ text_for_group (to_signs t) source)
            (text_for_group (to_strokes t) target @ text_for_group (to_signs t) target) 0 (wo_application w) False Mode_Boundary)
           \<lparr>cp_trailing := to_trailing t\<rparr>)"

definition remember_token :: "engine_config \<Rightarrow> world \<Rightarrow> key_event \<Rightarrow> token \<Rightarrow> engine \<Rightarrow> engine" where
  "remember_token cf w boundary t s =
     (let s = (if list_all joins_parts (to_typed t)
                  \<and> pause_reaches_past (en_committed s) (en_stale s) (to_typed t @ [boundary])
               then s\<lparr>en_committed := extend_committed (the (en_committed s)) (to_typed t @ [boundary])\<rparr>
               else s\<lparr>en_committed := Some (token_plan cf w boundary t), en_stale := False\<rparr>)
      in s\<lparr>en_symbols := []\<rparr>)"

section \<open>The verdict\<close>

record verdict =
  vd_judgement :: judgement
  vd_inside :: bool
  vd_head :: nat
  vd_strokes :: "key_event list"
  vd_signs :: "key_event list"
  vd_joint :: "(correction_plan \<times> decision) option"
  vd_alone :: "correction_plan option"
  vd_kept :: "kept_word list"

text \<open>The word alone: whole, without its signs, as an early switch left it, or as the part after a joining sign.\<close>

definition judge_alone ::
    "engine_config \<Rightarrow> deciders \<Rightarrow> key_event \<Rightarrow> int option \<Rightarrow> token \<Rightarrow> verdict" where
  "judge_alone cf de boundary origin t =
     (let source = to_source t; strokes = to_strokes t; trailing = to_trailing t; head = to_head t; signs = to_signs t;
          judge = (\<lambda>strokes tail. de_word de (text_for_group strokes source) (readings cf strokes source) source tail boundary);
          inside = (if trailing \<noteq> [] \<or> head \<noteq> 0 \<or> signs \<noteq> [] then None else de_inside de strokes source boundary);
          j = (case inside of Some j \<Rightarrow> j | None \<Rightarrow> judge strokes (trailing @ signs));
          whole = (signs \<noteq> [] \<and> inside = None \<and> \<not> dc_convert (jd_decision j));
          strokes2 = (if whole then strokes @ signs else strokes);
          signs2 = (if whole then [] else signs);
          j = (if whole then let j2 = judge strokes2 trailing in j2\<lparr>jd_asked := jd_asked j @ jd_asked j2\<rparr> else j);
          j = (case origin of
                 Some o1 \<Rightarrow> if inside = None \<and> trailing = [] \<and> head = 0 \<and> signs2 = [] then de_settle de j strokes2 source o1 boundary else j
               | None \<Rightarrow> j);
          parted = (if inside = None \<and> head = 0 \<and> trailing = [] then de_joined de j strokes signs source boundary else (None, j))
      in case parted of
           (Some n, part) \<Rightarrow> \<lparr>vd_judgement = part, vd_inside = inside \<noteq> None, vd_head = n, vd_strokes = drop n strokes,
                               vd_signs = signs, vd_joint = None, vd_alone = None, vd_kept = []\<rparr>
         | (None, j) \<Rightarrow> \<lparr>vd_judgement = j, vd_inside = inside \<noteq> None, vd_head = head, vd_strokes = strokes2, vd_signs = signs2,
                      vd_joint = None, vd_alone = None, vd_kept = []\<rparr>)"

definition bare_word :: "token \<Rightarrow> verdict \<Rightarrow> bool" where
  "bare_word t v \<longleftrightarrow> to_trailing t = [] \<and> vd_head v = 0 \<and> vd_signs v = []"

text \<open>Whether an early switch made this word what it is, and stands.\<close>

definition switched_word :: "int option \<Rightarrow> token \<Rightarrow> verdict \<Rightarrow> bool" where
  "switched_word origin t v \<longleftrightarrow>
     \<not> vd_inside v \<and> origin \<noteq> None \<and> origin \<noteq> Some (to_source t) \<and> bare_word t v \<and> \<not> dc_convert (jd_decision (vd_judgement v))"

definition as_neighbour :: "int option \<Rightarrow> token \<Rightarrow> verdict \<Rightarrow> decision" where
  "as_neighbour origin t v =
     (let d = jd_decision (vd_judgement v)
      in if switched_word origin t v
         then d\<lparr>dc_convert := True, dc_source := the origin, dc_target := to_source t,
                dc_replacement := text_for_group (vd_strokes v) (to_source t)\<rparr> else d)"

definition waiting_kept :: "waiting_word \<Rightarrow> kept_word" where
  "waiting_kept ww =
     \<lparr>kw_plan = ww_plan ww, kw_baseline = Some (ww_decision ww), kw_field = Some (ww_field ww), kw_window = ww_window ww,
      kw_deadline = ww_deadline ww, kw_segmentation_open = False\<rparr>"

text \<open>With the words before it: the waiting word, a kept one, or the last one converted.\<close>

definition judge_with_waiting ::
    "engine_config \<Rightarrow> surroundings \<Rightarrow> deciders \<Rightarrow> world \<Rightarrow> key_event \<Rightarrow> int option \<Rightarrow> waiting_word option \<Rightarrow> kept_word list
      \<Rightarrow> token \<Rightarrow> engine \<Rightarrow> verdict \<Rightarrow> verdict" where
  "judge_with_waiting cf su de w boundary origin waits kept t s v =
     (let app = wo_application w; j = vd_judgement v; d = jd_decision j; result = jd_result j; source = to_source t;
          switched = switched_word origin t v; quiet = (bare_word t v \<and> \<not> switched \<and> \<not> dc_convert d);
          joint = (if bare_word t v
                   then resolve_wait su de w waits (vd_strokes v) (Some boundary) (as_neighbour origin t v) app
                          (readings cf (vd_strokes v) source) switched result s else None)
      in case (joint, waits) of
           (Some (p, d2), Some ww) \<Rightarrow>
             v\<lparr>vd_joint := Some (take_along cf su de w kept p (length (cp_original (ww_plan ww))) app switched result s, d2),
               vd_kept := kept\<rparr>
         | (_, Some ww) \<Rightarrow>
             (case (if quiet then decide_with_kept de w ww (vd_strokes v) boundary d app result s else None) of
                Some p \<Rightarrow> v\<lparr>vd_alone := Some p, vd_kept := kept\<rparr>
              | None \<Rightarrow>
                  v\<lparr>vd_kept := (if vd_head v = 0 \<and> (to_trailing t \<noteq> [] \<or> vd_signs v \<noteq> [] \<or> \<not> dc_convert d)
                                then kept @ [waiting_kept ww] else kept)\<rparr>)
         | (_, None) \<Rightarrow>
             (case (if quiet then decide_letter_before_sign de w kept (vd_strokes v) boundary d app result s else None) of
                Some p \<Rightarrow> v\<lparr>vd_alone := Some p, vd_kept := []\<rparr>
              | None \<Rightarrow> v\<lparr>vd_kept := kept\<rparr>))"

definition converted_plan :: "deciders \<Rightarrow> world \<Rightarrow> key_event \<Rightarrow> token \<Rightarrow> verdict \<Rightarrow> correction_plan" where
  "converted_plan de w boundary t v =
     (plan_from_decision de (vd_strokes v) (Some boundary) (wo_application w) (jd_decision (vd_judgement v))
        (jd_result (vd_judgement v)))\<lparr>cp_trailing := to_trailing t\<rparr>"

definition switched_plan :: "world \<Rightarrow> key_event \<Rightarrow> int \<Rightarrow> token \<Rightarrow> verdict \<Rightarrow> correction_plan" where
  "switched_plan w boundary origin t v =
     (let original = text_for_group (vd_strokes v) (to_source t)
      in (plain_plan (vd_strokes v) (Some boundary) origin (to_source t) original original
            (dc_confidence (jd_decision (vd_judgement v))) (wo_application w) True Mode_Boundary)
           \<lparr>cp_typed := text_for_group (vd_strokes v) origin\<rparr>)"

definition judge_with_kept ::
    "engine_config \<Rightarrow> surroundings \<Rightarrow> deciders \<Rightarrow> world \<Rightarrow> key_event \<Rightarrow> int option \<Rightarrow> provisional_word option
      \<Rightarrow> token \<Rightarrow> engine \<Rightarrow> verdict \<Rightarrow> verdict" where
  "judge_with_kept cf su de w boundary origin provisional t s v =
     (let app = wo_application w; j = vd_judgement v; d = jd_decision j; result = jd_result j;
          original = text_for_group (vd_strokes v) (to_source t);
          joint = (if vd_joint v = None \<and> bare_word t v
                   then revert_with_next su de w provisional (vd_strokes v) (Some boundary) d app result s else vd_joint v)
      in if joint \<noteq> None then v\<lparr>vd_joint := joint\<rparr>
         else if vd_head v = 0 \<and> dc_convert d
         then let p = take_along cf su de w (vd_kept v) (with_signs (converted_plan de w boundary t v) (vd_signs v)) (length original) app
                        False result s
              in if cp_mode p = Mode_Context_Phrase then v\<lparr>vd_joint := Some (p, d)\<rparr> else v
         else if switched_word origin t v
         then let p = take_along cf su de w (vd_kept v) (switched_plan w boundary (the origin) t v) (length original) app True result s
              in if cp_mode p = Mode_Context_Phrase then v\<lparr>vd_joint := Some (p, as_neighbour origin t v)\<rparr> else v
         else v)"

definition judge_neighbours ::
    "engine_config \<Rightarrow> surroundings \<Rightarrow> deciders \<Rightarrow> world \<Rightarrow> key_event \<Rightarrow> int option \<Rightarrow> waiting_word option
      \<Rightarrow> provisional_word option \<Rightarrow> kept_word list \<Rightarrow> token \<Rightarrow> engine \<Rightarrow> verdict \<Rightarrow> verdict" where
  "judge_neighbours cf su de w boundary origin waits provisional kept t s v =
     judge_with_kept cf su de w boundary origin provisional t s (judge_with_waiting cf su de w boundary origin waits kept t s v)"

text \<open>
  What the questions to the context model leave in the state (\<open>_consult_context_model\<close>): a field it was refused as protected
  ends the observed text, and a suggestion is shown.
\<close>

definition note_question :: "surroundings \<Rightarrow> ustr \<times> ustr \<times> context_result \<Rightarrow> engine \<Rightarrow> engine" where
  "note_question su = (\<lambda>(original, alternative, r) s.
     let s = (case cr_field r of None \<Rightarrow> s | Some f \<Rightarrow> if fc_sensitive f then protect_field s else s)
     in if cr_action r = Some Model_Suggest \<and> \<not> dc_convert (cr_decision r) \<and> context_mode su = JStr (asc ''assist'')
        then s\<lparr>en_action := Conversion_Suggested original alternative\<rparr> else s)"

definition note_questions :: "surroundings \<Rightarrow> judgement \<Rightarrow> engine \<Rightarrow> engine" where
  "note_questions su j = fold (note_question su) (jd_asked j)"

section \<open>What the verdict schedules\<close>

definition schedule :: "key_event \<Rightarrow> correction_plan \<Rightarrow> engine \<Rightarrow> engine" where
  "schedule boundary p s = s\<lparr>en_pending := Some p, en_prompt_after := None, en_trigger := ev_keycode boundary\<rparr>"

text \<open>A plain word typed as one, the only kind whose slips are corrected.\<close>

definition plain_token :: "int option \<Rightarrow> token \<Rightarrow> verdict \<Rightarrow> engine \<Rightarrow> bool" where
  "plain_token origin t v s \<longleftrightarrow>
     bare_word t v \<and> to_mention t = [] \<and> to_shown t = None \<and> \<not> vd_inside v \<and> origin = None \<and> \<not> inside_word (en_insertion s)"

definition kept_layout_plan :: "world \<Rightarrow> key_event \<Rightarrow> key_event list \<Rightarrow> int \<Rightarrow> field_context option \<Rightarrow> correction_plan" where
  "kept_layout_plan w boundary strokes source field =
     (let original = text_for_group strokes source
      in (plain_plan strokes (closing_key (Some boundary)) source source original original 0 (wo_application w) True Mode_Boundary)
           \<lparr>cp_context_field := field_id_of field\<rparr>)"

definition apply_conversion ::
    "engine_config \<Rightarrow> surroundings \<Rightarrow> deciders \<Rightarrow> world \<Rightarrow> key_event \<Rightarrow> int option \<Rightarrow> token \<Rightarrow> verdict \<Rightarrow> engine \<Rightarrow> engine" where
  "apply_conversion cf su de w boundary origin t v s =
     (let j = vd_judgement v; d = jd_decision j; result = jd_result j;
          head = (case to_mention t of [] \<Rightarrow> [] | e # _ \<Rightarrow> if quotation_closed e (to_trailing t) (Some boundary) then [] else to_mention t);
          p = replay_sign_with_word (with_signs ((converted_plan de w boundary t v)\<lparr>cp_head := head\<rparr>) (vd_signs v)) (to_opened t);
          p = (if ev_deferred boundary then p\<lparr>cp_boundary := None, cp_mode := Mode_Before_Action\<rparr> else p);
          open_word = (\<not> vd_inside v \<and> bare_word t v \<and> ev_character boundary = [0x20] \<and> \<not> ev_deferred boundary);
          pending = (case jd_baseline j of Some b \<Rightarrow> if open_word then p\<lparr>cp_revisit := Some (b, result_field result)\<rparr> else p | None \<Rightarrow> p);
          s = schedule boundary pending (log_pending_dropped cf s);
          (waits, s) = (if dc_reason d = Short_Word_At_Start
                           \<or> opening_conversion (vd_inside v) j (text_for_group (vd_strokes v) (to_source t))
                        then start_wait su w j p d boundary (to_trailing t) (vd_head v) True s else (False, s));
          (typo, s) = (if plain_token origin t v s \<and> \<not> waits \<and> \<not> cp_sign_replayed pending
                       then typo_plan cf su de w pending (cp_strokes pending) s else (None, s))
      in case typo of None \<Rightarrow> s | Some q \<Rightarrow> s\<lparr>en_pending := Some q\<rparr>)"

definition new_kept ::
    "world \<Rightarrow> correction_plan \<Rightarrow> decision option \<Rightarrow> field_context option \<Rightarrow> bool \<Rightarrow> engine \<Rightarrow> kept_word" where
  "new_kept w p baseline field undecided s =
     \<lparr>kw_plan = p, kw_baseline = baseline, kw_field = field, kw_window = window_of s, kw_deadline = wo_now w + CONTEXT_TTL,
      kw_segmentation_open = undecided\<rparr>"

text \<open>A token whose sign the boundary model split off, put together again for the next word.\<close>

definition whole_plan :: "token \<Rightarrow> verdict \<Rightarrow> correction_plan \<Rightarrow> correction_plan" where
  "whole_plan t v p =
     (let whole = vd_strokes v @ to_trailing t
      in p\<lparr>cp_strokes := take (vd_head v) (to_typed t) @ whole, cp_original := text_for_group whole (to_source t),
           cp_replacement := text_for_group whole (cp_target p), cp_trailing := []\<rparr>)"

definition apply_keep ::
    "engine_config \<Rightarrow> surroundings \<Rightarrow> deciders \<Rightarrow> world \<Rightarrow> key_event \<Rightarrow> int option \<Rightarrow> provisional_word option \<Rightarrow> token \<Rightarrow> verdict
      \<Rightarrow> engine \<Rightarrow> engine" where
  "apply_keep cf su de w boundary origin paused t v s =
     (let j = vd_judgement v; result = jd_result j; source = to_source t; p = token_plan cf w boundary t;
          s = (case vd_alone v of None \<Rightarrow> s | Some q \<Rightarrow> schedule boundary q (log_pending_dropped cf s));
          s = remember_context cf (wo_now w) (wo_application w) source (take (vd_head v) (to_typed t) @ vd_strokes v @ vd_signs v) s;
          (waits, s) = (if vd_signs v \<noteq> [] then (False, s)
                        else start_wait su w j p (jd_decision j) boundary (to_trailing t) (vd_head v) False s);
          (typo, s) = (if waits \<or> vd_alone v \<noteq> None \<or> \<not> plain_token origin t v s then (None, s)
                       else typo_plan cf su de w (kept_layout_plan w boundary (vd_strokes v) source (result_field result)) (vd_strokes v) s);
          s = (case typo of None \<Rightarrow> s | Some q \<Rightarrow> schedule boundary q s)
      in if vd_inside v \<or> vd_head v \<noteq> 0 \<or> vd_signs v \<noteq> [] then s
         else if to_trailing t = []
         then let (p, s) = (if \<not> waits \<and> vd_alone v = None \<and> en_pending s = None \<and> origin = None \<and> to_mention t = [] \<and> to_shown t = None
                            then fix_double_capitals cf su de p boundary s else (p, s));
                  s = keep_for_next (vd_kept v)
                        (if waits \<or> typo \<noteq> None then None else Some (new_kept w p (jd_baseline j) (result_field result) False s)) boundary s
              in if \<not> waits \<and> vd_alone v = None \<and> typo = None
                 then s\<lparr>en_provisional := provisional_after_pause w paused (vd_strokes v) source boundary s\<rparr> else s
         else if sign_reads_as_letter su p
         then keep_for_next (vd_kept v) (Some (new_kept w (whole_plan t v p) None None True s)) boundary s
         else s)"

text \<open>The verdict carried out, and the decision it ends in.\<close>

definition apply_verdict ::
    "engine_config \<Rightarrow> surroundings \<Rightarrow> deciders \<Rightarrow> world \<Rightarrow> key_event \<Rightarrow> int option \<Rightarrow> provisional_word option \<Rightarrow> token \<Rightarrow> verdict
      \<Rightarrow> engine \<Rightarrow> decision \<times> engine" where
  "apply_verdict cf su de w boundary origin paused t v s =
     (let d = jd_decision (vd_judgement v)
      in case vd_joint v of
           Some (p, d2) \<Rightarrow> (d2\<lparr>dc_convert := True\<rparr>, schedule boundary (replay_sign_with_word p (to_opened t)) s)
         | None \<Rightarrow> if dc_convert d then (d, apply_conversion cf su de w boundary origin t v s)
                   else (d, apply_keep cf su de w boundary origin paused t v s))"

section \<open>A word that is not decided\<close>

definition skip_word ::
    "engine_config \<Rightarrow> surroundings \<Rightarrow> deciders \<Rightarrow> world \<Rightarrow> key_event \<Rightarrow> int option \<Rightarrow> kept_word list \<Rightarrow> bool \<Rightarrow> bool \<Rightarrow> bool \<Rightarrow> token
      \<Rightarrow> engine \<Rightarrow> engine" where
  "skip_word cf su de w boundary origin kept chosen_layout manual unknown t s =
     (let source = to_source t; p = token_plan cf w boundary t; excluded = cf_excluded cf (wo_application w);
          triggers = (enabled su \<and> boundary_enabled (su_get su) boundary);
          bare = (to_head t = 0 \<and> to_trailing t = [] \<and> to_signs t = [] \<and> to_mention t = []);
          s = remember_context cf (wo_now w) (wo_application w) source (take (to_head t) (to_typed t) @ to_strokes t) s;
          s = (if chosen_layout \<and> triggers \<and> to_certain t \<and> \<not> unknown \<and> \<not> excluded \<and> en_pending s = None \<and> origin = None \<and> bare
                  \<and> to_shown t = None \<and> \<not> inside_word (en_insertion s)
               then case typo_plan cf su de w (kept_layout_plan w boundary (to_strokes t) source (en_result_field s)) (to_strokes t) s of
                      (Some q, s) \<Rightarrow> schedule boundary q s
                    | (None, s) \<Rightarrow> snd (fix_double_capitals cf su de p boundary s)
               else s)
      in if triggers \<and> \<not> manual \<and> \<not> unknown \<and> \<not> to_certain t \<and> \<not> excluded \<and> to_head t = 0
         then keep_for_next kept (Some (new_kept w p None None (to_abstained t) s)) boundary s else s)"

section \<open>The record of the evaluation\<close>

text \<open>
  \<open>word_evaluation\<close>: the texts of the event. In an excluded program the word, its readings and the words around it are
  redacted; the pattern of the user's rule that fits the word is not. A word that was not decided is asked about for the record.
\<close>

definition evaluation_texts ::
    "engine_config \<Rightarrow> surroundings \<Rightarrow> ustr \<Rightarrow> int \<Rightarrow> ustr \<Rightarrow> ustr list \<Rightarrow> ustr list" where
  "evaluation_texts cf su application source original others =
     (let typed = original # others; rule = (if cf_learning cf then rule_match_for (su_rules su) source original else None)
      in (if cf_excluded cf application then map (\<lambda>_. REDACTED) typed else typed)
         @ (case rule of None \<Rightarrow> [] | Some r \<Rightarrow> [pattern_of r]))"

definition log_evaluation ::
    "engine_config \<Rightarrow> surroundings \<Rightarrow> deciders \<Rightarrow> world \<Rightarrow> key_event \<Rightarrow> int \<Rightarrow> ustr \<Rightarrow> (int \<times> ustr) list \<Rightarrow> ustr
      \<Rightarrow> (int \<times> ustr) list \<Rightarrow> decision option \<Rightarrow> bool \<Rightarrow> engine \<Rightarrow> engine" where
  "log_evaluation cf su de w boundary source original alternatives literal context_words d skipped s =
     (if \<not> cf_technical_logging cf then s
      else
        let application = wo_application w;
            shadow = (if d = None \<and> skipped \<and> \<not> cf_excluded cf application \<and> source \<in> set (cf_models cf)
                      then Some (de_shadow de original alternatives source boundary) else None);
            others = literal # map snd alternatives @ map snd context_words
              @ (case d of None \<Rightarrow> [] | Some d \<Rightarrow> [dc_replacement d])
              @ (case shadow of None \<Rightarrow> [] | Some j \<Rightarrow> [dc_replacement (jd_decision j)]);
            s = (case shadow of None \<Rightarrow> s | Some j \<Rightarrow> (note_questions su j s)\<lparr>en_result_field := result_field (jd_result j)\<rparr>)
        in tell (Logged ''word_evaluation'' application (evaluation_texts cf su application source original others)) s)"

section \<open>The end of the word\<close>

definition start_commit :: "engine_config \<Rightarrow> engine \<Rightarrow> engine" where
  "start_commit cf s =
     (case en_pending s of
        Some p \<Rightarrow> if cp_mode p = Mode_Early then s else (log_pending_dropped cf s)\<lparr>en_pending := None, en_prompt_after := None\<rparr>
      | None \<Rightarrow> s)"

definition end_word :: "engine_config \<Rightarrow> world \<Rightarrow> key_event \<Rightarrow> token \<Rightarrow> bool \<Rightarrow> ustr \<Rightarrow> engine \<Rightarrow> engine" where
  "end_word cf w boundary t manual original s =
     (let headed = (case en_pending s of None \<Rightarrow> False | Some p \<Rightarrow> cp_head p \<noteq> []);
          s = (case to_shown t of
                 Some head \<Rightarrow>
                   if headed then s
                   else schedule boundary
                          (mention_write_back (the (other_group (cf_models cf) (ev_group head))) head
                             (take (length (to_typed t) - length (to_trailing t)) (to_typed t)) (to_trailing t)
                             (closing_key (Some boundary)) (wo_application w)) (log_pending_dropped cf s)
               | None \<Rightarrow> s);
          s = s\<lparr>en_strokes := [], en_insertion := None, en_source := -1, en_early_undone := False, en_word := [],
                en_group := ev_group boundary\<rparr>
      in if manual then s\<lparr>en_action := Manual_Layout_Kept original\<rparr> else s)"

definition settle_early ::
    "engine_config \<Rightarrow> world \<Rightarrow> key_event \<Rightarrow> token \<Rightarrow> key_event list \<Rightarrow> decision option \<Rightarrow> engine \<Rightarrow> engine" where
  "settle_early cf w boundary t strokes d s =
     (if (case d of None \<Rightarrow> True | Some d \<Rightarrow> \<not> dc_convert d)
      then finish_early_switch cf (wo_now w) strokes (Some boundary) (wo_application w) (to_source t) (to_trailing t) s
      else s\<lparr>en_early_origin := None, en_early_at := None\<rparr>)"

text \<open>The flags of the word as it ends: the layout chosen by hand, whether it is protected, whether the caret was moved.\<close>

definition release_manual :: "bool \<Rightarrow> engine \<Rightarrow> engine" where
  "release_manual manual s =
     (let s = (if manual then s\<lparr>en_manual_group := None, en_manual_word := False, en_early_undone := False\<rparr> else s)
      in s\<lparr>en_caret_moved := False, en_context_waiting := None, en_provisional := None, en_paused := None, en_kept := []\<rparr>)"

definition commit_word :: "engine_config \<Rightarrow> surroundings \<Rightarrow> deciders \<Rightarrow> world \<Rightarrow> key_event \<Rightarrow> engine \<Rightarrow> engine" where
  "commit_word cf su de w boundary s =
     (if en_strokes s = [] then s
      else
        let (t, s) = token_parts cf su de w boundary (start_commit cf s);
            s = reset_pause (s\<lparr>en_mention_shown := None\<rparr>);
            words = fst (context_for (wo_now w) (wo_application w) s);
            s = remember_token cf w boundary t s;
            origin = en_early_origin s; source = to_source t; manual = word_protected cf source s;
            chosen = (cf_respect_manual cf \<and> en_manual_group s = Some source \<and> \<not> en_early_undone s);
            unknown = caret_unknown su s; waits = en_context_waiting s; provisional = en_provisional s; paused = en_paused s;
            kept = en_kept s;
            s = release_manual manual s;
            analyse = (enabled su \<and> boundary_enabled (su_get su) boundary \<and> \<not> manual \<and> to_certain t \<and> \<not> unknown
                       \<and> \<not> cf_excluded cf (wo_application w));
            v = judge_alone cf de boundary origin t;
            s = (if analyse
                 then (note_questions su (vd_judgement v) s)\<lparr>en_result_field := result_field (jd_result (vd_judgement v))\<rparr> else s);
            v = judge_neighbours cf su de w boundary origin waits provisional kept t s v;
            (d, s) = (if analyse
                      then map_prod Some id (apply_verdict cf su de w boundary origin paused t v s)
                      else (None, skip_word cf su de w boundary origin kept chosen manual unknown t s));
            head = (if analyse then vd_head v else to_head t); strokes = (if analyse then vd_strokes v else to_strokes t);
            signs = (if analyse then vd_signs v else to_signs t); original = text_for_group strokes source;
            skipped = (\<not> enabled su \<or> \<not> boundary_enabled (su_get su) boundary \<or> manual \<or> unknown);
            s = log_evaluation cf su de w boundary source original (readings cf strokes source)
                  (text_for_group (take head (to_typed t)) source) words d skipped s;
            s = settle_early cf w boundary t (take head (to_typed t) @ strokes @ signs) d s
        in end_word cf w boundary t manual original s)"

end
