(* ===== verification/Commit_Safety.thy ===== *)
theory Commit_Safety
  imports Word_Commit
begin

text \<open>
  What the end of a word schedules, for every answer of the models: a correction of several words only over text that was
  observed right before the caret, and nothing at all where the user, the settings or the caret forbid it.
\<close>

section \<open>A correction of several words\<close>

text \<open>The text a plan takes to stand before the caret: the word, the signs after it and the key that ended it.\<close>

definition plan_text :: "correction_plan \<Rightarrow> ustr" where
  "plan_text p = cp_original p @ texts_of (cp_trailing p) @ closing_text (cp_boundary p)"

lemma closing_closed [simp]: "closing_key (closing_key b) = closing_key b" "closing_text (closing_key b) = closing_text b"
  by (auto simp: closing_key_def closing_text_def split: option.splits)

lemma texts_of_none [simp]: "texts_of [] = []"
  by (simp add: texts_of_def)

lemma joined_fields [simp]:
  "cp_trailing (joined_before c r previous p) = cp_trailing p" "cp_boundary (joined_before c r previous p) = c"
  "cp_mode (joined_before c r previous p) = Mode_Context_Phrase"
  "cp_original (joined_before c r previous p) = cp_original previous @ ev_character (the (cp_boundary previous)) @ cp_original p"
  by (simp_all add: joined_before_def Let_def)

lemma take_words_stands:
  assumes "texts_of (cp_trailing (tk_plan t)) @ closing_text closing = suffix" "closing_key closing = closing"
    and "tk_taken t \<noteq> [] \<longrightarrow> stands (plan_text (tk_settled t)) s"
  shows "tk_taken (take_words cf su de w app switched suffix closing r s words t) \<noteq> []
      \<longrightarrow> stands (plan_text (tk_settled (take_words cf su de w app switched suffix closing r s words t))) s"
  using assms
proof (induction words arbitrary: t)
  case (Cons word rest)
  let ?joined = "joined_before closing r (kw_plan word) (tk_plan t)"
  let ?before = "fc_before (kept_field su w suffix (tk_plan t) word s)"
  let ?r = "asked_again de word (tk_next t) (kept_field su w suffix (tk_plan t) word s)"
  consider "\<not> kept_stands cf su w app switched suffix (tk_plan t) word s
      \<or> \<not> reads_alike (kw_plan word) \<and> (\<not> may_ask su de word ?before \<or> \<not> takes_word su de word ?before ?r)"
    | "kept_stands cf su w app switched suffix (tk_plan t) word s" "reads_alike (kw_plan word)"
    | "kept_stands cf su w app switched suffix (tk_plan t) word s" "\<not> reads_alike (kw_plan word)" "may_ask su de word ?before"
      "takes_word su de word ?before ?r"
    by blast
  then show ?case
  proof cases
    case 1
    then show ?thesis using Cons.prems(3) by (elim disjE conjE) (simp_all add: Let_def)
  next
    case 2
    then show ?thesis using Cons.prems by (simp add: Let_def Cons.IH)
  next
    case 3
    have "stands (plan_text ?joined) s"
      using 3(1) Cons.prems(1) by (auto simp: kept_stands_def Let_def plan_text_def)
    then have "texts_of (cp_trailing (tk_plan u)) @ closing_text closing = suffix \<Longrightarrow> tk_settled u = ?joined \<Longrightarrow>
        tk_taken (take_words cf su de w app switched suffix closing r s rest u) \<noteq> []
        \<longrightarrow> stands (plan_text (tk_settled (take_words cf su de w app switched suffix closing r s rest u))) s" for u
      using Cons.IH [of u] Cons.prems(2) by simp
    then show ?thesis using 3 Cons.prems(1) unfolding take_words.simps Let_def by simp
  qed
qed simp

lemma take_along_stands:
  "take_along cf su de w kept p n app switched r s = p \<or> stands (plan_text (take_along cf su de w kept p n app switched r s)) s"
proof -
  let ?t = "take_words cf su de w app switched (texts_of (cp_trailing p) @ closing_text (cp_boundary p)) (closing_key (cp_boundary p))
      r s (rev kept) \<lparr>tk_plan = p, tk_next = take n (cp_replacement p), tk_settled = p, tk_taken = [], tk_resumed = []\<rparr>"
  have "take_along cf su de w kept p n app switched r s = p
      \<or> tk_taken ?t \<noteq> [] \<and> take_along cf su de w kept p n app switched r s = tk_settled ?t"
    by (simp add: take_along_def Let_def)
  moreover have "tk_taken ?t \<noteq> [] \<longrightarrow> stands (plan_text (tk_settled ?t)) s"
    by (rule take_words_stands) simp_all
  ultimately show ?thesis by (elim disjE conjE) simp_all
qed

lemma resolve_wait_stands:
  "resolve_wait su de w waits strokes b d app alts switched r s = Some (p, d2) \<Longrightarrow> stands (plan_text p) s"
  by (auto simp: resolve_wait_def Let_def plan_text_def plain_plan_def split: option.splits if_splits)

lemma spaced_closing: "spaced_before previous strokes b d \<Longrightarrow> closing_text (Some b) = ev_character b"
  by (simp add: spaced_before_def closing_text_def closing_key_def)

lemma decide_with_kept_stands:
  "decide_with_kept de w ww strokes b d app r s = Some p \<Longrightarrow> stands (plan_text p) s"
  by (auto simp: decide_with_kept_def word_before_kept_def Let_def plan_text_def plain_plan_def spaced_closing
      split: option.splits if_splits)

lemma decide_letter_stands:
  "decide_letter_before_sign de w kept strokes b d app r s = Some p \<Longrightarrow> stands (plan_text p) s"
  by (auto simp: decide_letter_before_sign_def word_before_kept_def Let_def plan_text_def plain_plan_def spaced_closing
      split: option.splits if_splits)

lemma revert_stands:
  "revert_with_next su de w pv strokes b d app r s = Some (p, d2) \<Longrightarrow> stands (plan_text p) s"
  by (auto simp: revert_with_next_def Let_def plan_text_def plain_plan_def split: option.splits if_splits)

text \<open>Every plan of the verdict that rewrites a neighbour stands on text that is there.\<close>

definition verdict_stands :: "engine \<Rightarrow> verdict \<Rightarrow> bool" where
  "verdict_stands s v \<longleftrightarrow>
     (case vd_joint v of None \<Rightarrow> True | Some (p, _) \<Rightarrow> stands (plan_text p) s)
     \<and> (case vd_alone v of None \<Rightarrow> True | Some p \<Rightarrow> stands (plan_text p) s)"

lemma part_or_whole: "(\<And>j. Q (f j)) \<Longrightarrow> (\<And>n p. Q (g n p)) \<Longrightarrow> Q (case x of (None, j) \<Rightarrow> f j | (Some n, p) \<Rightarrow> g n p)"
  by (simp split: option.split prod.split)

lemma judge_alone_stands: "verdict_stands s (judge_alone cf de b origin t)"
  unfolding judge_alone_def Let_def
  by (rule part_or_whole) (simp_all only: verdict_stands_def verdict.select_convs option.case simp_thms)

lemma judge_waiting_stands:
  assumes "verdict_stands s v"
  shows "verdict_stands s (judge_with_waiting cf su de w b origin waits kept t s v)"
proof -
  let ?d = "jd_decision (vd_judgement v)" and ?r = "jd_result (vd_judgement v)"
  define joint where "joint = (if bare_word t v
    then resolve_wait su de w waits (vd_strokes v) (Some b) (as_neighbour origin t v) (wo_application w)
           (readings cf (vd_strokes v) (to_source t)) (switched_word origin t v) ?r s else None)"
  define quiet where "quiet \<longleftrightarrow> bare_word t v \<and> \<not> switched_word origin t v \<and> \<not> dc_convert ?d"
  define with_kept where "with_kept ww = (if quiet
    then decide_with_kept de w ww (vd_strokes v) b ?d (wo_application w) ?r s else None)" for ww
  define letter where "letter = (if quiet
    then decide_letter_before_sign de w kept (vd_strokes v) b ?d (wo_application w) ?r s else None)"
  have verdict: "judge_with_waiting cf su de w b origin waits kept t s v =
     (case (joint, waits) of
        (Some (p, d2), Some ww) \<Rightarrow>
          v\<lparr>vd_joint := Some (take_along cf su de w kept p (length (cp_original (ww_plan ww))) (wo_application w)
                (switched_word origin t v) ?r s, d2), vd_kept := kept\<rparr>
      | (_, Some ww) \<Rightarrow>
          (case with_kept ww of
             Some p \<Rightarrow> v\<lparr>vd_alone := Some p, vd_kept := kept\<rparr>
           | None \<Rightarrow> v\<lparr>vd_kept := (if vd_head v = 0 \<and> (to_trailing t \<noteq> [] \<or> vd_signs v \<noteq> [] \<or> \<not> dc_convert ?d)
                             then kept @ [waiting_kept ww] else kept)\<rparr>)
      | (_, None) \<Rightarrow>
          (case letter of Some p \<Rightarrow> v\<lparr>vd_alone := Some p, vd_kept := []\<rparr> | None \<Rightarrow> v\<lparr>vd_kept := kept\<rparr>))"
    unfolding judge_with_waiting_def Let_def joint_def quiet_def with_kept_def letter_def by (rule refl)
  have "joint = Some (p, d2) \<Longrightarrow> stands (plan_text p) s" for p d2
    by (simp add: joint_def resolve_wait_stands split: if_splits)
  then have joint: "stands (plan_text (take_along cf su de w kept p n app switched r s)) s" if "joint = Some (p, d2)" for p d2 n app switched r
    using take_along_stands [of cf su de w kept p n app switched r s] that by auto
  have alone: "with_kept ww = Some p \<Longrightarrow> stands (plan_text p) s" "letter = Some p \<Longrightarrow> stands (plan_text p) s" for ww p
    by (simp_all add: with_kept_def letter_def decide_with_kept_stands decide_letter_stands split: if_splits)
  show ?thesis
    using assms joint alone unfolding verdict
    by (cases waits; cases joint; cases letter; cases "with_kept (the waits)") (auto simp: verdict_stands_def)
qed

lemma switched_modes: "cp_mode (switched_plan w b origin t v) = Mode_Boundary"
  by (simp add: switched_plan_def plain_plan_def Let_def)

lemma converted_modes: "cp_mode (with_signs (converted_plan de w b t v) signs) \<in> {Mode_Boundary, Mode_Sign}"
  by (simp add: converted_plan_def plan_from_decision_def with_signs_def plain_plan_def)

lemma joint_modes:
  assumes "cp_mode (take_along cf su de w kept p n app switched r s) = Mode_Context_Phrase" "cp_mode p \<noteq> Mode_Context_Phrase"
  shows "stands (plan_text (take_along cf su de w kept p n app switched r s)) s"
  using take_along_stands [of cf su de w kept p n app switched r s] assms by auto

lemma judge_kept_stands:
  assumes "verdict_stands s v"
  shows "verdict_stands s (judge_with_kept cf su de w b origin provisional t s v)"
proof -
  let ?d = "jd_decision (vd_judgement v)" and ?r = "jd_result (vd_judgement v)"
  define joint where "joint = (if vd_joint v = None \<and> bare_word t v
    then revert_with_next su de w provisional (vd_strokes v) (Some b) ?d (wo_application w) ?r s else vd_joint v)"
  define long where "long = take_along cf su de w (vd_kept v) (with_signs (converted_plan de w b t v) (vd_signs v))
    (length (text_for_group (vd_strokes v) (to_source t))) (wo_application w) False ?r s"
  define switched where "switched = take_along cf su de w (vd_kept v) (switched_plan w b (the origin) t v)
    (length (text_for_group (vd_strokes v) (to_source t))) (wo_application w) True ?r s"
  have verdict: "judge_with_kept cf su de w b origin provisional t s v =
     (if joint \<noteq> None then v\<lparr>vd_joint := joint\<rparr>
      else if vd_head v = 0 \<and> dc_convert ?d
      then (if cp_mode long = Mode_Context_Phrase then v\<lparr>vd_joint := Some (long, ?d)\<rparr> else v)
      else if switched_word origin t v
      then (if cp_mode switched = Mode_Context_Phrase then v\<lparr>vd_joint := Some (switched, as_neighbour origin t v)\<rparr> else v)
      else v)"
    unfolding judge_with_kept_def Let_def joint_def long_def switched_def by (rule refl)
  have joint: "joint = Some (p, d2) \<Longrightarrow> stands (plan_text p) s" for p d2
    using assms by (auto simp: joint_def verdict_stands_def revert_stands split: if_splits)
  have phrases: "cp_mode long = Mode_Context_Phrase \<Longrightarrow> stands (plan_text long) s"
    "cp_mode switched = Mode_Context_Phrase \<Longrightarrow> stands (plan_text switched) s"
    unfolding long_def switched_def using converted_modes [of de w b t v "vd_signs v"] switched_modes [of w b "the origin" t v]
    by (auto intro!: joint_modes)
  show ?thesis
    using assms joint phrases unfolding verdict by (cases joint) (auto simp: verdict_stands_def)
qed

lemma judge_neighbours_stands:
  "verdict_stands s v \<Longrightarrow> verdict_stands s (judge_neighbours cf su de w b origin waits provisional kept t s v)"
  by (simp add: judge_neighbours_def judge_kept_stands judge_waiting_stands)

text \<open>The questions only ever shorten the observed text: what stands after them stood before.\<close>

lemma protected_stands [simp]: "en_pending (protect_field s) = en_pending s" "ic_text (en_stream (protect_field s)) = []"
  by (simp_all add: protect_field_def clear_context_def)

definition less_observed :: "engine \<Rightarrow> engine \<Rightarrow> bool" where
  "less_observed s s' \<longleftrightarrow> en_pending s' = en_pending s \<and> (ic_text (en_stream s') = ic_text (en_stream s) \<or> ic_text (en_stream s') = [])"

lemma less_observed_refl [simp]: "less_observed s s"
  by (simp add: less_observed_def)

lemma questioned: "less_observed s s' \<Longrightarrow> less_observed s (note_question su x s')"
  by (cases x) (simp add: note_question_def less_observed_def Let_def split: option.split)

lemma all_questioned: "less_observed s (note_questions su j s)"
proof -
  have "less_observed s s' \<Longrightarrow> less_observed s (fold (note_question su) xs s')" for xs s'
    by (induction xs arbitrary: s') (simp_all add: questioned)
  then show ?thesis by (simp add: note_questions_def)
qed

lemma questions_pending [simp]: "en_pending (note_questions su j s) = en_pending s"
  using all_questioned [of s su j] by (simp add: less_observed_def)

lemma less_stands: "less_observed s s' \<Longrightarrow> stands x s' \<Longrightarrow> stands x s"
  by (auto simp: less_observed_def stands_def ends_with_def)

section \<open>What a finished word schedules\<close>

lemma scheduled_fields [simp]:
  "en_pending (schedule b p s) = Some p" "en_stream (schedule b p s) = en_stream s"
  by (simp_all add: schedule_def)

lemma kept_pending [simp]:
  "en_pending (keep_for_next kept word b s) = en_pending s"
  "en_pending (snd (start_wait su w j p d b trailing head fallback s)) = en_pending s"
  by (simp_all add: keep_for_next_def start_wait_def Let_def split: option.split)

lemma typo_pending [simp]: "en_pending (snd (typo_plan cf su de w base keys s)) = en_pending s"
  by (auto simp: typo_plan_def Let_def split: option.splits sum.splits typo_reason.splits)

lemma typo_plan_fields:
  "fst (typo_plan cf su de w base keys s) = Some q \<Longrightarrow>
     cp_mode q = Mode_Typo \<and> cp_source q = cp_source base \<and> cp_target q = cp_target base"
  by (auto simp: typo_plan_def Let_def split: option.splits sum.splits typo_reason.splits if_splits)

definition own_layout_fix :: "correction_plan \<Rightarrow> bool" where
  "own_layout_fix p \<longleftrightarrow> cp_mode p \<in> {Mode_Typo, Mode_Case} \<and> cp_source p = cp_target p"

lemma case_fix_pending:
  "en_pending (snd (fix_double_capitals cf su de p b s)) = en_pending s
   \<or> (\<exists>q. en_pending (snd (fix_double_capitals cf su de p b s)) = Some q \<and> own_layout_fix q)"
  by (auto simp: fix_double_capitals_def own_layout_fix_def plain_plan_def Let_def split: option.splits)

text \<open>A property of a \<open>let\<close> step by step: what is known of each value is carried on, not the value.\<close>

lemma let_known: "(\<And>x. Q (f x)) \<Longrightarrow> Q (Let t f)"
  by (simp add: Let_def)

lemma let_keep: "I t \<Longrightarrow> (\<And>x. I x \<Longrightarrow> Q (f x)) \<Longrightarrow> Q (Let t f)"
  by (simp add: Let_def)

lemma pair_keep: "I (fst t) (snd t) \<Longrightarrow> (\<And>x y. I x y \<Longrightarrow> Q (f x y)) \<Longrightarrow> Q (Let t (\<lambda>(x, y). f x y))"
  by (simp add: Let_def split_beta)

definition conversion_modes :: "correction_plan option \<Rightarrow> bool" where
  "conversion_modes q \<longleftrightarrow> (case q of None \<Rightarrow> False | Some p \<Rightarrow> cp_mode p \<in> {Mode_Boundary, Mode_Sign, Mode_Before_Action, Mode_Typo})"

lemma replayed_mode [simp]: "cp_mode (replay_sign_with_word p opened) = cp_mode p"
  by (simp add: replay_sign_with_word_def Let_def split: option.split)

lemma signed_mode [simp]: "cp_mode (with_signs p signs) = cp_mode p"
  by (simp add: with_signs_def)

lemma conversion_scheduled: "conversion_modes (en_pending (apply_conversion cf su de w b origin t v s))"
proof -
  let ?Q = "\<lambda>s. conversion_modes (en_pending s)"
  have converted: "cp_mode ((converted_plan de w b t v)\<lparr>cp_head := head\<rparr>) \<in> {Mode_Boundary, Mode_Sign}" for head
    using converted_modes [of de w b t v "[]"] by (simp add: with_signs_def)
  show ?thesis
    unfolding apply_conversion_def
    apply (rule let_known [where Q="?Q"], rule let_known [where Q="?Q"], rule let_known [where Q="?Q"], rule let_known [where Q="?Q"])
    apply (rule let_keep [where Q="?Q" and I="\<lambda>p. cp_mode p \<in> {Mode_Boundary, Mode_Sign}"])
    subgoal using converted by simp
    apply (rule let_keep [where Q="?Q" and I="\<lambda>p. cp_mode p \<in> {Mode_Boundary, Mode_Sign, Mode_Before_Action}"])
    subgoal by auto
    apply (rule let_known [where Q="?Q"])
    apply (rule let_keep [where Q="?Q" and I="\<lambda>p. cp_mode p \<in> {Mode_Boundary, Mode_Sign, Mode_Before_Action}"])
    subgoal by (auto split: option.split)
    apply (rule let_keep [where Q="?Q" and I="\<lambda>s. conversion_modes (en_pending s)"])
    subgoal by (auto simp: conversion_modes_def)
    apply (rule pair_keep [where Q="?Q" and I="\<lambda>_ s. conversion_modes (en_pending s)"])
    subgoal by simp
    apply (rule pair_keep [where Q="?Q" and I="\<lambda>q s. conversion_modes (en_pending s) \<and> (case q of None \<Rightarrow> True | Some q \<Rightarrow> cp_mode q = Mode_Typo)"])
    subgoal by (auto split: option.split dest: typo_plan_fields)
    by (auto simp: conversion_modes_def split: option.splits)
qed

definition kept_as :: "correction_plan option \<Rightarrow> correction_plan option \<Rightarrow> correction_plan option \<Rightarrow> bool" where
  "kept_as old alone q \<longleftrightarrow> q = old \<or> q = alone \<and> alone \<noteq> None \<or> (case q of None \<Rightarrow> False | Some p \<Rightarrow> own_layout_fix p)"

lemma kept_layout_fields:
  "cp_source (kept_layout_plan w b strokes source field) = source" "cp_target (kept_layout_plan w b strokes source field) = source"
  by (simp_all add: kept_layout_plan_def plain_plan_def Let_def)

lemma remembered_pending [simp]: "en_pending (remember_context cf now app g strokes s) = en_pending s"
  by simp

lemma kept_typo:
  "fst (typo_plan cf su de w (kept_layout_plan w b strokes source field) keys s) = Some q \<Longrightarrow> own_layout_fix q"
  using typo_plan_fields [of cf su de w "kept_layout_plan w b strokes source field" keys s q]
  by (simp add: own_layout_fix_def kept_layout_fields)

lemma typo_result:
  assumes "typo_plan cf su de w (kept_layout_plan w b strokes source field) keys s = (r, s')"
  shows "en_pending s' = en_pending s \<and> (case r of None \<Rightarrow> True | Some q \<Rightarrow> own_layout_fix q)"
  using typo_pending [of cf su de w "kept_layout_plan w b strokes source field" keys s] assms
    kept_typo [of cf su de w b strokes source field keys s]
  by (auto split: option.split)

lemma case_fix_kept_as:
  "kept_as old alone (en_pending s) \<Longrightarrow> kept_as old alone (en_pending (snd (fix_double_capitals cf su de p b s)))"
  using case_fix_pending [of cf su de p b s] by (auto simp: kept_as_def)

lemma case_fix_some:
  "en_pending (snd (fix_double_capitals cf su de p b s)) = Some q \<Longrightarrow> en_pending s = Some q \<or> own_layout_fix q"
  using case_fix_pending [of cf su de p b s] by auto

lemma keep_scheduled: "kept_as (en_pending s) (vd_alone v) (en_pending (apply_keep cf su de w b origin paused t v s))"
proof -
  let ?K = "\<lambda>s'. kept_as (en_pending s) (vd_alone v) (en_pending s')"
  let ?T = "\<lambda>q s'. ?K s' \<and> (case q of None \<Rightarrow> True | Some q \<Rightarrow> own_layout_fix q)"
  show ?thesis
    unfolding apply_keep_def
    apply (rule let_known [where Q="?K"], rule let_known [where Q="?K"], rule let_known [where Q="?K"], rule let_known [where Q="?K"])
    apply (rule let_keep [where Q="?K" and I="?K"])
    subgoal by (simp add: kept_as_def split: option.split)
    apply (rule let_keep [where Q="?K" and I="?K"])
    subgoal by simp
    apply (rule pair_keep [where Q="?K" and I="\<lambda>_. ?K"])
    subgoal by simp
    apply (rule pair_keep [where Q="?K" and I="?T"])
    subgoal by (auto split: option.split dest: kept_typo)
    apply (rule let_keep [where Q="?K" and I="?K"])
    subgoal by (auto simp: kept_as_def split: option.splits)
    subgoal for j result source p s1 s2 waits s3 typo s4 s5
      unfolding Let_def split_beta by (auto intro: case_fix_kept_as split del: if_split split: if_splits)
    done
qed

lemma skip_scheduled: "kept_as (en_pending s) None (en_pending (skip_word cf su de w b origin kept chosen manual unknown t s))"
proof -
  let ?K = "\<lambda>s'. kept_as (en_pending s) None (en_pending s')"
  show ?thesis
    unfolding skip_word_def
    apply (rule let_known [where Q="?K"], rule let_known [where Q="?K"], rule let_known [where Q="?K"], rule let_known [where Q="?K"],
        rule let_known [where Q="?K"])
    apply (rule let_keep [where Q="?K" and I="?K"])
    subgoal by (simp add: kept_as_def)
    apply (rule let_keep [where Q="?K" and I="?K"])
    subgoal
      by (auto simp: kept_as_def split: option.splits prod.splits dest!: typo_result case_fix_some)
    subgoal by simp
    done
qed

lemma skip_untouched:
  assumes "\<not> (enabled su \<and> boundary_enabled (su_get su) b \<and> \<not> unknown \<and> \<not> cf_excluded cf (wo_application w))"
  shows "en_pending (skip_word cf su de w b origin kept chosen manual unknown t s) = en_pending s"
  using assms by (auto simp: skip_word_def Let_def)

text \<open>What the first steps of the end of a word leave of the state.\<close>

definition same_word :: "engine \<Rightarrow> engine \<Rightarrow> bool" where
  "same_word s0 s \<longleftrightarrow>
     en_stream s = en_stream s0 \<and> en_early_undone s = en_early_undone s0 \<and> en_manual_group s = en_manual_group s0
     \<and> en_caret_moved s = en_caret_moved s0"

lemma logged_word [simp]:
  "en_stream (log_pending_dropped cf s) = en_stream s" "en_early_undone (log_pending_dropped cf s) = en_early_undone s"
  "en_manual_group (log_pending_dropped cf s) = en_manual_group s" "en_caret_moved (log_pending_dropped cf s) = en_caret_moved s"
  "en_source (log_pending_dropped cf s) = en_source s"
  by (simp_all add: log_pending_dropped_def log_texts_def tell_def split: option.split)

lemma start_commit_fields:
  "same_word s (start_commit cf s)" "en_source (start_commit cf s) = en_source s"
  "en_pending (start_commit cf s) = (case en_pending s of None \<Rightarrow> None | Some p \<Rightarrow> if cp_mode p = Mode_Early then Some p else None)"
  by (auto simp: start_commit_def same_word_def split: option.split)

lemma insertion_fields [simp]:
  "en_pending (snd (insertion_holds su w typed ahead s)) = en_pending s"
  "same_word s0 (snd (insertion_holds su w typed ahead s)) = same_word s0 s"
  by (auto simp: insertion_holds_def same_word_def Let_def split: option.split)

lemma token_fields:
  "en_pending (snd (token_parts cf su de w b s)) = en_pending s"
  "same_word s0 (snd (token_parts cf su de w b s)) = same_word s0 s"
  "to_source (fst (token_parts cf su de w b s)) = en_source s"
  by (simp_all add: token_parts_def Let_def split_beta)

lemma remember_token_fields:
  "en_pending (remember_token cf w b t s) = en_pending s" "same_word s0 (remember_token cf w b t s) = same_word s0 s"
  by (simp_all add: remember_token_def same_word_def)

lemma release_fields:
  "en_pending (release_manual manual s) = en_pending s" "en_stream (release_manual manual s) = en_stream s"
  by (simp_all add: release_manual_def)

lemma late_fields:
  "en_pending (log_evaluation cf su de w b source original alts lit words d skipped s) = en_pending s"
  "en_pending (settle_early cf w b t strokes d s) = en_pending s"
  by (auto simp: log_evaluation_def settle_early_def finish_early_switch_def tell_def Let_def split_beta split: option.split)

lemma replayed_text [simp]: "plan_text (replay_sign_with_word p opened) = plan_text p"
  by (simp add: replay_sign_with_word_def plan_text_def closing_text_def closing_key_def Let_def split: option.split)

definition may_correct :: "engine_config \<Rightarrow> surroundings \<Rightarrow> world \<Rightarrow> key_event \<Rightarrow> engine \<Rightarrow> bool" where
  "may_correct cf su w b s \<longleftrightarrow>
     enabled su \<and> boundary_enabled (su_get su) b \<and> \<not> caret_unknown su s \<and> \<not> cf_excluded cf (wo_application w)"

definition may_convert :: "engine_config \<Rightarrow> surroundings \<Rightarrow> world \<Rightarrow> key_event \<Rightarrow> engine \<Rightarrow> bool" where
  "may_convert cf su w b s \<longleftrightarrow> may_correct cf su w b s \<and> \<not> word_protected cf (en_source s) s"

definition scheduled_by :: "engine_config \<Rightarrow> surroundings \<Rightarrow> world \<Rightarrow> key_event \<Rightarrow> engine \<Rightarrow> correction_plan \<Rightarrow> bool" where
  "scheduled_by cf su w b s p \<longleftrightarrow>
     en_pending s = Some p
     \<or> cp_mode p = Mode_Mention_Hidden
     \<or> own_layout_fix p \<and> may_correct cf su w b s
     \<or> may_convert cf su w b s \<and> (cp_mode p \<in> {Mode_Boundary, Mode_Sign, Mode_Before_Action, Mode_Typo} \<or> stands (plan_text p) s)"

abbreviation all_scheduled_by ::
    "engine_config \<Rightarrow> surroundings \<Rightarrow> world \<Rightarrow> key_event \<Rightarrow> engine \<Rightarrow> engine \<Rightarrow> bool" where
  "all_scheduled_by cf su w b s s' \<equiv> (case en_pending s' of None \<Rightarrow> True | Some p \<Rightarrow> scheduled_by cf su w b s p)"

lemma end_scheduled:
  "all_scheduled_by cf su w b s s' \<Longrightarrow> all_scheduled_by cf su w b s (end_word cf w b t manual original s')"
  by (cases "en_pending s'"; cases "to_shown t")
    (auto simp: end_word_def schedule_def mention_write_back_def plain_plan_def scheduled_by_def Let_def)

lemma verdict_scheduled:
  assumes "all_scheduled_by cf su w b s s'" "verdict_stands s v" "may_convert cf su w b s"
  shows "all_scheduled_by cf su w b s (snd (apply_verdict cf su de w b origin paused t v s'))"
proof (cases "vd_joint v")
  case (Some x)
  then show ?thesis
    using assms(2,3) by (cases x) (simp add: apply_verdict_def verdict_stands_def scheduled_by_def)
next
  case None
  have converted: "all_scheduled_by cf su w b s (apply_conversion cf su de w b origin t v s')"
    using conversion_scheduled [of cf su de w b origin t v s'] assms(3)
    by (auto simp: conversion_modes_def scheduled_by_def split: option.splits)
  have kept: "all_scheduled_by cf su w b s (apply_keep cf su de w b origin paused t v s')"
    using keep_scheduled [of s' v cf su de w b origin paused t] assms
    by (auto simp: kept_as_def verdict_stands_def scheduled_by_def may_convert_def split: option.splits)
  show ?thesis using None converted kept by (simp add: apply_verdict_def Let_def)
qed

lemma word_protected_same: "same_word s0 s \<Longrightarrow> word_protected cf g s = word_protected cf g s0"
  by (simp add: same_word_def word_protected_def)

lemma caret_unknown_same: "same_word s0 s \<Longrightarrow> caret_unknown su s = caret_unknown su s0"
  by (simp add: same_word_def caret_unknown_def)

lemma verdict_less:
  "\<forall>x. stands x s' \<longrightarrow> stands x s \<Longrightarrow> verdict_stands s' v \<Longrightarrow> verdict_stands s v"
  by (auto simp: verdict_stands_def split: option.splits)

lemma verdict_same: "en_stream s = en_stream s0 \<Longrightarrow> verdict_stands s v = verdict_stands s0 v"
  by (auto simp: verdict_stands_def stands_def split: option.split)

lemma skip_scheduled_by:
  assumes "en_pending s' = None \<or> en_pending s' = en_pending s" "unknown = caret_unknown su s"
  shows "all_scheduled_by cf su w b s (skip_word cf su de w b origin kept chosen manual unknown t s')"
proof (cases "may_correct cf su w b s")
  case True
  then show ?thesis
    using skip_scheduled [of s' cf su de w b origin kept chosen manual unknown t] assms(1)
    by (auto simp: kept_as_def scheduled_by_def split: option.splits)
next
  case False
  then have "en_pending (skip_word cf su de w b origin kept chosen manual unknown t s') = en_pending s'"
    using assms(2) by (intro skip_untouched) (auto simp: may_correct_def)
  then show ?thesis using assms(1) by (auto simp: scheduled_by_def split: option.splits)
qed

lemma commit_scheduled: "all_scheduled_by cf su w b s (commit_word cf su de w b s)"
proof (cases "en_strokes s = []")
  case True
  then show ?thesis by (simp add: commit_word_def scheduled_by_def split: option.split)
next
  case False
  let ?A = "all_scheduled_by cf su w b s"
  let ?old = "\<lambda>s'. en_pending s' = None \<or> en_pending s' = en_pending s"
  let ?J = "\<lambda>s'. ?old s' \<and> same_word s s'"
  let ?K = "\<lambda>s'. ?old s' \<and> en_stream s' = en_stream s"
  let ?L = "\<lambda>s'. ?old s' \<and> (\<forall>x. stands x s' \<longrightarrow> stands x s)"
  have noted: "?L ((note_questions su j s')\<lparr>en_result_field := g\<rparr>)" if "?K s'" for j s' g
  proof -
    note q = all_questioned [of s' su j]
    have "en_pending (note_questions su j s') = en_pending s'" using q by (simp add: less_observed_def)
    moreover have "stands x (note_questions su j s') \<Longrightarrow> stands x s" for x
      using less_stands [OF q] that by (simp add: stands_def)
    ultimately show ?thesis using that by (simp add: stands_def)
  qed
  have old: "?old s' \<Longrightarrow> ?A s'" for s' by (auto simp: scheduled_by_def split: option.split)
  have first: "?J (start_commit cf s)"
    using start_commit_fields [where s = s and cf = cf] by (auto split: option.split)
  show ?thesis
    unfolding commit_word_def if_not_P [OF False]
    apply (rule pair_keep [where Q="?A" and I="\<lambda>t s'. ?J s' \<and> to_source t = en_source s"])
    subgoal using first start_commit_fields(2) [where s = s and cf = cf] by (simp add: token_fields)
    apply (rule let_keep [where Q="?A" and I="?J"])
    subgoal by (simp add: reset_pause_def same_word_def)
    apply (rule let_known [where Q="?A"])
    apply (rule let_keep [where Q="?A" and I="?J"])
    subgoal by (simp add: remember_token_fields)
    apply (rule let_known [where Q="?A"])
    apply (rule let_keep [where Q="?A" and I="\<lambda>x. x = en_source s"])
    subgoal by simp
    apply (rule let_keep [where Q="?A" and I="\<lambda>x. x = word_protected cf (en_source s) s"])
    subgoal using word_protected_same by blast
    apply (rule let_known [where Q="?A"])
    apply (rule let_keep [where Q="?A" and I="\<lambda>x. x = caret_unknown su s"])
    subgoal using caret_unknown_same by blast
    apply (rule let_known [where Q="?A"], rule let_known [where Q="?A"], rule let_known [where Q="?A"], rule let_known [where Q="?A"])
    apply (rule let_keep [where Q="?A" and I="?K"])
    subgoal by (simp add: release_fields same_word_def)
    apply (rule let_keep [where Q="?A" and I="\<lambda>x. x \<longrightarrow> may_convert cf su w b s"])
    subgoal by (auto simp: may_convert_def may_correct_def)
    apply (rule let_keep [where Q="?A" and I="\<lambda>v. \<forall>s'. verdict_stands s' v"])
    subgoal by (simp add: judge_alone_stands)
    apply (rule let_keep [where Q="?A" and I="?L"])
    subgoal using noted by (simp add: less_observed_def stands_def)
    apply (rule let_keep [where Q="?A" and I="verdict_stands s"])
    subgoal using verdict_less judge_neighbours_stands by blast
    apply (rule pair_keep [where Q="?A" and I="\<lambda>_ s'. ?A s'"])
    subgoal
      by (auto simp del: option.case_eq_if simp: verdict_scheduled [OF old] skip_scheduled_by split_beta)
    apply (rule let_known [where Q="?A"], rule let_known [where Q="?A"], rule let_known [where Q="?A"], rule let_known [where Q="?A"],
        rule let_known [where Q="?A"])
    apply (rule let_keep [where Q="?A" and I="?A"])
    subgoal by (simp add: late_fields)
    apply (rule let_keep [where Q="?A" and I="?A"])
    subgoal by (simp add: late_fields)
    subgoal by (rule end_scheduled)
    done
qed

section \<open>The two guarantees\<close>

text \<open>C4: When a word ends, the correction that is scheduled is one of four kinds: the switch made inside the word, as it was; the
  quote of a mention written back; a slip or a doubled capital put right in the layout it was typed in, where corrections are
  on, the caret is known and the program is not excluded; or a conversion, where moreover neither the user nor an undo chose
  the layout of this word. No answer of a model can widen this.\<close>

theorem commit_only_where_allowed:
  "case en_pending (commit_word cf su de w b s) of
     None \<Rightarrow> True
   | Some p \<Rightarrow> en_pending s = Some p \<or> cp_mode p = Mode_Mention_Hidden \<or> own_layout_fix p \<and> may_correct cf su w b s
       \<or> may_convert cf su w b s"
  using commit_scheduled [of cf su w b s de] by (auto simp: scheduled_by_def split: option.splits)


end
