(* ===== verification/Key_Session.thy ===== *)
theory Key_Session
  imports Commit_Safety
begin

text \<open>
  The key handler over the end of a word, for whole key events: which events reach the backend, and what reaches it. The end of
  a word is an interface here (\<open>quiet_commit\<close>): it asks nothing of the backend, which \<open>commit_word\<close> is shown to satisfy.
\<close>

section \<open>What leaves the input alone\<close>

lemma touches_input_more [simp]: "\<not> touches_input (Enabled_Set c)" "\<not> touches_input (Selection_Requested u)"
  by (simp_all add: touches_input_def)

lemma input_trace_more [simp]:
  "input_trace (s\<lparr>en_character_before := u\<rparr>) = input_trace s" "input_trace (s\<lparr>en_caret_moved := c\<rparr>) = input_trace s"
  "input_trace (s\<lparr>en_convert_keycode := g\<rparr>) = input_trace s" "input_trace (s\<lparr>en_convert_released := c\<rparr>) = input_trace s"
  "input_trace (s\<lparr>en_foreign_active := c\<rparr>) = input_trace s" "input_trace (s\<lparr>en_templates := t\<rparr>) = input_trace s"
  "input_trace (s\<lparr>en_wait_sequence := n\<rparr>) = input_trace s" "input_trace (s\<lparr>en_result_field := f\<rparr>) = input_trace s"
  by (simp_all add: input_trace_def)

lemma input_trace_typing [simp]:
  "input_trace (word_activity w s) = input_trace s"
  "input_trace (reset_pause s) = input_trace s"
  "input_trace (begin_word cf su w e s) = input_trace s"
  "input_trace (snd (insertion_holds su w typed ahead s)) = input_trace s"
  "input_trace (show_mention cf su w e s) = input_trace s"
  "input_trace (hide_mention cf w head b g s) = input_trace s"
  "input_trace (add_stroke w e source s) = input_trace s"
  "input_trace (snd (take_late_stroke w e s)) = input_trace s"
  "input_trace (snd (prefix_field cf su w original s)) = input_trace s"
  by (auto simp: word_activity_def reset_pause_def begin_word_def insertion_holds_def show_mention_def hide_mention_def
      add_stroke_def take_late_stroke_def prefix_field_def protect_field_def Let_def split_beta split: option.split)

lemma input_trace_mention [simp]: "input_trace (after_mention cf w e b s) = input_trace s"
  by (simp add: after_mention_def split: option.split)

lemma input_trace_protected [simp]: "input_trace (snd (prefix_protected cf su w original source s)) = input_trace s"
  by (simp add: prefix_protected_def)

lemma triple_keep: "I (snd t) \<Longrightarrow> (\<And>x y z. I z \<Longrightarrow> Q (f x y z)) \<Longrightarrow> Q (Let t (\<lambda>((x, y), z). f x y z))"
  by (simp add: Let_def split_beta)

lemma input_trace_early_switch [simp]: "input_trace (maybe_early_switch cf su w s) = input_trace s"
proof (cases "early_allowed cf su s")
  case True
  let ?Q = "\<lambda>s'. input_trace s' = input_trace s"
  show ?thesis
    unfolding maybe_early_switch_def
    apply (subst if_not_P, simp add: True)
    apply (rule let_known [where Q="?Q"], rule let_known [where Q="?Q"], rule let_known [where Q="?Q"], rule let_known [where Q="?Q"],
        rule let_known [where Q="?Q"], rule let_known [where Q="?Q"])
    apply (rule pair_keep [where Q="?Q" and I="\<lambda>_. ?Q"])
    subgoal by simp
    apply (rule triple_keep [where Q="?Q" and I="?Q"])
    subgoal by simp
    apply (rule pair_keep [where Q="?Q" and I="\<lambda>_ _. True"])
    subgoal by simp
    apply (rule let_keep [where Q="?Q" and I="?Q"])
    subgoal by simp
    subgoal by simp
    done
qed (simp add: maybe_early_switch_def)

lemma input_trace_refresh [simp]: "input_trace (snd (refresh_early cf su w p s)) = input_trace s"
  unfolding refresh_early_def Let_def split_beta
  by (auto split: option.split prod.split bool.split)

section \<open>The end of a word\<close>

lemma input_trace_parts [simp]:
  "input_trace (snd (typo_plan cf su de w base keys s)) = input_trace s"
  "input_trace (snd (fix_double_capitals cf su de p b s)) = input_trace s"
  "input_trace (snd (start_wait su w j p d b trailing head fallback s)) = input_trace s"
  "input_trace (keep_for_next kept word b s) = input_trace s"
  "input_trace (schedule b p s) = input_trace s"
  "input_trace (start_commit cf s) = input_trace s"
  "input_trace (snd (token_parts cf su de w b s)) = input_trace s"
  "input_trace (remember_token cf w b t s) = input_trace s"
  "input_trace (release_manual manual s) = input_trace s"
  by (auto simp: typo_plan_def fix_double_capitals_def start_wait_def keep_for_next_def schedule_def start_commit_def token_parts_def
      remember_token_def release_manual_def Let_def split_beta split: option.split sum.splits typo_reason.splits)

lemma input_trace_conversion [simp]: "input_trace (apply_conversion cf su de w b origin t v s) = input_trace s"
  by (auto simp: apply_conversion_def Let_def split_beta split: option.split)

lemma input_trace_keep [simp]: "input_trace (apply_keep cf su de w b origin paused t v s) = input_trace s"
proof -
  let ?Q = "\<lambda>s'. input_trace s' = input_trace s"
  show ?thesis
    unfolding apply_keep_def
    apply (rule let_known [where Q="?Q"], rule let_known [where Q="?Q"], rule let_known [where Q="?Q"], rule let_known [where Q="?Q"])
    apply (rule let_keep [where Q="?Q" and I="?Q"])
    subgoal by (simp split: option.split)
    apply (rule let_keep [where Q="?Q" and I="?Q"])
    subgoal by simp
    apply (rule pair_keep [where Q="?Q" and I="\<lambda>_. ?Q"])
    subgoal by simp
    apply (rule pair_keep [where Q="?Q" and I="\<lambda>_. ?Q"])
    subgoal by simp
    apply (rule let_keep [where Q="?Q" and I="?Q"])
    subgoal by (simp split: option.split)
    subgoal unfolding Let_def split_beta by simp
    done
qed

lemma input_trace_protect [simp]: "input_trace (protect_field s) = input_trace s"
  by (simp add: protect_field_def)

lemma input_trace_question: "input_trace (note_question su x s) = input_trace s"
  by (cases x) (simp add: note_question_def Let_def split: option.split)

lemma input_trace_questions [simp]: "input_trace (note_questions su j s) = input_trace s"
proof -
  have "input_trace (fold (note_question su) xs s) = input_trace s" for xs
    by (induction xs arbitrary: s) (simp_all add: input_trace_question)
  then show ?thesis by (simp add: note_questions_def)
qed

lemma input_trace_commit_steps [simp]:
  "input_trace (snd (apply_verdict cf su de w b origin paused t v s)) = input_trace s"
  "input_trace (skip_word cf su de w b origin kept chosen manual unknown t s) = input_trace s"
  "input_trace (log_evaluation cf su de w b source original alts lit words d skipped s) = input_trace s"
  "input_trace (settle_early cf w b t strokes d s) = input_trace s"
  "input_trace (end_word cf w b t manual original s) = input_trace s"
  by (auto simp: apply_verdict_def skip_word_def log_evaluation_def settle_early_def end_word_def Let_def split_beta
      split: option.split prod.splits)

lemma input_trace_commit [simp]: "input_trace (commit_word cf su de w b s) = input_trace s"
proof (cases "en_strokes s = []")
  case False
  let ?Q = "\<lambda>s'. input_trace s' = input_trace s"
  show ?thesis
    unfolding commit_word_def if_not_P [OF False]
    apply (rule pair_keep [where Q="?Q" and I="\<lambda>_. ?Q"])
    subgoal by simp
    apply (rule let_keep [where Q="?Q" and I="?Q"])
    subgoal by simp
    apply (rule let_known [where Q="?Q"])
    apply (rule let_keep [where Q="?Q" and I="?Q"])
    subgoal by simp
    apply (rule let_known [where Q="?Q"], rule let_known [where Q="?Q"], rule let_known [where Q="?Q"], rule let_known [where Q="?Q"],
        rule let_known [where Q="?Q"], rule let_known [where Q="?Q"], rule let_known [where Q="?Q"], rule let_known [where Q="?Q"],
        rule let_known [where Q="?Q"])
    apply (rule let_keep [where Q="?Q" and I="?Q"])
    subgoal by simp
    apply (rule let_known [where Q="?Q"], rule let_known [where Q="?Q"])
    apply (rule let_keep [where Q="?Q" and I="?Q"])
    subgoal by simp
    apply (rule let_known [where Q="?Q"])
    apply (rule pair_keep [where Q="?Q" and I="\<lambda>_. ?Q"])
    subgoal by (simp add: split_beta)
    apply (rule let_known [where Q="?Q"], rule let_known [where Q="?Q"], rule let_known [where Q="?Q"], rule let_known [where Q="?Q"],
        rule let_known [where Q="?Q"])
    apply (rule let_keep [where Q="?Q" and I="?Q"])
    subgoal by simp
    apply (rule let_keep [where Q="?Q" and I="?Q"])
    subgoal by simp
    subgoal by simp
    done
qed (simp add: commit_word_def)

section \<open>A key before anything is carried out\<close>

lemma input_trace_before [simp]:
  "input_trace (expire_manual cf w s) = input_trace s"
  "input_trace (take_overflow cf su w s) = input_trace s"
  "input_trace (handle_pointer cf w s) = input_trace s"
  "input_trace (handle_suspended cf w e s) = input_trace s"
  "input_trace (observe_foreign cf w e s) = input_trace s"
  "input_trace (snd (expire_prompt now s)) = input_trace s"
  "input_trace (snd (confirm_prompt q s)) = input_trace s"
  by (auto simp: expire_manual_def take_overflow_def handle_pointer_def handle_suspended_def observe_foreign_def expire_prompt_def
      confirm_prompt_def Let_def split: option.split)

lemma input_trace_prompt [simp]:
  "input_trace (before_key cf su w e s) = input_trace s"
  "input_trace (snd (answer_prompt w e s)) = input_trace s"
  by (simp_all add: before_key_def answer_prompt_def Let_def)

lemma input_trace_group [simp]: "input_trace (observe_group cf now app raised focus source g s) = input_trace s"
  by (simp add: observe_group_def Let_def split_beta)

lemma input_trace_noted [simp]:
  "input_trace (notice_password cf su w e s) = input_trace s"
  "input_trace (note_press cf w e s) = input_trace s"
  "input_trace (note_release e s) = input_trace s"
  "input_trace (note_modifier e s) = input_trace s"
  "input_trace (note_character e s) = input_trace s"
  by (simp_all add: notice_password_def note_press_def note_release_def note_modifier_def note_character_def Let_def)

lemma input_trace_observed [simp]: "input_trace (observe_press cf su w e s) = input_trace s"
  by (simp add: observe_press_def Let_def)

lemma input_trace_undo [simp]:
  "input_trace (queue_undo cf now p g s) = input_trace s"
  "input_trace (schedule_early_undo cf now app origin g s) = input_trace s"
  "input_trace (schedule_undo cf now app g s) = input_trace s"
  "input_trace (switch_layout_only cf now raised s) = input_trace s"
  by (auto simp: queue_undo_def schedule_early_undo_def schedule_undo_def switch_layout_only_def Let_def split: option.split)

lemma input_trace_manual [simp]:
  "input_trace (taken_up s) = input_trace s"
  "input_trace (snd (double_convert_press cf now e s)) = input_trace s"
  by (simp_all add: taken_up_def double_convert_press_def Let_def)

lemma input_trace_scheduled [simp]: "input_trace (schedule_manual_conversion cf now app raised g s) = input_trace s"
  by (auto simp: schedule_manual_conversion_def Let_def split: option.split prod.split)

lemma input_trace_hotkeys [simp]:
  "input_trace (press_twice cf now app raised g s) = input_trace s"
  "input_trace (undo_hotkey cf w g s) = input_trace s"
  by (auto simp: press_twice_def undo_hotkey_def Let_def split: option.split rule_request.split convert_outcome.split prod.split)

lemma input_trace_editing [simp]:
  "input_trace (convert_hotkey cf su w e s) = input_trace s"
  "input_trace (erase_stroke s) = input_trace s"
  "input_trace (settle_at_action cf su w e s) = input_trace s"
  by (auto simp: convert_hotkey_def erase_stroke_def settle_at_action_def Let_def split_beta split: option.split)

section \<open>The key handler over the end of a word\<close>

text \<open>What the key handler relies on: the end of a word asks nothing of the backend.\<close>

locale quiet_commit =
  fixes commit :: "key_event \<Rightarrow> engine \<Rightarrow> engine"
  assumes commit_quiet: "input_trace (commit e s) = input_trace s"
begin

lemma backspace_quiet: "input_trace (handle_backspace cf w e s) = input_trace s"
  by (simp add: handle_backspace_def Let_def split: option.split)

lemma action_quiet: "input_trace (handle_action cf su w commit e s) = input_trace s"
  by (simp add: handle_action_def Let_def commit_quiet)

lemma letter_quiet: "input_trace (handle_letter cf su w commit e s) = input_trace s"
proof -
  let ?Q = "\<lambda>s'. input_trace s' = input_trace s"
  show ?thesis
    unfolding handle_letter_def
    apply (rule let_keep [where Q="?Q" and I="?Q"])
    subgoal by simp
    subgoal for t
      by (cases "late_stroke w e t") (simp_all add: commit_quiet Let_def split_beta)
    done
qed

lemma sign_quiet: "input_trace (handle_sign cf su w e s) = input_trace s"
  by (simp add: handle_sign_def Let_def)

lemma separator_quiet: "input_trace (handle_separator cf su w e s) = input_trace s"
proof -
  let ?Q = "\<lambda>s'. input_trace s' = input_trace s"
  show ?thesis
    unfolding handle_separator_def
    apply (rule let_keep [where Q="?Q" and I="?Q"])
    subgoal by (simp add: Let_def)
    apply (rule let_keep [where Q="?Q" and I="?Q"])
    subgoal by simp
    apply (rule let_keep [where Q="?Q" and I="?Q"])
    subgoal by simp
    apply (rule let_keep [where Q="?Q" and I="?Q"])
    subgoal by simp
    subgoal by simp
    done
qed

lemma boundary_quiet: "input_trace (handle_boundary cf su w commit e s) = input_trace s"
  by (simp add: handle_boundary_def commit_quiet separator_quiet)

lemma text_quiet: "input_trace (handle_text cf su w commit e s) = input_trace s"
  by (simp add: handle_text_def letter_quiet boundary_quiet sign_quiet Let_def)

lemma press_quiet: "input_trace (handle_press cf su w commit e s) = input_trace s"
  by (simp add: handle_press_def backspace_quiet action_quiet text_quiet Let_def split: option.split)

end

text \<open>Which keys are down when an event is carried out, and what its carrying out adds to the trace.\<close>

definition one_call :: "engine_effect list \<Rightarrow> engine_effect list \<Rightarrow> bool" where
  "one_call before after \<longleftrightarrow>
     after = before \<or> (\<exists>calls. length calls \<le> 1 \<and> after = before @ [Input_Held] @ calls @ [Input_Released])"

lemma executed_call: "one_call (input_trace s) (input_trace (snd (execute_correction cf w requested prompt s)))"
  using execute_trace [of cf w requested prompt s]
  by (auto simp: one_call_def split: if_splits intro: exI [of _ "[Correction_Injected call]" for call])

lemma executed_from:
  "input_trace s = input_trace s0 \<Longrightarrow> one_call (input_trace s0) (input_trace (snd (execute_correction cf w requested prompt s)))"
  using executed_call [of s cf w requested prompt] by simp

lemma no_call [simp]: "one_call t t"
  by (simp add: one_call_def)

lemma action_call: "one_call (input_trace s) (input_trace (run_action cf w s))"
proof -
  have "one_call (input_trace s) (input_trace (snd (case en_pending s of None \<Rightarrow> (True, s\<lparr>en_pending := None, en_prompt_after := None\<rparr>)
      | Some p \<Rightarrow> execute_correction cf w p None (s\<lparr>en_pending := None, en_prompt_after := None\<rparr>))))"
    by (cases "en_pending s") (simp_all add: executed_from)
  then show ?thesis by (simp add: run_action_def Let_def split_beta)
qed

lemma pending_call:
  assumes refresh: "\<And>p s. input_trace (snd (refresh p s)) = input_trace s"
  shows "if en_pressed s = {} \<and> en_modifiers s = {}
    then one_call (input_trace s) (input_trace (maybe_execute_pending cf w refresh e s))
    else input_trace (maybe_execute_pending cf w refresh e s) = input_trace s"
proof (cases "en_pressed s = {} \<and> en_modifiers s = {}")
  case up: True
  let ?Q = "\<lambda>s'. one_call (input_trace s) (input_trace s')" and ?I = "\<lambda>s'. input_trace s' = input_trace s"
  have "?Q (maybe_execute_pending cf w refresh e s)"
  proof (cases "en_deferred_action s \<noteq> None")
    case True
    then show ?thesis using up by (simp add: maybe_execute_pending_def action_call)
  next
    case False
    then show ?thesis
    proof (cases "en_pending s")
      case None
      then show ?thesis using False by (simp add: maybe_execute_pending_def)
    next
      case (Some p)
      show ?thesis
        using False unfolding maybe_execute_pending_def Some
        apply (simp only: not_not simp_thms if_False option.case)
        apply (rule let_keep [where Q="?Q" and I="?I"])
        subgoal by simp
        subgoal for t
          apply (cases "en_trigger t \<noteq> -1 \<or> en_modifiers t \<noteq> {} \<or> en_pressed t \<noteq> {}")
          subgoal by simp
          subgoal
            apply (simp only: if_False)
            apply (rule let_known [where Q="?Q"])
            apply (rule let_keep [where Q="?Q" and I="?I"])
            subgoal by simp
            apply (rule pair_keep [where Q="?Q" and I="\<lambda>_. ?I"])
            subgoal using refresh by simp
            subgoal for prompt u q v by (cases q) (simp_all only: option.case Let_def no_call executed_from)
            done
          done
        done
    qed
  qed
  then show ?thesis using up by simp
next
  case False
  let ?Q = "\<lambda>s'. input_trace s' = input_trace s"
  have "?Q (maybe_execute_pending cf w refresh e s)"
  proof (cases "en_pending s")
    case None
    then show ?thesis using False by (auto simp: maybe_execute_pending_def)
  next
    case (Some p)
    show ?thesis
      unfolding maybe_execute_pending_def Some
      apply (subst if_not_P, use False in blast)
      apply (simp only: option.case)
      apply (rule let_keep [where Q="?Q" and I="\<lambda>t. ?Q t \<and> \<not> (en_pressed t = {} \<and> en_modifiers t = {})"])
      subgoal using False by simp
      subgoal for t by (subst if_P) auto
      done
  qed
  then show ?thesis using False by (simp only: if_False)
qed

lemma keys_kept_steps [simp]:
  "en_pressed (personal_word_settled kept s) = en_pressed s" "en_modifiers (personal_word_settled kept s) = en_modifiers s"
  "en_pressed (cancel_context_wait s) = en_pressed s" "en_modifiers (cancel_context_wait s) = en_modifiers s"
  "en_pressed (complete_deferred_action deliver raised s) = en_pressed s"
  "en_modifiers (complete_deferred_action deliver raised s) = en_modifiers s"
  "en_pressed (log_word_discarded cf app s) = en_pressed s" "en_modifiers (log_word_discarded cf app s) = en_modifiers s"
  "en_pressed (snd (dismiss_prompt q s)) = en_pressed s" "en_modifiers (snd (dismiss_prompt q s)) = en_modifiers s"
  "en_pressed (snd (confirm_prompt q s)) = en_pressed s" "en_modifiers (snd (confirm_prompt q s)) = en_modifiers s"
  by (simp_all add: personal_word_settled_def cancel_context_wait_def complete_deferred_action_def log_word_discarded_def
      dismiss_prompt_def confirm_prompt_def Let_def split: option.split)

lemma keys_kept_early [simp]:
  "en_pressed (finish_early_switch cf now strokes b app g t s) = en_pressed s"
  "en_modifiers (finish_early_switch cf now strokes b app g t s) = en_modifiers s"
  by (simp_all add: finish_early_switch_def Let_def split_beta split: option.split)

lemma keys_kept [simp]:
  "en_pressed (clear_word cf now app raised action delivered s) = en_pressed s"
  "en_modifiers (clear_word cf now app raised action delivered s) = en_modifiers s"
  by (simp_all add: clear_word_def Let_def split: option.split)

lemma keys_kept_expired [simp]:
  "en_pressed (expire_manual cf w s) = en_pressed s" "en_modifiers (expire_manual cf w s) = en_modifiers s"
  "en_pressed (take_overflow cf su w s) = en_pressed s" "en_modifiers (take_overflow cf su w s) = en_modifiers s"
  "en_pressed (snd (take_hook_gap cf now app raised gap s)) = en_pressed s"
  "en_modifiers (snd (take_hook_gap cf now app raised gap s)) = en_modifiers s"
  "en_pressed (snd (expire_prompt now s)) = en_pressed s" "en_modifiers (snd (expire_prompt now s)) = en_modifiers s"
  by (simp_all add: expire_manual_def take_overflow_def take_hook_gap_def let_go_def expire_prompt_def Let_def split: option.split)

lemma keys_kept_before [simp]:
  "\<not> ev_pressed e \<Longrightarrow> en_pressed (before_key cf su w e s) = en_pressed s"
  "\<not> ev_pressed e \<Longrightarrow> en_modifiers (before_key cf su w e s) = en_modifiers s"
  "en_pressed (snd (answer_prompt w e s)) = en_pressed s"
  "en_modifiers (snd (answer_prompt w e s)) = en_modifiers s"
  by (simp_all add: before_key_def answer_prompt_def Let_def)

lemma note_fields [simp]:
  "ev_keycode e \<in> en_pressed (note_press cf w e s)"
  "en_pressed (note_release e s) = en_pressed s - {ev_keycode e}" "en_modifiers (note_release e s) = en_modifiers s"
  "en_pressed (note_modifier e s) = en_pressed s"
  "\<not> ev_pressed e \<Longrightarrow> en_modifiers (note_modifier e s) = en_modifiers s - {ev_keycode e}"
  by (simp_all add: note_press_def note_release_def note_modifier_def Let_def)

definition keys_up :: "key_event \<Rightarrow> engine \<Rightarrow> bool" where
  "keys_up e s \<longleftrightarrow> \<not> ev_pressed e \<and> en_pressed s \<subseteq> {ev_keycode e} \<and> en_modifiers s \<subseteq> {ev_keycode e}"

definition call_when_up :: "key_event \<Rightarrow> engine \<Rightarrow> engine \<Rightarrow> bool" where
  "call_when_up e s s' \<longleftrightarrow> input_trace s' = input_trace s \<or> keys_up e s \<and> one_call (input_trace s) (input_trace s')"

context quiet_commit
begin

lemma key_call: "call_when_up e s (handle_key cf su w commit e s)"
proof (cases "ev_pressed e")
  case True
  have "en_pressed (note_modifier e (note_press cf w e t)) \<noteq> {}" for t
    using note_fields(1) [of e cf w t] by (simp only: note_fields(4)) blast
  then have "input_trace (maybe_execute_pending cf w (refresh_early cf su w) e (note_modifier e (note_press cf w e (observe_press cf su w e s))))
      = input_trace s"
    using pending_call [of "refresh_early cf su w" "note_modifier e (note_press cf w e (observe_press cf su w e s))" cf w e]
    by (simp split: if_splits)
  then show ?thesis using True by (simp add: handle_key_def call_when_up_def press_quiet Let_def)
next
  case False
  let ?u = "if ev_keycode e = en_convert_keycode (note_release e s) then (note_release e s)\<lparr>en_convert_released := True\<rparr> else note_release e s"
  have "call_when_up e s (maybe_execute_pending cf w (refresh_early cf su w) e (note_modifier e (note_release e s)))"
    using pending_call [of "refresh_early cf su w" "note_modifier e (note_release e s)" cf w e] False
    by (auto simp: call_when_up_def keys_up_def split: if_splits)
  moreover have "call_when_up e s (maybe_execute_pending cf w (refresh_early cf su w) e ?u)"
    using pending_call [of "refresh_early cf su w" ?u cf w e] False
    by (auto simp: call_when_up_def keys_up_def split: if_splits)
  ultimately show ?thesis using False by (simp add: handle_key_def Let_def)
qed

lemma handled_call: "call_when_up e s (handle cf su w commit e s)"
proof -
  let ?b = "before_key cf su w e s"
  have carried: "call_when_up e s (handle_key cf su w commit e t)" if "input_trace t = input_trace s"
    "\<not> ev_pressed e \<Longrightarrow> en_pressed t = en_pressed s \<and> en_modifiers t = en_modifiers s" for t
    using key_call [of e t cf su w] that by (auto simp: call_when_up_def keys_up_def)
  have quiet: "input_trace t = input_trace s \<Longrightarrow> call_when_up e s t" for t by (simp add: call_when_up_def)
  have prompted: "call_when_up e s (case answer_prompt w e c of (True, s) \<Rightarrow> s | (False, s) \<Rightarrow> handle_key cf su w commit e s)"
    if "input_trace c = input_trace s" "\<not> ev_pressed e \<Longrightarrow> en_pressed c = en_pressed s \<and> en_modifiers c = en_modifiers s" for c
    using that carried [of "snd (answer_prompt w e c)"] quiet [of "snd (answer_prompt w e c)"]
    by (simp add: split_beta split: bool.split)
  show ?thesis
    by (simp add: handle_def Let_def quiet) (auto intro!: prompted)
qed

end

interpretation word_end: quiet_commit "commit_word cf su de w" for cf su de w
  by unfold_locales simp


definition waiting_engine :: engine where
  "waiting_engine = small_engine\<lparr>en_pending := Some small_plan, en_trigger := 65, en_pressed := {65}\<rparr>"

lemma release_runs_plan:
  "\<exists>s1. handle small_config small_surroundings (small_world small_server) commit (key_space\<lparr>ev_pressed := False\<rparr>) waiting_engine = s1
     \<and> (\<exists>t. execute_correction small_config (small_world small_server) small_plan None t = (True, s1) \<and> input_trace t = [])"
proof -
  let ?t = "waiting_engine\<lparr>en_pressed := {}, en_pressed_since := [], en_trigger := -1, en_pending := None, en_release_deadline := 0,
    en_prompt_after := None\<rparr>"
  have t: "en_queue ?t = []" "en_strokes ?t = []" "input_trace ?t = []"
    by (simp_all add: waiting_engine_def small_engine_def input_trace_def)
  obtain s1 where s1: "execute_correction small_config (small_world small_server) small_plan None ?t = (True, s1)"
    using small_executed [OF _ _ t(1,2)] by blast
  have names: "asc ''space'' \<noteq> asc ''Pointer''" "asc ''space'' \<notin> set MODIFIER_KEYS"
    by (simp_all add: asc_def MODIFIER_KEYS_def)
  have modes: "cp_mode small_plan = Mode_Boundary" "cp_automatic small_plan"
    by (simp_all add: small_plan_def plain_plan_def)
  have "handle small_config small_surroundings (small_world small_server) commit (key_space\<lparr>ev_pressed := False\<rparr>) waiting_engine = s1"
    using s1 modes
    by (simp add: handle_def handle_key_def before_key_def expire_manual_def take_overflow_def take_hook_gap_def answer_prompt_def
        expire_prompt_def note_release_def maybe_execute_pending_def Let_def names waiting_engine_def small_engine_def
        small_surroundings_def small_world_def key_space_def)
  then show ?thesis using s1 t(3) by blast
qed

text \<open>Without a trained model the detector alone decides, and here it converts every word of the English layout.\<close>

definition small_decision :: "ustr \<Rightarrow> (int \<times> ustr) list \<Rightarrow> int \<Rightarrow> decision" where
  "small_decision original alternatives source =
     (\<lparr>dc_convert = True, dc_original = original, dc_replacement = (case alternatives of [] \<Rightarrow> original | (_, w) # _ \<Rightarrow> w),
          dc_source = source, dc_target = (case alternatives of [] \<Rightarrow> source | (g, _) # _ \<Rightarrow> g), dc_confidence = 5,
          dc_reason = Model_Confident, dc_source_score = empty_score, dc_target_score = empty_score, dc_probability = None,
          dc_threshold = None, dc_model_version = []\<rparr>)"

definition no_models :: policy where
  "no_models =
     \<lparr>po_model = None, po_ortho = None, po_reader = False,
      po_tables = \<lparr>tb_terms = (\<lambda>_ _. 0), tb_alnum_cyrillic = (\<lambda>_. 0), tb_alnum_latin = (\<lambda>_. 0)\<rparr>,
      po_identifiers = (\<lambda>_. False), po_lexicon = (\<lambda>_. None)\<rparr>"

definition small_deciders :: deciders where
  "small_deciders =
     (let judge = (\<lambda>original alternatives source. \<lparr>jd_decision = small_decision original alternatives source, jd_result = None,
            jd_baseline = None, jd_asked = []\<rparr>)
      in \<lparr>de_policy = no_models, de_word = (\<lambda>original alternatives source _ _. judge original alternatives source),
          de_shadow = (\<lambda>original alternatives source _. judge original alternatives source), de_inside = (\<lambda>_ _ _. None),
          de_settle = (\<lambda>j _ _ _ _. j), de_joined = (\<lambda>j _ _ _ _. (None, j)),
          de_ask = (\<lambda>q. plain_result (qu_baseline q) Model_Unavailable),
          de_planned = (\<lambda>original alternative source _ grp. small_decision original [(grp, alternative)] source),
          de_baseline = (\<lambda>original alternative source grp. small_decision original [(grp, alternative)] source),
          de_term = (\<lambda>_ _. False), de_spelled = (\<lambda>_ _. True), de_layout_name = (\<lambda>g. if g = 0 then ''us'' else ''ru''),
          de_judge_typo = (\<lambda>_ _ _. None), de_personal = (\<lambda>_. False)\<rparr>)"


end
