(* ===== verification/Typed_Word.thy ===== *)
theory Typed_Word
  imports Key_Session
begin

text \<open>
  A word from its first key to the screen: \<open>typing\<close> is the engine in the middle of a word, kept by every letter and its release;
  \<open>detector_alone\<close> is the end of a word where no trained model is there; what the space schedules is followed through its
  release to the text of the X server.
\<close>

section \<open>In the middle of a word\<close>

text \<open>The engine in the middle of a word: \<open>held\<close> are the keys down, \<open>strokes\<close> the word so far, nothing is scheduled or awaited.\<close>

definition typing :: "int set \<Rightarrow> key_event list \<Rightarrow> int \<Rightarrow> engine \<Rightarrow> bool" where
  "typing held strokes grp s \<longleftrightarrow>
     en_pressed s = held \<and> en_strokes s = strokes \<and> en_source s = (if strokes = [] then -1 else grp) \<and> en_group s = grp
     \<and> en_modifiers s = {} \<and> en_symbols s = [] \<and> en_mention_shown s = None \<and> en_insertion s = None
     \<and> \<not> en_position_unknown s \<and> \<not> en_untracked s \<and> en_sensitive s = None \<and> \<not> en_suspended s \<and> en_prompt s = None
     \<and> en_prompt_deadline s = None \<and> en_pending s = None \<and> en_deferred_action s = None \<and> en_early_origin s = None
     \<and> en_early_at s = None \<and> \<not> en_early_undone s \<and> en_manual_group s = None \<and> \<not> en_caret_moved s
     \<and> en_context_waiting s = None \<and> en_provisional s = None \<and> en_paused s = None \<and> en_kept s = [] \<and> en_queue s = []"

text \<open>A step of the world in which nothing but the keyboard moves, and a key that is no hotkey and no editing key.\<close>

definition calm :: "surroundings \<Rightarrow> world \<Rightarrow> bool" where
  "calm su w \<longleftrightarrow> \<not> su_overflow su \<and> \<not> su_gap su \<and> wo_focus w = None \<and> \<not> reads_field su"

definition text_key :: "surroundings \<Rightarrow> world \<Rightarrow> int \<Rightarrow> key_event \<Rightarrow> bool" where
  "text_key su w grp e \<longleftrightarrow>
     ev_group e = grp \<and> \<not> ev_foreign e \<and> \<not> ev_deferred e \<and> safe_text_stroke e \<and> \<not> shortcut e \<and> \<not> joining_sign e
     \<and> \<not> engine_hotkey su w e
     \<and> ev_key_name e \<notin> set MODIFIER_KEYS \<union> set ACTION_BOUNDARY_KEYS \<union> {asc ''Pointer'', asc ''BackSpace''}"

lemma typing_observed:
  assumes "typing held strokes grp s" "text_key su w grp e" "calm su w"
  shows "typing held strokes grp (observe_press cf su w e s)"
  using assms by (simp add: observe_press_def notice_password_def calm_def text_key_def Let_def) (simp add: typing_def)

lemma typing_pressed:
  assumes "typing held strokes grp s" "text_key su w grp e" "calm su w"
  shows "typing (insert (ev_keycode e) held) strokes grp (note_press cf w e s)"
  using assms
  by (simp add: note_press_def observe_group_def track_focus_def late_stroke_def calm_def text_key_def typing_def Let_def)

lemma typing_noted [simp]:
  "typing held strokes grp (note_character e s) = typing held strokes grp s"
  "typing held strokes grp (s\<lparr>en_convert_at := t\<rparr>) = typing held strokes grp s"
  "typing held strokes grp (s\<lparr>en_foreign_active := c\<rparr>) = typing held strokes grp s"
  by (simp_all add: note_character_def typing_def Let_def)

lemma typing_before:
  assumes "typing held strokes grp s" "calm su w"
  shows "before_key cf su w e s = s" "answer_prompt w e s = (False, s)"
  using assms
  by (simp_all add: before_key_def expire_manual_def take_overflow_def take_hook_gap_def track_focus_def answer_prompt_def
      expire_prompt_def typing_def calm_def Let_def)

text \<open>Such a key reaches the text branch of the handler with the word as it was.\<close>

lemma text_key_handled:
  assumes "typing held strokes grp s" "text_key su w grp e" "calm su w" "ev_pressed e"
  shows "\<exists>t. handle cf su w commit e s = handle_text cf su w commit e t \<and> typing (insert (ev_keycode e) held) strokes grp t"
proof -
  let ?f = "s\<lparr>en_foreign_active := False\<rparr>"
  have f: "typing held strokes grp ?f" using assms(1) by simp
  let ?t = "(note_character e (note_press cf w e (observe_press cf su w e ?f)))\<lparr>en_convert_at := 0\<rparr>"
  have t: "typing (insert (ev_keycode e) held) strokes grp ?t"
    using typing_pressed [OF typing_observed [OF f assms(2,3)] assms(2,3), of cf cf] by simp
  have key: "ev_key_name e \<notin> set MODIFIER_KEYS" "ev_key_name e \<noteq> asc ''Pointer''" "ev_key_name e \<noteq> asc ''BackSpace''"
    "ev_key_name e \<notin> set ACTION_BOUNDARY_KEYS" "\<not> shortcut e" "\<not> ev_foreign e" "\<not> engine_hotkey su w e" "\<not> en_suspended s"
    using assms(1,2) by (auto simp: text_key_def typing_def)
  have "handle cf su w commit e s = handle_press cf su w commit e (note_character e (note_press cf w e (observe_press cf su w e ?f)))"
    using typing_before [OF assms(1,3)] typing_before [OF f assms(3)] key assms(4) by (simp add: handle_def handle_key_def Let_def)
  also have "\<dots> = handle_text cf su w commit e ?t"
    using key by (simp add: handle_press_def engine_hotkey_def Let_def)
  finally show ?thesis using t by blast
qed

lemma early_switch_off: "\<not> flag (su_get su) ''detection.early_switch'' True \<Longrightarrow> maybe_early_switch cf su w s = s"
  by (simp add: maybe_early_switch_def early_allowed_def)

lemma typing_begun: "typing held strokes grp s \<Longrightarrow> typing held strokes grp (begin_word cf su w e (s\<lparr>en_stale := c\<rparr>))"
  by (simp add: typing_def begin_word_def personal_word_settled_def tell_def Let_def)

lemma stroke_added:
  assumes "typing held strokes grp s"
  shows "typing held (strokes @ [e]) grp
    ((add_stroke w e grp (begin_word cf su w e (s\<lparr>en_stale := True\<rparr>)))\<lparr>en_group := grp, en_error := []\<rparr>)"
  using typing_begun [OF assms, of cf su w e True] by (simp add: typing_def add_stroke_def word_activity_def)

text \<open>A letter joins the word.\<close>

lemma letter_typed:
  assumes "typing {} strokes grp s" "text_key su w grp e" "calm su w" "ev_pressed e"
    and letter: "isalpha (ev_character e)" "is_layout_letter e" "length strokes < MAX_WORD_STROKES"
    and setting: "\<not> flag (su_get su) ''detection.early_switch'' True" "grp \<noteq> -1"
  shows "typing {ev_keycode e} (strokes @ [e]) grp (handle cf su w commit e s)"
proof -
  obtain t where t: "handle cf su w commit e s = handle_text cf su w commit e t" "typing {ev_keycode e} strokes grp t"
    using text_key_handled [OF assms(1-4), of cf commit] by auto
  have joined: "typing {ev_keycode e} (strokes @ [e]) grp
      ((add_stroke w e grp (begin_word cf su w e (t\<lparr>en_stale := True\<rparr>)))\<lparr>en_group := grp, en_error := []\<rparr>)"
    using t(2) by (rule stroke_added)
  have "handle_text cf su w commit e t = handle_letter cf su w commit e t"
    using t(2) assms(2) letter by (auto simp: handle_text_def typing_def text_key_def)
  also have "\<dots> = maybe_early_switch cf su w (after_mention cf w e None
      ((add_stroke w e grp (begin_word cf su w e (t\<lparr>en_stale := True\<rparr>)))\<lparr>en_group := grp, en_error := []\<rparr>))"
    using t(2) assms(2) letter(1) setting(2) by (auto simp: handle_letter_def typing_def text_key_def late_stroke_def Let_def)
  also have "\<dots> = (add_stroke w e grp (begin_word cf su w e (t\<lparr>en_stale := True\<rparr>)))\<lparr>en_group := grp, en_error := []\<rparr>"
    using early_switch_off [OF setting(1)] joined by (simp add: typing_def after_mention_def)
  finally show ?thesis using t(1) joined by simp
qed

lemma letter_released:
  assumes "typing {ev_keycode e} strokes grp s" "calm su w" "\<not> ev_pressed e" "\<not> ev_foreign e"
    "ev_key_name e \<notin> set MODIFIER_KEYS \<union> {asc ''Pointer''}"
  shows "typing {} strokes grp (handle cf su w commit e s)"
  using assms typing_before [OF assms(1,2)]
  by (auto simp: handle_def handle_key_def maybe_execute_pending_def note_release_def Let_def) (auto simp: typing_def)

text \<open>
  A space ends the word. \<open>detector_alone\<close>: no trained model is there, so the detector's word stands, the token is not split and
  no slip is looked for.
\<close>

definition detector_alone :: "engine_config \<Rightarrow> surroundings \<Rightarrow> deciders \<Rightarrow> key_event list \<Rightarrow> int \<Rightarrow> key_event \<Rightarrow> judgement \<Rightarrow> bool" where
  "detector_alone cf su de strokes grp b j \<longleftrightarrow>
     su_boundary su = None \<and> \<not> de_model de \<and> replayed_signs cf su strokes grp = 0 \<and> de_inside de strokes grp b = None
     \<and> de_joined de j strokes [] grp b = (None, j) \<and> (\<forall>word g before. de_judge_typo de word g before = None)
     \<and> de_word de (text_for_group strokes grp) (readings cf strokes grp) grp [] b = j
     \<and> jd_result j = None \<and> jd_asked j = [] \<and> dc_convert (jd_decision j) \<and> dc_reason (jd_decision j) \<noteq> Short_Word_At_Start
     \<and> \<not> digit_dot_question (dc_original (jd_decision j)) (dc_replacement (jd_decision j)) On_Space"

definition whole_token :: "key_event list \<Rightarrow> int \<Rightarrow> token" where
  "whole_token strokes grp =
     \<lparr>to_typed = strokes, to_opened = takeWhile (\<lambda>e. \<not> isalpha (ev_character e)) strokes, to_shown = None, to_mention = [],
      to_head = 0, to_strokes = strokes, to_trailing = [], to_signs = [], to_certain = True, to_abstained = False, to_source = grp\<rparr>"

lemma whole_token_parts:
  assumes "typing held strokes grp s" "strokes \<noteq> []" "detector_alone cf su de strokes grp b j"
  shows "token_parts cf su de w b s = (whole_token strokes grp, s)"
  using assms
  by (simp add: token_parts_def whole_token_def typing_def detector_alone_def literal_head_def completed_word_def
      insertion_holds_def inside_word_def mention_keys_def Let_def)

definition word_verdict :: "key_event list \<Rightarrow> judgement \<Rightarrow> verdict" where
  "word_verdict strokes j =
     \<lparr>vd_judgement = j, vd_inside = False, vd_head = 0, vd_strokes = strokes, vd_signs = [], vd_joint = None, vd_alone = None,
      vd_kept = []\<rparr>"

lemma word_judged:
  assumes "detector_alone cf su de strokes grp b j"
  shows "judge_alone cf de b None (whole_token strokes grp) = word_verdict strokes j"
    and "judge_neighbours cf su de w b None None None [] (whole_token strokes grp) s (word_verdict strokes j) = word_verdict strokes j"
proof -
  show "judge_alone cf de b None (whole_token strokes grp) = word_verdict strokes j"
    using assms by (simp add: judge_alone_def whole_token_def word_verdict_def detector_alone_def texts_of_def Let_def)
  have waiting: "judge_with_waiting cf su de w b None None [] (whole_token strokes grp) s (word_verdict strokes j) = word_verdict strokes j"
    using assms by (simp add: judge_with_waiting_def resolve_wait_def word_verdict_def detector_alone_def Let_def)
  have along: "take_along cf su de w [] p n app False r s = p" for p n app r
    by (simp add: take_along_def Let_def)
  have "judge_with_kept cf su de w b None None (whole_token strokes grp) s (word_verdict strokes j) = word_verdict strokes j"
    using assms converted_modes [of de w b "whole_token strokes grp" "word_verdict strokes j" "[]"]
    by (auto simp: judge_with_kept_def revert_with_next_def along switched_word_def word_verdict_def detector_alone_def Let_def)
  then show "judge_neighbours cf su de w b None None None [] (whole_token strokes grp) s (word_verdict strokes j) = word_verdict strokes j"
    using waiting by (simp add: judge_neighbours_def)
qed

text \<open>The plan of a converted word.\<close>

definition word_plan :: "world \<Rightarrow> key_event list \<Rightarrow> key_event \<Rightarrow> decision \<Rightarrow> correction_plan" where
  "word_plan w strokes b d =
     plain_plan strokes (Some b) (dc_source d) (dc_target d) (dc_original d) (dc_replacement d) (dc_confidence d) (wo_application w)
       True Mode_Boundary"

definition planned :: "int set \<Rightarrow> key_event list \<Rightarrow> int \<Rightarrow> key_event \<Rightarrow> correction_plan \<Rightarrow> engine \<Rightarrow> bool" where
  "planned held strokes grp b p s \<longleftrightarrow>
     typing held strokes grp (s\<lparr>en_pending := None\<rparr>) \<and> en_prompt_after s = None \<and> en_trigger s = ev_keycode b
     \<and> (\<exists>revisit. en_pending s = Some (p\<lparr>cp_revisit := revisit\<rparr>))"

lemma no_slip: "\<forall>word g before. de_judge_typo de word g before = None \<Longrightarrow> typo_plan cf su de w base keys s = (None, s)"
  by (simp add: typo_plan_def Let_def)

lemma word_converted:
  assumes "typing held strokes grp s" "detector_alone cf su de strokes grp b j" "ev_character b = [0x20]" "\<not> ev_deferred b"
  shows "planned held strokes grp b (word_plan w strokes b (jd_decision j))
    (apply_conversion cf su de w b None (whole_token strokes grp) (word_verdict strokes j) s)"
proof -
  let ?p = "word_plan w strokes b (jd_decision j)"
  have plan: "with_signs ((converted_plan de w b (whole_token strokes grp) (word_verdict strokes j))\<lparr>cp_head := []\<rparr>) [] = ?p"
    using assms(2) by (simp add: converted_plan_def plan_from_decision_def with_signs_def word_plan_def plain_plan_def word_verdict_def
        whole_token_def detector_alone_def context_field_id_def result_field_def field_id_of_def)
  have replay: "replay_sign_with_word ?p opened = ?p" for opened
    using assms(3,4) by (simp add: replay_sign_with_word_def word_plan_def plain_plan_def isspace_def isspace_ch_def)
  have start: "planned held strokes grp b ?p (schedule b (?p\<lparr>cp_revisit := r\<rparr>) (log_pending_dropped cf s))" for r
    using assms(1) by (auto simp: planned_def schedule_def log_pending_dropped_def typing_def)
  have start0: "planned held strokes grp b ?p (schedule b ?p (log_pending_dropped cf s))"
    using start [of None] by (simp add: word_plan_def plain_plan_def)
  have "\<forall>word g before. de_judge_typo de word g before = None" "dc_reason (jd_decision j) \<noteq> Short_Word_At_Start" "jd_result j = None"
    using assms(2) by (simp_all add: detector_alone_def)
  then show ?thesis
    using plan replay start start0 assms(4)
    by (simp add: apply_conversion_def whole_token_def word_verdict_def opening_conversion_def no_slip Let_def split: option.split)
qed

text \<open>After the word: its plan waits for the keys to come up, and the word is empty.\<close>

definition plan_waits :: "int set \<Rightarrow> key_event \<Rightarrow> correction_plan \<Rightarrow> engine \<Rightarrow> bool" where
  "plan_waits held b p s \<longleftrightarrow>
     en_pressed s = held \<and> en_modifiers s = {} \<and> en_strokes s = [] \<and> en_symbols s = [] \<and> en_queue s = []
     \<and> \<not> en_suspended s \<and> en_prompt s = None \<and> en_prompt_deadline s = None \<and> en_deferred_action s = None
     \<and> en_prompt_after s = None \<and> en_trigger s = ev_keycode b \<and> (\<exists>revisit. en_pending s = Some (p\<lparr>cp_revisit := revisit\<rparr>))"

lemma typing_start [simp]: "typing held strokes grp s \<Longrightarrow> start_commit cf s = s"
  by (simp add: start_commit_def typing_def)

lemma typing_kept:
  "typing held strokes grp s \<Longrightarrow> typing held strokes grp (reset_pause (s\<lparr>en_mention_shown := None\<rparr>))"
  "typing held strokes grp s \<Longrightarrow> typing held strokes grp (remember_token cf w b t s)"
  "typing held strokes grp s \<Longrightarrow> typing held strokes grp (release_manual False s)"
  by (simp_all add: typing_def reset_pause_def remember_token_def release_manual_def)

lemma planned_logged:
  "planned held strokes grp b p s \<Longrightarrow>
     planned held strokes grp b p (log_evaluation cf su de w b' source original alts lit words (Some d) skipped s)"
  by (simp add: planned_def typing_def log_evaluation_def tell_def Let_def split: option.split)

lemma planned_settled:
  "planned held strokes grp b p s \<Longrightarrow> dc_convert d \<Longrightarrow> planned held strokes grp b p (settle_early cf w b' t ks (Some d) s)"
  by (simp add: planned_def typing_def settle_early_def)

lemma planned_ended:
  assumes "planned held strokes grp b p s"
  shows "plan_waits held b p (end_word cf w b (whole_token strokes grp) False original s)"
  using assms by (auto simp: planned_def typing_def plan_waits_def end_word_def whole_token_def Let_def)

lemma word_committed:
  assumes typing: "typing held strokes grp s" "strokes \<noteq> []" and judged: "detector_alone cf su de strokes grp b j"
    and space: "ev_character b = [0x20]" "\<not> ev_deferred b"
    and on: "enabled su" "boundary_enabled (su_get su) b" "\<not> cf_excluded cf (wo_application w)"
  shows "plan_waits held b (word_plan w strokes b (jd_decision j)) (commit_word cf su de w b s)"
proof -
  let ?T = "typing held strokes grp" and ?t = "whole_token strokes grp" and ?v = "word_verdict strokes j"
  let ?P = "planned held strokes grp b (word_plan w strokes b (jd_decision j))"
  let ?Q = "plan_waits held b (word_plan w strokes b (jd_decision j))"
  have strokes: "en_strokes s \<noteq> []" using typing by (simp add: typing_def)
  have convert: "dc_convert (jd_decision j)" using judged by (simp add: detector_alone_def)
  have fields: "en_early_origin x = None" "en_context_waiting x = None" "en_provisional x = None" "en_kept x = []"
    "\<not> word_protected cf g x" "\<not> caret_unknown su x" if "?T x" for x g
    using that by (simp_all add: typing_def word_protected_def caret_unknown_def)
  show ?thesis
    unfolding commit_word_def if_not_P [OF strokes]
    apply (rule pair_keep [where Q="?Q" and I="\<lambda>t x. t = ?t \<and> ?T x"])
    subgoal using typing whole_token_parts [OF typing judged] by simp
    apply (rule let_keep [where Q="?Q" and I="?T"])
    subgoal by (simp add: typing_kept)
    apply (rule let_known [where Q="?Q"])
    apply (rule let_keep [where Q="?Q" and I="?T"])
    subgoal by (simp add: typing_kept)
    apply (rule let_keep [where Q="?Q" and I="\<lambda>x. x = None"])
    subgoal by (simp add: fields)
    apply (rule let_keep [where Q="?Q" and I="\<lambda>x. x = grp"])
    subgoal by (simp add: whole_token_def)
    apply (rule let_keep [where Q="?Q" and I="\<lambda>x. \<not> x"])
    subgoal by (simp add: fields)
    apply (rule let_known [where Q="?Q"])
    apply (rule let_keep [where Q="?Q" and I="\<lambda>x. \<not> x"])
    subgoal by (simp add: fields)
    apply (rule let_keep [where Q="?Q" and I="\<lambda>x. x = None"])
    subgoal by (simp add: fields)
    apply (rule let_keep [where Q="?Q" and I="\<lambda>x. x = None"])
    subgoal by (simp add: fields)
    apply (rule let_known [where Q="?Q"])
    apply (rule let_keep [where Q="?Q" and I="\<lambda>x. x = []"])
    subgoal by (simp add: fields)
    apply (rule let_keep [where Q="?Q" and I="?T"])
    subgoal by (simp add: typing_kept)
    apply (rule let_keep [where Q="?Q" and I="\<lambda>x. x"])
    subgoal using on by (simp add: whole_token_def)
    apply (rule let_keep [where Q="?Q" and I="\<lambda>x. x = ?v"])
    subgoal by (simp add: word_judged [OF judged])
    apply (rule let_keep [where Q="?Q" and I="?T"])
    subgoal using judged by (simp add: typing_def note_questions_def word_verdict_def detector_alone_def)
    apply (rule let_keep [where Q="?Q" and I="\<lambda>x. x = ?v"])
    subgoal by (simp add: word_judged [OF judged])
    apply (rule pair_keep [where Q="?Q" and I="\<lambda>d x. d = Some (jd_decision j) \<and> ?P x"])
    subgoal
      using word_converted [OF _ judged space] convert
      by (simp add: apply_verdict_def word_verdict_def Let_def)
    apply (rule let_known [where Q="?Q"], rule let_known [where Q="?Q"], rule let_known [where Q="?Q"], rule let_known [where Q="?Q"],
        rule let_known [where Q="?Q"])
    apply (rule let_keep [where Q="?Q" and I="?P"])
    subgoal by (simp add: planned_logged)
    apply (rule let_keep [where Q="?Q" and I="?P"])
    subgoal using convert by (simp add: planned_settled)
    subgoal by (simp add: planned_ended)
    done
qed

text \<open>The space itself, and its release.\<close>

lemma space_typed:
  assumes typing: "typing {} strokes grp s" "strokes \<noteq> []" "length strokes < MAX_WORD_STROKES"
    and key: "text_key su w grp b" "calm su w" "ev_pressed b" "ev_character b = [0x20]" "\<not> is_layout_letter b"
    and judged: "detector_alone cf su de strokes grp b j"
    and on: "enabled su" "boundary_enabled (su_get su) b" "\<not> cf_excluded cf (wo_application w)"
  shows "plan_waits {ev_keycode b} b (word_plan w strokes b (jd_decision j)) (handle cf su w (commit_word cf su de w) b s)"
proof -
  obtain t where t: "handle cf su w (commit_word cf su de w) b s = handle_text cf su w (commit_word cf su de w) b t"
    "typing {ev_keycode b} strokes grp t"
    using text_key_handled [OF typing(1) key(1-3), of cf "commit_word cf su de w"] by auto
  have space: "is_boundary b" "isspace (ev_character b)" by (simp_all add: is_boundary_def key(4) isspace_def isspace_ch_def)
  have "handle_text cf su w (commit_word cf su de w) b t = commit_word cf su de w b t"
    using t(2) key typing(2,3) space by (auto simp: handle_text_def handle_boundary_def typing_def text_key_def)
  then show ?thesis
    using t word_committed [OF t(2) typing(2) judged key(4) _ on] key(1) by (simp add: text_key_def)
qed

lemma space_released:
  assumes waits: "plan_waits {ev_keycode b} b p s" and calm: "\<not> su_overflow su" "\<not> su_gap su"
    and up: "ev_keycode e = ev_keycode b" "\<not> ev_pressed e" "\<not> ev_foreign e" "ev_key_name e \<notin> set MODIFIER_KEYS \<union> {asc ''Pointer''}"
    and p: "cp_mode p = Mode_Boundary" "cp_automatic p"
  shows "\<exists>revisit t. handle cf su w commit e s = snd (execute_correction cf w (p\<lparr>cp_revisit := revisit\<rparr>) None t)
    \<and> en_queue t = [] \<and> en_strokes t = [] \<and> input_trace t = input_trace s \<and> en_symbols t = []"
proof -
  obtain r where r: "en_pending s = Some (p\<lparr>cp_revisit := r\<rparr>)" using waits by (auto simp: plan_waits_def)
  have "before_key cf su w e s = s" "answer_prompt w e s = (False, s)"
    using waits calm up r p
    by (simp_all add: before_key_def expire_manual_def take_overflow_def take_hook_gap_def answer_prompt_def expire_prompt_def
        plan_waits_def Let_def)
  then have key: "handle cf su w commit e s = handle_key cf su w commit e s"
    using waits up by (simp add: handle_def plan_waits_def Let_def)
  have run: "maybe_execute_pending cf w refresh e u = snd (execute_correction cf w (p\<lparr>cp_revisit := r\<rparr>) None
      (u\<lparr>en_trigger := -1, en_pending := None, en_release_deadline := 0, en_prompt_after := None\<rparr>))"
    if "en_pending u = Some (p\<lparr>cp_revisit := r\<rparr>)" "en_pressed u = {}" "en_modifiers u = {}" "en_trigger u = ev_keycode b"
      "en_deferred_action u = None" "en_prompt_after u = None" for u refresh
    using that up p by (simp add: maybe_execute_pending_def Let_def)
  let ?u = "if ev_keycode e = en_convert_keycode (note_release e s) then (note_release e s)\<lparr>en_convert_released := True\<rparr> else note_release e s"
  have u: "en_pending ?u = Some (p\<lparr>cp_revisit := r\<rparr>)" "en_pressed ?u = {}" "en_modifiers ?u = {}" "en_trigger ?u = ev_keycode b"
      "en_deferred_action ?u = None" "en_prompt_after ?u = None" "en_queue ?u = []" "en_strokes ?u = []" "en_symbols ?u = []"
    using waits r up by (auto simp: plan_waits_def note_release_def)
  have "handle cf su w commit e s = maybe_execute_pending cf w (refresh_early cf su w) e ?u"
    using key up by (simp add: handle_key_def Let_def)
  also note run [OF u(1-6)]
  finally show ?thesis
    using u(7-9) by (intro exI [of _ r] exI [of _ "?u\<lparr>en_trigger := -1, en_pending := None, en_release_deadline := 0, en_prompt_after := None\<rparr>"]) simp
qed

text \<open>A word typed key by key, each key pressed and released, with the answers of the world at each event.\<close>

fun typed_keys :: "engine_config \<Rightarrow> surroundings \<Rightarrow> deciders \<Rightarrow> (world \<times> world \<times> key_event) list \<Rightarrow> engine \<Rightarrow> engine" where
  "typed_keys cf su de [] s = s"
| "typed_keys cf su de ((down, up, e) # rest) s =
     typed_keys cf su de rest
       (handle cf su up (commit_word cf su de up) (e\<lparr>ev_pressed := False\<rparr>) (handle cf su down (commit_word cf su de down) e s))"

definition letter_key :: "surroundings \<Rightarrow> int \<Rightarrow> world \<times> world \<times> key_event \<Rightarrow> bool" where
  "letter_key su grp k \<longleftrightarrow>
     (case k of (down, up, e) \<Rightarrow>
        calm su down \<and> calm su up \<and> text_key su down grp e \<and> ev_pressed e \<and> isalpha (ev_character e) \<and> is_layout_letter e)"

lemma press_traced: "ev_pressed e \<Longrightarrow> input_trace (handle cf su w (commit_word cf su de w) e s) = input_trace s"
  using word_end.handled_call [of e s cf su w cf su de w] by (simp add: call_when_up_def keys_up_def)

lemma release_traced:
  assumes "typing {ev_keycode e} strokes grp s" "calm su w" "\<not> ev_pressed e" "\<not> ev_foreign e"
    "ev_key_name e \<notin> set MODIFIER_KEYS \<union> {asc ''Pointer''}"
  shows "input_trace (handle cf su w commit e s) = input_trace s"
  using assms typing_before [OF assms(1,2)]
  by (auto simp: handle_def handle_key_def maybe_execute_pending_def note_release_def typing_def Let_def)

lemma word_typed:
  assumes "typing {} strokes grp s" "list_all (letter_key su grp) ks" "length strokes + length ks \<le> MAX_WORD_STROKES"
    and setting: "\<not> flag (su_get su) ''detection.early_switch'' True" "grp \<noteq> -1"
  shows "typing {} (strokes @ map (snd \<circ> snd) ks) grp (typed_keys cf su de ks s)
    \<and> input_trace (typed_keys cf su de ks s) = input_trace s"
  using assms(1-3)
proof (induction ks arbitrary: strokes s)
  case (Cons k ks)
  obtain down up e where k: "k = (down, up, e)" by (metis prod_cases3)
  let ?e = "e\<lparr>ev_pressed := False\<rparr>"
  let ?d = "handle cf su down (commit_word cf su de down) e s"
  let ?u = "handle cf su up (commit_word cf su de up) ?e ?d"
  have key: "calm su down" "calm su up" "text_key su down grp e" "ev_pressed e" "isalpha (ev_character e)" "is_layout_letter e"
    using Cons.prems(2) by (simp_all add: letter_key_def k)
  have down: "typing {ev_keycode ?e} (strokes @ [e]) grp ?d"
    using letter_typed [OF Cons.prems(1) key(3,1,4-6) _ setting] Cons.prems(3) by simp
  have e: "\<not> ev_foreign ?e" "ev_key_name ?e \<notin> set MODIFIER_KEYS \<union> {asc ''Pointer''}" "\<not> ev_pressed ?e"
    using key(3) by (auto simp: text_key_def)
  have "typing {} (strokes @ [e]) grp ?u" "input_trace ?u = input_trace s"
    using letter_released [OF down key(2) e(3,1,2)] release_traced [OF down key(2) e(3,1,2)] press_traced [OF key(4)] by simp_all
  then show ?case using Cons.IH [of "strokes @ [e]" ?u] Cons.prems(2,3) by (simp add: k)
qed simp

text \<open>C1: A word from its first key to the screen: when a word of letters is typed key by key from an idle engine and a space ends it,
  and the detector alone decides to convert it, then nothing reaches the backend while any key is down, and when the space
  comes up the engine has the X server replace exactly the word: the text before it and the space stay, the word stands as the
  same keys type it in the target layout, which is the layout of the keyboard then, as the engine knows.\<close>

theorem typed_word_replaced:
  assumes idle: "typing {} [] grp s" and keys: "ks \<noteq> []" "list_all (letter_key su grp) ks" "length ks < MAX_WORD_STROKES"
    and space: "text_key su w grp b" "calm su w" "ev_pressed b" "ev_character b = [0x20]" "\<not> is_layout_letter b"
    and settings: "enabled su" "\<not> flag (su_get su) ''detection.early_switch'' True" "boundary_enabled (su_get su) b" "grp \<noteq> -1"
      "\<not> cf_excluded cf (wo_application w)" "cf_erasing cf"
    and strokes: "strokes = map (snd \<circ> snd) ks" and d: "d = jd_decision j"
    and judged: "detector_alone cf su de strokes grp b j" "dc_source d = grp" "dc_original d = text_for_group strokes grp"
      "dc_replacement d = text_for_group strokes (dc_target d)"
    and backend: "calm su w2" "\<not> wo_overflow w2" "\<not> wo_gap w2" "wo_hold w2 = None" "wo_release w2 = Inr 0"
      "wo_inject w2 = x11_inject srv n accepts t ex message"
    and call: "plan_call (cf_models cf) True (word_plan w strokes b d) [] = Some call"
      "snd (snd (run_call srv n accepts t call ex)) = Inr 0"
    and screen: "reported_plan m n srv (word_plan w strokes b d)" "sc_text screen0 = before @ text_for_group strokes grp @ [0x20]"
      "\<not> sc_shift screen0"
    and s1: "s1 = handle cf su w (commit_word cf su de w) b (typed_keys cf su de ks s)"
    and s2: "s2 = handle cf su w2 (commit_word cf su de w2) (b\<lparr>ev_pressed := False\<rparr>) s1"
  shows "input_trace s1 = input_trace s
    \<and> input_trace s2 = input_trace s @ [Input_Held, Correction_Injected call, Input_Released]
    \<and> screen_run m srv (the (xs_locked_mods srv) AND LOCK_MASK \<noteq> 0) (x11_performed srv n accepts t ex call) screen0
        = screen0\<lparr>sc_group := dc_target d, sc_text := before @ text_for_group strokes (dc_target d) @ [0x20]\<rparr>
    \<and> en_group s2 = dc_target d \<and> en_strokes s2 = []"
proof -
  let ?p = "word_plan w strokes b d"
  have word: "typing {} strokes grp (typed_keys cf su de ks s)" "input_trace (typed_keys cf su de ks s) = input_trace s"
    "strokes \<noteq> []" "length strokes < MAX_WORD_STROKES"
    using word_typed [OF idle keys(2) _ settings(2,4), of cf de] keys(1,3) by (simp_all add: strokes)
  have p: "cp_mode ?p = Mode_Boundary" "cp_automatic ?p" "cp_boundary ?p = Some b" "cp_trailing ?p = []" "cp_strokes ?p = strokes"
    "cp_head ?p = []" "cp_kept_tail ?p = 0" "cp_original ?p = text_for_group strokes grp" "cp_target ?p = dc_target d"
    "cp_replacement ?p = text_for_group strokes (dc_target d)" "cp_context_field ?p = []" "cp_source ?p = grp"
    "cp_replaced_strokes ?p = []" "cp_replaced ?p = []"
    using judged(2-4) by (simp_all add: word_plan_def plain_plan_def)
  have waits: "plan_waits {ev_keycode b} b ?p s1"
    unfolding s1 d by (rule space_typed [OF word(1,3,4) space judged(1) settings(1,3,5)])
  have t1: "input_trace s1 = input_trace s" using press_traced [OF space(3)] word(2) by (simp add: s1)
  have b: "ev_keycode (b\<lparr>ev_pressed := False\<rparr>) = ev_keycode b" "\<not> ev_pressed (b\<lparr>ev_pressed := False\<rparr>)"
    "\<not> ev_foreign (b\<lparr>ev_pressed := False\<rparr>)" "ev_key_name (b\<lparr>ev_pressed := False\<rparr>) \<notin> set MODIFIER_KEYS \<union> {asc ''Pointer''}"
    using space(1) by (auto simp: text_key_def)
  have calm: "\<not> su_overflow su" "\<not> su_gap su" "wo_focus w2 = None" using backend(1) by (simp_all add: calm_def)
  obtain r u where run: "s2 = snd (execute_correction cf w2 (?p\<lparr>cp_revisit := r\<rparr>) None u)" "en_queue u = []" "en_strokes u = []"
    "input_trace u = input_trace s"
    using space_released [OF waits calm(1,2) b p(1,2), of cf w2 "commit_word cf su de w2"] t1 by (auto simp: s2)
  have same: "plan_call (cf_models cf) (cf_erasing cf) (?p\<lparr>cp_revisit := r\<rparr>) [] = Some call"
    using call(1) settings(6) p by (simp add: plan_call_def)
  have safe: "list_all safe_text_stroke (cp_strokes ?p @ cp_trailing ?p)"
    using screen(1) p(4) by (auto simp: reported_plan_def list_all_iff)
  have injected: "wo_inject w2 call = Inr 0" using call(2) by (simp add: backend(6) x11_inject_def)
  obtain s3 where executed: "execute_correction cf w2 (?p\<lparr>cp_revisit := r\<rparr>) None u = (True, s3)"
    using correction_executed [OF calm(3) backend(2-5) _ _ _ run(2,3) same injected, of None] safe p by auto
  have held: "\<forall>c k. wo_inject w2 c = Inr k \<longrightarrow> k = 0"
    by (auto simp: backend(6) x11_inject_def dest: run_call_held split: sum.splits)
  have after: "input_trace s3 = input_trace s @ [Input_Held, Correction_Injected call, Input_Released]" "en_group s3 = dc_target d"
    "en_strokes s3 = []"
    using executed_word [OF executed _ _ _ _ run(2,3) backend(5) held] same p run(4) by auto
  have ok: "plan_ok ?p" using p word(3) by (simp add: plan_ok_def keys_on_screen_def)
  have performed: "run_call srv n accepts t call ex
      = (fst (run_call srv n accepts t call ex), x11_performed srv n accepts t ex call, Inr 0)"
    using call(2) by (simp add: x11_performed_def prod_eq_iff)
  have literal: "literal_text ?p = [0x20]"
    using p space by (simp add: literal_text_def literal_keys_def text_key_def)
  have "screen_run m srv (the (xs_locked_mods srv) AND LOCK_MASK \<noteq> 0) (x11_performed srv n accepts t ex call) screen0
      = screen0\<lparr>sc_group := dc_target d, sc_text := before @ text_for_group strokes (dc_target d) @ [0x20]\<rparr>"
    using plan_typed [OF ok screen(1) call(1) performed, of screen0 before] screen(2,3) p literal by simp
  then show ?thesis using t1 after run(1) executed by simp
qed

definition quiet_surroundings :: surroundings where
  "quiet_surroundings = small_surroundings\<lparr>su_get := (\<lambda>path fallback.
     if path = asc ''detection.early_switch'' then JBool False else fallback)\<rparr>"

lemma small_typing: "typing {} [] 0 small_engine"
  by (simp add: typing_def small_engine_def)

lemma small_calm: "calm quiet_surroundings (small_world srv)"
  by (simp add: calm_def quiet_surroundings_def small_surroundings_def small_world_def reads_field_def)

lemma empty_hotkey: "hk_key (parse_hotkey []) = []"
  by code_simp

lemma no_hotkey: "\<not> matches_hotkey (su_get quiet_surroundings) (su_repr quiet_surroundings) name e"
  by (simp add: matches_hotkey_def hotkey_matches_def quiet_surroundings_def small_surroundings_def asc_def json_text_def empty_hotkey)

lemma small_safe: "safe_text_stroke key_f" "safe_text_stroke key_space"
  by (simp_all add: safe_text_stroke_def key_f_def key_space_def category_of_def isalpha_ch_def letter_class_def isspace_ch_def
      BASIC_MULTILINGUAL_PLANE_MAX_CODEPOINT_def)

lemma small_text_key: "e = key_f \<or> e = key_space \<Longrightarrow> text_key quiet_surroundings (small_world srv) 0 e"
proof -
  have hot: "\<not> engine_hotkey quiet_surroundings (small_world srv) e" for e
    by (simp add: engine_hotkey_def no_hotkey small_world_def selection_hotkey_def find_None_iff)
  have "ev_key_name e \<notin> set MODIFIER_KEYS \<union> set ACTION_BOUNDARY_KEYS \<union> {asc ''Pointer'', asc ''BackSpace''}"
    "\<not> joining_sign e" "\<not> shortcut e" "ev_group e = 0" "\<not> ev_foreign e" "\<not> ev_deferred e" if "e = key_f \<or> e = key_space" for e
    using that by (auto simp: key_f_def key_space_def MODIFIER_KEYS_def ACTION_BOUNDARY_KEYS_def asc_def joining_sign_def
        WORD_JOINERS_def shortcut_def ev_control_def ev_alt_def ev_super_key_def
        ALT_MASK_def CONTROL_MASK_def SUPER_MASK_def)
  then show "e = key_f \<or> e = key_space \<Longrightarrow> text_key quiet_surroundings (small_world srv) 0 e"
    using hot small_safe by (auto simp: text_key_def)
qed

lemma small_letter: "letter_key quiet_surroundings 0 (small_world srv, small_world srv, key_f)"
  using small_text_key [of key_f] small_calm letters_of_keymap(2)
  by (simp add: letter_key_def) (simp add: key_f_def is_layout_letter_def letters_of_keymap)

definition small_judgement :: judgement where
  "small_judgement = \<lparr>jd_decision = small_decision [0x46] [(1, [0x410])] 0, jd_result = None, jd_baseline = None,
     jd_asked = []\<rparr>"

lemma small_chars: "character_for key_f 0 = [0x46]" "character_for key_f 1 = [0x410]"
  by (simp_all add: character_for_def key_f_def)

lemma small_texts: "text_for_group [key_f] 0 = [0x46]" "text_for_group [key_f] 1 = [0x410]"
  by (simp_all add: text_for_group_def character_for_def key_f_def)

lemma small_judged: "detector_alone small_config quiet_surroundings small_deciders [key_f] 0 key_space small_judgement"
  by (simp add: detector_alone_def quiet_surroundings_def small_surroundings_def small_deciders_def small_judgement_def
      de_model_def no_models_def digit_dot_question_def isdigit_ch_def
      replayed_signs_def replayed_sign_def readings_def small_texts small_config_def other_group_def small_decision_def Let_def
      letters_of_keymap) (simp add: key_f_def character_for_def letters_of_keymap)

lemma small_word_plan: "word_plan (small_world srv) [key_f] key_space (jd_decision small_judgement) = small_plan"
  by (simp add: word_plan_def small_judgement_def small_decision_def small_plan_def small_world_def)

theorem typed_word_replaced_witness:
  "\<exists>s1 s2 call performed.
     s1 = handle small_config quiet_surroundings (small_world small_server)
            (commit_word small_config quiet_surroundings small_deciders (small_world small_server)) key_space
            (typed_keys small_config quiet_surroundings small_deciders [(small_world small_server, small_world small_server, key_f)]
              small_engine)
     \<and> s2 = handle small_config quiet_surroundings (small_world small_server)
            (commit_word small_config quiet_surroundings small_deciders (small_world small_server)) (key_space\<lparr>ev_pressed := False\<rparr>) s1
     \<and> input_trace s1 = [] \<and> input_trace s2 = [Input_Held, Correction_Injected call, Input_Released] \<and> en_group s2 = 1
     \<and> sc_text (screen_run small_keymap small_server False performed \<lparr>sc_group = 0, sc_shift = False, sc_text = [0x46, 0x20]\<rparr>)
         = [0x410, 0x20]"
proof -
  let ?w = "small_world small_server" and ?ex = "\<lparr>ex_steps = [], ex_deadline = 0\<rparr>" and ?d = "jd_decision small_judgement"
  let ?call = "\<lparr>ia_strokes = [key_f], ia_target = 1, ia_boundary = Some key_space, ia_source = 0, ia_late = [], ia_trailing = [],
      ia_kept_tail = 0, ia_erased = None\<rparr>"
  let ?screen = "\<lparr>sc_group = 0, sc_shift = False, sc_text = [0x46, 0x20]\<rparr>"
  let ?commit = "commit_word small_config quiet_surroundings small_deciders ?w"
  let ?s1 = "handle small_config quiet_surroundings ?w ?commit key_space
      (typed_keys small_config quiet_surroundings small_deciders [(?w, ?w, key_f)] small_engine)"
  let ?s2 = "handle small_config quiet_surroundings ?w ?commit (key_space\<lparr>ev_pressed := False\<rparr>) ?s1"
  have keys: "[(?w, ?w, key_f)] \<noteq> []" "list_all (letter_key quiet_surroundings 0) [(?w, ?w, key_f)]"
    "length [(?w, ?w, key_f)] < MAX_WORD_STROKES" "[key_f] = map (snd \<circ> snd) [(?w, ?w, key_f)]"
    using small_letter by (simp_all add: MAX_WORD_STROKES_def)
  have space: "ev_pressed key_space" "ev_character key_space = [0x20]" "\<not> is_layout_letter key_space"
    by (simp_all add: key_space_def is_layout_letter_def letters_of_keymap)
  have settings: "enabled quiet_surroundings" "\<not> flag (su_get quiet_surroundings) ''detection.early_switch'' True"
    "boundary_enabled (su_get quiet_surroundings) key_space" "(0::int) \<noteq> -1" "\<not> cf_excluded small_config (wo_application ?w)"
    "cf_erasing small_config"
    by (simp_all add: enabled_def flag_def quiet_surroundings_def small_surroundings_def boundary_enabled_def small_config_def asc_def)
  have decision: "dc_source ?d = 0" "dc_original ?d = text_for_group [key_f] 0" "dc_replacement ?d = text_for_group [key_f] (dc_target ?d)"
    "dc_target ?d = 1"
    by (simp_all add: small_judgement_def small_decision_def small_texts small_chars)
  have world: "\<not> wo_overflow ?w" "\<not> wo_gap ?w" "wo_hold ?w = None" "wo_release ?w = Inr 0"
    "wo_inject ?w = x11_inject small_server 2 (\<lambda>_ _. True) 0 ?ex (\<lambda>_. [])"
    by (simp_all add: small_world_def)
  have call: "plan_call (cf_models small_config) True (word_plan ?w [key_f] key_space ?d) [] = Some ?call"
    by (simp add: small_word_plan plan_call_def small_plan_def plain_plan_def)
  obtain ex' performed where "run_call small_server 2 (\<lambda>_ _. True) 0 ?call ?ex = (ex', performed, Inr 0)"
    using small_call [of small_server 1 0] by auto
  then have accepted: "snd (snd (run_call small_server 2 (\<lambda>_ _. True) 0 ?call ?ex)) = Inr 0" by simp
  have screen: "reported_plan small_keymap 2 small_server (word_plan ?w [key_f] key_space ?d)"
    "sc_text ?screen = [] @ text_for_group [key_f] 0 @ [0x20]" "\<not> sc_shift ?screen"
    using small_plan_reported by (simp_all add: small_word_plan small_texts small_chars)
  note replaced = typed_word_replaced [OF small_typing keys(1-3) small_text_key small_calm space settings keys(4) refl small_judged
      decision(1-3) small_calm world call accepted screen refl refl]
  have lock: "(the (xs_locked_mods small_server) AND LOCK_MASK \<noteq> 0) = False" by (simp add: small_server_def masks)
  have start: "input_trace small_engine = []" by (simp add: input_trace_def small_engine_def)
  show ?thesis
    using replaced unfolding lock start decision(4) small_texts
    by (intro exI [of _ ?s1] exI [of _ ?s2] exI [of _ ?call] exI [of _ "x11_performed small_server 2 (\<lambda>_ _. True) 0 ?ex ?call"])
      (simp add: small_chars)
qed

end
