(* ===== verification/Spec2Isabelle.thy ===== *)
theory Spec2Isabelle
  imports Selection_Text Learning Personal_Words History Input_Delay Log_Privacy Packed_Grams Config Word_Decision
    Early_Switch Typo_Correction Conventions X11_Injection Input_Context Engine_Keys Corrections
    Update_Manager Engine_State Field_Check Execution Word_Typing Key_Handling Word_Parts Typed_Word
begin

text \<open>
  KeySwitch watches the keyboard, notices words typed in the wrong layout (English or Russian) and types them again in the
  right one. The theories follow the modules of \<open>src/keyswitch\<close>; each opens with what it holds, and every definition
  carries the name of what it models, in snake case where the source has a method.

  Foundations.
  \<^item> \<open>Prelude\<close>: Python's exceptions, slices, ordered dictionaries (association lists in insertion order), bounded stores,
    binary search, and the locale facts the components share.
  \<^item> \<open>Py_Text\<close>: Python text as lists of code points, with the character classes and case mappings written out for Basic
    Latin, Latin-1 and Cyrillic, and \<open>int\<close>, \<open>utf-8\<close>, \<open>split\<close>, \<open>strip\<close>. \<open>Json\<close>: the values of \<open>json.loads\<close>.

  What the user types and sees.
  \<^item> \<open>Key_Event\<close> (\<open>backend.py\<close>), \<open>Layouts\<close> (\<open>layouts.py\<close>), \<open>Conventions\<close> (\<open>app_quirks.py\<close>, \<open>russian_text.py\<close>).
  \<^item> \<open>Input_Context\<close> (\<open>input_context.py\<close>): the observed text, proved to be the end of what stands before the caret.
  \<^item> \<open>X11_Injection\<close> (\<open>x11_backend.py\<close>): the events of the X server and the keys of a correction, proved to replace the
    word on screen and to be told from the user's own keys.
  \<^item> \<open>Selection_Text\<close> (\<open>selection_text.py\<close>): what the selection hotkeys make of a text, with round trips.

  How a word is decided.
  \<^item> \<open>Language_Model\<close>, \<open>Detector\<close>, \<open>Short_Words\<close>, \<open>Word_Decision\<close>: the scores of a word and the decision at its boundary; a
    conversion is proved to come from a rule or to respect every guard.
  \<^item> \<open>Context_Policy\<close> (\<open>context_policy.py\<close>, \<open>context_action_features.py\<close>): what becomes of the context model's answer, with the
    curated exceptions, the licence of the keys and the veto of the spelling, and what a conversion it returns rests on.
    \<open>Word_Judgement\<close> (\<open>engine.py\<close>, \<open>_decide_word\<close>): the detector, the rules of the user and the policy about one word, the word an
    early switch left, the part after a joining sign, the letters typed inside a word.
  \<^item> \<open>Early_Switch\<close>: the decision inside a word. \<open>Typo_Correction\<close>, \<open>Packed_Grams\<close>, \<open>Identifier_Lexicon\<close>: the word lists and
    the correction of one slip.
  \<^item> \<open>Engine_Keys\<close> (\<open>engine.py\<close>): how the engine classifies a key, its hotkeys, its boundaries and its bounded settings.
  \<^item> \<open>Corrections\<close> (\<open>engine.py\<close>): the plans of a correction and of its undo, with what the backend is asked for them,
    proved over the X server to put the field back; the chain of corrections behind the rule offer of a double press.
  \<^item> \<open>Field_Check\<close> (\<open>context_policy.py\<close>, \<open>engine.py\<close>): how the text a field shows is compared with what was typed.
  \<^item> \<open>Engine_State\<close>, \<open>Execution\<close> (\<open>engine.py\<close>): the state of the engine, with every effect it asks for in order, and how a
    correction is carried out, undone and offered as a rule. The input is proved to be held around the call and no key typed
    meanwhile to be lost; the undo hotkey is followed from the keyboard to the text of the X server. \<open>world\<close> holds what
    the backend, the focused window and the clock answer in one step.
  \<^item> \<open>Word_Typing\<close>, \<open>Key_Handling\<close> (\<open>engine.py\<close>, \<open>_handle\<close>): the reading of a word key by key, each branch of the key
    handler in its order. \<open>Word_Parts\<close>, \<open>Word_Commit\<close> (\<open>_commit_word\<close>): what is decided at the end of a word, with its
    neighbours, and the plan that is scheduled. What the trained models answer are fields of \<open>surroundings\<close> and
    \<open>deciders\<close>; when they are asked, and what is made of the answer, is the code's.
  \<^item> \<open>Commit_Safety\<close>: for every answer of the models, what the end of a word may schedule. \<open>Key_Session\<close>: for every event, when
    the backend is reached. \<open>Typed_Word\<close>: a word followed from its first key to the text of the X server.

  What is kept between sessions.
  \<^item> \<open>Config\<close> (the settings file), \<open>Learning\<close> (the switching rules), \<open>Personal_Words\<close>, \<open>History\<close>: the stores, each with its
    invariant over every sequence of operations, its file and its failures.
  \<^item> \<open>Input_Delay\<close>, \<open>Log_Privacy\<close>: the counters of the keyboard hook and the masking of typed text in the log.

  Updates.
  \<^item> \<open>Updates\<close> (\<open>updates.py\<close>): versions, the release the server answers with, the download and the launch of its installer;
    a download is proved to return whatever the server sends, and to leave the announced bytes or the old file.
  \<^item> \<open>Update_Manager\<close>: the threads of the updates as interleaved steps under one lock, with what may be handed over to the
    installer and how many threads work at a time.

  Conventions. Doubles are reals, except where an infinity or NaN can reach the code and is a value of its own. A raise is
  a value of a sum type. \<open>time.monotonic\<close> is an argument. A file is what a load finds there, and whether a save succeeds is
  an argument. Locks make a method an atomic step. Parameters stand for code outside the repository: the Hunspell
  dictionaries, SHA-256, the JSON printer and parser, the X server with its keyboard map; and for the trained classifiers,
  whose outputs are arguments of the decisions that read them. Recursions are structural or carry a measure, and the
  one loop that depends on the server is a partial function proved to return, so nothing is bounded by fuel.

  Not modelled: the windows and trays, the bindings to Windows, macOS and Wayland, the accessibility readers, the linear
  models over hashed features, the tools that train, evaluate and release, and the log courier, which is another program.
  Of the engine, the correction made at a pause of the typing and the selection hotkeys, which keep a state of their own,
  are left out, and so are its threads: a step of the model is the handling of one event.
\<close>

end
